(* ===== verification/Prelude.thy ===== *)
theory Prelude
  imports Main "HOL-Library.Word" "HOL-Library.Multiset"
begin

text \<open>
  Shared vocabulary of the development: machine-integer type names, the result type of
  fallible Rust code (an error value or a panic), big-endian byte encodings, decimal
  printing and parsing of unsigned integers, and the list lemmas several components use.

  Rust integers are words of their width. Arithmetic on them wraps, as it does in the release
  profile the mobile libraries are built with (\<^verbatim>\<open>rust/trezor-bridge/scripts\<close>);
  \<^verbatim>\<open>usize\<close> values that are lengths or weights of in-memory data are \<open>nat\<close>.
  Strings are lists of characters, the bytes of their UTF-8 encoding.
\<close>

unbundle bit_operations_syntax

type_synonym u8 = "8 word"
type_synonym u16 = "16 word"
type_synonym u32 = "32 word"
type_synonym u64 = "64 word"
type_synonym bytes = "8 word list"

named_theorems res_simps \<open>evaluation of the result monad\<close>
named_theorems be_simps \<open>big-endian encodings\<close>
named_theorems parse_simps \<open>decimal parsing and printing\<close>

section \<open>Results of fallible code\<close>

text \<open>
  A Rust function that returns \<^verbatim>\<open>Result<T, E>\<close> and may also panic (an out-of-range
  slice, for instance) is modelled by a sum: \<open>Inl (Err e)\<close>, \<open>Inl Panic\<close> or \<open>Inr v\<close>.
\<close>

datatype 'e fault = Err 'e | Panic

fun bind_res :: "'f + 'a \<Rightarrow> ('a \<Rightarrow> 'f + 'b) \<Rightarrow> 'f + 'b" where
  "bind_res (Inl e) k = Inl e"
| "bind_res (Inr v) k = k v"

fun map_res :: "('a \<Rightarrow> 'b) \<Rightarrow> 'f + 'a \<Rightarrow> 'f + 'b" where
  "map_res g (Inl e) = Inl e"
| "map_res g (Inr v) = Inr (g v)"

text \<open>\<^verbatim>\<open>iter().map(f).collect::<Result<Vec<_>>>()\<close>: stops at the first error.\<close>

fun traverse_res :: "('a \<Rightarrow> 'f + 'b) \<Rightarrow> 'a list \<Rightarrow> 'f + 'b list" where
  "traverse_res g [] = Inr []"
| "traverse_res g (x # xs) =
     bind_res (g x) (\<lambda>y. bind_res (traverse_res g xs) (\<lambda>ys. Inr (y # ys)))"

lemma bind_res_Inr [res_simps]:
  "bind_res m k = Inr b \<longleftrightarrow> (\<exists>a. m = Inr a \<and> k a = Inr b)"
  by (cases m) auto

lemma bind_res_Inl [res_simps]:
  "bind_res m k = Inl e \<longleftrightarrow> m = Inl e \<or> (\<exists>a. m = Inr a \<and> k a = Inl e)"
  by (cases m) auto

lemma map_res_Inr [res_simps]: "map_res g m = Inr b \<longleftrightarrow> (\<exists>a. m = Inr a \<and> b = g a)"
  by (cases m) auto

lemma traverse_res_length: "traverse_res g xs = Inr ys \<Longrightarrow> length ys = length xs"
  by (induction xs arbitrary: ys) (auto simp: res_simps)

lemma traverse_res_map: "(\<And>x. x \<in> set xs \<Longrightarrow> g x = Inr (h x)) \<Longrightarrow> traverse_res g xs = Inr (map h xs)"
  by (induction xs) auto

section \<open>Lists\<close>

text \<open>\<^verbatim>\<open>xs.get(i).copied().unwrap_or(d)\<close>\<close>

definition get_or :: "'a list \<Rightarrow> nat \<Rightarrow> 'a \<Rightarrow> 'a" where
  "get_or xs i d = (if i < length xs then xs ! i else d)"

text \<open>\<^verbatim>\<open>xs.get(i)\<close>\<close>

definition get :: "'a list \<Rightarrow> nat \<Rightarrow> 'a option" where
  "get xs i = (if i < length xs then Some (xs ! i) else None)"

text \<open>\<^verbatim>\<open>Vec::resize(n, 0)\<close> on a vector that is not longer than \<open>n\<close>.\<close>

definition pad_to :: "nat \<Rightarrow> bytes \<Rightarrow> bytes" where
  "pad_to n xs = xs @ replicate (n - length xs) 0"

lemma length_pad_to [simp]: "length (pad_to n xs) = max n (length xs)"
  by (simp add: pad_to_def)

text \<open>\<^verbatim>\<open>usize\<close> arithmetic where it may wrap.\<close>

definition usize_sub :: "nat \<Rightarrow> nat \<Rightarrow> nat" where
  "usize_sub a b = (a + 2 ^ 64 - b) mod 2 ^ 64"

definition usize_add :: "nat \<Rightarrow> nat \<Rightarrow> nat" where
  "usize_add a b = (a + b) mod 2 ^ 64"

lemma usize_sub_exact: "b \<le> a \<Longrightarrow> a < 2 ^ 64 \<Longrightarrow> usize_sub a b = a - b"
proof -
  assume "b \<le> a" "a < 2 ^ 64"
  then have "(a + 2 ^ 64 - b) = (a - b) + 2 ^ 64" "a - b < 2 ^ 64" by simp_all
  then show ?thesis by (simp only: usize_sub_def mod_add_self2 mod_less)
qed

lemma usize_add_exact: "a + b < 2 ^ 64 \<Longrightarrow> usize_add a b = a + b"
  by (simp add: usize_add_def)

lemma sum_list_mset_eq:
  fixes f :: "'a \<Rightarrow> 'b :: comm_monoid_add"
  shows "mset xs = mset ys \<Longrightarrow> sum_list (map f xs) = sum_list (map f ys)"
  by (metis mset_map sum_mset_sum_list)

lemma subset_mset_add: "M \<subseteq># N \<Longrightarrow> M \<subseteq># add_mset a N"
  using subset_mset.order_trans [of M N "add_mset a N"] by simp

lemma subset_mset_skip: "add_mset a M \<subseteq># N \<Longrightarrow> M \<subseteq># N"
  using subset_mset.order_trans [of M "add_mset a M" N] by simp

lemma subset_mset_left: "M + K \<subseteq># N \<Longrightarrow> M \<subseteq># N"
  using subset_mset.order_trans [of M "M + K" N] by simp

lemma subset_mset_distinct:
  assumes "mset xs \<subseteq># mset ys" "distinct ys"
  shows "distinct xs"
proof -
  obtain zs where "mset ys = mset (xs @ zs)"
    using assms(1) ex_mset by (metis mset_append subset_mset.le_iff_add)
  with assms(2) have "distinct (xs @ zs)" by (metis mset_eq_imp_distinct_iff)
  then show ?thesis by simp
qed

section \<open>Big-endian bytes\<close>

definition be16 :: "u16 \<Rightarrow> bytes" where
  "be16 w = [ucast (drop_bit 8 w), ucast w]"

definition from_be16 :: "u8 \<Rightarrow> u8 \<Rightarrow> u16" where
  "from_be16 a b = push_bit 8 (ucast a) OR ucast b"

definition be32 :: "u32 \<Rightarrow> bytes" where
  "be32 w = [ucast (drop_bit 24 w), ucast (drop_bit 16 w), ucast (drop_bit 8 w), ucast w]"

definition from_be32 :: "u8 \<Rightarrow> u8 \<Rightarrow> u8 \<Rightarrow> u8 \<Rightarrow> u32" where
  "from_be32 a b c d =
     push_bit 24 (ucast a) OR push_bit 16 (ucast b) OR push_bit 8 (ucast c) OR ucast d"

lemma length_be16 [simp]: "length (be16 w) = 2"
  by (simp add: be16_def)

lemma length_be32 [simp]: "length (be32 w) = 4"
  by (simp add: be32_def)

lemma from_be16_be16 [be_simps]: "from_be16 (ucast (drop_bit 8 w)) (ucast w) = w"
  by (rule bit_word_eqI) (auto simp: from_be16_def bit_simps)

lemma from_be32_be32 [be_simps]:
  "from_be32 (ucast (drop_bit 24 w)) (ucast (drop_bit 16 w)) (ucast (drop_bit 8 w)) (ucast w) = w"
proof (rule bit_word_eqI)
  fix n assume n: "n < LENGTH(32)"
  consider "n < 8" | "8 \<le> n \<and> n < 16" | "16 \<le> n \<and> n < 24" | "24 \<le> n" by linarith
  then show "bit (from_be32 (ucast (drop_bit 24 w)) (ucast (drop_bit 16 w))
      (ucast (drop_bit 8 w)) (ucast w)) n = bit w n"
    using n by cases (auto simp: from_be32_def bit_simps)
qed

definition read_be16 :: "bytes \<Rightarrow> u16" where
  "read_be16 bs = from_be16 (bs ! 0) (bs ! 1)"

definition read_be32 :: "bytes \<Rightarrow> u32" where
  "read_be32 bs = from_be32 (bs ! 0) (bs ! 1) (bs ! 2) (bs ! 3)"

lemma read_be16_be16 [simp]: "read_be16 (be16 w) = w"
  by (simp add: read_be16_def be16_def from_be16_be16)

lemma read_be32_be32 [simp]: "read_be32 (be32 w) = w"
  by (simp add: read_be32_def be32_def from_be32_be32 numeral_2_eq_2 numeral_3_eq_3)

lemma be16_inj: "be16 v = be16 w \<Longrightarrow> v = w"
  by (metis read_be16_be16)

lemma be32_inj: "be32 v = be32 w \<Longrightarrow> v = w"
  by (metis read_be32_be32)

lemma unat_of_nat_u16 [simp]: "n < 65536 \<Longrightarrow> unat (of_nat n :: u16) = n"
  by (simp add: unat_of_nat take_bit_eq_mod)

lemma unat_of_nat_u32 [simp]: "n < 4294967296 \<Longrightarrow> unat (of_nat n :: u32) = n"
  by (simp add: unat_of_nat take_bit_eq_mod)

lemma unat_of_nat_u64 [simp]: "n < 18446744073709551616 \<Longrightarrow> unat (of_nat n :: u64) = n"
  by (simp add: unat_of_nat take_bit_eq_mod)

lemma unat_u8_less: "unat w < 256" for w :: u8
  using unsigned_less [of w] by simp

lemma unat_u16_less: "unat w < 65536" for w :: u16
  using unsigned_less [of w] by simp

lemma unat_u32_less: "unat w < 4294967296" for w :: u32
  using unsigned_less [of w] by simp

lemma unat_u64_less: "unat w < 18446744073709551616" for w :: u64
  using unsigned_less [of w] by simp

section \<open>Strings as bytes\<close>

text \<open>\<^verbatim>\<open>str::as_bytes\<close>\<close>

definition as_bytes :: "string \<Rightarrow> bytes" where
  "as_bytes s = map (\<lambda>c. of_nat (of_char c)) s"

definition from_bytes :: "bytes \<Rightarrow> string" where
  "from_bytes bs = map (\<lambda>b. char_of (unat b)) bs"

lemma from_bytes_as_bytes [simp]: "from_bytes (as_bytes s) = s"
proof (induction s)
  case (Cons c s)
  have "of_char c < (256 :: nat)" by (simp add: of_char_def)
  then have "unat (of_nat (of_char c) :: u8) = of_char c" by (simp add: unat_of_nat)
  then show ?case using Cons by (simp add: as_bytes_def from_bytes_def)
qed (simp add: as_bytes_def from_bytes_def)

lemma as_bytes_from_bytes [simp]: "as_bytes (from_bytes bs) = bs"
proof -
  have "of_char (char_of (unat b) :: char) = unat b" for b :: u8
    using unat_u8_less [of b] by simp
  then show ?thesis by (simp add: as_bytes_def from_bytes_def comp_def)
qed

section \<open>Decimal strings\<close>

definition digit_char :: "nat \<Rightarrow> char" where
  "digit_char d = char_of (48 + d)"

definition is_ascii_digit :: "char \<Rightarrow> bool" where
  "is_ascii_digit c \<longleftrightarrow> 48 \<le> (of_char c :: nat) \<and> (of_char c :: nat) \<le> 57"

definition digit_val :: "char \<Rightarrow> nat" where
  "digit_val c = of_char c - 48"

text \<open>\<^verbatim>\<open>to_string\<close> of an unsigned integer.\<close>

fun show_nat :: "nat \<Rightarrow> string" where
  "show_nat n = (if n < 10 then [digit_char n] else show_nat (n div 10) @ [digit_char (n mod 10)])"

declare show_nat.simps [simp del]

definition digits_val :: "string \<Rightarrow> nat" where
  "digits_val s = foldl (\<lambda>a c. 10 * a + digit_val c) 0 s"

text \<open>
  \<^verbatim>\<open>str::parse\<close> for an unsigned type with maximum \<open>m\<close>: one leading \<open>+\<close> is
  accepted, at least one digit is required, nothing but digits may follow, and a value above
  the maximum is an error.
\<close>

definition strip_plus :: "string \<Rightarrow> string" where
  "strip_plus s = (case s of [] \<Rightarrow> [] | c # cs \<Rightarrow> if c = CHR ''+'' then cs else s)"

definition parse_uint :: "nat \<Rightarrow> string \<Rightarrow> nat option" where
  "parse_uint m s =
     (let ds = strip_plus s in
      if ds = [] \<or> \<not> list_all is_ascii_digit ds then None
      else if digits_val ds \<le> m then Some (digits_val ds) else None)"

definition u32_max :: nat where
  "u32_max = 4294967295"

definition u64_max :: nat where
  "u64_max = 18446744073709551615"

lemma of_char_digit_char [simp]: "d < 10 \<Longrightarrow> (of_char (digit_char d) :: nat) = 48 + d"
  by (simp add: digit_char_def)

lemma is_ascii_digit_digit_char [simp]: "d < 10 \<Longrightarrow> is_ascii_digit (digit_char d)"
  by (simp add: is_ascii_digit_def)

lemma digit_val_digit_char [simp]: "d < 10 \<Longrightarrow> digit_val (digit_char d) = d"
  by (simp add: digit_val_def)

lemma show_nat_digits [simp]: "list_all is_ascii_digit (show_nat n)"
proof (induction n rule: show_nat.induct)
  case (1 n)
  then show ?case by (cases "n < 10") (simp_all add: show_nat.simps [of n])
qed

lemma show_nat_nonempty [simp]: "show_nat n \<noteq> []"
  by (simp add: show_nat.simps [of n])

lemma digits_val_snoc: "digits_val (s @ [c]) = 10 * digits_val s + digit_val c"
  by (simp add: digits_val_def)

lemma digits_val_show_nat [simp]: "digits_val (show_nat n) = n"
proof (induction n rule: show_nat.induct)
  case (1 n)
  show ?case
  proof (cases "n < 10")
    case True
    then show ?thesis by (simp add: show_nat.simps [of n] digits_val_def)
  next
    case False
    with 1 show ?thesis by (simp add: show_nat.simps [of n] digits_val_snoc)
  qed
qed

lemma show_nat_inj: "show_nat m = show_nat n \<Longrightarrow> m = n"
  by (metis digits_val_show_nat)

lemma plus_not_digit [simp]: "\<not> is_ascii_digit (CHR ''+'')"
  by (simp add: is_ascii_digit_def)

lemma strip_plus_digits [simp]: "list_all is_ascii_digit s \<Longrightarrow> strip_plus s = s"
  by (auto simp: strip_plus_def split: list.splits)

lemma parse_uint_show_nat [parse_simps]:
  "parse_uint m (show_nat n) = (if n \<le> m then Some n else None)"
  by (simp add: parse_uint_def)

lemma parse_uint_bound: "parse_uint m s = Some n \<Longrightarrow> n \<le> m"
  by (auto simp: parse_uint_def Let_def split: if_splits)

lemma digit_char_nonzero:
  assumes "0 < d" and "d < 10"
  shows "digit_char d \<noteq> CHR ''0''"
proof
  assume "digit_char d = CHR ''0''"
  then have "(of_char (digit_char d) :: nat) = 48" by simp
  with assms show False by simp
qed

lemma hd_show_nat: "0 < n \<Longrightarrow> hd (show_nat n) \<noteq> CHR ''0''"
proof (induction n rule: show_nat.induct)
  case (1 n)
  show ?case
  proof (cases "n < 10")
    case True
    with 1 show ?thesis by (simp add: show_nat.simps [of n] digit_char_nonzero)
  next
    case False
    with 1 show ?thesis by (simp add: show_nat.simps [of n] div_greater_zero_iff)
  qed
qed

end
