(* ===== verification/F64.thy ===== *)
theory F64
  imports Complex_Main Prelude "HOL-Library.Log_Nat"
begin

text \<open>
  The part of IEEE 754 binary64 the fee arithmetic uses. A finite value is the rational number
  it denotes; every operation computes the exact rational result and rounds it to the nearest
  representable value, ties to even, with gradual underflow and overflow to infinity. The sign
  of a zero is not represented: no comparison or conversion in the modelled code observes it.
  Conversions follow Rust: \<^verbatim>\<open>u64 as f64\<close> rounds, \<^verbatim>\<open>f64 as u64\<close> truncates and
  saturates (\<^verbatim>\<open>NaN\<close> becomes 0).
\<close>

datatype f64 = Fin rat | PosInf | NegInf | NaN

section \<open>Rounding\<close>

definition rne :: "rat \<Rightarrow> int" where
  "rne x = (let f = \<lfloor>x\<rfloor>; d = x - of_int f in
     if d < 1 / 2 then f
     else if 1 / 2 < d then f + 1
     else if even f then f else f + 1)"

text \<open>The binary exponent of a positive rational, from the bit lengths of its fraction.\<close>

definition ilog2 :: "rat \<Rightarrow> int" where
  "ilog2 x = (let n = fst (quotient_of x); d = snd (quotient_of x);
       e = int (floorlog 2 (nat n)) - int (floorlog 2 (nat d)) in
     if x < 2 powi e then e - 1 else e)"

definition ulp_exp :: "rat \<Rightarrow> int" where
  "ulp_exp x = max (ilog2 x - 52) (- 1074)"

definition round_pos :: "rat \<Rightarrow> rat" where
  "round_pos x = of_int (rne (x / 2 powi (ulp_exp x))) * 2 powi (ulp_exp x)"

definition round_f64 :: "rat \<Rightarrow> f64" where
  "round_f64 x =
     (if x = 0 then Fin 0
      else let r = round_pos \<bar>x\<bar> in
        if 2 ^ 1024 \<le> r then (if 0 < x then PosInf else NegInf)
        else Fin (if 0 < x then r else - r))"

section \<open>Operations\<close>

definition f64_of_nat :: "nat \<Rightarrow> f64" where
  "f64_of_nat n = round_f64 (of_nat n)"

definition inf_of_sign :: "rat \<Rightarrow> f64" where
  "inf_of_sign a = (if 0 < a then PosInf else if a < 0 then NegInf else NaN)"

fun f64_neg :: "f64 \<Rightarrow> f64" where
  "f64_neg (Fin a) = Fin (- a)"
| "f64_neg PosInf = NegInf"
| "f64_neg NegInf = PosInf"
| "f64_neg NaN = NaN"

fun f64_mul :: "f64 \<Rightarrow> f64 \<Rightarrow> f64" where
  "f64_mul (Fin a) (Fin b) = round_f64 (a * b)"
| "f64_mul NaN y = NaN"
| "f64_mul x NaN = NaN"
| "f64_mul (Fin a) PosInf = inf_of_sign a"
| "f64_mul (Fin a) NegInf = inf_of_sign (- a)"
| "f64_mul PosInf (Fin b) = inf_of_sign b"
| "f64_mul NegInf (Fin b) = inf_of_sign (- b)"
| "f64_mul PosInf PosInf = PosInf"
| "f64_mul NegInf NegInf = PosInf"
| "f64_mul PosInf NegInf = NegInf"
| "f64_mul NegInf PosInf = NegInf"

fun f64_sub :: "f64 \<Rightarrow> f64 \<Rightarrow> f64" where
  "f64_sub (Fin a) (Fin b) = round_f64 (a - b)"
| "f64_sub NaN y = NaN"
| "f64_sub x NaN = NaN"
| "f64_sub (Fin a) y = f64_neg y"
| "f64_sub PosInf PosInf = NaN"
| "f64_sub NegInf NegInf = NaN"
| "f64_sub x y = x"

text \<open>Division by a positive finite value or by (positive) zero.\<close>

fun f64_div :: "f64 \<Rightarrow> f64 \<Rightarrow> f64" where
  "f64_div (Fin a) (Fin b) = (if b = 0 then inf_of_sign a else round_f64 (a / b))"
| "f64_div NaN y = NaN"
| "f64_div x NaN = NaN"
| "f64_div (Fin a) y = Fin 0"
| "f64_div PosInf (Fin b) = (if b < 0 then NegInf else PosInf)"
| "f64_div NegInf (Fin b) = (if b < 0 then PosInf else NegInf)"
| "f64_div x y = NaN"

fun f64_ceil :: "f64 \<Rightarrow> f64" where
  "f64_ceil (Fin a) = Fin (of_int \<lceil>a\<rceil>)"
| "f64_ceil x = x"

text \<open>\<^verbatim>\<open>as u64\<close>: truncating and saturating.\<close>

fun f64_to_u64 :: "f64 \<Rightarrow> u64" where
  "f64_to_u64 (Fin a) =
     (if a \<le> 0 then 0 else if 2 ^ 64 \<le> a then - 1 else of_int \<lfloor>a\<rfloor>)"
| "f64_to_u64 PosInf = - 1"
| "f64_to_u64 NegInf = 0"
| "f64_to_u64 NaN = 0"

fun is_finite :: "f64 \<Rightarrow> bool" where
  "is_finite (Fin a) = True"
| "is_finite x = False"

text \<open>\<^verbatim>\<open>x <= 0.0\<close>\<close>

fun f64_le_zero :: "f64 \<Rightarrow> bool" where
  "f64_le_zero (Fin a) = (a \<le> 0)"
| "f64_le_zero NegInf = True"
| "f64_le_zero x = False"

text \<open>
  The order \<^verbatim>\<open>partial_cmp\<close> induces when an incomparable pair counts as equal
  (\<^verbatim>\<open>unwrap_or(Ordering::Equal)\<close>): \<open>f64_less\<close> is the strict comparison.
\<close>

fun f64_less :: "f64 \<Rightarrow> f64 \<Rightarrow> bool" where
  "f64_less (Fin a) (Fin b) = (a < b)"
| "f64_less NaN y = False"
| "f64_less x NaN = False"
| "f64_less NegInf NegInf = False"
| "f64_less NegInf y = True"
| "f64_less x PosInf = (x \<noteq> PosInf)"
| "f64_less x y = False"

section \<open>Facts about rounding\<close>

lemma rne_int [simp]: "rne (of_int k) = k"
  by (simp add: rne_def)

lemma rne_error: "\<bar>of_int (rne x) - x\<bar> \<le> 1 / 2"
proof -
  have "of_int \<lfloor>x\<rfloor> \<le> x" "x < of_int \<lfloor>x\<rfloor> + 1" by linarith+
  then show ?thesis by (auto simp: rne_def Let_def abs_le_iff)
qed

lemma rne_le_int: "x \<le> of_int k \<Longrightarrow> rne x \<le> k"
proof -
  assume le: "x \<le> of_int k"
  show ?thesis
  proof (cases "x = of_int k")
    case False
    with le have "\<lfloor>x\<rfloor> < k" by linarith
    then show ?thesis by (auto simp: rne_def Let_def)
  qed simp
qed

lemma int_le_rne: "of_int k \<le> x \<Longrightarrow> k \<le> rne x"
  by (simp add: rne_def Let_def le_floor_iff [symmetric])

lemma rne_mono: "x \<le> y \<Longrightarrow> rne x \<le> rne y"
proof (cases "\<lfloor>x\<rfloor> = \<lfloor>y\<rfloor>")
  case True
  assume "x \<le> y"
  with True show ?thesis by (auto simp: rne_def Let_def)
next
  case False
  assume "x \<le> y"
  with False have "\<lfloor>x\<rfloor> + 1 \<le> \<lfloor>y\<rfloor>" using floor_mono [of x y] by linarith
  moreover have "rne x \<le> \<lfloor>x\<rfloor> + 1" by (auto simp: rne_def Let_def)
  moreover have "\<lfloor>y\<rfloor> \<le> rne y" by (auto simp: rne_def Let_def)
  ultimately show ?thesis by linarith
qed

lemma powi_diff_2: "(2 :: rat) powi (a - b) = 2 powi a / 2 powi b"
  by (simp add: power_int_diff)

lemma powi_mono_2: "a \<le> b \<Longrightarrow> (2 :: rat) powi a \<le> 2 powi b"
  by (rule power_int_increasing) auto

lemma powi_strict_mono_2: "a < b \<Longrightarrow> (2 :: rat) powi a < 2 powi b"
  by (rule power_int_strict_increasing) auto

lemma powi_pos_2 [simp]: "0 < (2 :: rat) powi a"
  by (rule zero_less_power_int) simp

lemma powi_nonzero_2: "(2 :: rat) powi a \<noteq> 0"
  using powi_pos_2 [of a] by linarith

lemma floorlog_rat_bounds:
  assumes "0 < n"
  shows "(2 :: rat) powi (int (floorlog 2 n) - 1) \<le> of_nat n"
    and "(of_nat n :: rat) < 2 powi (int (floorlog 2 n))"
proof -
  have b: "2 ^ (floorlog 2 n - 1) \<le> n \<and> n < 2 ^ (floorlog 2 n)"
    using floorlog_bounds [of n 2] assms by simp
  have "0 < floorlog 2 n" using b assms by (cases "floorlog 2 n") auto
  then have "(2 :: rat) powi (int (floorlog 2 n) - 1) = 2 ^ (floorlog 2 n - 1)"
    by (metis of_nat_1 of_nat_diff power_int_of_nat Suc_leI One_nat_def)
  also have "\<dots> = of_nat (2 ^ (floorlog 2 n - 1))" by simp
  also have "\<dots> \<le> of_nat n" using b of_nat_le_iff by blast
  finally show "(2 :: rat) powi (int (floorlog 2 n) - 1) \<le> of_nat n" .
  have "(of_nat n :: rat) < of_nat (2 ^ (floorlog 2 n))" using b of_nat_less_iff by blast
  then show "(of_nat n :: rat) < 2 powi (int (floorlog 2 n))" by simp
qed

lemma ilog2_bounds:
  assumes "0 < x"
  shows "2 powi (ilog2 x) \<le> x" and "x < 2 powi (ilog2 x + 1)"
proof -
  obtain n d where q: "quotient_of x = (n, d)" by (cases "quotient_of x")
  have d: "0 < d" using quotient_of_denom_pos [OF q] .
  have x: "x = of_int n / of_int d" using quotient_of_div [OF q] .
  have n: "0 < n" using assms d x by (simp add: zero_less_divide_iff)
  define a b where "a = int (floorlog 2 (nat n))" and "b = int (floorlog 2 (nat d))"
  have n1: "2 powi (a - 1) \<le> (of_int n :: rat)" "(of_int n :: rat) < 2 powi a"
    using floorlog_rat_bounds [of "nat n"] n by (simp_all add: a_def of_nat_nat)
  have d1: "2 powi (b - 1) \<le> (of_int d :: rat)" "(of_int d :: rat) < 2 powi b"
    using floorlog_rat_bounds [of "nat d"] d by (simp_all add: b_def of_nat_nat)
  have lo: "2 powi (a - b - 1) \<le> x"
  proof -
    have "2 powi (a - b - 1) = (2 :: rat) powi (a - 1) / 2 powi b"
      by (simp add: powi_diff_2 [symmetric] algebra_simps)
    also have "\<dots> \<le> of_int n / of_int d"
      by (rule frac_le) (use n1 d1 n d in auto)
    finally show ?thesis by (simp add: x)
  qed
  have hi: "x < 2 powi (a - b + 1)"
  proof -
    have "x \<le> of_int n / 2 powi (b - 1)"
      unfolding x by (rule divide_left_mono) (use n1 d1 n d in auto)
    also have "\<dots> < 2 powi a / 2 powi (b - 1)"
      by (rule divide_strict_right_mono) (use n1 in auto)
    also have "\<dots> = 2 powi (a - b + 1)"
      by (simp add: powi_diff_2 [symmetric] algebra_simps)
    finally show ?thesis .
  qed
  have e: "ilog2 x = (if x < 2 powi (a - b) then a - b - 1 else a - b)"
    by (simp add: ilog2_def q a_def b_def)
  show "2 powi (ilog2 x) \<le> x" using lo e by auto
  show "x < 2 powi (ilog2 x + 1)" using hi e by (auto split: if_splits)
qed

lemma ilog2_mono: "0 < x \<Longrightarrow> x \<le> y \<Longrightarrow> ilog2 x \<le> ilog2 y"
proof (rule ccontr)
  assume "0 < x" "x \<le> y" "\<not> ilog2 x \<le> ilog2 y"
  then have "y < 2 powi (ilog2 y + 1)" "2 powi (ilog2 y + 1) \<le> (2::rat) powi (ilog2 x)" "2 powi (ilog2 x) \<le> x"
    by (auto intro!: ilog2_bounds powi_mono_2)
  with \<open>x \<le> y\<close> show False by linarith
qed

lemma ilog2_eqI: "2 powi e \<le> x \<Longrightarrow> x < 2 powi (e + 1) \<Longrightarrow> ilog2 x = e"
proof -
  assume a: "2 powi e \<le> x" "x < 2 powi (e + 1)"
  then have "0 < x" using powi_pos_2 [of e] by linarith
  note b = ilog2_bounds [OF this]
  have "\<not> e < ilog2 x"
    using a b powi_mono_2 [of "e + 1" "ilog2 x"] by auto
  moreover have "\<not> ilog2 x < e"
    using a b powi_mono_2 [of "ilog2 x + 1" e] by auto
  ultimately show ?thesis by linarith
qed

lemma round_pos_le:
  assumes "x \<le> of_int m * 2 powi (ulp_exp x)"
  shows "round_pos x \<le> of_int m * 2 powi (ulp_exp x)"
proof -
  have "x / 2 powi (ulp_exp x) \<le> of_int m"
    using assms by (simp add: pos_divide_le_eq)
  then have "rne (x / 2 powi (ulp_exp x)) \<le> m" by (rule rne_le_int)
  then show ?thesis unfolding round_pos_def by (intro mult_right_mono) auto
qed

lemma le_round_pos:
  assumes "of_int m * 2 powi (ulp_exp x) \<le> x"
  shows "of_int m * 2 powi (ulp_exp x) \<le> round_pos x"
proof -
  have "of_int m \<le> x / 2 powi (ulp_exp x)"
    using assms by (simp add: pos_le_divide_eq)
  then have "m \<le> rne (x / 2 powi (ulp_exp x))" by (rule int_le_rne)
  then show ?thesis unfolding round_pos_def by (intro mult_right_mono) auto
qed

lemma powi_multiple:
  assumes "k \<le> e"
  obtains m :: int where "(2 :: rat) powi e = of_int m * 2 powi k"
proof
  have j: "(2 :: rat) powi (int j + k) = 2 ^ j * 2 powi k" for j
    by (simp add: power_int_add)
  show "(2 :: rat) powi e = of_int (2 ^ nat (e - k)) * 2 powi k"
    using j [of "nat (e - k)"] assms by simp
qed

lemma round_pos_mono:
  assumes "0 < x" and "x \<le> y"
  shows "round_pos x \<le> round_pos y"
proof (cases "ulp_exp x = ulp_exp y")
  case True
  have "rne (x / 2 powi (ulp_exp y)) \<le> rne (y / 2 powi (ulp_exp y))"
    by (rule rne_mono) (use assms in \<open>auto intro: divide_right_mono\<close>)
  then show ?thesis
    unfolding round_pos_def True by (intro mult_right_mono) auto
next
  case False
  have il: "ilog2 x \<le> ilog2 y" using assms by (rule ilog2_mono)
  with False have lt: "ulp_exp x < ulp_exp y" "ilog2 x < ilog2 y" "ulp_exp y = ilog2 y - 52"
    by (auto simp: ulp_exp_def)
  obtain m where m: "(2 :: rat) powi (ilog2 y) = of_int m * 2 powi (ulp_exp x)"
    using powi_multiple [of "ulp_exp x" "ilog2 y"] lt by auto
  obtain m' where m': "(2 :: rat) powi (ilog2 y) = of_int m' * 2 powi (ulp_exp y)"
    using powi_multiple [of "ulp_exp y" "ilog2 y"] lt by auto
  have "x < 2 powi (ilog2 x + 1)" using assms(1) by (rule ilog2_bounds)
  also have "\<dots> \<le> 2 powi (ilog2 y)" using lt by (intro powi_mono_2) auto
  finally have "round_pos x \<le> 2 powi (ilog2 y)"
    using round_pos_le [of x m] m by simp
  also have "\<dots> \<le> round_pos y"
    using le_round_pos [of m' y] m' ilog2_bounds [of y] assms by simp
  finally show ?thesis .
qed

lemma round_pos_error:
  assumes "0 < x" and "- 1022 \<le> ilog2 x"
  shows "\<bar>round_pos x - x\<bar> \<le> x / 2 ^ 53"
proof -
  let ?u = "(2 :: rat) powi (ulp_exp x)"
  have u: "ulp_exp x = ilog2 x - 52" using assms by (simp add: ulp_exp_def)
  have "round_pos x - x = (of_int (rne (x / ?u)) - x / ?u) * ?u"
    by (simp add: round_pos_def algebra_simps powi_nonzero_2)
  then have "\<bar>round_pos x - x\<bar> = \<bar>of_int (rne (x / ?u)) - x / ?u\<bar> * ?u"
    by (simp add: abs_mult)
  also have "\<dots> \<le> 1 / 2 * ?u"
    by (intro mult_right_mono rne_error) auto
  also have "\<dots> = 2 powi (ilog2 x) / 2 ^ 53"
    by (simp add: u powi_diff_2)
  also have "\<dots> \<le> x / 2 ^ 53"
    using ilog2_bounds(1) [OF assms(1)] by (simp add: divide_right_mono)
  finally show ?thesis .
qed

lemma round_pos_nonneg: "0 \<le> x \<Longrightarrow> 0 \<le> round_pos x"
  using le_round_pos [of 0 x] by simp

text \<open>Integers up to \<open>2 ^ 53\<close> are represented exactly.\<close>

lemma round_pos_nat:
  assumes "0 < n" and "n \<le> 2 ^ 53"
  shows "round_pos (of_nat n) = of_nat n"
proof -
  let ?x = "of_nat n :: rat"
  have x: "0 < ?x" using assms by simp
  have e0: "0 \<le> ilog2 ?x"
  proof (rule ccontr)
    assume "\<not> 0 \<le> ilog2 ?x"
    then have "(2 :: rat) powi (ilog2 ?x + 1) \<le> 2 powi 0" by (intro powi_mono_2) auto
    moreover have "?x < 2 powi (ilog2 ?x + 1)" by (rule ilog2_bounds [OF x])
    ultimately have "?x < 1" by simp
    with assms show False by simp
  qed
  have lex: "2 powi (ilog2 ?x) \<le> ?x" by (rule ilog2_bounds [OF x])
  have xle: "?x \<le> 2 powi 53"
  proof -
    have "?x \<le> of_nat (2 ^ 53)" using assms(2) of_nat_le_iff by blast
    then show ?thesis by simp
  qed
  have e1: "ilog2 ?x \<le> 53"
  proof (rule ccontr)
    assume "\<not> ilog2 ?x \<le> 53"
    then have "(2 :: rat) powi 53 < 2 powi (ilog2 ?x)" by (intro powi_strict_mono_2) auto
    with lex xle show False by linarith
  qed
  have u: "ulp_exp ?x = ilog2 ?x - 52" using e0 by (simp add: ulp_exp_def)
  obtain m :: int where m: "?x = of_int m * 2 powi (ulp_exp ?x)"
  proof (cases "ilog2 ?x = 53")
    case True
    then have "?x = 2 powi 53" using lex xle by auto
    moreover obtain m :: int where "(2 :: rat) powi 53 = of_int m * 2 powi 1"
      using powi_multiple [of 1 53] by auto
    ultimately show ?thesis using that True u by simp
  next
    case False
    then have "ulp_exp ?x \<le> 0" using e1 u by simp
    then obtain m :: int where "(2 :: rat) powi 0 = of_int m * 2 powi (ulp_exp ?x)"
      by (rule powi_multiple)
    then have "?x = of_int (int n * m) * 2 powi (ulp_exp ?x)" by simp
    then show ?thesis by (rule that)
  qed
  then have "?x / 2 powi (ulp_exp ?x) = of_int m"
    by (metis nonzero_mult_div_cancel_right powi_nonzero_2)
  then show ?thesis unfolding round_pos_def by (simp add: m [symmetric])
qed

lemma round_f64_nat:
  assumes "n \<le> 2 ^ 53"
  shows "round_f64 (of_nat n) = Fin (of_nat n)"
proof (cases "n = 0")
  case False
  have "(of_nat n :: rat) \<le> of_nat (2 ^ 53)" using assms of_nat_le_iff by blast
  also have "\<dots> < 2 ^ 1024" by (simp add: power_strict_increasing)
  finally show ?thesis using False assms by (simp add: round_f64_def round_pos_nat)
qed (simp add: round_f64_def)

lemma f64_of_nat_exact: "n \<le> 2 ^ 53 \<Longrightarrow> f64_of_nat n = Fin (of_nat n)"
  by (simp add: f64_of_nat_def round_f64_nat)

lemma f64_mul_exact:
  "m * n \<le> 2 ^ 53 \<Longrightarrow> f64_mul (Fin (of_nat m)) (Fin (of_nat n)) = Fin (of_nat (m * n))"
  using round_f64_nat [of "m * n"] by simp

lemma f64_to_u64_nat: "n < 2 ^ 64 \<Longrightarrow> f64_to_u64 (f64_ceil (Fin (of_nat n))) = of_nat n"
proof -
  assume "n < 2 ^ 64"
  then have "(of_nat n :: rat) < of_nat (2 ^ 64)" using of_nat_less_iff by blast
  then show ?thesis by (auto simp flip: of_nat_less_iff)
qed

end
