(* ===== verification/Bitcoin_Types.thy ===== *)
theory Bitcoin_Types
  imports Prelude
begin

text \<open>
  The Bitcoin enums of \<^verbatim>\<open>types/bitcoin.rs\<close> and the network table of
  \<^verbatim>\<open>types/network.rs\<close>.
\<close>

datatype ScriptType =
    SpendAddress
  | SpendP2SHWitness
  | SpendWitness
  | SpendTaproot
  | SpendMultisig
  | External

datatype OutputScriptType =
    PayToAddress
  | PayToScriptHash
  | PayToMultisig
  | PayToOpReturn
  | PayToWitness
  | PayToP2SHWitness
  | PayToTaproot

datatype AccountType = Legacy | SegWit | NativeSegWit | Taproot

fun purpose :: "AccountType \<Rightarrow> u32" where
  "purpose Legacy = 44"
| "purpose SegWit = 49"
| "purpose NativeSegWit = 84"
| "purpose Taproot = 86"

fun account_script_type :: "AccountType \<Rightarrow> ScriptType" where
  "account_script_type Legacy = SpendAddress"
| "account_script_type SegWit = SpendP2SHWitness"
| "account_script_type NativeSegWit = SpendWitness"
| "account_script_type Taproot = SpendTaproot"

datatype Network = Bitcoin | Testnet | Regtest

fun coin_name :: "Network \<Rightarrow> string" where
  "coin_name Bitcoin = ''Bitcoin''"
| "coin_name Testnet = ''Testnet''"
| "coin_name Regtest = ''Regtest''"

fun coin_type :: "Network \<Rightarrow> u32" where
  "coin_type Bitcoin = 0"
| "coin_type Testnet = 1"
| "coin_type Regtest = 1"

fun bech32_hrp :: "Network \<Rightarrow> string" where
  "bech32_hrp Bitcoin = ''bc''"
| "bech32_hrp Testnet = ''tb''"
| "bech32_hrp Regtest = ''bcrt''"

fun p2pkh_prefix :: "Network \<Rightarrow> u8" where
  "p2pkh_prefix Bitcoin = 0x00"
| "p2pkh_prefix Testnet = 0x6f"
| "p2pkh_prefix Regtest = 0x6f"

fun p2sh_prefix :: "Network \<Rightarrow> u8" where
  "p2sh_prefix Bitcoin = 0x05"
| "p2sh_prefix Testnet = 0xc4"
| "p2sh_prefix Regtest = 0xc4"

end
