(* ===== verification/Weight.thy ===== *)
theory Weight
  imports F64 Bitcoin_Types
begin

text \<open>
  Transaction weight, virtual size, fee and dust (\<^verbatim>\<open>compose/weight.rs\<close>,
  \<^verbatim>\<open>compose/dust.rs\<close>). Weights are \<^verbatim>\<open>usize\<close> sums over in-memory lists, modelled
  as \<open>nat\<close>; fees are \<^verbatim>\<open>u64\<close> words obtained from binary64 arithmetic.
\<close>

section \<open>Definitions\<close>

definition TX_BASE_WEIGHT :: nat where
  "TX_BASE_WEIGHT = 32"

definition SEGWIT_OVERHEAD :: nat where
  "SEGWIT_OVERHEAD = 2"

fun input_weight :: "ScriptType \<Rightarrow> nat" where
  "input_weight SpendAddress = 592"
| "input_weight SpendP2SHWitness = 364"
| "input_weight SpendWitness = 272"
| "input_weight SpendTaproot = 230"
| "input_weight SpendMultisig = 592"
| "input_weight External = 272"

fun output_weight :: "ScriptType \<Rightarrow> nat" where
  "output_weight SpendAddress = 136"
| "output_weight SpendP2SHWitness = 128"
| "output_weight SpendWitness = 124"
| "output_weight SpendTaproot = 172"
| "output_weight SpendMultisig = 128"
| "output_weight External = 124"

definition op_return_output_weight :: "nat \<Rightarrow> nat" where
  "op_return_output_weight data_len = 4 * (8 + 1 + 1 + 1 + data_len)"

definition change_output_weight :: "ScriptType \<Rightarrow> nat" where
  "change_output_weight script_type = output_weight script_type"

definition varint_weight :: "nat \<Rightarrow> nat" where
  "varint_weight n =
     (let bytes = (if n < 0xFD then 1 else if n \<le> 0xFFFF then 3
                   else if n \<le> 0xFFFFFFFF then 5 else 9)
      in 4 * bytes)"

fun is_segwit :: "ScriptType \<Rightarrow> bool" where
  "is_segwit SpendWitness = True"
| "is_segwit SpendP2SHWitness = True"
| "is_segwit SpendTaproot = True"
| "is_segwit _ = False"

definition has_segwit :: "ScriptType list \<Rightarrow> bool" where
  "has_segwit input_types = list_ex is_segwit input_types"

definition transaction_weight :: "ScriptType list \<Rightarrow> nat list \<Rightarrow> nat" where
  "transaction_weight input_types output_weights =
     (let weight = TX_BASE_WEIGHT;
          weight = weight + varint_weight (length input_types);
          weight = foldl (\<lambda>w t. w + input_weight t) weight input_types;
          weight = weight + varint_weight (length output_weights);
          weight = foldl (+) weight output_weights
      in if has_segwit input_types
         then weight + SEGWIT_OVERHEAD + length (filter (\<lambda>t. \<not> is_segwit t) input_types)
         else weight)"

definition weight_to_vbytes :: "nat \<Rightarrow> nat" where
  "weight_to_vbytes weight = (weight + 3) div 4"

definition calculate_fee :: "f64 \<Rightarrow> nat \<Rightarrow> u64" where
  "calculate_fee fee_rate weight =
     f64_to_u64 (f64_ceil (f64_mul fee_rate (f64_of_nat (weight_to_vbytes weight))))"

definition DEFAULT_DUST_THRESHOLD :: u64 where
  "DEFAULT_DUST_THRESHOLD = 546"

definition DUST_RELAY_FEE_RATE :: f64 where
  "DUST_RELAY_FEE_RATE = Fin 3"

definition effective_dust_rate :: "f64 \<Rightarrow> f64" where
  "effective_dust_rate fee_rate = DUST_RELAY_FEE_RATE"

definition dust_amount :: "ScriptType \<Rightarrow> f64 \<Rightarrow> u64" where
  "dust_amount output_script_type fee_rate =
     (let effective_rate = effective_dust_rate fee_rate;
          spend_vbytes = f64_of_nat (weight_to_vbytes (input_weight output_script_type));
          spend_cost = f64_to_u64 (f64_ceil (f64_mul effective_rate spend_vbytes))
      in max DEFAULT_DUST_THRESHOLD spend_cost)"

section \<open>Weight\<close>

lemma foldl_add_map: "foldl (\<lambda>w t. w + g t) a xs = a + (\<Sum>t\<leftarrow>xs. g t)" for a :: nat
  by (induction xs arbitrary: a) auto

lemma foldl_add: "foldl (+) a xs = a + sum_list xs" for a :: nat
  by (induction xs arbitrary: a) auto

text \<open>The loops of \<^verbatim>\<open>transaction_weight\<close> in closed form.\<close>

lemma transaction_weight_closed:
  "transaction_weight ts ws =
     32 + varint_weight (length ts) + (\<Sum>t\<leftarrow>ts. input_weight t)
        + varint_weight (length ws) + sum_list ws
        + (if has_segwit ts then 2 + length (filter (\<lambda>t. \<not> is_segwit t) ts) else 0)"
  by (simp add: transaction_weight_def foldl_add_map foldl_add TX_BASE_WEIGHT_def
      SEGWIT_OVERHEAD_def Let_def)

lemma transaction_weight_pos: "0 < transaction_weight ts ws"
  by (simp add: transaction_weight_closed)

lemma varint_weight_mono: "m \<le> n \<Longrightarrow> varint_weight m \<le> varint_weight n"
  by (simp add: varint_weight_def)

lemma sum_list_input_weight_mset:
  "(\<Sum>t\<leftarrow>ts. input_weight t) = (\<Sum>t\<in>#mset ts. input_weight t)"
  by (metis mset_map sum_mset_sum_list)

lemma transaction_weight_perm:
  assumes "mset ts = mset ts'" and "mset ws = mset ws'"
  shows "transaction_weight ts ws = transaction_weight ts' ws'"
proof -
  have "length ts = length ts'" "length ws = length ws'"
    using assms by (metis size_mset)+
  moreover have "has_segwit ts = has_segwit ts'"
    by (simp add: has_segwit_def list_ex_iff mset_eq_setD [OF assms(1)])
  moreover have "length (filter (\<lambda>t. \<not> is_segwit t) ts) = length (filter (\<lambda>t. \<not> is_segwit t) ts')"
    using assms(1) by (metis mset_filter size_mset)
  moreover have "sum_list ws = sum_list ws'"
    using assms(2) by (metis sum_mset_sum_list)
  moreover have "(\<Sum>t\<leftarrow>ts. input_weight t) = (\<Sum>t\<leftarrow>ts'. input_weight t)"
    using assms(1) by (simp add: sum_list_input_weight_mset)
  ultimately show ?thesis by (simp add: transaction_weight_closed)
qed

lemma transaction_weight_snoc_output:
  "transaction_weight ts ws + w \<le> transaction_weight ts (ws @ [w])"
  using varint_weight_mono [of "length ws" "Suc (length ws)"]
  by (simp add: transaction_weight_closed)

lemma vbytes_ceiling:
  "weight \<le> 4 * weight_to_vbytes weight \<and> 4 * weight_to_vbytes weight < weight + 4"
  by (simp add: weight_to_vbytes_def) linarith

lemma vbytes_mono: "w \<le> w' \<Longrightarrow> weight_to_vbytes w \<le> weight_to_vbytes w'"
  by (simp add: weight_to_vbytes_def div_le_mono)

section \<open>Fees\<close>

lemma calculate_fee_int:
  assumes "n * weight_to_vbytes w \<le> 2 ^ 53" and "weight_to_vbytes w \<le> 2 ^ 53"
  shows "calculate_fee (Fin (of_nat n)) w = of_nat (n * weight_to_vbytes w)"
proof -
  have "n * weight_to_vbytes w < 2 ^ 64" using assms(1) by simp
  then show ?thesis
    using f64_mul_exact [OF assms(1)] f64_of_nat_exact [OF assms(2)] f64_to_u64_nat
    by (simp only: calculate_fee_def)
qed

lemma unat_f64_to_u64:
  "unat (f64_to_u64 (Fin a)) = (if a \<le> 0 then 0 else if 2 ^ 64 \<le> a then 2 ^ 64 - 1 else nat \<lfloor>a\<rfloor>)"
proof -
  have "unat (of_int \<lfloor>a\<rfloor> :: u64) = nat \<lfloor>a\<rfloor>" if "\<not> a \<le> 0" "\<not> 2 ^ 64 \<le> a"
  proof -
    have "\<lfloor>a\<rfloor> < 2 ^ 64" using that by (simp add: floor_less_iff)
    moreover have "0 \<le> \<lfloor>a\<rfloor>" using that by simp
    ultimately show ?thesis by (simp add: unsigned_of_int take_bit_int_eq_self)
  qed
  then show ?thesis by (simp add: unsigned_minus_1_eq_mask mask_eq_exp_minus_1)
qed

lemma f64_to_u64_mono: "a \<le> b \<Longrightarrow> f64_to_u64 (Fin a) \<le> f64_to_u64 (Fin b)"
proof -
  assume ab: "a \<le> b"
  have "nat \<lfloor>a\<rfloor> \<le> 2 ^ 64 - 1" if "a < 2 ^ 64"
  proof -
    have "\<lfloor>a\<rfloor> < 2 ^ 64" using that by (simp add: floor_less_iff)
    then show ?thesis by (simp add: nat_le_iff)
  qed
  then have "unat (f64_to_u64 (Fin a)) \<le> unat (f64_to_u64 (Fin b))"
    using ab floor_mono [OF ab] by (auto simp only: unat_f64_to_u64 split: if_splits)
  then show ?thesis by (simp only: word_le_nat_alt)
qed

text \<open>The order of non-negative values, infinity on top, and the operations that respect it.\<close>

fun nonneg_le :: "f64 \<Rightarrow> f64 \<Rightarrow> bool" where
  "nonneg_le (Fin a) (Fin b) = (0 \<le> a \<and> a \<le> b)"
| "nonneg_le (Fin a) PosInf = (0 \<le> a)"
| "nonneg_le PosInf PosInf = True"
| "nonneg_le x y = False"

lemma round_f64_nonneg_le:
  assumes "0 \<le> a" and "a \<le> b"
  shows "nonneg_le (round_f64 a) (round_f64 b)"
proof (cases "a = 0")
  case True
  then show ?thesis using assms round_pos_nonneg [of b] by (simp add: round_f64_def Let_def)
next
  case False
  then have "round_pos a \<le> round_pos b" "0 \<le> round_pos a"
    using assms by (auto intro: round_pos_mono round_pos_nonneg)
  with False assms show ?thesis by (auto simp: round_f64_def Let_def)
qed

lemma nonneg_le_trans_inf: "nonneg_le x y \<Longrightarrow> nonneg_le x PosInf"
  by (cases x; cases y) auto

lemma f64_mul_nonneg_le:
  assumes "0 < r" and "nonneg_le x y"
  shows "nonneg_le (f64_mul (Fin r) x) (f64_mul (Fin r) y)"
proof (cases x)
  case (Fin a)
  with assms have a: "0 \<le> r * a" by (cases y) auto
  show ?thesis
  proof (cases y)
    case [simp]: (Fin b)
    from assms \<open>x = Fin a\<close> have "r * a \<le> r * b" by simp
    with a \<open>x = Fin a\<close> show ?thesis by (simp add: round_f64_nonneg_le)
  next
    case PosInf
    with assms Fin a show ?thesis
      using nonneg_le_trans_inf [OF round_f64_nonneg_le [OF a order_refl]]
      by (simp add: inf_of_sign_def)
  qed (use assms Fin in auto)
next
  case PosInf
  with assms show ?thesis by (cases y) (auto simp: inf_of_sign_def)
qed (use assms in \<open>cases y; auto\<close>)+

lemma f64_ceil_nonneg_le: "nonneg_le x y \<Longrightarrow> nonneg_le (f64_ceil x) (f64_ceil y)"
  by (cases x; cases y) (auto simp: ceiling_mono le_of_int_ceiling order_trans)

lemma f64_to_u64_nonneg_le: "nonneg_le x y \<Longrightarrow> f64_to_u64 x \<le> f64_to_u64 y"
  by (cases x; cases y) (auto intro: f64_to_u64_mono simp del: f64_to_u64.simps(1))

lemma calculate_fee_bounds:
  fixes r :: rat
  assumes v: "weight_to_vbytes w \<le> 2 ^ 53"
    and normal: "2 powi (- 1022) \<le> r * of_nat (weight_to_vbytes w)"
    and small: "r * of_nat (weight_to_vbytes w) \<le> 2 ^ 63"
  shows "r * of_nat (weight_to_vbytes w) * (1 - 1 / 2 ^ 53) \<le> of_nat (unat (calculate_fee (Fin r) w))
    \<and> of_nat (unat (calculate_fee (Fin r) w)) < r * of_nat (weight_to_vbytes w) * (1 + 1 / 2 ^ 53) + 1"
proof -
  define x where "x = r * of_nat (weight_to_vbytes w)"
  define y where "y = round_pos x"
  have pos: "0 < x" using normal powi_pos_2 [of "- 1022"] unfolding x_def by linarith
  have "- 1022 \<le> ilog2 x"
    using ilog2_mono [of "2 powi (- 1022)" x] ilog2_eqI [of "- 1022" "2 powi (- 1022)"] normal
      powi_strict_mono_2 [of "- 1022" "- 1021"] by (simp add: x_def)
  then have "\<bar>y - x\<bar> \<le> x / 2 ^ 53" unfolding y_def by (rule round_pos_error [OF pos])
  then have lo: "x - x / 2 ^ 53 \<le> y" and hi: "y \<le> x + x / 2 ^ 53" by linarith+
  have x: "x / 2 ^ 53 \<le> x / 2" "x / 2 ^ 53 < 2 ^ 62"
    using pos small unfolding x_def [symmetric] by auto
  have y: "0 < y" "y < 2 ^ 63 + 2 ^ 62"
    using lo hi x pos small unfolding x_def [symmetric] by linarith+
  have "(2 :: rat) ^ 63 + 2 ^ 62 \<le> 2 ^ 1024" by simp
  then have "y < 2 ^ 1024" using y(2) by linarith
  then have "round_f64 x = Fin y" using pos by (simp add: round_f64_def y_def)
  then have fee: "calculate_fee (Fin r) w = f64_to_u64 (Fin (of_int \<lceil>y\<rceil>))"
    using f64_of_nat_exact [OF v] by (simp add: calculate_fee_def x_def)
  have ceil: "y \<le> of_int \<lceil>y\<rceil>" "of_int \<lceil>y\<rceil> < y + 1" by linarith+
  have "(2 :: rat) ^ 63 + 2 ^ 62 + 1 \<le> 2 ^ 64" by simp
  then have "of_int \<lceil>y\<rceil> < (2 :: rat) ^ 64" using y ceil by linarith
  then have "unat (calculate_fee (Fin r) w) = nat \<lceil>y\<rceil>"
    using y unfolding fee unat_f64_to_u64 by auto
  then have "of_nat (unat (calculate_fee (Fin r) w)) = (of_int \<lceil>y\<rceil> :: rat)"
    using y by (simp add: of_nat_nat)
  moreover have "x * (1 - 1 / 2 ^ 53) = x - x / 2 ^ 53" "x * (1 + 1 / 2 ^ 53) = x + x / 2 ^ 53"
    by (simp_all only: right_diff_distrib distrib_left mult_1_right times_divide_eq_right)
  moreover have "x - x / 2 ^ 53 \<le> of_int \<lceil>y\<rceil>" using lo ceil(1) by (rule order_trans)
  moreover have "of_int \<lceil>y\<rceil> < x + x / 2 ^ 53 + 1"
    using ceil(2) hi by (auto elim: order_less_le_trans)
  ultimately show ?thesis unfolding x_def [symmetric] by (simp only:)
qed

lemma dust_amount_546 [simp]: "dust_amount st r = 546"
proof -
  have "weight_to_vbytes (input_weight st) \<le> 148"
    by (cases st) (simp_all add: weight_to_vbytes_def)
  then have v: "3 * weight_to_vbytes (input_weight st) \<le> 444" by simp
  have "dust_amount st r = max 546 (calculate_fee (Fin (of_nat 3)) (input_weight st))"
    by (simp add: dust_amount_def calculate_fee_def effective_dust_rate_def
        DUST_RELAY_FEE_RATE_def DEFAULT_DUST_THRESHOLD_def)
  also have "calculate_fee (Fin (of_nat 3)) (input_weight st)
      = of_nat (3 * weight_to_vbytes (input_weight st))"
    by (rule calculate_fee_int) (use v in auto)
  also have "max 546 \<dots> = (546 :: u64)"
  proof (rule max_absorb1)
    have "unat (of_nat (3 * weight_to_vbytes (input_weight st)) :: u64) \<le> 546"
      using v by (subst unat_of_nat_u64) auto
    then show "(of_nat (3 * weight_to_vbytes (input_weight st)) :: u64) \<le> 546"
      by (simp only: word_le_nat_alt unat_numeral) simp
  qed
  finally show ?thesis .
qed

section \<open>Properties\<close>

text \<open>
  The dust threshold is the constant 546 satoshi. The relay rate of
  3 sat/vB never makes any script type's spending cost exceed it, whatever fee rate the caller
  passes.
\<close>

theorem dust_amount_constant: "dust_amount st r = 546"
  by simp

text \<open>
  With a positive finite fee rate, a heavier transaction never has a
  smaller fee, binary64 rounding, ceiling and saturation included.
\<close>

theorem calculate_fee_mono:
  assumes "0 < r" and "w \<le> w'"
  shows "calculate_fee (Fin r) w \<le> calculate_fee (Fin r) w'"
proof -
  have "nonneg_le (f64_of_nat (weight_to_vbytes w)) (f64_of_nat (weight_to_vbytes w'))"
    unfolding f64_of_nat_def
    by (rule round_f64_nonneg_le) (use vbytes_mono [OF assms(2)] in auto)
  then show ?thesis unfolding calculate_fee_def
    by (intro f64_to_u64_nonneg_le f64_ceil_nonneg_le f64_mul_nonneg_le assms)
qed

theorem calculate_fee_mono_witness:
  "(0 :: rat) < 3 / 2 \<and> calculate_fee (Fin (3 / 2)) 438 \<le> calculate_fee (Fin (3 / 2)) 562"
  using calculate_fee_mono [of "3 / 2" 438 562] by simp

text \<open>
  The fee is the product of the rate and the virtual size rounded up,
  up to the half-ulp error of one binary64 multiplication.
\<close>

theorem calculate_fee_error:
  fixes r :: rat
  assumes "weight_to_vbytes w \<le> 2 ^ 53"
    and "2 powi (- 1022) \<le> r * of_nat (weight_to_vbytes w)"
    and "r * of_nat (weight_to_vbytes w) \<le> 2 ^ 63"
  shows "r * of_nat (weight_to_vbytes w) * (1 - 1 / 2 ^ 53) \<le> of_nat (unat (calculate_fee (Fin r) w))
    \<and> of_nat (unat (calculate_fee (Fin r) w)) < r * of_nat (weight_to_vbytes w) * (1 + 1 / 2 ^ 53) + 1"
  by (rule calculate_fee_bounds [OF assms])

theorem calculate_fee_error_witness:
  "(3 / 2 :: rat) * 110 * (1 - 1 / 2 ^ 53) \<le> of_nat (unat (calculate_fee (Fin (3 / 2)) 438))
    \<and> of_nat (unat (calculate_fee (Fin (3 / 2)) 438)) < (3 / 2 :: rat) * 110 * (1 + 1 / 2 ^ 53) + 1"
proof -
  have [simp]: "weight_to_vbytes 438 = 110" by (simp add: weight_to_vbytes_def)
  have "(2 :: rat) powi (- 1022) \<le> 1" by (simp add: power_int_minus field_simps)
  then show ?thesis using calculate_fee_error [of 438 "3 / 2"] by simp
qed

end
