(* ===== verification/Finalize.thy ===== *)
theory Finalize
  imports Weight
begin

text \<open>
  The data of coin selection (\<^verbatim>\<open>compose/coinselect/mod.rs\<close>) and the change decision
  (\<^verbatim>\<open>compose/coinselect/finalize.rs\<close>). Amounts are \<^verbatim>\<open>u64\<close> words.
\<close>

section \<open>Definitions\<close>

record CoinSelectInput =
  csi_index :: nat
  csi_amount :: u64
  csi_script_type :: ScriptType
  csi_required :: bool
  csi_weight :: nat

record CoinSelectOutput =
  cso_amount :: u64
  cso_weight :: nat
  cso_is_send_max :: bool

text \<open>\<open>Success selected_inputs fee change_amount has_change weight\<close> and
  \<open>SendMax selected_inputs max_amount fee weight\<close>.\<close>

datatype CoinSelectResult =
    Success "nat list" u64 u64 bool nat
  | SendMax "nat list" u64 u64 nat
  | InsufficientFunds

text \<open>\<open>FSuccess fee change_amount has_change weight\<close>.\<close>

datatype FinalizeResult =
    FSuccess u64 u64 bool nat
  | FInsufficientFunds

definition finalize ::
    "u64 \<Rightarrow> u64 \<Rightarrow> f64 \<Rightarrow> u64 \<Rightarrow> ScriptType list \<Rightarrow> nat list \<Rightarrow> ScriptType \<Rightarrow> FinalizeResult" where
  "finalize input_sum output_sum fee_rate base_fee input_types output_weights change_script_type =
     (let weight_no_change = transaction_weight input_types output_weights;
          fee_no_change = calculate_fee fee_rate weight_no_change + base_fee
      in if input_sum < output_sum + fee_no_change then FInsufficientFunds
         else
           let change_weight = change_output_weight change_script_type;
               weight_with_change = transaction_weight input_types (output_weights @ [change_weight]);
               fee_with_change = calculate_fee fee_rate weight_with_change + base_fee
           in if input_sum < output_sum + fee_with_change
              then FSuccess (input_sum - output_sum) 0 False weight_no_change
              else
                let change_amount = input_sum - output_sum - fee_with_change;
                    dust_threshold = dust_amount change_script_type fee_rate
                in if dust_threshold \<le> change_amount
                   then FSuccess fee_with_change change_amount True weight_with_change
                   else FSuccess (input_sum - output_sum) 0 False weight_no_change)"

section \<open>Word arithmetic without wrap-around\<close>

lemma unat_add_no_wrap:
  fixes a b :: u64
  assumes "unat a + unat b < 2 ^ 64"
  shows "unat (a + b) = unat a + unat b"
  using assms by (simp add: unat_word_ariths)

lemma unat_sub_no_wrap:
  fixes a b :: u64
  assumes "unat b \<le> unat a"
  shows "unat (a - b) = unat a - unat b"
  using assms by (simp add: unat_sub word_le_nat_alt)

text \<open>The fee the policy demands of a transaction of weight \<open>w\<close>, as a number.\<close>

definition required_fee :: "f64 \<Rightarrow> u64 \<Rightarrow> nat \<Rightarrow> nat" where
  "required_fee fee_rate base_fee w = unat (calculate_fee fee_rate w) + unat base_fee"

lemma unat_fee:
  assumes "n + required_fee r b w < 2 ^ 64"
  shows "unat (calculate_fee r w + b) = required_fee r b w"
  using assms unat_add_no_wrap [of "calculate_fee r w" b] by (simp add: required_fee_def)

lemma unat_out_fee:
  assumes "unat out + required_fee r b w < 2 ^ 64"
  shows "unat (out + (calculate_fee r w + b)) = unat out + required_fee r b w"
  using assms unat_fee [OF assms] unat_add_no_wrap [of out "calculate_fee r w + b"] by simp

section \<open>The change decision\<close>

lemma finalize_ring:
  "finalize in_sum out_sum r b ts ws ct = FSuccess fee change hc w \<Longrightarrow>
     out_sum + fee + change = in_sum"
  by (auto simp: finalize_def Let_def split: if_splits)

lemma finalize_weight:
  "finalize in_sum out_sum r b ts ws ct = FSuccess fee change hc w \<Longrightarrow>
     w = transaction_weight ts (if hc then ws @ [change_output_weight ct] else ws)"
  by (auto simp: finalize_def Let_def split: if_splits)

lemma finalize_change:
  "finalize in_sum out_sum r b ts ws ct = FSuccess fee change hc w \<Longrightarrow>
     (hc \<longrightarrow> 546 \<le> change \<and> fee = calculate_fee r w + b) \<and> (\<not> hc \<longrightarrow> change = 0)"
  by (auto simp: finalize_def Let_def split: if_splits)

text \<open>
  No sum the function forms exceeds 64 bits. Amounts of existing coins (at most 2.1e15
  satoshi) and fees below them meet this with a wide margin.
\<close>

definition finalize_fits ::
    "u64 \<Rightarrow> f64 \<Rightarrow> u64 \<Rightarrow> ScriptType list \<Rightarrow> nat list \<Rightarrow> ScriptType \<Rightarrow> bool" where
  "finalize_fits out_sum r b ts ws ct \<longleftrightarrow>
     unat out_sum + required_fee r b (transaction_weight ts ws) < 2 ^ 64 \<and>
     unat out_sum + required_fee r b (transaction_weight ts (ws @ [change_output_weight ct])) < 2 ^ 64"

lemma finalize_insufficient_iff:
  assumes "finalize_fits out_sum r b ts ws ct"
  shows "finalize in_sum out_sum r b ts ws ct = FInsufficientFunds \<longleftrightarrow>
     unat in_sum < unat out_sum + required_fee r b (transaction_weight ts ws)"
proof -
  have "in_sum < out_sum + (calculate_fee r (transaction_weight ts ws) + b) \<longleftrightarrow>
      unat in_sum < unat out_sum + required_fee r b (transaction_weight ts ws)"
    using assms unat_out_fee unfolding finalize_fits_def by (simp add: word_less_nat_alt)
  then show ?thesis by (simp add: finalize_def Let_def)
qed

lemma finalize_amounts:
  assumes fits: "finalize_fits out_sum r b ts ws ct"
    and fin: "finalize in_sum out_sum r b ts ws ct = FSuccess fee change hc w"
  shows "unat in_sum = unat out_sum + unat fee + unat change
    \<and> required_fee r b w \<le> unat fee
    \<and> (hc \<longrightarrow> unat fee = required_fee r b w \<and> 546 \<le> unat change)
    \<and> (\<not> hc \<longrightarrow> change = 0 \<and>
         unat fee < required_fee r b (transaction_weight ts (ws @ [change_output_weight ct])) + 546)"
proof -
  define wc where "wc = transaction_weight ts (ws @ [change_output_weight ct])"
  define wn where "wn = transaction_weight ts ws"
  define fwc where "fwc = calculate_fee r wc + b"
  have cov: "unat out_sum + required_fee r b wn \<le> unat in_sum"
    using fin finalize_insufficient_iff [OF fits, of in_sum] by (auto simp: wn_def)
  have diff: "unat (in_sum - out_sum) = unat in_sum - unat out_sum"
    using cov by (intro unat_sub_no_wrap) simp
  have fwc: "unat fwc = required_fee r b wc" "unat (out_sum + fwc) = unat out_sum + required_fee r b wc"
    using fits unat_fee unat_out_fee unfolding finalize_fits_def fwc_def wc_def by blast+
  show ?thesis
  proof (cases hc)
    case True
    then have "\<not> in_sum < out_sum + fwc" "fee = fwc" "change = in_sum - out_sum - fwc" "w = wc"
        "546 \<le> change"
      using fin by (auto simp: finalize_def Let_def fwc_def wc_def split: if_splits)
    moreover from this fwc have "unat out_sum + required_fee r b wc \<le> unat in_sum"
      by (simp add: word_less_nat_alt)
    ultimately show ?thesis
      using True fwc diff unat_sub_no_wrap [of fwc "in_sum - out_sum"]
      by (simp add: word_le_nat_alt)
  next
    case False
    then have *: "fee = in_sum - out_sum" "change = 0" "w = wn"
        "in_sum < out_sum + fwc \<or> in_sum - out_sum - fwc < 546"
      using fin by (auto simp: finalize_def Let_def fwc_def wn_def wc_def split: if_splits)
    have "unat in_sum < unat out_sum + required_fee r b wc + 546"
    proof (cases "unat in_sum < unat out_sum + required_fee r b wc")
      case False
      then have "unat (in_sum - out_sum - fwc) = unat in_sum - unat out_sum - required_fee r b wc"
        using fwc diff unat_sub_no_wrap [of fwc "in_sum - out_sum"] by simp
      with * False fwc show ?thesis by (auto simp: word_less_nat_alt)
    qed simp
    with False * diff cov show ?thesis by (auto simp: wc_def)
  qed
qed

section \<open>Properties\<close>


lemma one_p2wpkh_payment:
  "transaction_weight [SpendWitness] [124] = 438"
  "transaction_weight [SpendWitness] ([124] @ [change_output_weight SpendWitness]) = 562"
  "calculate_fee (Fin 2) 438 = 220"
  "calculate_fee (Fin 2) 562 = 282"
  using calculate_fee_int [of 2 438] calculate_fee_int [of 2 562]
  by (simp_all add: transaction_weight_closed varint_weight_def has_segwit_def
      change_output_weight_def weight_to_vbytes_def)


text \<open>
  A selection is refused only when it cannot pay the outputs and the fee of
  the transaction without change.
\<close>

theorem finalize_complete:
  assumes "finalize_fits out_sum r b ts ws ct"
  shows "(\<exists>fee change hc w. finalize in_sum out_sum r b ts ws ct = FSuccess fee change hc w) \<longleftrightarrow>
     unat out_sum + required_fee r b (transaction_weight ts ws) \<le> unat in_sum"
  using finalize_insufficient_iff [OF assms, of in_sum]
  by (cases "finalize in_sum out_sum r b ts ws ct") auto

theorem finalize_complete_witness:
  "\<not> (\<exists>fee change hc w. finalize 50219 50000 (Fin 2) 0 [SpendWitness] [124] SpendWitness
        = FSuccess fee change hc w)
   \<and> (\<exists>fee change hc w. finalize 50220 50000 (Fin 2) 0 [SpendWitness] [124] SpendWitness
        = FSuccess fee change hc w)"
proof -
  have "finalize_fits 50000 (Fin 2) 0 [SpendWitness] [124] SpendWitness"
    using one_p2wpkh_payment by (simp add: finalize_fits_def required_fee_def)
  from finalize_complete [OF this, of 50219] finalize_complete [OF this, of 50220]
  show ?thesis using one_p2wpkh_payment by (simp add: required_fee_def)
qed

end
