(* ===== verification/Select_Algs.thy ===== *)
theory Select_Algs
  imports Finalize
begin

text \<open>
  The send-max selection (\<^verbatim>\<open>compose/coinselect/split.rs\<close>) and the greedy selection
  (\<^verbatim>\<open>compose/coinselect/accumulative.rs\<close>), and the contract every selection algorithm
  of the crate meets.
\<close>

section \<open>Definitions\<close>

subsection \<open>Split\<close>

definition COINBASE_MIN_CONFIRMATIONS :: u32 where
  "COINBASE_MIN_CONFIRMATIONS = 100"

text \<open>The eligibility loop; \<open>i\<close> is the position \<^verbatim>\<open>enumerate\<close> counts.\<close>

fun split_loop :: "u32 list \<Rightarrow> bool list \<Rightarrow> nat \<Rightarrow> CoinSelectInput list \<Rightarrow>
    nat list \<Rightarrow> ScriptType list \<Rightarrow> u64 \<Rightarrow> nat list \<times> ScriptType list \<times> u64" where
  "split_loop confirmations coinbase_flags i [] selected_indices selected_types input_sum =
     (selected_indices, selected_types, input_sum)"
| "split_loop confirmations coinbase_flags i (input # inputs) selected_indices selected_types input_sum =
     (let is_coinbase = get_or coinbase_flags i False;
          confs = get_or confirmations i 0
      in if is_coinbase \<and> confs < COINBASE_MIN_CONFIRMATIONS
         then split_loop confirmations coinbase_flags (i + 1) inputs selected_indices selected_types input_sum
         else split_loop confirmations coinbase_flags (i + 1) inputs
                (selected_indices @ [csi_index input])
                (selected_types @ [csi_script_type input])
                (input_sum + csi_amount input))"

definition split :: "CoinSelectInput list \<Rightarrow> CoinSelectOutput list \<Rightarrow> f64 \<Rightarrow> u64 \<Rightarrow> ScriptType \<Rightarrow>
    u32 list \<Rightarrow> bool list \<Rightarrow> CoinSelectResult" where
  "split inputs outputs fee_rate base_fee change_script_type confirmations coinbase_flags =
     (case split_loop confirmations coinbase_flags 0 inputs [] [] 0 of
       (selected_indices, selected_types, input_sum) \<Rightarrow>
         if selected_indices = [] then InsufficientFunds
         else
           let specified_sum = sum_list (map cso_amount (filter (\<lambda>out. \<not> cso_is_send_max out) outputs));
               output_weights = map cso_weight outputs;
               tx_weight = transaction_weight selected_types output_weights;
               fee = calculate_fee fee_rate tx_weight + base_fee
           in if input_sum < specified_sum + fee then InsufficientFunds
              else
                let remaining = input_sum - specified_sum - fee;
                    dust_threshold = dust_amount change_script_type fee_rate
                in if remaining < dust_threshold then InsufficientFunds
                   else SendMax selected_indices remaining fee tx_weight)"

subsection \<open>Accumulative\<close>

text \<open>The three \<^verbatim>\<open>if let FinalizeResult::Success\<close> returns of the source.\<close>

fun success_of :: "nat list \<Rightarrow> FinalizeResult \<Rightarrow> CoinSelectResult option" where
  "success_of selected (FSuccess fee change_amount has_change tx_weight) =
     Some (Success selected fee change_amount has_change tx_weight)"
| "success_of selected FInsufficientFunds = None"

fun accumulate_optional :: "u64 \<Rightarrow> nat list \<Rightarrow> f64 \<Rightarrow> u64 \<Rightarrow> ScriptType \<Rightarrow> CoinSelectInput list \<Rightarrow>
    nat list \<Rightarrow> u64 \<Rightarrow> ScriptType list \<Rightarrow> CoinSelectResult" where
  "accumulate_optional output_sum output_weights fee_rate base_fee change_script_type []
     selected selected_sum selected_types = InsufficientFunds"
| "accumulate_optional output_sum output_weights fee_rate base_fee change_script_type (input # optional)
     selected selected_sum selected_types =
     (let is_last = (optional = []);
          input_fee = calculate_fee fee_rate (input_weight (csi_script_type input));
          selected' = selected @ [csi_index input];
          selected_sum' = selected_sum + csi_amount input;
          selected_types' = selected_types @ [csi_script_type input];
          outcome = success_of selected'
            (finalize selected_sum' output_sum fee_rate base_fee selected_types' output_weights change_script_type)
      in if csi_amount input < input_fee
         then if is_last
              then case outcome of
                     Some res \<Rightarrow> res
                   | None \<Rightarrow> accumulate_optional output_sum output_weights fee_rate base_fee
                       change_script_type optional selected' selected_sum' selected_types'
              else accumulate_optional output_sum output_weights fee_rate base_fee
                     change_script_type optional selected selected_sum selected_types
         else case outcome of
                Some res \<Rightarrow> res
              | None \<Rightarrow> accumulate_optional output_sum output_weights fee_rate base_fee
                  change_script_type optional selected' selected_sum' selected_types')"

definition accumulative :: "CoinSelectInput list \<Rightarrow> CoinSelectOutput list \<Rightarrow> f64 \<Rightarrow> u64 \<Rightarrow> ScriptType \<Rightarrow>
    CoinSelectResult" where
  "accumulative inputs outputs fee_rate base_fee change_script_type =
     (let output_sum = sum_list (map cso_amount outputs);
          output_weights = map cso_weight outputs;
          req = filter csi_required inputs;
          selected = map csi_index req;
          selected_sum = sum_list (map csi_amount req);
          selected_types = map csi_script_type req;
          optional = filter (\<lambda>i. \<not> csi_required i) inputs;
          greedy = accumulate_optional output_sum output_weights fee_rate base_fee change_script_type
            optional selected selected_sum selected_types
      in if selected \<noteq> []
         then case success_of selected (finalize selected_sum output_sum fee_rate base_fee
                     selected_types output_weights change_script_type) of
                Some res \<Rightarrow> res
              | None \<Rightarrow> greedy
         else greedy)"

section \<open>The contract of a selection\<close>

text \<open>
  \<open>funds inputs outputs r b ct chosen res\<close>: the result \<open>res\<close> is what finalizing the coins
  \<open>chosen\<close>, drawn from \<open>inputs\<close>, gives.
\<close>

fun funds :: "CoinSelectInput list \<Rightarrow> CoinSelectOutput list \<Rightarrow> f64 \<Rightarrow> u64 \<Rightarrow> ScriptType \<Rightarrow>
    CoinSelectInput list \<Rightarrow> CoinSelectResult \<Rightarrow> bool" where
  "funds inputs outputs r b ct chosen (Success sel fee change hc w) \<longleftrightarrow>
     mset chosen \<subseteq># mset inputs \<and> sel = map csi_index chosen \<and>
     filter_mset csi_required (mset inputs) \<subseteq># mset chosen \<and>
     finalize (sum_list (map csi_amount chosen)) (sum_list (map cso_amount outputs)) r b
       (map csi_script_type chosen) (map cso_weight outputs) ct = FSuccess fee change hc w"
| "funds inputs outputs r b ct chosen (SendMax sel max_amount fee w) \<longleftrightarrow>
     mset chosen \<subseteq># mset inputs \<and> chosen \<noteq> [] \<and> sel = map csi_index chosen \<and>
     w = transaction_weight (map csi_script_type chosen) (map cso_weight outputs) \<and>
     fee = calculate_fee r w + b \<and> 546 \<le> max_amount \<and>
     sum_list (map cso_amount (filter (\<lambda>out. \<not> cso_is_send_max out) outputs)) + fee
       \<le> sum_list (map csi_amount chosen) \<and>
     max_amount = sum_list (map csi_amount chosen)
       - sum_list (map cso_amount (filter (\<lambda>out. \<not> cso_is_send_max out) outputs)) - fee"
| "funds inputs outputs r b ct chosen InsufficientFunds \<longleftrightarrow> True"

definition sound_result :: "CoinSelectInput list \<Rightarrow> CoinSelectOutput list \<Rightarrow> f64 \<Rightarrow> u64 \<Rightarrow> ScriptType \<Rightarrow>
    CoinSelectResult \<Rightarrow> bool" where
  "sound_result inputs outputs r b ct res \<longleftrightarrow> (\<exists>chosen. funds inputs outputs r b ct chosen res)"

lemma sound_insufficient [simp]: "sound_result inputs outputs r b ct InsufficientFunds"
  by (simp add: sound_result_def)

text \<open>Conservation, read off the contract in the ring of 64-bit words.\<close>

lemma funds_ring:
  "funds inputs outputs r b ct chosen (Success sel fee change hc w) \<Longrightarrow>
     sum_list (map cso_amount outputs) + fee + change = sum_list (map csi_amount chosen)"
  by (auto dest: finalize_ring)

lemma funds_send_max_ring:
  "funds inputs outputs r b ct chosen (SendMax sel m fee w) \<Longrightarrow>
     sum_list (map cso_amount (filter (\<lambda>out. \<not> cso_is_send_max out) outputs)) + fee + m
       = sum_list (map csi_amount chosen)"
  by simp

section \<open>Split\<close>

definition mature :: "u32 list \<Rightarrow> bool list \<Rightarrow> nat \<Rightarrow> bool" where
  "mature confirmations coinbase_flags i \<longleftrightarrow>
     \<not> (get_or coinbase_flags i False \<and> get_or confirmations i 0 < COINBASE_MIN_CONFIRMATIONS)"

definition mature_inputs :: "u32 list \<Rightarrow> bool list \<Rightarrow> nat \<Rightarrow> CoinSelectInput list \<Rightarrow> CoinSelectInput list" where
  "mature_inputs confirmations coinbase_flags n inputs =
     map snd (filter (\<lambda>(i, _). mature confirmations coinbase_flags i) (List.enumerate n inputs))"

lemma mature_inputs_simps [simp]:
  "mature_inputs confs cb n [] = []"
  "mature_inputs confs cb n (x # xs) =
     (if mature confs cb n then x # mature_inputs confs cb (Suc n) xs else mature_inputs confs cb (Suc n) xs)"
  by (simp_all add: mature_inputs_def)

lemma mature_inputs_subset: "mset (mature_inputs confs cb n inputs) \<subseteq># mset inputs"
  by (induction inputs arbitrary: n) (auto intro: subset_mset_add)

text \<open>The loop collects the mature inputs, in order.\<close>

lemma split_loop_mature:
  "split_loop confs cb i inputs sel ts s =
     (let ms = mature_inputs confs cb i inputs in
      (sel @ map csi_index ms, ts @ map csi_script_type ms, s + sum_list (map csi_amount ms)))"
  by (induction inputs arbitrary: i sel ts s) (auto simp: Let_def mature_def add.assoc)

lemma split_sound:
  "sound_result inputs outputs r b ct (split inputs outputs r b ct confs cb)"
proof -
  have "split inputs outputs r b ct confs cb = InsufficientFunds \<or>
      funds inputs outputs r b ct (mature_inputs confs cb 0 inputs)
        (split inputs outputs r b ct confs cb)"
    by (simp add: split_def split_loop_mature Let_def mature_inputs_subset not_less)
  then show ?thesis by (metis sound_insufficient sound_result_def)
qed

section \<open>Accumulative\<close>

lemma success_of_Some:
  "success_of sel f = Some res \<longleftrightarrow>
     (\<exists>fee change hc w. f = FSuccess fee change hc w \<and> res = Success sel fee change hc w)"
  by (cases f) auto

lemma success_of_None: "success_of sel f = None \<longleftrightarrow> f = FInsufficientFunds"
  by (cases f) auto

lemma finalize_hit:
  assumes "mset chosen \<subseteq># mset inputs" "filter_mset csi_required (mset inputs) \<subseteq># mset chosen"
    and "success_of sel (finalize (sum_list (map csi_amount chosen)) (sum_list (map cso_amount outputs))
      r b (map csi_script_type chosen) (map cso_weight outputs) ct) = Some res"
    and "sel = map csi_index chosen"
  shows "sound_result inputs outputs r b ct res"
  using assms unfolding sound_result_def success_of_Some by fastforce

lemma accumulate_optional_sound:
  assumes "mset done + mset optional \<subseteq># mset inputs"
    and "filter_mset csi_required (mset inputs) \<subseteq># mset done"
  shows "sound_result inputs outputs r b ct
     (accumulate_optional (sum_list (map cso_amount outputs)) (map cso_weight outputs) r b ct optional
        (map csi_index done) (sum_list (map csi_amount done)) (map csi_script_type done))"
  using assms
proof (induction optional arbitrary: "done")
  case (Cons x xs)
  let ?d = "done @ [x]"
  have skip: "mset done + mset xs \<subseteq># mset inputs"
    using Cons.prems(1) by (auto intro: subset_mset_skip)
  have take: "mset ?d + mset xs \<subseteq># mset inputs"
    using Cons.prems(1) by simp
  have req: "filter_mset csi_required (mset inputs) \<subseteq># mset ?d"
    using Cons.prems(2) by (simp add: subset_mset_add)
  note hit = finalize_hit [OF subset_mset_left [OF take] req, of _ outputs r b ct]
  show ?case
    using Cons.IH [OF skip Cons.prems(2)] Cons.IH [OF take req] hit
    by (auto simp: Let_def split: option.splits)
qed simp

lemma accumulative_sound:
  "sound_result inputs outputs r b ct (accumulative inputs outputs r b ct)"
proof -
  let ?req = "filter csi_required inputs"
  have "mset ?req + mset (filter (\<lambda>i. \<not> csi_required i) inputs) \<subseteq># mset inputs"
    by (simp add: multiset_partition [symmetric])
  from accumulate_optional_sound [OF this, of outputs r b ct]
  have greedy: "sound_result inputs outputs r b ct
      (accumulate_optional (sum_list (map cso_amount outputs)) (map cso_weight outputs) r b ct
        (filter (\<lambda>i. \<not> csi_required i) inputs) (map csi_index ?req)
        (sum_list (map csi_amount ?req)) (map csi_script_type ?req))"
    by simp
  have "mset ?req \<subseteq># mset inputs" "filter_mset csi_required (mset inputs) \<subseteq># mset ?req"
    by (simp_all add: multiset_filter_subset)
  from finalize_hit [OF this, of _ outputs r b ct] greedy show ?thesis
    by (auto simp: accumulative_def Let_def split: option.splits)
qed

text \<open>An optional coin that pays at least for its own input; the others are skipped.\<close>

definition beneficial :: "f64 \<Rightarrow> CoinSelectInput \<Rightarrow> bool" where
  "beneficial r i \<longleftrightarrow> calculate_fee r (input_weight (csi_script_type i)) \<le> csi_amount i"

definition finalize_coins :: "CoinSelectOutput list \<Rightarrow> f64 \<Rightarrow> u64 \<Rightarrow> ScriptType \<Rightarrow> CoinSelectInput list \<Rightarrow>
    FinalizeResult" where
  "finalize_coins outputs r b ct cs =
     finalize (sum_list (map csi_amount cs)) (sum_list (map cso_amount outputs)) r b
       (map csi_script_type cs) (map cso_weight outputs) ct"

lemma accumulate_optional_complete:
  assumes "accumulate_optional (sum_list (map cso_amount outputs)) (map cso_weight outputs) r b ct optional
      (map csi_index done) (sum_list (map csi_amount done)) (map csi_script_type done) = InsufficientFunds"
    and "filter (beneficial r) optional \<noteq> []"
  shows "finalize_coins outputs r b ct (done @ filter (beneficial r) optional) = FInsufficientFunds"
  using assms
proof (induction optional arbitrary: "done")
  case (Cons x xs)
  show ?case
  proof (cases "beneficial r x")
    case True
    then have fin: "finalize_coins outputs r b ct (done @ [x]) = FInsufficientFunds"
      and rest: "accumulate_optional (sum_list (map cso_amount outputs)) (map cso_weight outputs) r b ct xs
        (map csi_index (done @ [x])) (sum_list (map csi_amount (done @ [x])))
        (map csi_script_type (done @ [x])) = InsufficientFunds"
      using Cons.prems(1)
      by (auto simp: Let_def beneficial_def not_less [symmetric] finalize_coins_def success_of_Some
          success_of_None split: option.splits)
    show ?thesis
      using Cons.IH [OF rest] fin True by (cases "filter (beneficial r) xs = []") auto
  next
    case False
    then have "xs \<noteq> []" using Cons.prems(2) by auto
    moreover have "csi_amount x < calculate_fee r (input_weight (csi_script_type x))"
      using False by (simp add: beneficial_def not_le)
    ultimately show ?thesis using False Cons by (simp add: Let_def)
  qed
qed simp

lemma accumulative_complete:
  assumes "accumulative inputs outputs r b ct = InsufficientFunds"
  defines "coins \<equiv> filter csi_required inputs @ filter (\<lambda>i. \<not> csi_required i \<and> beneficial r i) inputs"
  assumes "coins \<noteq> []"
  shows "finalize_coins outputs r b ct coins = FInsufficientFunds"
proof -
  let ?req = "filter csi_required inputs" and ?opt = "filter (\<lambda>i. \<not> csi_required i) inputs"
  have coins: "coins = ?req @ filter (beneficial r) ?opt"
    by (simp add: coins_def conj_commute)
  have greedy: "accumulate_optional (sum_list (map cso_amount outputs)) (map cso_weight outputs) r b ct ?opt
      (map csi_index ?req) (sum_list (map csi_amount ?req)) (map csi_script_type ?req) = InsufficientFunds"
    and req: "?req \<noteq> [] \<Longrightarrow> finalize_coins outputs r b ct ?req = FInsufficientFunds"
    using assms(1)
    by (auto simp: accumulative_def Let_def finalize_coins_def success_of_Some success_of_None
        split: if_splits option.splits)
  show ?thesis
  proof (cases "filter (beneficial r) ?opt = []")
    case True
    with coins req assms(3) show ?thesis by auto
  next
    case False
    with accumulate_optional_complete [OF greedy] show ?thesis by (simp add: coins)
  qed
qed

section \<open>Properties\<close>

text \<open>
  A send-max selection takes every coin except immature coinbase positions, in
  order; what remains after the fixed outputs and the fee of exactly that transaction is the
  amount sent, it is not dust, and nothing is lost.
\<close>

theorem split_send_max:
  assumes "split inputs outputs r b ct confs cb = SendMax sel max_amount fee w"
  shows "sel = map csi_index (mature_inputs confs cb 0 inputs)
    \<and> w = transaction_weight (map csi_script_type (mature_inputs confs cb 0 inputs)) (map cso_weight outputs)
    \<and> fee = calculate_fee r w + b \<and> 546 \<le> max_amount
    \<and> sum_list (map cso_amount (filter (\<lambda>out. \<not> cso_is_send_max out) outputs)) + fee + max_amount
        = sum_list (map csi_amount (mature_inputs confs cb 0 inputs))"
  using assms by (auto simp: split_def split_loop_mature Let_def split: if_splits)

theorem split_send_max_witness:
  "split [\<lparr>csi_index = 0, csi_amount = 60000, csi_script_type = SpendWitness, csi_required = False, csi_weight = 272\<rparr>]
     [\<lparr>cso_amount = 0, cso_weight = 124, cso_is_send_max = True\<rparr>] (Fin 2) 0 SpendWitness [0] [False]
     = SendMax [0] 59780 220 438
   \<and> (220 :: u64) = calculate_fee (Fin 2) 438 + 0"
proof -
  have "split [\<lparr>csi_index = 0, csi_amount = 60000, csi_script_type = SpendWitness, csi_required = False, csi_weight = 272\<rparr>]
     [\<lparr>cso_amount = 0, cso_weight = 124, cso_is_send_max = True\<rparr>] (Fin 2) 0 SpendWitness [0] [False]
     = SendMax [0] 59780 220 438"
    using one_p2wpkh_payment
    by (simp add: split_def split_loop_mature mature_def get_or_def Let_def)
  from this split_send_max [OF this] show ?thesis by simp
qed

text \<open>
  The greedy selection reports insufficient funds only when
  the required coins together with every coin worth its own fee cannot pay the outputs and the
  fee of the transaction that spends them all.
\<close>

theorem accumulative_refuses_only_when_poor:
  assumes "accumulative inputs outputs r b ct = InsufficientFunds"
    and "coins = filter csi_required inputs @ filter (\<lambda>i. \<not> csi_required i \<and> beneficial r i) inputs"
    and "coins \<noteq> []"
    and "finalize_fits (sum_list (map cso_amount outputs)) r b (map csi_script_type coins)
      (map cso_weight outputs) ct"
  shows "unat (sum_list (map csi_amount coins)) <
      unat (sum_list (map cso_amount outputs))
      + required_fee r b (transaction_weight (map csi_script_type coins) (map cso_weight outputs))"
proof -
  have "finalize_coins outputs r b ct coins = FInsufficientFunds"
    using accumulative_complete [OF assms(1)] assms(2,3) by blast
  with finalize_insufficient_iff [OF assms(4)] show ?thesis by (simp add: finalize_coins_def)
qed

lemma one_input_fee: "calculate_fee (Fin 2) 272 = 136"
  using calculate_fee_int [of 2 272] by (simp add: weight_to_vbytes_def)

theorem accumulative_refuses_only_when_poor_witness:
  "unat (50100 :: u64) < unat (50000 :: u64) + required_fee (Fin 2) 0 438"
proof -
  let ?i = "\<lparr>csi_index = 0, csi_amount = 50100, csi_script_type = SpendWitness, csi_required = False,
      csi_weight = 272\<rparr>" and ?o = "\<lparr>cso_amount = 50000, cso_weight = 124, cso_is_send_max = False\<rparr>"
  have "accumulative [?i] [?o] (Fin 2) 0 SpendWitness = InsufficientFunds"
    using one_p2wpkh_payment one_input_fee
    by (simp add: accumulative_def finalize_def Let_def)
  moreover have "finalize_fits 50000 (Fin 2) 0 [SpendWitness] [124] SpendWitness"
    using one_p2wpkh_payment by (simp add: finalize_fits_def required_fee_def)
  ultimately show ?thesis
    using accumulative_refuses_only_when_poor [of "[?i]" "[?o]" "Fin 2" 0 SpendWitness "[?i]"]
      one_p2wpkh_payment one_input_fee
    by (simp add: beneficial_def)
qed

end
