(* ===== verification/Stable_Sort.thy ===== *)
theory Stable_Sort
  imports Prelude
begin

text \<open>
  Rust's \<^verbatim>\<open>slice::sort_by\<close>: a stable sort by a comparator. A comparator enters as
  the relation ``not \<^verbatim>\<open>Greater\<close>''. The sort is an insertion sort; for a total preorder
  the stable sorted permutation of a list is unique (\<open>stable_unique\<close> below), so the choice of
  algorithm does not show.
\<close>

fun insort_by :: "('a \<Rightarrow> 'a \<Rightarrow> bool) \<Rightarrow> 'a \<Rightarrow> 'a list \<Rightarrow> 'a list" where
  "insort_by le x [] = [x]"
| "insort_by le x (y # ys) = (if le x y then x # y # ys else y # insort_by le x ys)"

definition sort_by :: "('a \<Rightarrow> 'a \<Rightarrow> bool) \<Rightarrow> 'a list \<Rightarrow> 'a list" where
  "sort_by le xs = foldr (insort_by le) xs []"

lemma sort_by_simps [simp]:
  "sort_by le [] = []" "sort_by le (x # xs) = insort_by le x (sort_by le xs)"
  by (simp_all add: sort_by_def)

lemma mset_insort_by [simp]: "mset (insort_by le x xs) = add_mset x (mset xs)"
  by (induction xs) auto

lemma mset_sort_by [simp]: "mset (sort_by le xs) = mset xs"
  by (induction xs) auto

lemma set_sort_by [simp]: "set (sort_by le xs) = set xs"
  by (metis mset_sort_by set_mset_mset)

lemma length_sort_by [simp]: "length (sort_by le xs) = length xs"
  by (metis mset_sort_by size_mset)

lemma distinct_sort_by [simp]: "distinct (sort_by le xs) = distinct xs"
  by (metis mset_sort_by mset_eq_imp_distinct_iff)

lemma sort_by_empty [simp]: "sort_by le xs = [] \<longleftrightarrow> xs = []"
  by (metis length_0_conv length_sort_by)

text \<open>The contract a comparator must meet for \<^verbatim>\<open>sort_by\<close> to sort.\<close>

locale comparator =
  fixes le :: "'a \<Rightarrow> 'a \<Rightarrow> bool"
  assumes total: "le x y \<or> le y x"
    and trans: "le x y \<Longrightarrow> le y z \<Longrightarrow> le x z"
begin

definition equiv :: "'a \<Rightarrow> 'a \<Rightarrow> bool" where
  "equiv x y \<longleftrightarrow> le x y \<and> le y x"

lemma refl: "le x x"
  using total by blast

lemma sorted_insort_by: "sorted_wrt le xs \<Longrightarrow> sorted_wrt le (insort_by le x xs)"
proof (induction xs)
  case (Cons y ys)
  have "z = x \<or> z \<in> set ys" if "z \<in> set (insort_by le x ys)" for z
    using that by (metis mset_insort_by set_mset_add_mset_insert set_mset_mset insert_iff)
  with Cons total trans show ?case by auto blast
qed simp

lemma sorted_sort_by: "sorted_wrt le (sort_by le xs)"
  by (induction xs) (auto intro: sorted_insort_by)

lemma filter_insort_by:
  assumes "sorted_wrt le xs"
  shows "filter (equiv k) (insort_by le x xs) = filter (equiv k) (x # xs)"
  using assms
proof (induction xs)
  case (Cons y ys)
  have "\<not> (equiv k x \<and> equiv k y)" if "\<not> le x y"
    using that trans unfolding equiv_def by blast
  with Cons show ?case by auto
qed simp

lemma stable_sort_by: "filter (equiv k) (sort_by le xs) = filter (equiv k) xs"
  by (induction xs) (simp_all add: filter_insort_by sorted_sort_by)

lemma stable_unique_aux:
  assumes "sorted_wrt le xs" "sorted_wrt le ys" "mset xs = mset ys"
    and "\<And>k. filter (equiv k) xs = filter (equiv k) ys"
  shows "xs = ys"
  using assms
proof (induction xs arbitrary: ys)
  case (Cons x xs)
  then obtain y ys' where ys: "ys = y # ys'" by (cases ys) auto
  have "x \<in> set ys" "y \<in> set (x # xs)"
    using Cons.prems(3) ys by (metis list.set_intros(1) set_mset_mset)+
  then have "le x y" "le y x" using Cons.prems(1,2) ys refl by auto
  then have "equiv x x" "equiv x y" by (simp_all add: equiv_def refl)
  then have [simp]: "y = x" using Cons.prems(4) [of x] ys by simp
  have "filter (equiv k) xs = filter (equiv k) ys'" for k
    using Cons.prems(4) [of k] ys by (simp split: if_splits)
  with Cons ys show ?case by auto
qed simp

lemma stable_unique:
  assumes "sorted_wrt le ys" and "mset ys = mset xs"
    and "\<And>k. filter (equiv k) ys = filter (equiv k) xs"
  shows "ys = sort_by le xs"
proof (rule stable_unique_aux)
  show "filter (equiv k) ys = filter (equiv k) (sort_by le xs)" for k
    by (simp only: assms(3) stable_sort_by)
qed (simp_all only: assms(1,2) sorted_sort_by mset_sort_by)

lemma sort_by_id: "sorted_wrt le xs \<Longrightarrow> sort_by le xs = xs"
  by (rule stable_unique [symmetric]) simp_all

end

end
