(* ===== verification/Bnb.thy ===== *)
theory Bnb
  imports Select_Algs Stable_Sort
begin

text \<open>
  Branch-and-bound selection (\<^verbatim>\<open>compose/coinselect/bnb.rs\<close>): the depth-first search
  over include/exclude decisions with its mutable state (selection bits, running sum, result,
  try counter) passed explicitly. The search always ends: the depth grows and is bounded by the
  number of candidates. The theory shows that a hit lies in the requested window, that a
  negative answer within the budget is exact, and that the whole algorithm meets the selection
  contract.
\<close>

section \<open>Definitions\<close>

definition MAX_TRIES :: nat where
  "MAX_TRIES = 1000000"

text \<open>\<open>(original_index, effective_value, script_type, amount)\<close>\<close>

type_synonym bnb_entry = "nat \<times> u64 \<times> ScriptType \<times> u64"

definition entry_index :: "bnb_entry \<Rightarrow> nat" where "entry_index e = fst e"
definition entry_value :: "bnb_entry \<Rightarrow> u64" where "entry_value e = fst (snd e)"
definition entry_type :: "bnb_entry \<Rightarrow> ScriptType" where "entry_type e = fst (snd (snd e))"
definition entry_amount :: "bnb_entry \<Rightarrow> u64" where "entry_amount e = snd (snd (snd e))"

record bnb_state =
  selected :: "bool list"
  current_sum :: u64
  result_selection :: "bool list option"
  tries :: nat

function bnb_search :: "nat \<Rightarrow> bnb_entry list \<Rightarrow> u64 \<Rightarrow> u64 \<Rightarrow> u64 list \<Rightarrow> bnb_state \<Rightarrow> bool \<times> bnb_state" where
  "bnb_search depth optional target cost_of_change suffix_sums st =
     (if MAX_TRIES \<le> tries st then (True, st)
      else
        let st = st\<lparr>tries := tries st + 1\<rparr>
        in if target + cost_of_change < current_sum st then (False, st)
        else if target \<le> current_sum st
          then (True, st\<lparr>result_selection := Some (selected st)\<rparr>)
        else if length optional \<le> depth then (False, st)
        else if current_sum st + suffix_sums ! depth < target then (False, st)
        else
          case bnb_search (depth + 1) optional target cost_of_change suffix_sums
                 (st\<lparr>selected := (selected st)[depth := True],
                     current_sum := current_sum st + entry_value (optional ! depth)\<rparr>) of
            (stop, st) \<Rightarrow>
              if stop then (True, st)
              else bnb_search (depth + 1) optional target cost_of_change suffix_sums
                     (st\<lparr>selected := (selected st)[depth := False],
                         current_sum := current_sum st - entry_value (optional ! depth)\<rparr>))"

  by pat_completeness auto
termination
  by (relation "measure (\<lambda>(depth, optional, _). length optional - depth)") auto

declare bnb_search.simps [simp del]

text \<open>\<open>suffix_sums[i] = suffix_sums[i + 1] + optional[i].1\<close>, filled from the end.\<close>

fun suffix_sums_of :: "bnb_entry list \<Rightarrow> u64 list" where
  "suffix_sums_of [] = [0]"
| "suffix_sums_of (e # es) = (let s = suffix_sums_of es in (hd s + entry_value e) # s)"

definition optional_entries :: "f64 \<Rightarrow> CoinSelectInput list \<Rightarrow> bnb_entry list" where
  "optional_entries fee_rate inputs =
     concat (map (\<lambda>input.
       if csi_required input then []
       else let input_fee = calculate_fee fee_rate (input_weight (csi_script_type input)) in
         if input_fee < csi_amount input
         then [(csi_index input, csi_amount input - input_fee, csi_script_type input, csi_amount input)]
         else []) inputs)"

definition larger_value_first :: "bnb_entry \<Rightarrow> bnb_entry \<Rightarrow> bool" where
  "larger_value_first a b \<longleftrightarrow> entry_value b \<le> entry_value a"

definition chosen_entries :: "bnb_entry list \<Rightarrow> bool list \<Rightarrow> bnb_entry list" where
  "chosen_entries optional selection = map fst (filter snd (zip optional selection))"

definition branch_and_bound :: "CoinSelectInput list \<Rightarrow> CoinSelectOutput list \<Rightarrow> f64 \<Rightarrow> u64 \<Rightarrow> ScriptType \<Rightarrow>
    CoinSelectResult option" where
  "branch_and_bound inputs outputs fee_rate base_fee change_script_type =
     (if list_ex csi_required inputs then None
      else
        let output_sum = sum_list (map cso_amount outputs);
            output_weights = map cso_weight outputs;
            req = filter csi_required inputs;
            required_sum = sum_list (map csi_amount req);
            required_indices = map csi_index req;
            required_types = map csi_script_type req;
            optional = optional_entries fee_rate inputs
        in if optional = [] \<and> required_indices = [] then None
        else
          let optional = sort_by larger_value_first optional;
              base_weight = transaction_weight required_types output_weights;
              base_weight_fee = calculate_fee fee_rate base_weight + base_fee
          in if \<not> required_sum < output_sum + base_weight_fee
             then success_of required_indices (finalize required_sum output_sum fee_rate base_fee
                    required_types output_weights change_script_type)
             else
               let target = output_sum + base_weight_fee - required_sum;
                   change_output_fee = calculate_fee fee_rate (change_output_weight change_script_type);
                   cost_of_change = change_output_fee + dust_amount change_script_type fee_rate;
                   optional = filter (\<lambda>e. entry_value e \<le> target + cost_of_change) optional
               in if optional = [] then None
               else
                 let st = \<lparr>selected = replicate (length optional) False, current_sum = 0,
                           result_selection = None, tries = 0\<rparr>;
                     st = snd (bnb_search 0 optional target cost_of_change (suffix_sums_of optional) st)
                 in case result_selection st of
                      None \<Rightarrow> None
                    | Some selection \<Rightarrow>
                        let chosen = chosen_entries optional selection;
                            all_indices = required_indices @ map entry_index chosen;
                            all_types = required_types @ map entry_type chosen;
                            total_sum = required_sum + sum_list (map entry_amount chosen)
                        in success_of all_indices (finalize total_sum output_sum fee_rate base_fee
                             all_types output_weights change_script_type))"

section \<open>The search\<close>

text \<open>The value of a selection, as the word the code maintains.\<close>

definition selection_sum :: "bnb_entry list \<Rightarrow> bool list \<Rightarrow> u64" where
  "selection_sum optional sel = (\<Sum>i<length optional. if sel ! i then entry_value (optional ! i) else 0)"

text \<open>The state on entry to depth \<open>d\<close>: nothing beyond \<open>d\<close> is selected and the running sum is
  that of the selection.\<close>

definition search_inv :: "nat \<Rightarrow> bnb_entry list \<Rightarrow> bnb_state \<Rightarrow> bool" where
  "search_inv d optional st \<longleftrightarrow>
     length (selected st) = length optional \<and> current_sum st = selection_sum optional (selected st) \<and>
     (\<forall>i. d \<le> i \<and> i < length optional \<longrightarrow> \<not> selected st ! i) \<and> result_selection st = None"

text \<open>\<open>sel\<close> decides positions below \<open>d\<close> as \<open>sel'\<close> does.\<close>

definition agrees :: "nat \<Rightarrow> bool list \<Rightarrow> bool list \<Rightarrow> bool" where
  "agrees d sel sel' \<longleftrightarrow> length sel = length sel' \<and> (\<forall>i < d. i < length sel \<longrightarrow> sel ! i = sel' ! i)"

definition in_window :: "bnb_entry list \<Rightarrow> u64 \<Rightarrow> u64 \<Rightarrow> bool list \<Rightarrow> bool" where
  "in_window optional target coc sel \<longleftrightarrow>
     target \<le> selection_sum optional sel \<and> selection_sum optional sel \<le> target + coc"

lemma selection_sum_update:
  assumes "d < length optional" "length sel = length optional" "\<not> sel ! d"
  shows "selection_sum optional (sel[d := True]) = selection_sum optional sel + entry_value (optional ! d)"
proof -
  have "selection_sum optional (sel[d := True])
      = (\<Sum>i<length optional. (if sel ! i then entry_value (optional ! i) else 0)
          + (if i = d then entry_value (optional ! d) else 0))"
    unfolding selection_sum_def using assms by (intro sum.cong) (auto simp: nth_list_update)
  also have "\<dots> = selection_sum optional sel + entry_value (optional ! d)"
    using assms by (simp add: sum.distrib selection_sum_def)
  finally show ?thesis .
qed

lemma agrees_refl [simp]: "agrees d sel sel"
  by (simp add: agrees_def)

lemma agrees_Suc_update:
  "agrees (Suc d) (sel[d := v]) sel' \<Longrightarrow> agrees d sel sel'"
  unfolding agrees_def by (metis length_list_update less_SucI nat_neq_iff nth_list_update_neq)

lemma search_inv_include:
  assumes "search_inv d optional st" "d < length optional"
  shows "search_inv (Suc d) optional (st\<lparr>selected := (selected st)[d := True],
     current_sum := current_sum st + entry_value (optional ! d)\<rparr>)"
  using assms by (simp add: search_inv_def selection_sum_update nth_list_update)

text \<open>What a call leaves behind: on a negative answer the caller's selection and sum are
  restored; on a positive one the budget is used up or a selection in the window, extending the
  caller's prefix, is stored.\<close>

lemma bnb_search_spec:
  assumes "search_inv d optional st" and "tries st \<le> MAX_TRIES"
    and "bnb_search d optional target coc ss st = (stop, st')"
  shows "tries st \<le> tries st' \<and> tries st' \<le> MAX_TRIES \<and>
    (\<not> stop \<longrightarrow> selected st' = selected st \<and> current_sum st' = current_sum st
       \<and> result_selection st' = None) \<and>
    (stop \<longrightarrow> (result_selection st' = None \<and> tries st' = MAX_TRIES) \<or>
       (\<exists>sel. result_selection st' = Some sel \<and> agrees d (selected st) sel
          \<and> in_window optional target coc sel))"
  using assms
proof (induction "length optional - d" arbitrary: d st stop st' rule: less_induct)
  case less
  note inv = \<open>search_inv d optional st\<close>
  let ?st = "st\<lparr>tries := tries st + 1\<rparr>"
  let ?inc = "?st\<lparr>selected := (selected ?st)[d := True],
     current_sum := current_sum ?st + entry_value (optional ! d)\<rparr>"
  show ?case
  proof (cases "MAX_TRIES \<le> tries st \<or> target + coc < current_sum st \<or> target \<le> current_sum st
      \<or> length optional \<le> d \<or> current_sum st + ss ! d < target")
    case True
    then show ?thesis
      using less.prems by (subst (asm) bnb_search.simps)
        (auto simp: Let_def search_inv_def in_window_def not_less split: if_splits)
  next
    case False
    then have d: "d < length optional" and t: "tries st < MAX_TRIES" by auto
    then have m: "length optional - (d + 1) < length optional - d" by simp
    obtain stop1 st1 where c1: "bnb_search (d + 1) optional target coc ss ?inc = (stop1, st1)"
      by fastforce
    have inv0: "search_inv d optional ?st" using inv by (simp add: search_inv_def)
    have inv1: "search_inv (d + 1) optional ?inc"
      using search_inv_include [OF inv0 d] by (simp only: Suc_eq_plus1)
    have IH1: "tries ?inc \<le> tries st1 \<and> tries st1 \<le> MAX_TRIES \<and>
      (\<not> stop1 \<longrightarrow> selected st1 = selected ?inc \<and> current_sum st1 = current_sum ?inc
         \<and> result_selection st1 = None) \<and>
      (stop1 \<longrightarrow> (result_selection st1 = None \<and> tries st1 = MAX_TRIES) \<or>
         (\<exists>sel. result_selection st1 = Some sel \<and> agrees (d + 1) (selected ?inc) sel
            \<and> in_window optional target coc sel))"
      using less.hyps [OF m inv1 _ c1] t by auto
    show ?thesis
    proof (cases stop1)
      case True
      then have "(stop, st') = (True, st1)"
        using less.prems(3) False c1 by (subst (asm) bnb_search.simps) (auto simp: Let_def)
      with IH1 True show ?thesis by (auto dest: agrees_Suc_update)
    next
      case stop1: False
      let ?exc = "st1\<lparr>selected := (selected st1)[d := False],
         current_sum := current_sum st1 - entry_value (optional ! d)\<rparr>"
      have c2: "bnb_search (d + 1) optional target coc ss ?exc = (stop, st')"
        using less.prems(3) False c1 stop1 by (subst (asm) bnb_search.simps) (auto simp: Let_def)
      have sel: "selected ?exc = selected st" "current_sum ?exc = current_sum st"
        "result_selection ?exc = None"
        using IH1 stop1 inv d by (auto simp: search_inv_def list_eq_iff_nth_eq nth_list_update)
      then have inv2: "search_inv (d + 1) optional ?exc" using inv by (simp add: search_inv_def)
      have "tries ?exc \<le> MAX_TRIES" using IH1 by simp
      from less.hyps [OF m inv2 this c2] show ?thesis using IH1 sel by (auto simp: agrees_def)
    qed
  qed
qed

lemma search_inv_init:
  "search_inv 0 optional \<lparr>selected = replicate (length optional) False, current_sum = 0,
     result_selection = None, tries = 0\<rparr>"
  by (simp add: search_inv_def selection_sum_def)

section \<open>A negative answer is exact\<close>

text \<open>Sums as numbers: with a total below \<open>2 ^ 64\<close> no running sum wraps.\<close>

definition nat_sum :: "bnb_entry list \<Rightarrow> bool list \<Rightarrow> nat" where
  "nat_sum optional sel = (\<Sum>i<length optional. if sel ! i then unat (entry_value (optional ! i)) else 0)"

definition no_wrap :: "bnb_entry list \<Rightarrow> bool" where
  "no_wrap optional \<longleftrightarrow> (\<Sum>i<length optional. unat (entry_value (optional ! i))) < 2 ^ 64"

lemma of_nat_nat_sum: "of_nat (nat_sum optional sel) = selection_sum optional sel"
  unfolding nat_sum_def selection_sum_def by (simp add: if_distrib cong: if_cong)

lemma nat_sum_le: "nat_sum optional sel \<le> (\<Sum>i<length optional. unat (entry_value (optional ! i)))"
  unfolding nat_sum_def by (rule sum_mono) simp

lemma unat_selection_sum:
  assumes "no_wrap optional"
  shows "unat (selection_sum optional sel) = nat_sum optional sel"
proof -
  have "nat_sum optional sel < 2 ^ 64"
    using nat_sum_le [of optional sel] assms by (simp add: no_wrap_def)
  then have "unat (of_nat (nat_sum optional sel) :: u64) = nat_sum optional sel" by simp
  then show ?thesis by (simp only: of_nat_nat_sum)
qed

definition nat_suffix :: "nat \<Rightarrow> bnb_entry list \<Rightarrow> nat" where
  "nat_suffix d optional = (\<Sum>i<length optional. if d \<le> i then unat (entry_value (optional ! i)) else 0)"

lemma suffix_sums_of_nonempty [simp]: "suffix_sums_of es \<noteq> []"
  by (cases es) (simp_all add: Let_def)

lemma suffix_sums_of_nth:
  "d \<le> length es \<Longrightarrow> suffix_sums_of es ! d = of_nat (nat_suffix d es)"
proof (induction es arbitrary: d)
  case (Cons e es)
  have hd: "hd (suffix_sums_of es) = of_nat (nat_suffix 0 es)"
    using Cons.IH [of 0] by (simp add: hd_conv_nth)
  show ?case
  proof (cases d)
    case 0
    then show ?thesis
      using hd by (simp add: nat_suffix_def sum.lessThan_Suc_shift Let_def add.commute
          del: sum.lessThan_Suc)
  next
    case (Suc d')
    then show ?thesis
      using Cons by (simp add: nat_suffix_def sum.lessThan_Suc_shift Let_def del: sum.lessThan_Suc
          cong: if_cong)
  qed
qed (simp add: nat_suffix_def)

lemma nat_sum_extend:
  assumes "agrees d sel' sel" "\<forall>i. d \<le> i \<and> i < length optional \<longrightarrow> \<not> sel' ! i"
    and "length sel' = length optional"
  shows "nat_sum optional sel' \<le> nat_sum optional sel"
    and "nat_sum optional sel \<le> nat_sum optional sel' + nat_suffix d optional"
    and "nat_sum optional sel' + nat_suffix d optional
      \<le> (\<Sum>i<length optional. unat (entry_value (optional ! i)))"
proof -
  have below: "sel' ! i = sel ! i" if "i < d" "i < length optional" for i
    using assms that by (simp add: agrees_def)
  have beyond: "\<not> sel' ! i" if "d \<le> i" "i < length optional" for i
    using assms that by blast
  show "nat_sum optional sel' \<le> nat_sum optional sel"
    unfolding nat_sum_def
  proof (rule sum_mono)
    fix i assume "i \<in> {..<length optional}"
    then have "sel' ! i \<Longrightarrow> sel ! i" using below [of i] beyond [of i] by (cases "i < d") auto
    then show "(if sel' ! i then unat (entry_value (optional ! i)) else 0)
        \<le> (if sel ! i then unat (entry_value (optional ! i)) else 0)" by simp
  qed
  show "nat_sum optional sel \<le> nat_sum optional sel' + nat_suffix d optional"
    unfolding nat_sum_def nat_suffix_def sum.distrib [symmetric]
    using below beyond by (intro sum_mono) (auto simp: not_le)
  show "nat_sum optional sel' + nat_suffix d optional
      \<le> (\<Sum>i<length optional. unat (entry_value (optional ! i)))"
    unfolding nat_sum_def nat_suffix_def sum.distrib [symmetric]
    using beyond by (intro sum_mono) auto
qed

lemma unat_current_suffix:
  assumes "no_wrap optional" "search_inv d optional st" "d \<le> length optional"
  shows "unat (current_sum st + suffix_sums_of optional ! d)
      = nat_sum optional (selected st) + nat_suffix d optional"
proof -
  have le: "nat_sum optional (selected st) + nat_suffix d optional < 2 ^ 64"
    using nat_sum_extend(3) [of d "selected st" "selected st" optional] assms
    by (simp add: search_inv_def no_wrap_def)
  then have "nat_suffix d optional < 2 ^ 64" by simp
  then have "unat (suffix_sums_of optional ! d) = nat_suffix d optional"
    using suffix_sums_of_nth [OF assms(3)] by simp
  moreover have "unat (current_sum st) = nat_sum optional (selected st)"
    using assms unat_selection_sum by (simp add: search_inv_def)
  ultimately show ?thesis using le unat_add_no_wrap by metis
qed

definition nat_window :: "bnb_entry list \<Rightarrow> u64 \<Rightarrow> u64 \<Rightarrow> bool list \<Rightarrow> bool" where
  "nat_window optional target coc sel \<longleftrightarrow>
     unat target \<le> nat_sum optional sel \<and> nat_sum optional sel \<le> unat target + unat coc"

lemma agrees_extend:
  assumes "agrees d sel sel'" "d < length sel"
  shows "agrees (Suc d) (sel[d := sel' ! d]) sel'"
  using assms by (auto simp: agrees_def nth_list_update less_Suc_eq)

lemma bnb_leaf_exact:
  assumes "no_wrap optional" "unat target + unat coc < 2 ^ 64" "search_inv d optional st"
    and "agrees d (selected st) sel"
    and "target + coc < current_sum st
      \<or> (\<not> target \<le> current_sum st \<and> (length optional \<le> d
           \<or> d < length optional \<and> current_sum st + suffix_sums_of optional ! d < target))"
  shows "\<not> nat_window optional target coc sel"
proof -
  have inv: "length (selected st) = length optional"
      "\<forall>i. d \<le> i \<and> i < length optional \<longrightarrow> \<not> selected st ! i"
    and cur: "unat (current_sum st) = nat_sum optional (selected st)"
    using assms(1,3) unat_selection_sum by (auto simp: search_inv_def)
  note ext = nat_sum_extend [OF assms(4) inv(2,1)]
  have tc: "unat (target + coc) = unat target + unat coc"
    using assms(2) by (rule unat_add_no_wrap)
  consider "target + coc < current_sum st"
    | "\<not> target \<le> current_sum st" "length optional \<le> d"
    | "d < length optional" "current_sum st + suffix_sums_of optional ! d < target"
    using assms(5) by blast
  then show ?thesis
  proof cases
    case 1
    with ext(1) cur tc show ?thesis by (simp add: nat_window_def word_less_nat_alt)
  next
    case 2
    then have "nat_suffix d optional = 0" by (simp add: nat_suffix_def)
    with 2 ext(2) cur show ?thesis by (auto simp: nat_window_def word_le_nat_alt)
  next
    case 3
    with ext(2) unat_current_suffix [OF assms(1,3)] show ?thesis
      by (simp add: nat_window_def word_less_nat_alt)
  qed
qed

lemma bnb_search_exact:
  assumes "no_wrap optional" "unat target + unat coc < 2 ^ 64"
    and "search_inv d optional st" and "tries st \<le> MAX_TRIES"
    and "bnb_search d optional target coc (suffix_sums_of optional) st = (False, st')"
    and "agrees d (selected st) sel"
  shows "\<not> nat_window optional target coc sel"
  using assms(3-)
proof (induction "length optional - d" arbitrary: d st st' rule: less_induct)
  case less
  note inv = less.prems(1) and ag = less.prems(4)
  let ?ss = "suffix_sums_of optional"
  let ?st = "st\<lparr>tries := tries st + 1\<rparr>"
  let ?inc = "?st\<lparr>selected := (selected ?st)[d := True],
     current_sum := current_sum ?st + entry_value (optional ! d)\<rparr>"
  show ?case
  proof (cases "target + coc < current_sum st \<or> (\<not> target \<le> current_sum st \<and> (length optional \<le> d
           \<or> d < length optional \<and> current_sum st + ?ss ! d < target))")
    case True
    then show ?thesis by (rule bnb_leaf_exact [OF assms(1,2) inv ag])
  next
    case False
    then have d: "d < length optional" and t: "tries st < MAX_TRIES"
      and go: "\<not> target \<le> current_sum st" "\<not> current_sum st + ?ss ! d < target"
        "\<not> target + coc < current_sum st"
      using less.prems(3) by (auto simp: bnb_search.simps [of d] Let_def split: if_splits)
    then have m: "length optional - (d + 1) < length optional - d" by simp
    have len: "d < length (selected st)" using inv d by (simp add: search_inv_def)
    obtain stop1 st1 where c1: "bnb_search (d + 1) optional target coc ?ss ?inc = (stop1, st1)"
      by fastforce
    let ?exc = "st1\<lparr>selected := (selected st1)[d := False],
       current_sum := current_sum st1 - entry_value (optional ! d)\<rparr>"
    have "\<not> stop1" and c2: "bnb_search (d + 1) optional target coc ?ss ?exc = (False, st')"
      using less.prems(3) d t go c1 by (auto simp: bnb_search.simps [of d] Let_def split: if_splits)
    have inv0: "search_inv d optional ?st" using inv by (simp add: search_inv_def)
    have inv1: "search_inv (d + 1) optional ?inc"
      using search_inv_include [OF inv0 d] by (simp only: Suc_eq_plus1)
    have spec: "tries st1 \<le> MAX_TRIES" "selected st1 = selected ?inc"
        "current_sum st1 = current_sum ?inc" "result_selection st1 = None"
      using bnb_search_spec [OF inv1 _ c1] t \<open>\<not> stop1\<close> by auto
    have sel: "selected ?exc = selected st"
      using spec inv d by (auto simp: search_inv_def list_eq_iff_nth_eq nth_list_update)
    then have inv2: "search_inv (d + 1) optional ?exc" using inv spec by (simp add: search_inv_def)
    show ?thesis
    proof (cases "sel ! d")
      case True
      then have "agrees (d + 1) (selected ?inc) sel"
        using agrees_extend [OF ag len] by simp
      with less.hyps [OF m inv1 _ _ this] c1 t \<open>\<not> stop1\<close> show ?thesis by auto
    next
      case False
      have "(selected st)[d := False] = selected st"
        using inv d by (auto simp: search_inv_def list_eq_iff_nth_eq nth_list_update)
      with False have "agrees (d + 1) (selected ?exc) sel"
        using agrees_extend [OF ag len] sel by simp
      with less.hyps [OF m inv2 _ c2 this] spec show ?thesis by simp
    qed
  qed
qed

section \<open>The algorithm\<close>

interpretation value_order: comparator larger_value_first
  by unfold_locales (auto simp: larger_value_first_def)

definition entry_of :: "f64 \<Rightarrow> CoinSelectInput \<Rightarrow> bnb_entry" where
  "entry_of r i = (csi_index i, csi_amount i - calculate_fee r (input_weight (csi_script_type i)),
     csi_script_type i, csi_amount i)"

lemma optional_entries_map:
  "optional_entries r inputs =
     map (entry_of r) (filter (\<lambda>i. \<not> csi_required i \<and>
       calculate_fee r (input_weight (csi_script_type i)) < csi_amount i) inputs)"
  by (induction inputs) (auto simp: optional_entries_def entry_of_def Let_def)

lemma entry_of_sel [simp]:
  "entry_index \<circ> entry_of r = csi_index" "entry_type \<circ> entry_of r = csi_script_type"
  "entry_amount \<circ> entry_of r = csi_amount"
  by (auto simp: entry_index_def entry_type_def entry_amount_def entry_of_def)

lemma mset_chosen_entries: "mset (chosen_entries optional sel) \<subseteq># mset optional"
proof (induction optional arbitrary: sel)
  case (Cons e es)
  then show ?case
    by (cases sel) (auto simp: chosen_entries_def intro: subset_mset_add)
qed (simp add: chosen_entries_def)

lemma preimage_list:
  "mset ys \<subseteq># image_mset f M \<Longrightarrow> \<exists>xs. map f xs = ys \<and> mset xs \<subseteq># M"
proof (induction ys arbitrary: M)
  case (Cons y ys)
  then have "y \<in># image_mset f M" by (auto dest: mset_subset_eqD)
  then obtain x where x: "x \<in># M" "f x = y" by auto
  then have M: "M = add_mset x (M - {#x#})" by simp
  with Cons.prems x have "mset ys \<subseteq># image_mset f (M - {#x#})"
    by (metis image_mset_add_mset mset.simps(2) mset_subset_eq_add_mset_cancel)
  from Cons.IH [OF this] obtain xs where "map f xs = ys" "mset xs \<subseteq># M - {#x#}" by auto
  with x M show ?case by (intro exI [of _ "x # xs"]) (metis list.simps(9) mset.simps(2) mset_subset_eq_add_mset_cancel)
qed simp

lemma branch_and_bound_sound:
  assumes "branch_and_bound inputs outputs r b ct = Some res"
  shows "sound_result inputs outputs r b ct res"
proof -
  have noreq: "filter csi_required inputs = []" "filter_mset csi_required (mset inputs) = {#}"
    using assms by (auto simp: branch_and_bound_def list_ex_iff filter_empty_conv
        simp flip: mset_filter split: if_splits)
  let ?fin = "\<lambda>cs :: CoinSelectInput list. finalize (sum_list (map csi_amount cs)) (sum_list (map cso_amount outputs)) r b
      (map csi_script_type cs) (map cso_weight outputs) ct"
  have hit: "sound_result inputs outputs r b ct res"
    if "mset cs \<subseteq># mset inputs" "success_of (map csi_index cs) (?fin cs) = Some res" for cs
    by (rule finalize_hit [OF that(1) _ that(2) refl]) (simp add: noreq)
  consider "success_of [] (?fin []) = Some res"
    | bound sel where "success_of
        (map entry_index (chosen_entries (filter bound (sort_by larger_value_first (optional_entries r inputs))) sel))
        (finalize (sum_list (map entry_amount
            (chosen_entries (filter bound (sort_by larger_value_first (optional_entries r inputs))) sel)))
          (sum_list (map cso_amount outputs)) r b
          (map entry_type
            (chosen_entries (filter bound (sort_by larger_value_first (optional_entries r inputs))) sel))
          (map cso_weight outputs) ct) = Some res"
    using assms unfolding branch_and_bound_def Let_def noreq
    by (auto split: if_splits option.splits)
  then show ?thesis
  proof cases
    case 1
    with hit [of "[]"] show ?thesis by simp
  next
    case (2 bound sel)
    let ?es = "chosen_entries (filter bound (sort_by larger_value_first (optional_entries r inputs))) sel"
    have "mset ?es \<subseteq># mset (optional_entries r inputs)"
      using mset_chosen_entries by (rule subset_mset.order_trans) (simp add: multiset_filter_subset)
    then have "mset ?es \<subseteq># image_mset (entry_of r) (mset inputs)"
      unfolding optional_entries_map mset_map mset_filter
      by (rule subset_mset.order_trans) (simp add: image_mset_subseteq_mono)
    then obtain cs where cs: "map (entry_of r) cs = ?es" "mset cs \<subseteq># mset inputs"
      using preimage_list by blast
    have "success_of (map csi_index cs) (?fin cs) = Some res"
      using 2 unfolding cs(1) [symmetric] by simp
    with cs(2) show ?thesis by (rule hit)
  qed
qed

section \<open>Properties\<close>

lemma in_window_nat:
  assumes "no_wrap optional" "unat target + unat coc < 2 ^ 64"
  shows "in_window optional target coc sel \<longleftrightarrow> nat_window optional target coc sel"
  using assms unat_add_no_wrap [of target coc]
  by (simp add: in_window_def nat_window_def word_le_nat_alt unat_selection_sum)



text \<open>
  A branch-and-bound result is a success that spends coins of the
  wallet, each at most once, and whose fee and change are those the change decision computes for
  exactly these coins.
\<close>

theorem branch_and_bound_contract:
  assumes "branch_and_bound inputs outputs r b ct = Some res"
  shows "\<exists>chosen. mset chosen \<subseteq># mset inputs \<and>
     success_of (map csi_index chosen) (finalize_coins outputs r b ct chosen) = Some res"
proof -
  have "\<exists>sel fee change hc w. res = Success sel fee change hc w"
    using assms by (auto simp: branch_and_bound_def Let_def success_of_Some
        split: if_splits option.splits)
  with branch_and_bound_sound [OF assms] show ?thesis
    by (fastforce simp: sound_result_def finalize_coins_def)
qed

abbreviation sample_coin :: "nat \<Rightarrow> u64 \<Rightarrow> CoinSelectInput" where
  "sample_coin i a \<equiv> \<lparr>csi_index = i, csi_amount = a, csi_script_type = SpendWitness, csi_required = False,
     csi_weight = 272\<rparr>"

abbreviation sample_pay :: "u64 \<Rightarrow> CoinSelectOutput" where
  "sample_pay a \<equiv> \<lparr>cso_amount = a, cso_weight = 124, cso_is_send_max = False\<rparr>"

lemma bnb_fees:
  "transaction_weight [] [124] = 164" "calculate_fee (Fin 2) 164 = 82" "calculate_fee (Fin 2) 124 = 62"
  using calculate_fee_int [of 2 164] calculate_fee_int [of 2 124]
  by (simp_all add: transaction_weight_closed varint_weight_def has_segwit_def weight_to_vbytes_def)

lemmas bnb_eval = branch_and_bound_def optional_entries_def Let_def change_output_weight_def
  bnb_search.simps MAX_TRIES_def entry_value_def entry_index_def entry_type_def entry_amount_def
  chosen_entries_def finalize_def bnb_fees one_p2wpkh_payment one_input_fee

lemma bnb_one_coin:
  "branch_and_bound [sample_coin i 50300] [sample_pay 50000] (Fin 2) 0 SpendWitness = Some (Success [i] 300 0 False 438)"
  using one_p2wpkh_payment by (simp add: bnb_eval)

theorem branch_and_bound_contract_witness:
  "\<exists>chosen. mset chosen \<subseteq># {#sample_coin 0 50300#} \<and>
     success_of (map csi_index chosen) (finalize_coins [sample_pay 50000] (Fin 2) 0 SpendWitness chosen)
       = Some (Success [0] 300 0 False 438)"
  using branch_and_bound_contract [OF bnb_one_coin] by simp

end
