(* ===== verification/Coin_Select.thy ===== *)
theory Coin_Select
  imports Bnb
begin

text \<open>
  The routing of coin selection (\<^verbatim>\<open>coinselect\<close> in \<^verbatim>\<open>compose/coinselect/mod.rs\<close>) and
  the progressive confirmation filter around it (\<^verbatim>\<open>compose/tryconfirmed.rs\<close>). The
  filter loop is a client of the selection contract: it is proved once, in the locale
  \<open>selector\<close>, for every algorithm that meets the contract, and the locale is interpreted on
  \<open>coinselect\<close>.
\<close>

section \<open>Definitions\<close>

definition coinselect :: "CoinSelectInput list \<Rightarrow> CoinSelectOutput list \<Rightarrow> f64 \<Rightarrow> u64 \<Rightarrow> ScriptType \<Rightarrow>
    u32 list \<Rightarrow> bool list \<Rightarrow> CoinSelectResult" where
  "coinselect inputs outputs fee_rate base_fee change_script_type confirmations coinbase_flags =
     (if list_ex cso_is_send_max outputs
      then split inputs outputs fee_rate base_fee change_script_type confirmations coinbase_flags
      else case branch_and_bound inputs outputs fee_rate base_fee change_script_type of
             Some result \<Rightarrow> result
           | None \<Rightarrow> accumulative inputs outputs fee_rate base_fee change_script_type)"

definition DEFAULT_OWN_CONFIRMATIONS :: u32 where
  "DEFAULT_OWN_CONFIRMATIONS = 1"

definition DEFAULT_OTHER_CONFIRMATIONS :: u32 where
  "DEFAULT_OTHER_CONFIRMATIONS = 6"

record ConfFilter =
  own_min :: u32
  other_min :: u32

definition generate_trials :: "u32 \<Rightarrow> u32 \<Rightarrow> ConfFilter list" where
  "generate_trials own other =
     map (\<lambda>i. \<lparr>own_min = of_nat i, other_min = other\<rparr>) (rev [1..<Suc (unat own)])
     @ map (\<lambda>i. \<lparr>own_min = 1, other_min = of_nat i\<rparr>) (rev [1..<unat other])
     @ [\<lparr>own_min = 0, other_min = 1\<rparr>, \<lparr>own_min = 0, other_min = 0\<rparr>]"

text \<open>The filter closure: the input at position \<open>i\<close> of the slice.\<close>

definition passes :: "u32 list \<Rightarrow> bool list \<Rightarrow> bool list \<Rightarrow> ConfFilter \<Rightarrow> nat \<Rightarrow> CoinSelectInput \<Rightarrow> bool" where
  "passes confirmations is_own coinbase_flags f i input =
     (if csi_required input then True
      else
        let confs = get_or confirmations i 0;
            is_coinbase = get_or coinbase_flags i False
        in if is_coinbase \<and> confs < COINBASE_MIN_CONFIRMATIONS then False
           else
             let is_own_utxo = get_or is_own i False;
                 min_confs = (if is_own_utxo then own_min f else other_min f)
             in min_confs \<le> confs)"

definition filtered_inputs :: "u32 list \<Rightarrow> bool list \<Rightarrow> bool list \<Rightarrow> ConfFilter \<Rightarrow>
    CoinSelectInput list \<Rightarrow> CoinSelectInput list" where
  "filtered_inputs confirmations is_own coinbase_flags f inputs =
     map snd (filter (\<lambda>(i, input). passes confirmations is_own coinbase_flags f i input)
       (List.enumerate 0 inputs))"

type_synonym selection = "CoinSelectInput list \<Rightarrow> CoinSelectOutput list \<Rightarrow> f64 \<Rightarrow> u64 \<Rightarrow> ScriptType \<Rightarrow>
    u32 list \<Rightarrow> bool list \<Rightarrow> CoinSelectResult"

text \<open>One call of the selection on a filtered set, with the per-coin arrays looked up by the
  coin's original index.\<close>

definition run_trial :: "selection \<Rightarrow> CoinSelectOutput list \<Rightarrow> f64 \<Rightarrow> u64 \<Rightarrow> ScriptType \<Rightarrow>
    u32 list \<Rightarrow> bool list \<Rightarrow> CoinSelectInput list \<Rightarrow> CoinSelectResult" where
  "run_trial sel outputs fee_rate base_fee change_script_type confirmations coinbase_flags filtered =
     sel filtered outputs fee_rate base_fee change_script_type
       (map (\<lambda>input. get_or confirmations (csi_index input) 0) filtered)
       (map (\<lambda>input. get_or coinbase_flags (csi_index input) False) filtered)"

fun try_trials :: "selection \<Rightarrow> CoinSelectInput list \<Rightarrow> CoinSelectOutput list \<Rightarrow> f64 \<Rightarrow> u64 \<Rightarrow> ScriptType \<Rightarrow>
    u32 list \<Rightarrow> bool list \<Rightarrow> bool list \<Rightarrow> ConfFilter list \<Rightarrow> nat \<Rightarrow> CoinSelectResult" where
  "try_trials sel inputs outputs fee_rate base_fee change_script_type confirmations is_own coinbase_flags
     [] prev_usable_count = InsufficientFunds"
| "try_trials sel inputs outputs fee_rate base_fee change_script_type confirmations is_own coinbase_flags
     (f # trials) prev_usable_count =
     (let filtered = filtered_inputs confirmations is_own coinbase_flags f inputs in
      if filtered = [] \<or> length filtered = prev_usable_count
      then try_trials sel inputs outputs fee_rate base_fee change_script_type confirmations is_own
             coinbase_flags trials prev_usable_count
      else
        case run_trial sel outputs fee_rate base_fee change_script_type confirmations coinbase_flags filtered of
          InsufficientFunds \<Rightarrow>
            try_trials sel inputs outputs fee_rate base_fee change_script_type confirmations is_own
              coinbase_flags trials (length filtered)
        | result \<Rightarrow> result)"

definition try_confirmed :: "CoinSelectInput list \<Rightarrow> CoinSelectOutput list \<Rightarrow> f64 \<Rightarrow> u64 \<Rightarrow> ScriptType \<Rightarrow>
    u32 list \<Rightarrow> bool list \<Rightarrow> bool list \<Rightarrow> u32 option \<Rightarrow> u32 option \<Rightarrow> CoinSelectResult" where
  "try_confirmed inputs outputs fee_rate base_fee change_script_type confirmations is_own coinbase_flags
     own_confirmations other_confirmations =
     (let own = (case own_confirmations of Some n \<Rightarrow> n | None \<Rightarrow> DEFAULT_OWN_CONFIRMATIONS);
          other = (case other_confirmations of Some n \<Rightarrow> n | None \<Rightarrow> DEFAULT_OTHER_CONFIRMATIONS)
      in try_trials coinselect inputs outputs fee_rate base_fee change_script_type confirmations is_own
           coinbase_flags (generate_trials own other) 0)"

section \<open>The filter\<close>

lemma mset_filtered_inputs: "mset (filtered_inputs confs own cb f inputs) \<subseteq># mset inputs"
proof -
  have "mset (map snd (filter P (List.enumerate n xs))) \<subseteq># mset xs" for P n and xs :: "'a list"
    by (induction xs arbitrary: n) (auto intro: subset_mset_add)
  then show ?thesis by (simp only: filtered_inputs_def)
qed

lemma filtered_inputs_required:
  "filter_mset csi_required (mset (filtered_inputs confs own cb f inputs))
     = filter_mset csi_required (mset inputs)"
proof -
  have "filter_mset csi_required (mset (map snd (filter (\<lambda>(i, x). passes confs own cb f i x)
      (List.enumerate n xs)))) = filter_mset csi_required (mset xs)" for n xs
    by (induction xs arbitrary: n) (auto simp: passes_def)
  then show ?thesis by (simp only: filtered_inputs_def)
qed

lemma sound_result_filtered:
  assumes "sound_result (filtered_inputs confs own cb f inputs) outputs r b ct res"
  shows "sound_result inputs outputs r b ct res"
proof -
  have "funds inputs outputs r b ct chosen res"
    if "funds (filtered_inputs confs own cb f inputs) outputs r b ct chosen res" for chosen
    using that mset_filtered_inputs [of confs own cb f inputs]
      filtered_inputs_required [of confs own cb f inputs]
    by (cases res) (auto intro: subset_mset.order_trans)
  with assms show ?thesis unfolding sound_result_def by blast
qed

text \<open>The contract of a selection algorithm, and the filter loop as its client.\<close>

locale selector =
  fixes sel :: selection
  assumes sel_sound: "sound_result inputs outputs r b ct (sel inputs outputs r b ct confs cb)"
begin

lemma try_trials_sound:
  "sound_result inputs outputs r b ct
     (try_trials sel inputs outputs r b ct confs own cb trials prev)"
proof (induction trials arbitrary: prev)
  case (Cons f trials)
  have "sound_result inputs outputs r b ct
      (run_trial sel outputs r b ct confs cb (filtered_inputs confs own cb f inputs))"
    by (rule sound_result_filtered [of confs own cb f]) (simp add: run_trial_def sel_sound)
  with Cons show ?case by (auto simp: Let_def split: CoinSelectResult.splits)
qed simp

end

lemma coinselect_sound:
  "sound_result inputs outputs r b ct (coinselect inputs outputs r b ct confs cb)"
  by (auto simp: coinselect_def split_sound accumulative_sound branch_and_bound_sound split: option.splits)

interpretation coinselect: selector coinselect
  by unfold_locales (rule coinselect_sound)

section \<open>Exhaustion\<close>

text \<open>A filter is weaker when both thresholds are lower.\<close>

definition weaker :: "ConfFilter \<Rightarrow> ConfFilter \<Rightarrow> bool" where
  "weaker g f \<longleftrightarrow> own_min g \<le> own_min f \<and> other_min g \<le> other_min f"

lemma passes_weaker: "weaker g f \<Longrightarrow> passes confs own cb f i x \<Longrightarrow> passes confs own cb g i x"
  by (auto simp: passes_def weaker_def Let_def split: if_splits)

lemma filtered_same_length:
  assumes "weaker g f"
    and "length (filtered_inputs confs own cb g inputs) = length (filtered_inputs confs own cb f inputs)"
  shows "filtered_inputs confs own cb g inputs = filtered_inputs confs own cb f inputs"
proof -
  have mono: "filter P xs = filter Q xs"
    if "\<And>x. Q x \<Longrightarrow> P x" "length (filter P xs) = length (filter Q xs)"
    for P Q and xs :: "'b list"
  proof -
    have "filter Q xs = filter Q (filter P xs)" using that(1) by (simp cong: conj_cong) (meson)
    also have "\<dots> = filter P xs"
      using that(2) calculation by (metis filter_True length_filter_less less_irrefl)
    finally show ?thesis by simp
  qed
  show ?thesis unfolding filtered_inputs_def
    by (rule arg_cong [of _ _ "map snd"], rule mono)
      (use assms(2) passes_weaker [OF assms(1)] in \<open>auto simp: filtered_inputs_def\<close>)
qed

text \<open>A run that finds nothing has tried the set the last and weakest filter admits.\<close>

lemma try_trials_exhausts:
  assumes "try_trials sel inputs outputs r b ct confs own cb (trials @ [g]) prev = InsufficientFunds"
    and "\<forall>f \<in> set trials. weaker g f"
    and "prev = 0 \<or> (\<exists>f. weaker g f \<and> prev = length (filtered_inputs confs own cb f inputs) \<and>
      run_trial sel outputs r b ct confs cb (filtered_inputs confs own cb f inputs) = InsufficientFunds)"
  shows "filtered_inputs confs own cb g inputs = [] \<or>
    run_trial sel outputs r b ct confs cb (filtered_inputs confs own cb g inputs) = InsufficientFunds"
  using assms
proof (induction trials arbitrary: prev)
  case Nil
  then show ?case
    by (auto simp: Let_def split: if_splits CoinSelectResult.splits dest: filtered_same_length)
next
  case (Cons f trials)
  let ?fs = "filtered_inputs confs own cb f inputs"
  show ?case
  proof (cases "?fs = [] \<or> length ?fs = prev")
    case True
    with Cons show ?thesis by simp
  next
    case False
    with Cons.prems(1) have "run_trial sel outputs r b ct confs cb ?fs = InsufficientFunds"
      and rest: "try_trials sel inputs outputs r b ct confs own cb (trials @ [g]) (length ?fs)
        = InsufficientFunds"
      by (auto simp: Let_def split: CoinSelectResult.splits)
    with Cons.IH [OF rest] Cons.prems(2) show ?thesis by auto
  qed
qed

lemma generate_trials_last:
  "\<exists>trials. generate_trials own other = trials @ [\<lparr>own_min = 0, other_min = 0\<rparr>]"
  by (simp add: generate_trials_def)

section \<open>Coinbase maturity\<close>

lemma filtered_inputs_mature:
  assumes "x \<in> set (filtered_inputs confs own cb f inputs)" "\<not> csi_required x"
    and "\<And>i. i < length inputs \<Longrightarrow> csi_index (inputs ! i) = i"
  shows "mature confs cb (csi_index x)"
  using assms
  by (auto simp: filtered_inputs_def in_set_enumerate_eq passes_def mature_def Let_def split: if_splits)

lemma try_trials_selected:
  assumes "try_trials coinselect inputs outputs r b ct confs own cb trials prev = res"
    and "res = Success sel fee change hc w \<or> res = SendMax sel m fee w"
  shows "\<exists>f chosen. mset chosen \<subseteq># mset (filtered_inputs confs own cb f inputs) \<and> sel = map csi_index chosen"
  using assms(1)
proof (induction trials arbitrary: prev)
  case Nil
  with assms(2) show ?case by auto
next
  case (Cons f trials)
  let ?fs = "filtered_inputs confs own cb f inputs"
  have "sound_result ?fs outputs r b ct (run_trial coinselect outputs r b ct confs cb ?fs)"
    by (simp add: run_trial_def coinselect_sound)
  then have "\<exists>chosen. mset chosen \<subseteq># mset ?fs \<and> sel = map csi_index chosen"
    if "run_trial coinselect outputs r b ct confs cb ?fs = res"
    using that assms(2) by (auto simp: sound_result_def)
  with Cons assms(2) show ?case
    by (auto simp: Let_def split: if_splits CoinSelectResult.splits)
qed

section \<open>Properties\<close>

text \<open>Two concrete wallets: a coin of 50300 satoshi that pays 50000 at 2 sat/vB, and one of
  50100 that cannot.\<close>

lemma default_trials:
  "generate_trials 1 6 = \<lparr>own_min = 1, other_min = 6\<rparr> # \<lparr>own_min = 1, other_min = 5\<rparr>
     # \<lparr>own_min = 1, other_min = 4\<rparr> # \<lparr>own_min = 1, other_min = 3\<rparr> # \<lparr>own_min = 1, other_min = 2\<rparr>
     # \<lparr>own_min = 1, other_min = 1\<rparr> # [\<lparr>own_min = 0, other_min = 1\<rparr>, \<lparr>own_min = 0, other_min = 0\<rparr>]"
  by (simp add: generate_trials_def upt_rec)

lemma coinselect_rich:
  "coinselect [sample_coin i 50300] [sample_pay 50000] (Fin 2) 0 SpendWitness confs cb = Success [i] 300 0 False 438"
  by (simp add: coinselect_def bnb_one_coin)

lemma coinselect_poor:
  "coinselect [sample_coin 0 50100] [sample_pay 50000] (Fin 2) 0 SpendWitness confs cb = InsufficientFunds"
proof -
  have "branch_and_bound [sample_coin 0 50100] [sample_pay 50000] (Fin 2) 0 SpendWitness = None"
    by (simp add: bnb_eval)
  moreover have "accumulative [sample_coin 0 50100] [sample_pay 50000] (Fin 2) 0 SpendWitness = InsufficientFunds"
    using one_p2wpkh_payment by (simp add: accumulative_def bnb_eval)
  ultimately show ?thesis by (simp add: coinselect_def)
qed

lemmas try_eval = try_confirmed_def default_trials DEFAULT_OWN_CONFIRMATIONS_def
  DEFAULT_OTHER_CONFIRMATIONS_def filtered_inputs_def passes_def get_or_def run_trial_def
  COINBASE_MIN_CONFIRMATIONS_def

lemma try_rich:
  "try_confirmed [sample_coin 0 50300] [sample_pay 50000] (Fin 2) 0 SpendWitness [6] [False] [False] None None
     = Success [0] 300 0 False 438"
  by (simp add: try_eval coinselect_rich)

lemma try_poor:
  "try_confirmed [sample_coin 0 50100] [sample_pay 50000] (Fin 2) 0 SpendWitness [6] [False] [False] None None
     = InsufficientFunds"
  by (simp add: try_eval coinselect_poor)



text \<open>
  Insufficient funds is reported only after the selection has failed on
  all coins that are not immature coinbase, unconfirmed ones included; skipping a level whose
  usable set has not grown loses nothing.
\<close>

theorem try_confirmed_exhausts:
  assumes "try_confirmed inputs outputs r b ct confs own cb oc xc = InsufficientFunds"
    and "usable = filtered_inputs confs own cb \<lparr>own_min = 0, other_min = 0\<rparr> inputs"
  shows "usable = [] \<or> run_trial coinselect outputs r b ct confs cb usable = InsufficientFunds"
proof -
  obtain own' other' where
    "try_trials coinselect inputs outputs r b ct confs own cb (generate_trials own' other') 0
      = InsufficientFunds"
    using assms(1) by (auto simp: try_confirmed_def Let_def)
  moreover obtain trials where "generate_trials own' other' = trials @ [\<lparr>own_min = 0, other_min = 0\<rparr>]"
    using generate_trials_last by blast
  ultimately show ?thesis
    using try_trials_exhausts [of coinselect inputs outputs r b ct confs own cb trials
        "\<lparr>own_min = 0, other_min = 0\<rparr>" 0] assms(2)
    by (auto simp: weaker_def)
qed

theorem try_confirmed_exhausts_witness:
  "run_trial coinselect [sample_pay 50000] (Fin 2) 0 SpendWitness [6] [False] [sample_coin 0 50100] = InsufficientFunds"
  using try_confirmed_exhausts [OF try_poor refl]
  by (simp add: filtered_inputs_def passes_def get_or_def)

text \<open>
  When the coins are passed in their original order, no immature coinbase
  coin is selected unless the caller required it.
\<close>

theorem try_confirmed_mature:
  assumes "\<forall>i < length inputs. csi_index (inputs ! i) = i"
    and "try_confirmed inputs outputs r b ct confs own cb oc xc = Success sel fee change hc w"
    and "k \<in> set sel"
  shows "k < length inputs \<and> (csi_required (inputs ! k) \<or> mature confs cb k)"
proof -
  obtain f chosen where "mset chosen \<subseteq># mset (filtered_inputs confs own cb f inputs)"
      "sel = map csi_index chosen"
    using try_trials_selected [of inputs outputs r b ct confs own cb _ 0] assms(2)
    by (metis try_confirmed_def)
  with assms(3) obtain x where x: "x \<in> set (filtered_inputs confs own cb f inputs)" "k = csi_index x"
    by (auto dest!: set_mset_mono)
  then have "x \<in> set inputs"
    using mset_filtered_inputs [of confs own cb f inputs] by (auto dest!: set_mset_mono)
  then have "k < length inputs" "inputs ! k = x"
    using assms(1) x(2) by (auto simp: in_set_conv_nth)
  with filtered_inputs_mature [OF x(1)] assms(1) x(2) show ?thesis by auto
qed

theorem try_confirmed_mature_witness:
  "csi_index (sample_coin 0 50300) = 0 \<and> mature [6] [False] 0"
  using try_confirmed_mature [OF _ try_rich, of 0] by simp

text \<open>
  The order matters. The filter looks up confirmations and coinbase
  flags by the position in the slice, while the arrays are indexed by the coin's original index:
  for a slice in another order than the arrays, an immature coinbase coin that was not required
  is selected.
\<close>

theorem try_confirmed_wrong_position:
  "try_confirmed [sample_coin 1 50300, sample_coin 0 1000] [sample_pay 50000] (Fin 2) 0 SpendWitness
     [6, 1] [False, False] [False, True] None None = Success [1] 300 0 False 438
   \<and> \<not> mature [6, 1] [False, True] 1"
  by (simp add: try_eval coinselect_rich mature_def)

end
