(* ===== verification/Tx_Sorting.thy ===== *)
theory Tx_Sorting
  imports Stable_Sort
begin

text \<open>
  Output scripts and the ordering of a composed transaction (\<^verbatim>\<open>compose/sorting.rs\<close>).
  The hash, the hex decoder and the random generator belong to other crates: \<open>sha256\<close>,
  \<open>hex_decode\<close>, \<open>shuffle\<close> (\<^verbatim>\<open>SliceRandom::shuffle\<close>) and \<open>gen_range\<close> (the
  \<open>k\<close>-th draw from \<^verbatim>\<open>0..=n\<close>) are arguments.
\<close>

section \<open>Definitions\<close>

subsection \<open>Strings\<close>

definition to_lower :: "char \<Rightarrow> char" where
  "to_lower c = (let n = of_char c :: nat in if 65 \<le> n \<and> n \<le> 90 then char_of (n + 32) else c)"

definition to_lowercase :: "string \<Rightarrow> string" where
  "to_lowercase s = map to_lower s"

definition starts_with :: "string \<Rightarrow> string \<Rightarrow> bool" where
  "starts_with s p \<longleftrightarrow> take (length p) s = p"

fun find_char :: "char \<Rightarrow> string \<Rightarrow> nat option" where
  "find_char c [] = None"
| "find_char c (d # s) = (if c = d then Some 0 else map_option Suc (find_char c s))"

fun rfind_char :: "char \<Rightarrow> string \<Rightarrow> nat option" where
  "rfind_char c [] = None"
| "rfind_char c (d # s) =
     (case rfind_char c s of Some n \<Rightarrow> Some (Suc n) | None \<Rightarrow> if c = d then Some 0 else None)"

subsection \<open>Bech32\<close>

definition BECH32_CHARSET :: string where
  "BECH32_CHARSET = ''qpzry9x8gf2tvdw0s3jn54khce6mua7l''"

definition bech32_decode_data :: "string \<Rightarrow> bytes option" where
  "bech32_decode_data data =
     (case those (map (\<lambda>c. map_option of_nat (find_char c BECH32_CHARSET)) data) of
        None \<Rightarrow> None
      | Some values \<Rightarrow> if length values < 7 then None else Some (take (length values - 6) values))"

text \<open>The \<^verbatim>\<open>while bits >= to_bits\<close> loop; \<open>to_bits\<close> is positive (the only caller passes 8).\<close>

function emit_groups :: "u32 \<Rightarrow> nat \<Rightarrow> nat \<Rightarrow> bytes \<Rightarrow> nat \<times> bytes" where
  "emit_groups acc bits to_bits result =
     (if 0 < to_bits \<and> to_bits \<le> bits
      then emit_groups acc (bits - to_bits) to_bits
             (result @ [ucast (drop_bit (bits - to_bits) acc AND (push_bit to_bits 1 - 1))])
      else (bits, result))"
  by pat_completeness auto
termination
  by (relation "measure (\<lambda>(_, bits, _, _). bits)") auto

declare emit_groups.simps [simp del]

fun convert_loop :: "bytes \<Rightarrow> nat \<Rightarrow> nat \<Rightarrow> u32 \<Rightarrow> nat \<Rightarrow> bytes \<Rightarrow> (u32 \<times> nat \<times> bytes) option" where
  "convert_loop [] from_bits to_bits acc bits result = Some (acc, bits, result)"
| "convert_loop (value # data) from_bits to_bits acc bits result =
     (if drop_bit from_bits (ucast value :: u32) \<noteq> 0 then None
      else
        let acc = push_bit from_bits acc OR ucast value;
            (bits, result) = emit_groups acc (bits + from_bits) to_bits result
        in convert_loop data from_bits to_bits acc bits result)"

definition convert_bits :: "bytes \<Rightarrow> nat \<Rightarrow> nat \<Rightarrow> bool \<Rightarrow> bytes option" where
  "convert_bits data from_bits to_bits pad =
     (case convert_loop data from_bits to_bits 0 0 [] of
        None \<Rightarrow> None
      | Some (acc, bits, result) \<Rightarrow>
          let max_v = push_bit to_bits 1 - 1;
              rest = push_bit (to_bits - bits) acc AND max_v
          in if pad then Some (if 0 < bits then result @ [ucast rest] else result)
             else if from_bits \<le> bits \<or> rest \<noteq> 0 then None
             else Some result)"

subsection \<open>Base58Check\<close>

definition BASE58_ALPHABET :: string where
  "BASE58_ALPHABET = ''123456789ABCDEFGHJKLMNPQRSTUVWXYZabcdefghijkmnopqrstuvwxyz''"

text \<open>One pass of the inner loop over the bytes from the last to the first.\<close>

fun mul58_add :: "bytes \<Rightarrow> u32 \<Rightarrow> bytes \<times> u32" where
  "mul58_add [] carry = ([], carry)"
| "mul58_add (byte # num) carry =
     (let (num', carry) = mul58_add num carry;
          val = ucast byte * 58 + carry
      in (ucast (val AND 0xff) # num', drop_bit 8 val))"

lemma unat_drop_bit_8: "unat (drop_bit 8 w) = unat w div 256" for w :: u32
  by (simp add: drop_bit_eq_div unat_div)

lemma drop_bit_8_less: "0 < carry \<Longrightarrow> unat (drop_bit 8 carry) < unat carry" for carry :: u32
  by (simp only: unat_drop_bit_8) (simp add: word_greater_zero_iff unat_gt_0)

function push_carry :: "u32 \<Rightarrow> bytes \<Rightarrow> bytes" where
  "push_carry carry num =
     (if 0 < carry then push_carry (drop_bit 8 carry) (ucast (carry AND 0xff) # num) else num)"
  by pat_completeness auto
termination
  by (relation "measure (\<lambda>(carry, _). unat carry)") (auto simp: drop_bit_8_less)

declare push_carry.simps [simp del]

fun base58_loop :: "string \<Rightarrow> bytes \<Rightarrow> bytes option" where
  "base58_loop [] num = Some num"
| "base58_loop (c # input) num =
     (case find_char c BASE58_ALPHABET of
        None \<Rightarrow> None
      | Some digit \<Rightarrow>
          let (num, carry) = mul58_add num (of_nat digit)
          in base58_loop input (push_carry carry num))"

definition base58check_decode :: "(bytes \<Rightarrow> bytes) \<Rightarrow> string \<Rightarrow> bytes option" where
  "base58check_decode sha256 input =
     (let leading_zeros = length (takeWhile (\<lambda>c. c = CHR ''1'') input) in
      case base58_loop input [] of
        None \<Rightarrow> None
      | Some num \<Rightarrow>
          let bytes = replicate leading_zeros 0 @ num in
          if length bytes < 4 then None
          else
            let payload_len = length bytes - 4;
                payload = take payload_len bytes;
                checksum = drop payload_len bytes;
                hash2 = sha256 (sha256 payload)
            in if take 4 hash2 \<noteq> checksum then None else Some payload)"

subsection \<open>Scripts\<close>

definition address_to_script_pubkey :: "(bytes \<Rightarrow> bytes) \<Rightarrow> string \<Rightarrow> bytes" where
  "address_to_script_pubkey sha256 address =
     (let addr_lower = to_lowercase address in
      if starts_with addr_lower ''bc1'' \<or> starts_with addr_lower ''tb1'' \<or> starts_with addr_lower ''bcrt1''
      then
        case rfind_char (CHR ''1'') addr_lower of
          None \<Rightarrow> []
        | Some sep_pos \<Rightarrow>
            case bech32_decode_data (drop (sep_pos + 1) addr_lower) of
              None \<Rightarrow> []
            | Some [] \<Rightarrow> []
            | Some (witness_version # rest) \<Rightarrow>
                case convert_bits rest 5 8 False of
                  None \<Rightarrow> []
                | Some program \<Rightarrow>
                    (if witness_version = 0 then 0x00 else 0x50 + witness_version)
                      # of_nat (length program) # program
      else
        case base58check_decode sha256 address of
          None \<Rightarrow> []
        | Some decoded \<Rightarrow>
            if length decoded = 21
            then
              let version = hd decoded; hash = tl decoded in
              if version = 0x00 \<or> version = 0x6f then [0x76, 0xa9, 0x14] @ hash @ [0x88, 0xac]
              else if version = 0x05 \<or> version = 0xc4 then [0xa9, 0x14] @ hash @ [0x87]
              else []
            else [])"

definition op_return_script_pubkey :: "(string \<Rightarrow> bytes option) \<Rightarrow> string \<Rightarrow> bytes" where
  "op_return_script_pubkey hex_decode data_hex =
     (let data = (case hex_decode data_hex of Some d \<Rightarrow> d | None \<Rightarrow> []);
          n = length data
      in [0x6a]
         @ (if n \<le> 75 then [of_nat n]
            else if n \<le> 255 then [0x4c, of_nat n]
            else [0x4d, of_nat (n AND 0xff), of_nat (drop_bit 8 n)])
         @ data)"

subsection \<open>Ordering\<close>

datatype SortingStrategy = Bip69 | Random | Unsorted

record SortableInput =
  si_index :: nat
  si_txid :: string
  si_vout :: u32

record SortableOutput =
  so_index :: nat
  so_amount :: u64
  so_script_pubkey :: bytes
  so_is_change :: bool

text \<open>Lexicographic \<^verbatim>\<open>cmp\<close> of slices, not \<^verbatim>\<open>Greater\<close>.\<close>

fun lex_le :: "'a :: linorder list \<Rightarrow> 'a list \<Rightarrow> bool" where
  "lex_le [] ys = True"
| "lex_le (x # xs) [] = False"
| "lex_le (x # xs) (y # ys) = (x < y \<or> x = y \<and> lex_le xs ys)"

definition string_bytes :: "string \<Rightarrow> nat list" where
  "string_bytes s = map of_char s"

definition bip69_input_le :: "SortableInput \<Rightarrow> SortableInput \<Rightarrow> bool" where
  "bip69_input_le a b \<longleftrightarrow>
     (if si_txid a = si_txid b then si_vout a \<le> si_vout b
      else lex_le (string_bytes (si_txid a)) (string_bytes (si_txid b)))"

definition bip69_output_le :: "SortableOutput \<Rightarrow> SortableOutput \<Rightarrow> bool" where
  "bip69_output_le a b \<longleftrightarrow>
     (if so_amount a = so_amount b then lex_le (so_script_pubkey a) (so_script_pubkey b)
      else so_amount a \<le> so_amount b)"

definition insert_at :: "nat \<Rightarrow> 'a \<Rightarrow> 'a list \<Rightarrow> 'a list" where
  "insert_at pos x xs = take pos xs @ x # drop pos xs"

text \<open>Each change output at a drawn position; \<open>k\<close> counts the draws.\<close>

fun insert_changes :: "(nat \<Rightarrow> nat \<Rightarrow> nat) \<Rightarrow> nat \<Rightarrow> SortableOutput list \<Rightarrow> SortableOutput list \<Rightarrow>
    SortableOutput list" where
  "insert_changes gen_range k [] payment_outputs = payment_outputs"
| "insert_changes gen_range k (change # change_outputs) payment_outputs =
     insert_changes gen_range (k + 1) change_outputs
       (insert_at (gen_range k (length payment_outputs)) change payment_outputs)"

definition sort_transaction :: "(SortableInput list \<Rightarrow> SortableInput list) \<Rightarrow> (nat \<Rightarrow> nat \<Rightarrow> nat) \<Rightarrow>
    SortableInput list \<Rightarrow> SortableOutput list \<Rightarrow> SortingStrategy \<Rightarrow>
    SortableInput list \<times> SortableOutput list \<times> nat list" where
  "sort_transaction shuffle gen_range inputs outputs strategy =
     (let (inputs, outputs) =
        (case strategy of
           Bip69 \<Rightarrow> (sort_by bip69_input_le inputs, sort_by bip69_output_le outputs)
         | Random \<Rightarrow>
             (shuffle inputs,
              insert_changes gen_range 0 (filter so_is_change outputs)
                (filter (\<lambda>out. \<not> so_is_change out) outputs))
         | Unsorted \<Rightarrow> (inputs, outputs))
      in (inputs, outputs, map so_index outputs))"

section \<open>Orders\<close>

lemma lex_le_refl [simp]: "lex_le xs xs"
  by (induction xs) auto

lemma lex_le_total: "lex_le xs ys \<or> lex_le ys xs"
  by (induction xs ys rule: lex_le.induct) auto

lemma lex_le_trans: "lex_le xs ys \<Longrightarrow> lex_le ys zs \<Longrightarrow> lex_le xs zs"
proof (induction xs arbitrary: ys zs)
  case (Cons x xs)
  then show ?case by (cases ys; cases zs) (auto, (metis order_less_trans)?)
qed simp

lemma lex_le_Nil [simp]: "lex_le xs [] \<longleftrightarrow> xs = []"
  by (cases xs) auto

lemma lex_le_antisym: "lex_le xs ys \<Longrightarrow> lex_le ys xs \<Longrightarrow> xs = ys"
  by (induction xs ys rule: lex_le.induct) auto

lemma string_bytes_inj: "string_bytes s = string_bytes t \<Longrightarrow> s = t"
  by (simp add: string_bytes_def inj_map_eq_map [OF inj_of_char])

interpretation bip69_input: comparator bip69_input_le
proof
  show "bip69_input_le x y \<or> bip69_input_le y x" for x y
    using lex_le_total by (auto simp: bip69_input_le_def)
  show "bip69_input_le x y \<Longrightarrow> bip69_input_le y z \<Longrightarrow> bip69_input_le x z" for x y z
    using lex_le_trans lex_le_antisym string_bytes_inj
    unfolding bip69_input_le_def by (smt (verit) order_trans)
qed

interpretation bip69_output: comparator bip69_output_le
proof
  show "bip69_output_le x y \<or> bip69_output_le y x" for x y
    using lex_le_total by (auto simp: bip69_output_le_def)
  show "bip69_output_le x y \<Longrightarrow> bip69_output_le y z \<Longrightarrow> bip69_output_le x z" for x y z
    using lex_le_trans unfolding bip69_output_le_def by (auto split: if_splits)
qed

section \<open>Random placement\<close>

lemma mset_insert_at [simp]: "mset (insert_at pos x xs) = add_mset x (mset xs)"
  by (simp add: insert_at_def) (metis append_take_drop_id mset_append)

lemma filter_insert_at: "\<not> P x \<Longrightarrow> filter P (insert_at pos x xs) = filter P xs"
  by (simp add: insert_at_def) (metis append_take_drop_id filter_append)

lemma mset_insert_changes [simp]: "mset (insert_changes g k cs ps) = mset cs + mset ps"
  by (induction cs arbitrary: k ps) auto

lemma filter_insert_changes:
  "\<forall>c \<in> set cs. so_is_change c \<Longrightarrow>
     filter (\<lambda>out. \<not> so_is_change out) (insert_changes g k cs ps) = filter (\<lambda>out. \<not> so_is_change out) ps"
  by (induction cs arbitrary: k ps) (auto simp: filter_insert_at)

lemma sort_transaction_mset:
  assumes "\<And>xs. mset (shuffle xs) = mset xs"
    and "sort_transaction shuffle g inputs outputs strategy = (inputs', outputs', perm)"
  shows "mset inputs' = mset inputs \<and> mset outputs' = mset outputs \<and> perm = map so_index outputs'"
proof (cases strategy)
  case Random
  have "mset (filter so_is_change outputs) + mset (filter (\<lambda>out. \<not> so_is_change out) outputs) = mset outputs"
    by (simp add: multiset_partition [symmetric])
  with assms Random show ?thesis by (auto simp: sort_transaction_def)
qed (use assms in \<open>auto simp: sort_transaction_def\<close>)

section \<open>Bit regrouping\<close>

definition value_of :: "nat \<Rightarrow> bytes \<Rightarrow> nat" where
  "value_of base bs = foldl (\<lambda>a b. a * base + unat b) 0 bs"

lemma value_of_snoc [simp]: "value_of base (bs @ [b]) = value_of base bs * base + unat b"
  by (simp add: value_of_def)

lemma value_of_Nil [simp]: "value_of base [] = 0"
  by (simp add: value_of_def)

lemma unat_low_byte: "unat (ucast (w AND 255) :: u8) = unat w mod 256" for w :: u32
proof -
  have "w AND 255 = take_bit 8 w"
    by (simp add: take_bit_eq_mask mask_eq_exp_minus_1)
  then have "unat (ucast (w AND 255) :: u8) = take_bit 8 (take_bit 8 (unat w))"
    by (simp only: unsigned_ucast_eq unsigned_take_bit_eq len_num1 len_bit0)
      (simp add: numeral_Bit0)
  then show ?thesis by (simp add: take_bit_eq_mod)
qed

lemma emit_one: "unat (ucast (drop_bit k w AND 255) :: u8) = unat w div 2 ^ k mod 256" for w :: u32
  by (simp only: unat_low_byte unat_drop_bit_eq) (simp add: drop_bit_eq_div)

lemma unat_shift_in:
  fixes acc :: u32 and v :: u8
  assumes "unat v < 32" and "bits \<le> 27"
  shows "unat (push_bit 5 acc OR ucast v) mod 2 ^ (bits + 5) = unat acc mod 2 ^ bits * 32 + unat v"
proof -
  have "v = take_bit 5 v"
    using assms(1) by (simp add: word_unat_eq_iff unsigned_take_bit_eq take_bit_nat_eq_self)
  then have v: "\<not> bit v n" if "5 \<le> n" for n using that by (metis bit_take_bit_iff not_le)
  have "push_bit 5 acc AND ucast v = 0"
    by (rule bit_eqI) (auto simp: bit_simps v)
  then have "push_bit 5 acc OR ucast v = acc * 32 + ucast v"
    using disjunctive_add_eq_or [of "push_bit 5 acc" "ucast v"] by (simp add: push_bit_eq_mult)
  moreover have "unat (ucast v :: u32) = unat v"
    using assms(1) by (simp add: unsigned_ucast_eq take_bit_nat_eq_self)
  ultimately have "unat (push_bit 5 acc OR ucast v) = (unat acc * 32 + unat v) mod 2 ^ 32"
    by (simp add: unat_word_ariths mod_simps)
  moreover have "x mod 2 ^ 32 mod 2 ^ (bits + 5) = x mod 2 ^ (bits + 5)" for x :: nat
    using assms(2) by (intro mod_mod_cancel le_imp_power_dvd) simp
  ultimately have "unat (push_bit 5 acc OR ucast v) mod 2 ^ (bits + 5)
      = (unat acc * 32 + unat v) mod (32 * 2 ^ bits)"
    by (simp only:) (simp add: power_add mult.commute)
  also have "\<dots> = unat acc mod 2 ^ bits * 32 + unat v"
    using assms(1) by (simp add: mod_mult2_eq)
  finally show ?thesis .
qed

lemma value_of_append: "value_of base (bs @ cs) = value_of base bs * base ^ length cs + value_of base cs"
proof (induction cs rule: rev_induct)
  case (snoc c cs)
  then show ?case
    unfolding append_assoc [symmetric] value_of_snoc by (simp add: algebra_simps)
qed simp

lemma value_of_Cons: "value_of base (b # bs) = unat b * base ^ length bs + value_of base bs"
  using value_of_append [of base "[b]" bs] by (simp add: value_of_def)

lemma value_of_256_inj:
  "value_of 256 bs = value_of 256 cs \<Longrightarrow> length bs = length cs \<Longrightarrow> bs = cs"
proof (induction bs arbitrary: cs rule: rev_induct)
  case (snoc b bs)
  then obtain c cs' where [simp]: "cs = cs' @ [c]" by (cases cs rule: rev_exhaust) auto
  have b: "unat b < 256" "unat c < 256" by (simp_all add: unat_u8_less)
  have eq: "value_of 256 bs * 256 + unat b = value_of 256 cs' * 256 + unat c"
    using snoc.prems(1) by simp
  have "unat b = unat c" using arg_cong [OF eq, of "\<lambda>n. n mod 256"] b by simp
  moreover from this eq have "value_of 256 bs = value_of 256 cs'" by simp
  ultimately show ?case using snoc by (simp add: word_unat_eq_iff)
qed simp

lemma emit_groups_8:
  assumes "bits < 8"
  shows "emit_groups acc (bits + 5) 8 result =
    (if bits < 3 then (bits + 5, result)
     else (bits - 3, result @ [ucast (drop_bit (bits - 3) acc AND 255)]))"
  using assms by (auto simp: emit_groups.simps)

text \<open>The state of the regrouping loop: the groups emitted and the bits pending represent the
  5-bit groups read.\<close>

definition pending :: "u32 \<Rightarrow> nat \<Rightarrow> bytes \<Rightarrow> nat" where
  "pending acc bits result = value_of 256 result * 2 ^ bits + unat acc mod 2 ^ bits"

lemma emit_groups_pending:
  assumes "bits < 8" "emit_groups acc (bits + 5) 8 result = (bits', result')"
  shows "bits' < 8 \<and> 8 * length result' + bits' = 8 * length result + bits + 5
    \<and> pending acc bits' result' = value_of 256 result * 2 ^ (bits + 5) + unat acc mod 2 ^ (bits + 5)"
proof (cases "bits < 3")
  case True
  with assms show ?thesis by (auto simp: emit_groups_8 pending_def)
next
  case False
  then have eq: "bits' = bits - 3" "result' = result @ [ucast (drop_bit (bits - 3) acc AND 255)]"
    using assms by (auto simp: emit_groups_8)
  let ?a = "unat acc" and ?k = "bits - 3"
  have k: "bits + 5 = ?k + 8" using False by simp
  have "?a mod 2 ^ (?k + 8) = 2 ^ ?k * (?a div 2 ^ ?k mod 256) + ?a mod 2 ^ ?k"
    by (simp add: power_add mod_mult2_eq)
  then have "pending acc bits' result' = value_of 256 result * 2 ^ (bits + 5) + ?a mod 2 ^ (bits + 5)"
    unfolding k by (simp add: eq pending_def emit_one power_add algebra_simps)
  with False assms(1) eq show ?thesis by simp
qed

lemma small_group_iff: "drop_bit 5 (ucast v :: u32) = 0 \<longleftrightarrow> unat v < 32" for v :: u8
proof -
  have "unat (ucast v :: u32) = unat v"
    using unat_u8_less [of v] by (simp add: unsigned_ucast_eq take_bit_nat_eq_self)
  then have "unat (drop_bit 5 (ucast v :: u32)) = unat v div 32"
    by (simp only: unat_drop_bit_eq) (simp add: drop_bit_eq_div)
  then show ?thesis by (simp add: word_unat_eq_iff div_eq_0_iff)
qed

lemma convert_loop_pending:
  assumes "bits < 8" "\<forall>v \<in> set data. unat v < 32"
  shows "\<exists>acc' bits' result'. convert_loop data 5 8 acc bits result = Some (acc', bits', result')
    \<and> bits' < 8 \<and> 8 * length result' + bits' = 8 * length result + bits + 5 * length data
    \<and> pending acc' bits' result' = pending acc bits result * 32 ^ length data + value_of 32 data"
  using assms
proof (induction data arbitrary: acc bits result)
  case (Cons v data)
  let ?acc = "push_bit 5 acc OR ucast v"
  obtain bits1 result1 where e: "emit_groups ?acc (bits + 5) 8 result = (bits1, result1)"
    by fastforce
  have p: "bits1 < 8" "8 * length result1 + bits1 = 8 * length result + bits + 5"
    and q: "pending ?acc bits1 result1
      = value_of 256 result * 2 ^ (bits + 5) + unat ?acc mod 2 ^ (bits + 5)"
    using emit_groups_pending [OF Cons.prems(1) e] by auto
  have "unat ?acc mod 2 ^ (bits + 5) = unat acc mod 2 ^ bits * 32 + unat v"
    using Cons.prems by (intro unat_shift_in) auto
  with q have step: "pending ?acc bits1 result1 = pending acc bits result * 32 + unat v"
    by (simp add: pending_def power_add algebra_simps)
  have v: "drop_bit 5 (ucast v :: u32) = 0" using Cons.prems small_group_iff by simp
  from Cons.IH [of bits1 ?acc result1] p Cons.prems obtain acc' bits' result' where
    "convert_loop data 5 8 ?acc bits1 result1 = Some (acc', bits', result')"
    "bits' < 8" "8 * length result' + bits' = 8 * length result1 + bits1 + 5 * length data"
    "pending acc' bits' result' = pending ?acc bits1 result1 * 32 ^ length data + value_of 32 data"
    by auto
  with p step v e show ?case by (simp add: value_of_Cons algebra_simps)
qed (simp add: pending_def)

lemma convert_loop_large:
  "convert_loop data 5 8 acc bits result = Some r \<Longrightarrow> v \<in> set data \<Longrightarrow> unat v < 32"
  by (induction data arbitrary: acc bits result)
    (auto simp: small_group_iff Let_def split: if_splits prod.splits)

lemma padding_zero_iff:
  fixes acc :: u32
  assumes "bits < 8"
  shows "push_bit (8 - bits) acc AND 255 = 0 \<longleftrightarrow> unat acc mod 2 ^ bits = 0"
proof -
  have "unat (push_bit (8 - bits) acc AND 255) = unat (push_bit (8 - bits) acc) mod 256"
  proof -
    have "push_bit (8 - bits) acc AND 255 = take_bit 8 (push_bit (8 - bits) acc)"
      by (simp add: take_bit_eq_mask mask_eq_exp_minus_1)
    then show ?thesis
      by (simp only: unsigned_take_bit_eq) (simp add: take_bit_eq_mod)
  qed
  also have "unat (push_bit (8 - bits) acc) = (unat acc * 2 ^ (8 - bits)) mod 2 ^ 32"
    by (simp only: unsigned_push_bit_eq) (simp add: take_bit_eq_mod push_bit_eq_mult)
  also have "\<dots> mod 256 = (unat acc * 2 ^ (8 - bits)) mod (2 ^ bits * 2 ^ (8 - bits))"
    using assms by (simp add: mod_mod_cancel flip: power_add)
  also have "\<dots> = (unat acc mod 2 ^ bits) * 2 ^ (8 - bits)"
    by (simp add: mult_mod_left)
  finally show ?thesis by (simp add: word_unat_eq_iff)
qed

lemma convert_bits_5_8:
  "convert_bits data 5 8 False = Some r \<longleftrightarrow>
     (\<forall>v \<in> set data. unat v < 32) \<and> length r = 5 * length data div 8 \<and> 5 * length data mod 8 < 5
     \<and> value_of 32 data = value_of 256 r * 2 ^ (5 * length data mod 8)"
proof (cases "\<forall>v \<in> set data. unat v < 32")
  case False
  then show ?thesis using convert_loop_large
    by (fastforce simp: convert_bits_def split: option.splits)
next
  case True
  from convert_loop_pending [OF _ this, of 0 0 "[]"] obtain acc bits res where
    run: "convert_loop data 5 8 0 0 [] = Some (acc, bits, res)" and bits: "bits < 8"
    and len: "8 * length res + bits = 5 * length data" and val: "pending acc bits res = value_of 32 data"
    by (auto simp: pending_def)
  have b: "5 * length data mod 8 = bits" "5 * length data div 8 = length res"
    unfolding len [symmetric] using bits by simp_all
  have conv: "convert_bits data 5 8 False
      = (if 5 \<le> bits \<or> unat acc mod 2 ^ bits \<noteq> 0 then None else Some res)"
    using run padding_zero_iff [OF bits] by (simp add: convert_bits_def Let_def)
  have "r = res \<and> unat acc mod 2 ^ bits = 0 \<longleftrightarrow>
      length r = length res \<and> value_of 32 data = value_of 256 r * 2 ^ bits"
  proof
    assume *: "length r = length res \<and> value_of 32 data = value_of 256 r * 2 ^ bits"
    then have eq: "value_of 256 res * 2 ^ bits + unat acc mod 2 ^ bits = value_of 256 r * 2 ^ bits"
      using val by (simp add: pending_def)
    then have "unat acc mod 2 ^ bits = 0"
      by (metis mod_mod_trivial mod_mult_self2_is_0 mod_mult_self3)
    with eq * show "r = res \<and> unat acc mod 2 ^ bits = 0" using value_of_256_inj by auto
  qed (use val in \<open>auto simp: pending_def\<close>)
  with True b conv show ?thesis by auto
qed

section \<open>Base58 arithmetic\<close>

lemma find_char_less: "find_char c s = Some n \<Longrightarrow> n < length s \<and> s ! n = c"
  by (induction s arbitrary: n) (auto split: if_splits)

lemma base58_digit_less: "find_char c BASE58_ALPHABET = Some n \<Longrightarrow> n < 58"
  using find_char_less [of c BASE58_ALPHABET n] by (simp add: BASE58_ALPHABET_def)

lemma mul58_step:
  fixes byte :: u8 and carry :: u32
  assumes "unat carry < 58"
  shows "unat (ucast byte * 58 + carry) = unat byte * 58 + unat carry"
    and "unat (drop_bit 8 (ucast byte * 58 + carry)) < 58"
proof -
  have "unat (ucast byte :: u32) = unat byte"
    using unat_u8_less [of byte] by (simp add: unsigned_ucast_eq take_bit_nat_eq_self)
  then show v: "unat (ucast byte * 58 + carry) = unat byte * 58 + unat carry"
    using assms unat_u8_less [of byte] by (simp add: unat_word_ariths)
  show "unat (drop_bit 8 (ucast byte * 58 + carry)) < 58"
    using assms unat_u8_less [of byte] by (simp add: unat_drop_bit_8 v del: unat_drop_bit_eq)
qed

lemma mul58_add_value:
  assumes "unat carry < 58" "mul58_add num carry = (num', carry')"
  shows "unat carry' < 58 \<and> length num' = length num
    \<and> unat carry' * 256 ^ length num + value_of 256 num' = value_of 256 num * 58 + unat carry"
  using assms
proof (induction num arbitrary: num' carry')
  case (Cons byte num)
  obtain num1 c1 where r: "mul58_add num carry = (num1, c1)" by fastforce
  note IH = Cons.IH [OF Cons.prems(1) r]
  let ?val = "ucast byte * 58 + c1 :: u32"
  have out: "num' = ucast (?val AND 0xff) # num1" "carry' = drop_bit 8 ?val"
    using Cons.prems(2) r by (simp_all add: Let_def)
  have v: "unat ?val = unat byte * 58 + unat c1" "unat (drop_bit 8 ?val) < 58"
    using mul58_step [of c1 byte] IH by auto
  have "unat carry' * 256 + unat ?val mod 256 = unat ?val"
    by (simp add: out unat_drop_bit_8 del: unat_drop_bit_eq)
  then have "unat carry' * 256 ^ Suc (length num) + unat ?val mod 256 * 256 ^ length num
      = unat ?val * 256 ^ length num"
    by (metis (no_types, lifting) add_mult_distrib mult.assoc power_Suc)
  with IH v out show ?case
    by (simp add: value_of_Cons unat_low_byte algebra_simps)
qed simp

lemma push_carry_value:
  "value_of 256 (push_carry carry num) = unat carry * 256 ^ length num + value_of 256 num"
proof (induction carry num rule: push_carry.induct)
  case (1 carry num)
  show ?case
  proof (cases "0 < carry")
    case True
    have "unat carry = unat carry div 256 * 256 + unat carry mod 256" by simp
    then have "unat carry * 256 ^ length num
        = unat carry div 256 * 256 ^ Suc (length num) + unat carry mod 256 * 256 ^ length num"
      by (metis (no_types, lifting) add_mult_distrib mult.assoc power_Suc)
    with 1 True show ?thesis
      by (subst push_carry.simps) (simp add: value_of_Cons unat_low_byte unat_drop_bit_8)
  next
    case False
    then show ?thesis by (subst push_carry.simps) (simp add: word_greater_zero_iff)
  qed
qed

text \<open>No leading zero byte.\<close>

definition canonical :: "bytes \<Rightarrow> bool" where
  "canonical num \<longleftrightarrow> num = [] \<or> hd num \<noteq> 0"

lemma push_carry_canonical:
  "0 < carry \<or> canonical num \<Longrightarrow> canonical (push_carry carry num)"
proof (induction carry num rule: push_carry.induct)
  case (1 carry num)
  show ?case
  proof (cases "0 < carry")
    case True
    have "0 < drop_bit 8 carry \<or> canonical (ucast (carry AND 0xff) # num)"
    proof (cases "unat carry < 256")
      case small: True
      then have "unat (ucast (carry AND 0xff) :: u8) \<noteq> 0"
        using True by (simp only: unat_low_byte) (simp add: word_greater_zero_iff unat_eq_zero)
      then show ?thesis by (auto simp: canonical_def)
    next
      case False
      then have "0 < unat (drop_bit 8 carry)" by (simp add: unat_drop_bit_8 del: unat_drop_bit_eq)
      then show ?thesis by (simp add: word_greater_zero_iff unat_gt_0)
    qed
    with 1 True show ?thesis by (subst push_carry.simps) simp
  next
    case False
    with 1 show ?thesis by (subst push_carry.simps) simp
  qed
qed

lemma mul58_add_canonical:
  assumes "unat carry < 58" "mul58_add num carry = (num', carry')" "canonical num"
  shows "0 < carry' \<or> canonical num'"
proof (cases num)
  case (Cons byte rest)
  obtain num1 c1 where r: "mul58_add rest carry = (num1, c1)" by fastforce
  let ?val = "ucast byte * 58 + c1 :: u32"
  have out: "num' = ucast (?val AND 0xff) # num1" "carry' = drop_bit 8 ?val"
    using assms(2) r Cons by (simp_all add: Let_def)
  have "unat c1 < 58" using mul58_add_value [OF assms(1) r] by simp
  then have "unat ?val = unat byte * 58 + unat c1" by (rule mul58_step)
  moreover have "unat byte \<noteq> 0" using assms(3) Cons by (auto simp: canonical_def unat_eq_zero)
  ultimately have pos: "0 < unat ?val" by simp
  show ?thesis
  proof (cases "unat ?val < 256")
    case True
    then have "unat (hd num') \<noteq> 0" using pos by (simp add: out unat_low_byte)
    then show ?thesis by (auto simp: canonical_def)
  next
    case False
    then have "0 < unat carry'" by (simp add: out unat_drop_bit_8)
    then show ?thesis by (simp add: word_greater_zero_iff unat_gt_0)
  qed
qed (use assms in \<open>simp add: canonical_def\<close>)

lemma base58_loop_value:
  assumes "base58_loop input num = Some num'" "canonical num"
  shows "\<exists>digits. those (map (\<lambda>c. find_char c BASE58_ALPHABET) input) = Some digits
    \<and> value_of 256 num' = foldl (\<lambda>a d. a * 58 + d) (value_of 256 num) digits \<and> canonical num'"
  using assms
proof (induction input arbitrary: num)
  case (Cons c input)
  from Cons.prems obtain d where d: "find_char c BASE58_ALPHABET = Some d" by (auto split: option.splits)
  obtain num1 carry where m: "mul58_add num (of_nat d) = (num1, carry)" by fastforce
  have d58: "unat (of_nat d :: u32) = d" "unat (of_nat d :: u32) < 58"
    using base58_digit_less [OF d] by simp_all
  note val = mul58_add_value [OF d58(2) m] and can = mul58_add_canonical [OF d58(2) m Cons.prems(2)]
  have "value_of 256 (push_carry carry num1) = value_of 256 num * 58 + d"
    using val d58 by (simp add: push_carry_value)
  moreover have "base58_loop input (push_carry carry num1) = Some num'"
    using Cons.prems(1) d m by simp
  moreover have "canonical (push_carry carry num1)" using can by (rule push_carry_canonical)
  ultimately show ?case using Cons.IH [of "push_carry carry num1"] d by auto
qed simp

section \<open>Properties\<close>

text \<open>
  Every sorting strategy only reorders: no input or output is lost or
  duplicated, and the returned permutation names the original position of each output. Random
  sorting keeps the payment outputs in the caller's order.
\<close>

theorem sort_transaction_permutes:
  assumes "\<forall>xs. mset (shuffle xs) = mset xs"
    and "sort_transaction shuffle gen_range inputs outputs strategy = (inputs', outputs', perm)"
  shows "mset inputs' = mset inputs \<and> mset outputs' = mset outputs \<and> perm = map so_index outputs'
    \<and> (strategy = Random \<longrightarrow>
        filter (\<lambda>out. \<not> so_is_change out) outputs' = filter (\<lambda>out. \<not> so_is_change out) outputs)"
proof -
  have "filter (\<lambda>out. \<not> so_is_change out) outputs' = filter (\<lambda>out. \<not> so_is_change out) outputs"
    if "strategy = Random"
    using assms(2) that by (auto simp: sort_transaction_def filter_insert_changes)
  with sort_transaction_mset [OF _ assms(2)] assms(1) show ?thesis by simp
qed

theorem sort_transaction_permutes_witness:
  "sort_transaction rev (\<lambda>k n. 0)
     [\<lparr>si_index = 0, si_txid = ''aa'', si_vout = 0\<rparr>, \<lparr>si_index = 1, si_txid = ''bb'', si_vout = 0\<rparr>]
     [\<lparr>so_index = 0, so_amount = 5, so_script_pubkey = [], so_is_change = False\<rparr>,
      \<lparr>so_index = 1, so_amount = 7, so_script_pubkey = [], so_is_change = True\<rparr>] Random
   = ([\<lparr>si_index = 1, si_txid = ''bb'', si_vout = 0\<rparr>, \<lparr>si_index = 0, si_txid = ''aa'', si_vout = 0\<rparr>],
      [\<lparr>so_index = 1, so_amount = 7, so_script_pubkey = [], so_is_change = True\<rparr>,
       \<lparr>so_index = 0, so_amount = 5, so_script_pubkey = [], so_is_change = False\<rparr>], [1, 0])
   \<and> mset [1, 0 :: nat] = mset [0, 1]"
proof -
  have run: "sort_transaction rev (\<lambda>k n. 0)
     [\<lparr>si_index = 0, si_txid = ''aa'', si_vout = 0\<rparr>, \<lparr>si_index = 1, si_txid = ''bb'', si_vout = 0\<rparr>]
     [\<lparr>so_index = 0, so_amount = 5, so_script_pubkey = [], so_is_change = False\<rparr>,
      \<lparr>so_index = 1, so_amount = 7, so_script_pubkey = [], so_is_change = True\<rparr>] Random
   = ([\<lparr>si_index = 1, si_txid = ''bb'', si_vout = 0\<rparr>, \<lparr>si_index = 0, si_txid = ''aa'', si_vout = 0\<rparr>],
      [\<lparr>so_index = 1, so_amount = 7, so_script_pubkey = [], so_is_change = True\<rparr>,
       \<lparr>so_index = 0, so_amount = 5, so_script_pubkey = [], so_is_change = False\<rparr>], [1, 0])"
    by (simp add: sort_transaction_def insert_at_def)
  with sort_transaction_permutes [OF _ run] show ?thesis by simp
qed

text \<open>
  Under BIP-69 the inputs are in order of transaction id, then output index, and the
  outputs in order of amount, then script bytes; entries that compare equal keep their order.
\<close>

theorem bip69_sorted:
  "case sort_transaction shuffle gen_range inputs outputs Bip69 of (inputs', outputs', perm) \<Rightarrow>
     sorted_wrt bip69_input_le inputs' \<and> mset inputs' = mset inputs
     \<and> sorted_wrt bip69_output_le outputs' \<and> mset outputs' = mset outputs
     \<and> (\<forall>k. filter (bip69_output.equiv k) outputs' = filter (bip69_output.equiv k) outputs)"
  by (simp add: sort_transaction_def bip69_input.sorted_sort_by bip69_output.sorted_sort_by
      bip69_output.stable_sort_by)

text \<open>
  Regrouping a witness program from 5-bit to 8-bit groups succeeds exactly when
  every group is below 32, fewer than five bits are left over, and they are zero; the bytes are
  then the same number as the groups, shifted by the padding.
\<close>

theorem convert_bits_exact:
  "convert_bits data 5 8 False = Some r \<longleftrightarrow>
     (\<forall>v \<in> set data. unat v < 32) \<and> length r = 5 * length data div 8 \<and> 5 * length data mod 8 < 5
     \<and> value_of 32 data = value_of 256 r * 2 ^ (5 * length data mod 8)"
  by (rule convert_bits_5_8)

theorem convert_bits_exact_witness:
  "convert_bits [31, 28] 5 8 False = Some [255] \<and> value_of 32 [31, 28] = value_of 256 [255] * 4"
  using convert_bits_exact [of "[31, 28]" "[255]"] by (simp add: value_of_def)

text \<open>
  The byte-wise multiply-and-add loop computes the base-256 digits, without
  leading zeros, of the number the base-58 string denotes.
\<close>

theorem base58_decodes_value:
  assumes "base58_loop input [] = Some num"
  shows "\<exists>digits. those (map (\<lambda>c. find_char c BASE58_ALPHABET) input) = Some digits
    \<and> value_of 256 num = foldl (\<lambda>a d. a * 58 + d) 0 digits \<and> canonical num"
  using base58_loop_value [OF assms] by (simp add: canonical_def)

lemma base58_example: "base58_loop ''5R'' [] = Some [1, 0]"
  by (simp add: BASE58_ALPHABET_def push_carry.simps drop_bit_eq_div)

theorem base58_decodes_value_witness:
  "\<exists>digits. those (map (\<lambda>c. find_char c BASE58_ALPHABET) ''5R'') = Some digits
    \<and> value_of 256 [1, 0] = foldl (\<lambda>a d. a * 58 + d) 0 digits \<and> canonical [1, 0]"
  by (rule base58_decodes_value [OF base58_example])

end
