(* ===== verification/Compose.thy ===== *)
theory Compose
  imports Coin_Select Tx_Sorting
begin

text \<open>
  The compose engine (\<^verbatim>\<open>compose/mod.rs\<close>): validation, conversion to coin selection,
  selection, construction and ordering of the result. A Rust panic (an index out of range or
  \<^verbatim>\<open>unreachable!\<close>) is the value \<open>None\<close>; the theory shows it is never reached.
\<close>

section \<open>Definitions\<close>

subsection \<open>Data\<close>

record ComposeInput =
  ci_txid :: string
  ci_vout :: u32
  ci_amount :: u64
  ci_address :: string
  ci_path :: string
  ci_confirmations :: u32
  ci_coinbase :: bool
  ci_own :: bool
  ci_required :: bool
  ci_script_type :: ScriptType

datatype ComposeOutput =
    Payment string u64
  | PaymentNoAddress u64
  | SendMaxTo string
  | SendMaxNoAddress
  | OpReturn string

record ComposeRequest =
  req_inputs :: "ComposeInput list"
  req_outputs :: "ComposeOutput list"
  req_fee_rate :: f64
  req_base_fee :: u64
  req_change_script_type :: ScriptType
  req_sorting_strategy :: SortingStrategy
  req_sequence :: "u32 option"

record ComposedInput =
  cdi_index :: nat
  cdi_txid :: string
  cdi_vout :: u32
  cdi_amount :: u64
  cdi_address :: string
  cdi_path :: string
  cdi_script_type :: ScriptType

datatype ComposedOutput =
    PaymentOut string u64
  | ChangeOut string string u64 ScriptType
  | OpReturnOut string

datatype ComposeError =
    NotEnoughFunds
  | MissingUtxos
  | MissingOutputs
  | IncorrectFeeRate
  | IncorrectUtxo string
  | IncorrectOutput string

text \<open>\<open>Final total_spent fee fee_per_byte bytes inputs outputs outputs_permutation\<close> and
  \<open>NonFinal max total_spent fee fee_per_byte bytes\<close>.\<close>

datatype ComposeResult =
    Final u64 u64 f64 nat "ComposedInput list" "ComposedOutput list" "nat list"
  | NonFinal "u64 option" u64 u64 f64 nat
  | ComposeFailed ComposeError

fun show_compose_error :: "ComposeError \<Rightarrow> string" where
  "show_compose_error NotEnoughFunds = ''Not enough funds''"
| "show_compose_error MissingUtxos = ''No UTXOs provided''"
| "show_compose_error MissingOutputs = ''No outputs provided''"
| "show_compose_error IncorrectFeeRate = ''Incorrect fee rate''"
| "show_compose_error (IncorrectUtxo s) = ''Incorrect UTXO: '' @ s"
| "show_compose_error (IncorrectOutput s) = ''Incorrect output: '' @ s"

text \<open>The code of other crates the engine calls: hex decoding, SHA-256 and the random generator.\<close>

record externals =
  hex_decode :: "string \<Rightarrow> bytes option"
  sha256 :: "bytes \<Rightarrow> bytes"
  shuffle :: "SortableInput list \<Rightarrow> SortableInput list"
  gen_range :: "nat \<Rightarrow> nat \<Rightarrow> nat"

subsection \<open>Conversion to coin selection\<close>

definition script_type_from_address :: "string \<Rightarrow> ScriptType" where
  "script_type_from_address address =
     (let addr = to_lowercase address in
      if starts_with addr ''bc1q'' \<or> starts_with addr ''tb1q'' \<or> starts_with addr ''bcrt1q''
      then SpendWitness
      else if starts_with addr ''bc1p'' \<or> starts_with addr ''tb1p'' \<or> starts_with addr ''bcrt1p''
      then SpendTaproot
      else if starts_with address ''3'' \<or> starts_with address ''2'' then SpendP2SHWitness
      else SpendAddress)"

fun is_send_max :: "ComposeOutput \<Rightarrow> bool" where
  "is_send_max (SendMaxTo a) = True"
| "is_send_max SendMaxNoAddress = True"
| "is_send_max _ = False"

fun has_destination :: "ComposeOutput \<Rightarrow> bool" where
  "has_destination (Payment a n) = True"
| "has_destination (SendMaxTo a) = True"
| "has_destination (OpReturn d) = True"
| "has_destination _ = False"

definition cs_input :: "nat \<times> ComposeInput \<Rightarrow> CoinSelectInput" where
  "cs_input p = (case p of (i, input) \<Rightarrow>
     \<lparr>csi_index = i, csi_amount = ci_amount input, csi_script_type = ci_script_type input,
      csi_required = ci_required input, csi_weight = input_weight (ci_script_type input)\<rparr>)"

definition score :: "f64 \<Rightarrow> CoinSelectInput \<Rightarrow> f64" where
  "score fee_rate a =
     f64_sub (f64_of_nat (unat (csi_amount a))) (f64_of_nat (unat (calculate_fee fee_rate (csi_weight a))))"

definition better_score :: "f64 \<Rightarrow> CoinSelectInput \<Rightarrow> CoinSelectInput \<Rightarrow> bool" where
  "better_score fee_rate a b =
     (let score_a = score fee_rate a; score_b = score fee_rate b in
      if f64_less score_b score_a then True
      else if f64_less score_a score_b then False
      else csi_index a \<le> csi_index b)"

definition cs_inputs_of :: "ComposeRequest \<Rightarrow> CoinSelectInput list" where
  "cs_inputs_of request =
     (let cs_inputs = map cs_input (List.enumerate 0 (req_inputs request)) in
      if req_sorting_strategy request \<noteq> Unsorted
      then sort_by (better_score (req_fee_rate request)) cs_inputs
      else cs_inputs)"

fun cs_output :: "ScriptType \<Rightarrow> ComposeOutput \<Rightarrow> CoinSelectOutput" where
  "cs_output change_type (Payment address amount) =
     \<lparr>cso_amount = amount, cso_weight = output_weight (script_type_from_address address),
      cso_is_send_max = False\<rparr>"
| "cs_output change_type (PaymentNoAddress amount) =
     \<lparr>cso_amount = amount, cso_weight = output_weight change_type, cso_is_send_max = False\<rparr>"
| "cs_output change_type (SendMaxTo address) =
     \<lparr>cso_amount = 0, cso_weight = output_weight (script_type_from_address address),
      cso_is_send_max = True\<rparr>"
| "cs_output change_type SendMaxNoAddress =
     \<lparr>cso_amount = 0, cso_weight = output_weight change_type, cso_is_send_max = True\<rparr>"
| "cs_output change_type (OpReturn data_hex) =
     \<lparr>cso_amount = 0, cso_weight = op_return_output_weight (length data_hex div 2),
      cso_is_send_max = False\<rparr>"

definition select_coins :: "ComposeRequest \<Rightarrow> CoinSelectResult" where
  "select_coins request =
     (let inputs = req_inputs request;
          cs_outputs = map (cs_output (req_change_script_type request)) (req_outputs request);
          confirmations = map ci_confirmations inputs;
          coinbase_flags = map ci_coinbase inputs
      in if list_ex is_send_max (req_outputs request)
         then split (cs_inputs_of request) cs_outputs (req_fee_rate request) (req_base_fee request)
                (req_change_script_type request) confirmations coinbase_flags
         else try_confirmed (cs_inputs_of request) cs_outputs (req_fee_rate request) (req_base_fee request)
                (req_change_script_type request) confirmations (map ci_own inputs) coinbase_flags None None)"

subsection \<open>The result\<close>

definition fee_per_byte :: "u64 \<Rightarrow> nat \<Rightarrow> f64" where
  "fee_per_byte fee vbytes =
     (if 0 < vbytes then f64_div (f64_of_nat (unat fee)) (f64_of_nat vbytes) else Fin 0)"

fun fixed_amount :: "ComposeOutput \<Rightarrow> u64" where
  "fixed_amount (Payment address amount) = amount"
| "fixed_amount (PaymentNoAddress amount) = amount"
| "fixed_amount _ = 0"

definition composed_input :: "ComposeInput list \<Rightarrow> nat \<Rightarrow> ComposedInput option" where
  "composed_input inputs idx =
     map_option (\<lambda>input.
       \<lparr>cdi_index = idx, cdi_txid = ci_txid input, cdi_vout = ci_vout input, cdi_amount = ci_amount input,
        cdi_address = ci_address input, cdi_path = ci_path input, cdi_script_type = ci_script_type input\<rparr>)
       (get inputs idx)"

text \<open>\<open>max_amount\<close> is 0 where the source writes 0 for a send-max output.\<close>

fun composed_output :: "u64 \<Rightarrow> ComposeOutput \<Rightarrow> ComposedOutput option" where
  "composed_output max_amount (Payment address amount) = Some (PaymentOut address amount)"
| "composed_output max_amount (SendMaxTo address) = Some (PaymentOut address max_amount)"
| "composed_output max_amount (OpReturn data_hex) = Some (OpReturnOut data_hex)"
| "composed_output max_amount _ = None"

definition sortable_input :: "nat \<times> ComposedInput \<Rightarrow> SortableInput" where
  "sortable_input p = (case p of (i, ci) \<Rightarrow>
     \<lparr>si_index = i, si_txid = cdi_txid ci, si_vout = cdi_vout ci\<rparr>)"

definition sortable_output :: "externals \<Rightarrow> nat \<times> ComposedOutput \<Rightarrow> SortableOutput" where
  "sortable_output ext p = (case p of (i, co) \<Rightarrow>
     (case co of
        PaymentOut address amount \<Rightarrow>
          \<lparr>so_index = i, so_amount = amount,
           so_script_pubkey = address_to_script_pubkey (sha256 ext) address, so_is_change = False\<rparr>
      | ChangeOut address path amount script_type \<Rightarrow>
          \<lparr>so_index = i, so_amount = amount,
           so_script_pubkey = address_to_script_pubkey (sha256 ext) address, so_is_change = True\<rparr>
      | OpReturnOut data_hex \<Rightarrow>
          \<lparr>so_index = i, so_amount = 0,
           so_script_pubkey = op_return_script_pubkey (hex_decode ext) data_hex, so_is_change = False\<rparr>))"

text \<open>Sorting and reordering, the common end of both successful branches.\<close>

definition sort_and_finish :: "externals \<Rightarrow> SortingStrategy \<Rightarrow> u64 \<Rightarrow> u64 \<Rightarrow> f64 \<Rightarrow> nat \<Rightarrow>
    ComposedInput list \<Rightarrow> ComposedOutput list \<Rightarrow> ComposeResult option" where
  "sort_and_finish ext strategy total_spent fee per_byte vbytes composed_inputs composed_outputs =
     (let sortable_inputs = map sortable_input (List.enumerate 0 composed_inputs);
          sortable_outputs = map (sortable_output ext) (List.enumerate 0 composed_outputs);
          (sortable_inputs, sortable_outputs, outputs_permutation) =
            sort_transaction (shuffle ext) (gen_range ext) sortable_inputs sortable_outputs strategy
      in case (those (map (\<lambda>si. get composed_inputs (si_index si)) sortable_inputs),
               those (map (\<lambda>so. get composed_outputs (so_index so)) sortable_outputs)) of
           (Some sorted_inputs, Some sorted_outputs) \<Rightarrow>
             Some (Final total_spent fee per_byte vbytes sorted_inputs sorted_outputs outputs_permutation)
         | _ \<Rightarrow> None)"

definition finish_success :: "externals \<Rightarrow> ComposeRequest \<Rightarrow> nat list \<Rightarrow> u64 \<Rightarrow> u64 \<Rightarrow> bool \<Rightarrow> nat \<Rightarrow>
    ComposeResult option" where
  "finish_success ext request selected_inputs fee change_amount has_change tx_weight =
     (let vbytes = weight_to_vbytes tx_weight;
          per_byte = fee_per_byte fee vbytes;
          output_sum = sum_list (map fixed_amount (req_outputs request));
          total_spent = output_sum + fee
      in if \<not> list_all has_destination (req_outputs request)
         then Some (NonFinal None total_spent fee per_byte vbytes)
         else
           case (those (map (composed_input (req_inputs request)) selected_inputs),
                 those (map (composed_output 0) (req_outputs request))) of
             (Some composed_inputs, Some composed_outputs) \<Rightarrow>
               let composed_outputs =
                 (if has_change \<and> 0 < change_amount
                  then composed_outputs @ [ChangeOut [] [] change_amount (req_change_script_type request)]
                  else composed_outputs)
               in sort_and_finish ext (req_sorting_strategy request) total_spent fee per_byte vbytes
                    composed_inputs composed_outputs
           | _ \<Rightarrow> None)"

definition finish_send_max :: "externals \<Rightarrow> ComposeRequest \<Rightarrow> nat list \<Rightarrow> u64 \<Rightarrow> u64 \<Rightarrow> nat \<Rightarrow>
    ComposeResult option" where
  "finish_send_max ext request selected_inputs max_amount fee tx_weight =
     (let vbytes = weight_to_vbytes tx_weight;
          per_byte = fee_per_byte fee vbytes;
          total_spent = max_amount + fee
      in if \<not> list_all has_destination (req_outputs request)
         then Some (NonFinal (Some max_amount) total_spent fee per_byte vbytes)
         else
           case (those (map (composed_input (req_inputs request)) selected_inputs),
                 those (map (composed_output max_amount) (req_outputs request))) of
             (Some composed_inputs, Some composed_outputs) \<Rightarrow>
               sort_and_finish ext (req_sorting_strategy request) total_spent fee per_byte vbytes
                 composed_inputs composed_outputs
           | _ \<Rightarrow> None)"

definition compose_tx :: "externals \<Rightarrow> ComposeRequest \<Rightarrow> ComposeResult option" where
  "compose_tx ext request =
     (if req_inputs request = [] then Some (ComposeFailed MissingUtxos)
      else if req_outputs request = [] then Some (ComposeFailed MissingOutputs)
      else if f64_le_zero (req_fee_rate request) \<or> \<not> is_finite (req_fee_rate request)
      then Some (ComposeFailed IncorrectFeeRate)
      else
        case select_coins request of
          InsufficientFunds \<Rightarrow> Some (ComposeFailed NotEnoughFunds)
        | Success selected_inputs fee change_amount has_change tx_weight \<Rightarrow>
            finish_success ext request selected_inputs fee change_amount has_change tx_weight
        | SendMax selected_inputs max_amount fee tx_weight \<Rightarrow>
            finish_send_max ext request selected_inputs max_amount fee tx_weight)"

section \<open>The order of coins\<close>

lemma f64_of_nat_finite:
  assumes "n < 2 ^ 64"
  shows "\<exists>a. f64_of_nat n = Fin a"
proof (cases "n = 0")
  case False
  let ?x = "of_nat n :: rat"
  have x: "0 < ?x" "1 \<le> ?x" using False by auto
  have "ilog2 1 = 0" using ilog2_eqI [of 0 1] by simp
  then have "- 1022 \<le> ilog2 ?x" using ilog2_mono [of 1 ?x] x by simp
  from round_pos_error [OF x(1) this] have "round_pos ?x \<le> ?x + ?x / 2 ^ 53" by linarith
  moreover have "?x / 2 ^ 53 \<le> ?x" using x by simp
  moreover have "?x < 2 ^ 64" using assms by (metis of_nat_less_iff of_nat_numeral of_nat_power)
  moreover have "(2 :: rat) ^ 64 + 2 ^ 64 \<le> 2 ^ 1024" by simp
  ultimately have "round_pos ?x < 2 ^ 1024" by linarith
  with x show ?thesis by (simp add: f64_of_nat_def round_f64_def)
qed (simp add: f64_of_nat_def round_f64_def)

lemma score_not_nan: "score r a \<noteq> NaN"
proof -
  obtain x y where "f64_of_nat (unat (csi_amount a)) = Fin x"
      "f64_of_nat (unat (calculate_fee r (csi_weight a))) = Fin y"
    using f64_of_nat_finite [of "unat (csi_amount a)"] unat_u64_less [of "csi_amount a"]
      f64_of_nat_finite [of "unat (calculate_fee r (csi_weight a))"]
      unat_u64_less [of "calculate_fee r (csi_weight a)"] by auto
  then show ?thesis by (simp add: score_def round_f64_def Let_def)
qed

lemma f64_less_trichotomy:
  "x \<noteq> NaN \<Longrightarrow> y \<noteq> NaN \<Longrightarrow> f64_less x y \<or> x = y \<or> f64_less y x"
  by (cases x; cases y) auto

lemma f64_less_trans: "f64_less x y \<Longrightarrow> f64_less y z \<Longrightarrow> f64_less x z"
  by (cases x; cases y; cases z) auto

lemma f64_less_asym: "f64_less x y \<Longrightarrow> \<not> f64_less y x"
  by (cases x; cases y) auto

interpretation score_order: comparator "better_score r"
proof
  show "better_score r x y \<or> better_score r y x" for x y
    by (auto simp: better_score_def Let_def)
  show "better_score r x z" if "better_score r x y" "better_score r y z" for x y z
    using that f64_less_trichotomy [OF score_not_nan score_not_nan, of r x r y]
      f64_less_trichotomy [OF score_not_nan score_not_nan, of r y r z]
      f64_less_trans f64_less_asym
    unfolding better_score_def Let_def by (smt (verit) order_trans)
qed

section \<open>Coins and indices\<close>

lemma mset_cs_inputs_of:
  "mset (cs_inputs_of request) = mset (map cs_input (List.enumerate 0 (req_inputs request)))"
  by (simp add: cs_inputs_of_def Let_def)

lemma cs_inputs_index: "map csi_index (map cs_input (List.enumerate 0 xs)) = [0..<length xs]"
  by (rule nth_equalityI) (simp_all add: cs_input_def nth_enumerate_eq)

lemma cs_inputs_get:
  "x \<in> set (cs_inputs_of request) \<Longrightarrow>
     csi_index x < length (req_inputs request)
     \<and> csi_amount x = ci_amount (req_inputs request ! csi_index x)
     \<and> csi_script_type x = ci_script_type (req_inputs request ! csi_index x)
     \<and> csi_required x = ci_required (req_inputs request ! csi_index x)"
proof -
  assume "x \<in> set (cs_inputs_of request)"
  then have "x \<in> set (map cs_input (List.enumerate 0 (req_inputs request)))"
    using mset_cs_inputs_of by (metis set_mset_mset)
  then show ?thesis by (auto simp: cs_input_def in_set_enumerate_eq)
qed

text \<open>What the engine needs of a selection: the indices are distinct and in range, and the coins
  are those of the request.\<close>

lemma chosen_indices:
  assumes "mset chosen \<subseteq># mset (cs_inputs_of request)"
  shows "distinct (map csi_index chosen)"
    and "x \<in> set chosen \<Longrightarrow> csi_index x < length (req_inputs request)"
    and "x \<in> set chosen \<Longrightarrow> csi_amount x = ci_amount (req_inputs request ! csi_index x)"
proof -
  have "image_mset csi_index (mset chosen) \<subseteq># image_mset csi_index (mset (cs_inputs_of request))"
    using assms by (rule image_mset_subseteq_mono)
  also have "\<dots> = mset [0..<length (req_inputs request)]"
    using cs_inputs_index [of "req_inputs request"] by (metis mset_cs_inputs_of mset_map)
  finally have "mset (map csi_index chosen) \<subseteq># mset [0..<length (req_inputs request)]" by simp
  then show "distinct (map csi_index chosen)"
    by (rule subset_mset_distinct) simp
  have "set chosen \<subseteq> set (cs_inputs_of request)" using assms by (auto dest!: set_mset_mono)
  then show "x \<in> set chosen \<Longrightarrow> csi_index x < length (req_inputs request)"
    and "x \<in> set chosen \<Longrightarrow> csi_amount x = ci_amount (req_inputs request ! csi_index x)"
    using cs_inputs_get [of x request] by auto
qed

lemma select_coins_sound:
  "sound_result (cs_inputs_of request) (map (cs_output (req_change_script_type request)) (req_outputs request))
     (req_fee_rate request) (req_base_fee request) (req_change_script_type request) (select_coins request)"
  unfolding select_coins_def Let_def try_confirmed_def
  by (auto intro: split_sound coinselect.try_trials_sound)

section \<open>Assembling the result\<close>

lemma those_map_Some:
  "(\<And>x. x \<in> set xs \<Longrightarrow> f x = Some (g x)) \<Longrightarrow> those (map f xs) = Some (map g xs)"
  by (induction xs) auto

lemma those_map_nth:
  assumes "mset ys = mset (map h (List.enumerate 0 xs))" and "\<And>i x. idx (h (i, x)) = i"
  shows "those (map (\<lambda>y. get xs (idx y)) ys) = Some (map (\<lambda>y. xs ! idx y) ys)"
    and "mset (map idx ys) = mset [0..<length xs]"
    and "mset (map (\<lambda>y. xs ! idx y) ys) = mset xs"
proof -
  have idx: "map idx (map h (List.enumerate 0 xs)) = [0..<length xs]"
    by (rule nth_equalityI) (simp_all add: assms(2) nth_enumerate_eq)
  show perm: "mset (map idx ys) = mset [0..<length xs]"
    using assms(1) idx by (metis mset_map)
  then have "idx y < length xs" if "y \<in> set ys" for y
    using that by (metis atLeastLessThan_iff imageI set_map set_upt mset_eq_setD)
  then show "those (map (\<lambda>y. get xs (idx y)) ys) = Some (map (\<lambda>y. xs ! idx y) ys)"
    by (intro those_map_Some) (simp add: get_def)
  have "mset (map (\<lambda>y. xs ! idx y) ys) = image_mset ((!) xs) (mset (map idx ys))"
    by (simp add: image_mset.compositionality comp_def)
  also have "\<dots> = mset (map ((!) xs) [0..<length xs])" unfolding perm by simp
  finally show "mset (map (\<lambda>y. xs ! idx y) ys) = mset xs" by (simp only: map_nth)
qed

lemma sort_and_finish_permutes:
  assumes shuffle: "\<And>xs. mset (shuffle ext xs) = mset xs"
  obtains ins outs perm where
    "sort_and_finish ext strategy spent fee per vb cins couts = Some (Final spent fee per vb ins outs perm)"
    "mset ins = mset cins" "mset outs = mset couts" "mset perm = mset [0..<length couts]"
    "outs = map ((!) couts) perm"
proof -
  let ?si = "map sortable_input (List.enumerate 0 cins)"
  let ?so = "map (sortable_output ext) (List.enumerate 0 couts)"
  obtain si' so' perm where sort: "sort_transaction (shuffle ext) (gen_range ext) ?si ?so strategy = (si', so', perm)"
    by (metis prod_cases3)
  have m: "mset si' = mset ?si" "mset so' = mset ?so" "perm = map so_index so'"
    using sort_transaction_mset [OF shuffle sort] by auto
  have i: "si_index (sortable_input (i, x)) = i" "so_index (sortable_output ext (i, y)) = i" for i x y
    by (auto simp: sortable_input_def sortable_output_def split: ComposedOutput.splits)
  note ti = those_map_nth [OF m(1) i(1)] and to = those_map_nth [OF m(2) i(2)]
  show thesis
    by (rule that [of "map (\<lambda>y. cins ! si_index y) si'" "map (\<lambda>y. couts ! so_index y) so'" perm])
      (use ti to m sort in \<open>simp_all add: sort_and_finish_def Let_def comp_def\<close>)
qed

definition input_of :: "ComposeRequest \<Rightarrow> nat \<Rightarrow> ComposedInput" where
  "input_of request idx = the (composed_input (req_inputs request) idx)"

lemma composed_input_get:
  "idx < length (req_inputs request) \<Longrightarrow> composed_input (req_inputs request) idx = Some (input_of request idx)
     \<and> cdi_index (input_of request idx) = idx
     \<and> cdi_amount (input_of request idx) = ci_amount (req_inputs request ! idx)"
  by (simp add: input_of_def composed_input_def get_def)

lemma composed_inputs_chosen:
  assumes "mset chosen \<subseteq># mset (cs_inputs_of request)"
  shows "those (map (composed_input (req_inputs request)) (map csi_index chosen))
      = Some (map (input_of request) (map csi_index chosen))"
    and "sum_list (map cdi_amount (map (input_of request) (map csi_index chosen)))
      = sum_list (map csi_amount chosen)"
proof -
  show "those (map (composed_input (req_inputs request)) (map csi_index chosen))
      = Some (map (input_of request) (map csi_index chosen))"
    using chosen_indices(2) [OF assms] composed_input_get by (intro those_map_Some) auto
  have "map cdi_amount (map (input_of request) (map csi_index chosen)) = map csi_amount chosen"
    using chosen_indices(2,3) [OF assms] composed_input_get by simp
  then show "sum_list (map cdi_amount (map (input_of request) (map csi_index chosen)))
      = sum_list (map csi_amount chosen)" by (simp only:)
qed

definition output_of :: "u64 \<Rightarrow> ComposeOutput \<Rightarrow> ComposedOutput" where
  "output_of m out = the (composed_output m out)"

lemma composed_outputs_all:
  "list_all has_destination outs \<Longrightarrow> those (map (composed_output m) outs) = Some (map (output_of m) outs)"
proof (intro those_map_Some)
  fix x assume "list_all has_destination outs" "x \<in> set outs"
  then have "has_destination x" by (simp add: list_all_iff)
  then show "composed_output m x = Some (output_of m x)" by (cases x) (simp_all add: output_of_def)
qed

fun out_amount :: "ComposedOutput \<Rightarrow> u64" where
  "out_amount (PaymentOut address amount) = amount"
| "out_amount (ChangeOut address path amount script_type) = amount"
| "out_amount (OpReturnOut data_hex) = 0"

lemma sum_output_of:
  "list_all has_destination outs \<Longrightarrow>
     sum_list (map out_amount (map (output_of m) outs))
       = sum_list (map fixed_amount outs) + of_nat (length (filter is_send_max outs)) * m"
proof (induction outs)
  case (Cons out outs)
  then show ?case by (cases out) (simp_all add: output_of_def algebra_simps)
qed simp

lemma sum_cs_outputs:
  "sum_list (map cso_amount (map (cs_output ct) outs)) = sum_list (map fixed_amount outs)"
  "sum_list (map cso_amount (filter (\<lambda>out. \<not> cso_is_send_max out) (map (cs_output ct) outs)))
     = sum_list (map fixed_amount outs)"
proof (induction outs)
  case (Cons out outs)
  { case 1 from Cons show ?case by (cases out) simp_all }
  { case 2 from Cons show ?case by (cases out) simp_all }
qed simp_all

lemma cs_output_send_max: "list_ex cso_is_send_max (map (cs_output ct) outs) = list_ex is_send_max outs"
proof (induction outs)
  case (Cons out outs)
  then show ?case by (cases out) simp_all
qed simp

text \<open>Only a request with a send-max output gets a send-max result.\<close>

lemma accumulate_optional_not_send_max:
  "accumulate_optional os ws r b ct optional sel s ts \<noteq> SendMax x y z w"
  by (induction optional arbitrary: sel s ts)
    (auto simp: Let_def success_of_Some split: option.splits)

lemma accumulative_not_send_max: "accumulative inputs outputs r b ct \<noteq> SendMax x y z w"
  by (auto simp: accumulative_def Let_def success_of_Some accumulate_optional_not_send_max
      split: option.splits)

lemma branch_and_bound_not_send_max: "branch_and_bound inputs outputs r b ct \<noteq> Some (SendMax x y z w)"
  by (auto simp: branch_and_bound_def Let_def success_of_Some split: if_splits option.splits)

lemma try_trials_not_send_max:
  assumes "\<not> list_ex cso_is_send_max outputs"
  shows "try_trials coinselect inputs outputs r b ct confs own cb trials prev \<noteq> SendMax x y z w"
proof -
  have "coinselect ins outputs r b ct c f \<noteq> SendMax x y z w" for ins c f
    using assms accumulative_not_send_max branch_and_bound_not_send_max
    by (auto simp: coinselect_def split: option.splits)
  then show ?thesis
    by (induction trials arbitrary: prev)
      (auto simp: Let_def run_trial_def split: CoinSelectResult.splits)
qed

lemma select_coins_send_max:
  "select_coins request = SendMax sel m fee w \<Longrightarrow> list_ex is_send_max (req_outputs request)"
  using try_trials_not_send_max cs_output_send_max
  unfolding select_coins_def Let_def try_confirmed_def by (metis (no_types, lifting))

section \<open>What a final transaction is\<close>

text \<open>The two ways a final result arises, with the selection behind it.\<close>

definition final_of :: "ComposeRequest \<Rightarrow> CoinSelectInput list \<Rightarrow> ComposedOutput list \<Rightarrow>
    ComposedInput list \<Rightarrow> ComposedOutput list \<Rightarrow> nat list \<Rightarrow> bool" where
  "final_of request chosen couts ins outs perm \<longleftrightarrow>
     mset chosen \<subseteq># mset (cs_inputs_of request)
     \<and> mset ins = mset (map (input_of request) (map csi_index chosen))
     \<and> mset outs = mset couts \<and> mset perm = mset [0..<length couts] \<and> outs = map ((!) couts) perm"

lemma finish_success_final:
  assumes shuffle: "\<And>xs. mset (shuffle ext xs) = mset xs"
    and chosen: "mset chosen \<subseteq># mset (cs_inputs_of request)"
    and dest: "list_all has_destination (req_outputs request)"
  shows "\<exists>ins outs perm. finish_success ext request (map csi_index chosen) fee change hc w
      = Some (Final (sum_list (map fixed_amount (req_outputs request)) + fee) fee
          (fee_per_byte fee (weight_to_vbytes w)) (weight_to_vbytes w) ins outs perm)
    \<and> final_of request chosen
        (map (output_of 0) (req_outputs request)
         @ (if hc \<and> 0 < change then [ChangeOut [] [] change (req_change_script_type request)] else []))
        ins outs perm"
proof -
  let ?couts = "map (output_of 0) (req_outputs request)
     @ (if hc \<and> 0 < change then [ChangeOut [] [] change (req_change_script_type request)] else [])"
  obtain ins outs perm where r: "sort_and_finish ext (req_sorting_strategy request)
      (sum_list (map fixed_amount (req_outputs request)) + fee) fee (fee_per_byte fee (weight_to_vbytes w))
      (weight_to_vbytes w) (map (input_of request) (map csi_index chosen)) ?couts
      = Some (Final (sum_list (map fixed_amount (req_outputs request)) + fee) fee
          (fee_per_byte fee (weight_to_vbytes w)) (weight_to_vbytes w) ins outs perm)"
    "mset ins = mset (map (input_of request) (map csi_index chosen))" "mset outs = mset ?couts"
    "mset perm = mset [0..<length ?couts]" "outs = map ((!) ?couts) perm"
    using sort_and_finish_permutes [OF shuffle] by blast
  have "finish_success ext request (map csi_index chosen) fee change hc w
      = sort_and_finish ext (req_sorting_strategy request)
      (sum_list (map fixed_amount (req_outputs request)) + fee) fee (fee_per_byte fee (weight_to_vbytes w))
      (weight_to_vbytes w) (map (input_of request) (map csi_index chosen)) ?couts"
    using dest composed_inputs_chosen(1) [OF chosen] composed_outputs_all [OF dest, of 0]
    by (simp add: finish_success_def Let_def del: map_map)
  with r chosen show ?thesis unfolding final_of_def by metis
qed

lemma finish_send_max_final:
  assumes shuffle: "\<And>xs. mset (shuffle ext xs) = mset xs"
    and chosen: "mset chosen \<subseteq># mset (cs_inputs_of request)"
    and dest: "list_all has_destination (req_outputs request)"
  shows "\<exists>ins outs perm. finish_send_max ext request (map csi_index chosen) m fee w
      = Some (Final (m + fee) fee
          (fee_per_byte fee (weight_to_vbytes w)) (weight_to_vbytes w) ins outs perm)
    \<and> final_of request chosen (map (output_of m) (req_outputs request)) ins outs perm"
proof -
  let ?couts = "map (output_of m) (req_outputs request)"
  obtain ins outs perm where r: "sort_and_finish ext (req_sorting_strategy request)
      (m + fee) fee (fee_per_byte fee (weight_to_vbytes w))
      (weight_to_vbytes w) (map (input_of request) (map csi_index chosen)) ?couts
      = Some (Final (m + fee) fee
          (fee_per_byte fee (weight_to_vbytes w)) (weight_to_vbytes w) ins outs perm)"
    "mset ins = mset (map (input_of request) (map csi_index chosen))" "mset outs = mset ?couts"
    "mset perm = mset [0..<length ?couts]" "outs = map ((!) ?couts) perm"
    using sort_and_finish_permutes [OF shuffle] by blast
  have "finish_send_max ext request (map csi_index chosen) m fee w
      = sort_and_finish ext (req_sorting_strategy request)
      (m + fee) fee (fee_per_byte fee (weight_to_vbytes w))
      (weight_to_vbytes w) (map (input_of request) (map csi_index chosen)) ?couts"
    using dest composed_inputs_chosen(1) [OF chosen] composed_outputs_all [OF dest, of m]
    by (simp add: finish_send_max_def Let_def del: map_map)
  with r chosen show ?thesis unfolding final_of_def by metis
qed

abbreviation req_funds :: "ComposeRequest \<Rightarrow> CoinSelectInput list \<Rightarrow> CoinSelectResult \<Rightarrow> bool" where
  "req_funds request chosen res \<equiv>
     funds (cs_inputs_of request) (map (cs_output (req_change_script_type request)) (req_outputs request))
       (req_fee_rate request) (req_base_fee request) (req_change_script_type request) chosen res"

lemma select_coins_funds: "\<exists>chosen. req_funds request chosen (select_coins request)"
  using select_coins_sound by (simp add: sound_result_def)

lemma compose_total:
  assumes "\<And>xs. mset (shuffle ext xs) = mset xs"
  shows "\<exists>res. compose_tx ext request = Some res"
proof -
  obtain chosen where c: "req_funds request chosen (select_coins request)"
    using select_coins_funds by blast
  show ?thesis
  proof (cases "select_coins request")
    case (Success sel fee change hc w)
    with c have sel: "mset chosen \<subseteq># mset (cs_inputs_of request)" "sel = map csi_index chosen" by simp_all
    show ?thesis
      using Success sel finish_success_final [OF assms sel(1)]
      by (cases "list_all has_destination (req_outputs request)")
        (fastforce simp: compose_tx_def, simp add: compose_tx_def finish_success_def Let_def)
  next
    case (SendMax sel m fee w)
    with c have sel: "mset chosen \<subseteq># mset (cs_inputs_of request)" "sel = map csi_index chosen" by simp_all
    show ?thesis
      using SendMax sel finish_send_max_final [OF assms sel(1)]
      by (cases "list_all has_destination (req_outputs request)")
        (fastforce simp: compose_tx_def, simp add: compose_tx_def finish_send_max_def Let_def)
  qed (simp add: compose_tx_def)
qed

lemma compose_final_cases [consumes 2, case_names success send_max]:
  assumes all: "\<forall>xs. mset (shuffle ext xs) = mset xs"
    and final: "compose_tx ext request = Some (Final spent fee per vb ins outs perm)"
  obtains (success) chosen change hc w where
      "req_funds request chosen (Success (map csi_index chosen) fee change hc w)"
      "spent = sum_list (map fixed_amount (req_outputs request)) + fee" "vb = weight_to_vbytes w"
      "list_all has_destination (req_outputs request)"
      "final_of request chosen (map (output_of 0) (req_outputs request)
         @ (if hc \<and> 0 < change then [ChangeOut [] [] change (req_change_script_type request)] else []))
         ins outs perm"
    | (send_max) chosen m w where
      "req_funds request chosen (SendMax (map csi_index chosen) m fee w)"
      "list_ex is_send_max (req_outputs request)" "spent = m + fee" "vb = weight_to_vbytes w"
      "list_all has_destination (req_outputs request)"
      "final_of request chosen (map (output_of m) (req_outputs request)) ins outs perm"
proof -
  from all have shuffle: "\<And>xs. mset (shuffle ext xs) = mset xs" by simp
  obtain chosen where c: "req_funds request chosen (select_coins request)"
    using select_coins_funds by blast
  have dest: "list_all has_destination (req_outputs request)"
    using final by (auto simp: compose_tx_def finish_success_def finish_send_max_def Let_def
        split: if_splits CoinSelectResult.splits)
  show thesis
  proof (cases "select_coins request")
    case (Success sel fee' change hc w)
    with c have sel: "mset chosen \<subseteq># mset (cs_inputs_of request)" "sel = map csi_index chosen" by simp_all
    from finish_success_final [OF shuffle sel(1) dest, of fee' change hc w] final Success sel(2) c
    show thesis by (intro success [of chosen change hc w])
        (auto simp: compose_tx_def dest split: if_splits)
  next
    case (SendMax sel m fee' w)
    with c have sel: "mset chosen \<subseteq># mset (cs_inputs_of request)" "sel = map csi_index chosen" by simp_all
    from finish_send_max_final [OF shuffle sel(1) dest, of m fee' w] final SendMax sel(2) c
      select_coins_send_max [OF SendMax]
    show thesis by (intro send_max [of chosen m w])
        (auto simp: compose_tx_def dest split: if_splits)
  qed (use final in \<open>auto simp: compose_tx_def split: if_splits\<close>)
qed

lemma final_of_amounts:
  assumes "final_of request chosen couts ins outs perm"
  shows "sum_list (map cdi_amount ins) = sum_list (map csi_amount chosen)"
    and "sum_list (map out_amount outs) = sum_list (map out_amount couts)"
proof -
  have "sum_list (map cdi_amount ins)
      = sum_list (map cdi_amount (map (input_of request) (map csi_index chosen)))"
    using assms by (intro sum_list_mset_eq) (simp add: final_of_def)
  with composed_inputs_chosen(2) assms show "sum_list (map cdi_amount ins) = sum_list (map csi_amount chosen)"
    by (simp add: final_of_def)
  show "sum_list (map out_amount outs) = sum_list (map out_amount couts)"
    using assms unfolding final_of_def by (intro sum_list_mset_eq) blast
qed

lemma final_of_length: "final_of request chosen couts ins outs perm \<Longrightarrow> length outs = length couts"
  unfolding final_of_def by (metis mset_eq_length)

lemma final_of_inputs:
  assumes "final_of request chosen couts ins outs perm"
  shows "distinct (map cdi_index ins)"
    and "i \<in> set ins \<Longrightarrow> composed_input (req_inputs request) (cdi_index i) = Some i"
proof -
  have chosen: "mset chosen \<subseteq># mset (cs_inputs_of request)"
    and ins: "mset ins = mset (map (input_of request) (map csi_index chosen))"
    using assms by (auto simp: final_of_def)
  have "map cdi_index (map (input_of request) (map csi_index chosen)) = map csi_index chosen"
    using chosen_indices(2) [OF chosen] composed_input_get by simp
  then have "mset (map cdi_index ins) = mset (map csi_index chosen)"
    using ins by (metis mset_map)
  then show "distinct (map cdi_index ins)"
    using chosen_indices(1) [OF chosen] by (metis mset_eq_imp_distinct_iff)
  show "composed_input (req_inputs request) (cdi_index i) = Some i" if "i \<in> set ins"
  proof -
    have "i \<in> set (map (input_of request) (map csi_index chosen))"
      using that ins by (metis mset_eq_setD)
    then show ?thesis using chosen_indices(2) [OF chosen] composed_input_get by auto
  qed
qed

lemma compose_conserved:
  assumes "\<forall>xs. mset (shuffle ext xs) = mset xs"
    and "length (filter is_send_max (req_outputs request)) \<le> 1"
    and "compose_tx ext request = Some (Final spent fee per vb ins outs perm)"
  shows "sum_list (map cdi_amount ins) = sum_list (map out_amount outs) + fee
    \<and> distinct (map cdi_index ins)
    \<and> (\<forall>i \<in> set ins. composed_input (req_inputs request) (cdi_index i) = Some i)"
  using assms(1,3)
proof (cases rule: compose_final_cases)
    case (success chosen change hc w)
    have "sum_list (map fixed_amount (req_outputs request)) + fee + change
        = sum_list (map csi_amount chosen)"
      using funds_ring [OF success(1)] by (simp only: sum_cs_outputs)
    moreover have "change = 0" if "\<not> (hc \<and> 0 < change)"
      using that success(1) finalize_change by (fastforce simp: word_greater_zero_iff)
    ultimately show ?thesis
      using final_of_amounts [OF success(5)] final_of_inputs [OF success(5)] sum_output_of [OF success(4)]
      by (auto simp: algebra_simps)
  next
    case (send_max chosen m w)
    have "filter is_send_max (req_outputs request) \<noteq> []"
      using send_max(2) by (auto simp: list_ex_iff filter_empty_conv)
    then have one: "length (filter is_send_max (req_outputs request)) = 1"
      using assms(2) by (cases "filter is_send_max (req_outputs request)") auto
    have "sum_list (map csi_amount chosen) = sum_list (map fixed_amount (req_outputs request)) + fee + m"
      using funds_send_max_ring [OF send_max(1)] by (simp only: sum_cs_outputs)
    then show ?thesis
      using final_of_amounts [OF send_max(6)] final_of_inputs [OF send_max(6)] sum_output_of [OF send_max(5)]
      by (auto simp: one algebra_simps)
qed

section \<open>A concrete wallet\<close>

definition plain_ext :: externals where
  "plain_ext = \<lparr>hex_decode = (\<lambda>_. None), sha256 = (\<lambda>bs. bs), shuffle = (\<lambda>xs. xs), gen_range = (\<lambda>k n. n)\<rparr>"

abbreviation payee :: string where
  "payee \<equiv> ''bc1q''"

definition wallet_coin :: "u64 \<Rightarrow> u32 \<Rightarrow> bool \<Rightarrow> ComposeInput" where
  "wallet_coin a confs cb =
     \<lparr>ci_txid = ''aa'', ci_vout = 0, ci_amount = a, ci_address = payee, ci_path = [],
      ci_confirmations = confs, ci_coinbase = cb, ci_own = False, ci_required = False,
      ci_script_type = SpendWitness\<rparr>"

definition request_of :: "ComposeInput list \<Rightarrow> ComposeOutput list \<Rightarrow> SortingStrategy \<Rightarrow> ComposeRequest" where
  "request_of ins outs strategy =
     \<lparr>req_inputs = ins, req_outputs = outs, req_fee_rate = Fin 2, req_base_fee = 0,
      req_change_script_type = SpendWitness, req_sorting_strategy = strategy, req_sequence = None\<rparr>"

lemma plain_shuffle: "mset (shuffle plain_ext xs) = mset xs"
  by (simp add: plain_ext_def)

lemma payee_script [simp]:
  "script_type_from_address payee = SpendWitness" "address_to_script_pubkey h payee = []"
  by code_simp+

lemma simple_selection:
  "select_coins (request_of [wallet_coin 50300 6 False] [Payment payee 50000] Unsorted)
     = Success [0] 300 0 False 438"
  using try_rich
  by (simp add: select_coins_def cs_inputs_of_def request_of_def wallet_coin_def cs_input_def)

lemma simple_payment:
  "\<exists>per. compose_tx plain_ext (request_of [wallet_coin 50300 6 False] [Payment payee 50000] Unsorted)
    = Some (Final 50300 300 per 110
        [\<lparr>cdi_index = 0, cdi_txid = ''aa'', cdi_vout = 0, cdi_amount = 50300, cdi_address = payee, cdi_path = [],
          cdi_script_type = SpendWitness\<rparr>] [PaymentOut payee 50000] [0])"
  unfolding compose_tx_def simple_selection
  by (simp add: request_of_def wallet_coin_def finish_success_def composed_input_def get_def
      sort_and_finish_def sort_transaction_def sortable_input_def sortable_output_def
      weight_to_vbytes_def)

section \<open>Properties\<close>

text \<open>
  C8: for every request the engine returns a value; no index is out of range and
  no \<^verbatim>\<open>unreachable!\<close> is reached, given that shuffling permutes.
\<close>

theorem compose_never_panics:
  assumes "\<forall>xs. mset (shuffle ext xs) = mset xs"
  shows "\<exists>res. compose_tx ext request = Some res"
  using assms by (intro compose_total) simp

theorem compose_never_panics_witness:
  "\<exists>res. compose_tx plain_ext (request_of [wallet_coin 50300 6 False] [Payment payee 50000] Random) = Some res"
  using compose_never_panics [of plain_ext] plain_shuffle by simp






text \<open>
  C5: the reported size of a final transaction without send-max outputs is the
  virtual size of its inputs and outputs, change included, and the fee is at least the fee rate
  times that size plus the base fee, when no 64-bit sum of the change decision wraps.
\<close>

theorem compose_fee_sufficient:
  assumes "\<forall>xs. mset (shuffle ext xs) = mset xs"
    and "\<not> list_ex is_send_max (req_outputs request)"
    and "compose_tx ext request = Some (Final spent fee per vb ins outs perm)"
    and "ws = map cso_weight (map (cs_output (req_change_script_type request)) (req_outputs request))"
    and "finalize_fits (sum_list (map fixed_amount (req_outputs request))) (req_fee_rate request)
        (req_base_fee request) (map cdi_script_type ins) ws (req_change_script_type request)"
    and "w = transaction_weight (map cdi_script_type ins)
        (if length outs = length (req_outputs request) then ws
         else ws @ [change_output_weight (req_change_script_type request)])"
  shows "vb = weight_to_vbytes w
    \<and> required_fee (req_fee_rate request) (req_base_fee request) w \<le> unat fee"
  using assms(1,3)
proof (cases rule: compose_final_cases)
  case (success chosen change hc w')
  let ?ts = "map csi_script_type chosen"
  have fin: "finalize (sum_list (map csi_amount chosen)) (sum_list (map fixed_amount (req_outputs request)))
      (req_fee_rate request) (req_base_fee request) ?ts ws (req_change_script_type request)
      = FSuccess fee change hc w'"
    using success(1) by (simp add: sum_cs_outputs assms(4) del: map_map)
  have hc: "hc \<longleftrightarrow> hc \<and> 0 < change" using finalize_change [OF fin] by (auto simp: word_greater_zero_iff)
  have chosen: "mset chosen \<subseteq># mset (cs_inputs_of request)" using success(5) by (simp add: final_of_def)
  have "map cdi_script_type (map (input_of request) (map csi_index chosen)) = ?ts"
    using chosen cs_inputs_get by (auto simp: input_of_def composed_input_def get_def dest!: set_mset_mono)
  then have "mset ?ts = mset (map cdi_script_type ins)"
    using success(5) by (metis final_of_def mset_map)
  then have tw: "transaction_weight ?ts x = transaction_weight (map cdi_script_type ins) x" for x
    by (rule transaction_weight_perm) simp
  have "hc \<longleftrightarrow> length outs \<noteq> length (req_outputs request)"
    using final_of_length [OF success(5)] hc by auto
  then have w: "w' = w" using finalize_weight [OF fin] tw assms(6) by simp
  have "finalize_fits (sum_list (map fixed_amount (req_outputs request))) (req_fee_rate request)
        (req_base_fee request) ?ts ws (req_change_script_type request)"
    using assms(5) by (simp only: finalize_fits_def tw)
  from finalize_amounts [OF this fin] success(3) w show ?thesis by simp
next
  case (send_max chosen m w)
  with assms(2) show ?thesis by simp
qed

theorem compose_fee_sufficient_witness:
  "(110 :: nat) = weight_to_vbytes 438 \<and> required_fee (Fin 2) 0 438 \<le> unat (300 :: u64)"
proof -
  let ?req = "request_of [wallet_coin 50300 6 False] [Payment payee 50000] Unsorted"
  obtain per where run: "compose_tx plain_ext ?req
    = Some (Final 50300 300 per 110
        [\<lparr>cdi_index = 0, cdi_txid = ''aa'', cdi_vout = 0, cdi_amount = 50300, cdi_address = payee, cdi_path = [],
          cdi_script_type = SpendWitness\<rparr>] [PaymentOut payee 50000] [0])"
    using simple_payment by blast
  have "finalize_fits 50000 (Fin 2) 0 [SpendWitness] [124] SpendWitness"
    using one_p2wpkh_payment by (simp add: finalize_fits_def required_fee_def)
  with compose_fee_sufficient [OF _ _ run, of "[124]" 438] plain_shuffle one_p2wpkh_payment show ?thesis
    by (simp add: request_of_def)
qed

text \<open>The score of a coin is exact for amounts of real coins.\<close>

lemma score_exact:
  assumes "unat (calculate_fee r (csi_weight a)) \<le> unat (csi_amount a)" "unat (csi_amount a) \<le> 2 ^ 53"
  shows "score r a = Fin (of_nat (unat (csi_amount a) - unat (calculate_fee r (csi_weight a))))"
proof -
  have "unat (calculate_fee r (csi_weight a)) \<le> 2 ^ 53" using assms by simp
  then show ?thesis
    using assms f64_of_nat_exact [of "unat (csi_amount a)"]
      f64_of_nat_exact [of "unat (calculate_fee r (csi_weight a))"]
      round_f64_nat [of "unat (csi_amount a) - unat (calculate_fee r (csi_weight a))"]
    by (simp add: score_def of_nat_diff)
qed

text \<open>
  C32: with a sorting strategy, the coins are ordered by effective value
  before selection, but the confirmation filter reads the confirmations and coinbase flags by
  position: a coinbase coin with one confirmation, not required, is spent.
\<close>

theorem compose_spends_immature_coinbase:
  "select_coins (request_of [wallet_coin 1000 6 False, wallet_coin 50300 1 True] [Payment payee 50000] Bip69)
     = Success [1] 300 0 False 438"
proof -
  have a: "unat (calculate_fee (Fin 2) 272) = 136" by (simp add: one_input_fee)
  have "cs_inputs_of (request_of [wallet_coin 1000 6 False, wallet_coin 50300 1 True] [Payment payee 50000] Bip69)
      = [sample_coin 1 50300, sample_coin 0 1000]"
    using score_exact [of "Fin 2" "sample_coin 0 1000"] score_exact [of "Fin 2" "sample_coin 1 50300"] a
    by (simp add: cs_inputs_of_def request_of_def wallet_coin_def cs_input_def better_score_def)
  then show ?thesis
    by (simp add: select_coins_def request_of_def wallet_coin_def try_eval coinselect_rich)
qed

lemma two_outputs_payment:
  "transaction_weight [SpendWitness] [124, 124] = 562" "calculate_fee (Fin 2) 562 = 282"
  using one_p2wpkh_payment(4)
  by (simp_all add: transaction_weight_closed varint_weight_def has_segwit_def)

text \<open>
  A request with two send-max outputs is accepted and each of
  them gets the whole remaining balance, so the transaction pays out more than it spends.
\<close>

theorem compose_two_send_max_overspends:
  "\<exists>spent fee per vb ins outs perm.
     compose_tx plain_ext (request_of [wallet_coin 50282 6 False] [SendMaxTo payee, SendMaxTo payee] Unsorted)
       = Some (Final spent fee per vb ins outs perm)
     \<and> map cdi_amount ins = [50282] \<and> map out_amount outs = [50000, 50000] \<and> fee = 282"
proof -
  have "select_coins (request_of [wallet_coin 50282 6 False] [SendMaxTo payee, SendMaxTo payee] Unsorted)
      = SendMax [0] 50000 282 562"
    using two_outputs_payment
    by (simp add: select_coins_def request_of_def wallet_coin_def cs_inputs_of_def cs_input_def split_def
        split_loop_mature mature_def get_or_def Let_def)
  then have "compose_tx plain_ext
        (request_of [wallet_coin 50282 6 False] [SendMaxTo payee, SendMaxTo payee] Unsorted)
      = Some (Final 50282 282 (fee_per_byte 282 141) 141
          [\<lparr>cdi_index = 0, cdi_txid = ''aa'', cdi_vout = 0, cdi_amount = 50282, cdi_address = payee,
            cdi_path = [], cdi_script_type = SpendWitness\<rparr>]
          [PaymentOut payee 50000, PaymentOut payee 50000] [0, 1])"
    by (simp add: compose_tx_def)
      (simp add: request_of_def wallet_coin_def finish_send_max_def composed_input_def get_def
        sort_and_finish_def sort_transaction_def sortable_input_def sortable_output_def
        weight_to_vbytes_def)
  then show ?thesis by simp
qed

text \<open>
  The sum of the requested amounts is computed modulo \<open>2 ^ 64\<close> without a check:
  two payments of about \<open>2 ^ 63\<close> satoshi each are funded by a coin of 50362 satoshi.
\<close>

theorem compose_sum_wraps:
  "select_coins (request_of [wallet_coin 50362 6 False]
      [Payment payee 9223372036854775808, Payment payee 9223372036854825808] Unsorted)
     = Success [0] 362 0 False 562
   \<and> unat (50362 :: u64) < unat (9223372036854775808 :: u64) + unat (9223372036854825808 :: u64)"
proof -
  have "transaction_weight [] [124, 124] = 288" "calculate_fee (Fin 2) 288 = 144"
    "transaction_weight [SpendWitness] [124, 124, 124] = 686" "calculate_fee (Fin 2) 686 = 344"
    using calculate_fee_int [of 2 288] calculate_fee_int [of 2 686]
    by (simp_all add: transaction_weight_closed varint_weight_def has_segwit_def weight_to_vbytes_def)
  then have "coinselect [sample_coin 0 50362] [sample_pay 9223372036854775808, sample_pay 9223372036854825808] (Fin 2) 0
      SpendWitness confs cb = Success [0] 362 0 False 562" for confs cb
    using two_outputs_payment by (simp add: coinselect_def bnb_eval)
  then show ?thesis
    by (simp add: select_coins_def request_of_def wallet_coin_def cs_inputs_of_def cs_input_def try_eval)
qed

end
