(* ===== verification/Errors.thy ===== *)
theory Errors
  imports Prelude
begin

text \<open>
  The error enums of \<^verbatim>\<open>error.rs\<close>. A fallible operation has type \<open>'a result\<close>: an
  error, a panic, or a value. Constructors keep the source's names; a variant whose name
  another enum already uses carries the enum's name as a prefix.
\<close>

datatype TransportError =
    DeviceNotFound
  | DeviceDisconnected
  | UnableToOpen string
  | UnableToClose string
  | DataTransfer string
  | Usb string
  | Bluetooth string
  | PermissionDenied string
  | DeviceBusy

datatype ProtocolError =
    Malformed string
  | InvalidMessageType u16
  | MessageTooShort nat nat
  | InvalidHeader
  | ChunkHeaderMismatch
  | ProtobufEncode string
  | ProtobufDecode string
  | UnexpectedResponse string string

datatype DeviceError =
    NotConnected
  | ActionCancelled
  | PinRequired
  | InvalidPin
  | PinCancelled
  | PassphraseRequired
  | PassphraseCancelled
  | InvalidState
  | NotInitialized
  | FirmwareUpdateRequired
  | SeedNotBackedUp
  | NotSupported string
  | Failure "int option" string
  | DeviceErrorResponse int string
  | ButtonRequest string
  | DeviceProtobufDecode string
  | InvalidInput string
  | AddressMismatch string string

datatype ThpError =
    ChannelAllocationFailed
  | HandshakeFailed string
  | DeviceLocked
  | PairingRequired
  | PairingFailed string
  | InvalidCredentials
  | EncryptionError string
  | DecryptionError string
  | AckNotReceived
  | InvalidSyncBit
  | StateMissing
  | ThpSessionError string

datatype SessionError =
    NotFound
  | WrongPrevious
  | AlreadyAcquired
  | Expired

datatype BitcoinError =
    InvalidPath string
  | InvalidAddress string
  | InvalidTransaction string
  | InsufficientFundsError
  | InvalidSignature
  | NetworkMismatch string string

datatype TrezorError =
    Transport TransportError
  | Protocol ProtocolError
  | Device DeviceError
  | Thp ThpError
  | Session SessionError
  | Bitcoin_error BitcoinError
  | Cancelled
  | Timeout
  | IoError string
  | NotImplemented string

type_synonym 'a result = "TrezorError fault + 'a"

abbreviation protocol_err :: "ProtocolError \<Rightarrow> 'a result" where
  "protocol_err e \<equiv> Inl (Err (Protocol e))"

abbreviation thp_err :: "ThpError \<Rightarrow> 'a result" where
  "thp_err e \<equiv> Inl (Err (Thp e))"

abbreviation device_err :: "DeviceError \<Rightarrow> 'a result" where
  "device_err e \<equiv> Inl (Err (Device e))"

abbreviation bitcoin_err :: "BitcoinError \<Rightarrow> 'a result" where
  "bitcoin_err e \<equiv> Inl (Err (Bitcoin_error e))"

text \<open>\<^verbatim>\<open>DeviceError::from_failure\<close>: the known failure codes become typed errors.\<close>

definition from_failure :: "int option \<Rightarrow> string \<Rightarrow> DeviceError" where
  "from_failure code message =
     (case code of
        Some c \<Rightarrow>
          if c = 7 then InvalidPin
          else if c = 6 then PinCancelled
          else if c = 5 then PinRequired
          else if c = 4 then ActionCancelled
          else DeviceErrorResponse c message
      | None \<Rightarrow> DeviceErrorResponse 0 message)"

end
