(* ===== verification/Path.thy ===== *)
theory Path
  imports Errors Bitcoin_Types
begin

text \<open>
  BIP32 paths (\<^verbatim>\<open>types/path.rs\<close>): parsing, printing and the hardened bit. Text is ASCII;
  \<^verbatim>\<open>trim\<close> removes ASCII white space.
\<close>

section \<open>Definitions\<close>

definition HARDENED_OFFSET :: u32 where
  "HARDENED_OFFSET = 0x80000000"

definition is_space :: "char \<Rightarrow> bool" where
  "is_space c \<longleftrightarrow> (let n = of_char c :: nat in 9 \<le> n \<and> n \<le> 13 \<or> n = 32)"

definition trim_start :: "string \<Rightarrow> string" where
  "trim_start s = dropWhile is_space s"

definition trim_end :: "string \<Rightarrow> string" where
  "trim_end s = rev (dropWhile is_space (rev s))"

definition trim :: "string \<Rightarrow> string" where
  "trim s = trim_end (trim_start s)"

text \<open>\<^verbatim>\<open>str::split(c)\<close>: always at least one piece.\<close>

fun split_on :: "char \<Rightarrow> string \<Rightarrow> string list" where
  "split_on c [] = [[]]"
| "split_on c (d # s) =
     (if d = c then [] # split_on c s
      else (d # hd (split_on c s)) # tl (split_on c s))"

definition strip_prefix :: "string \<Rightarrow> string \<Rightarrow> string option" where
  "strip_prefix p s = (if take (length p) s = p then Some (drop (length p) s) else None)"

definition ends_with_char :: "string \<Rightarrow> char \<Rightarrow> bool" where
  "ends_with_char s c \<longleftrightarrow> s \<noteq> [] \<and> last s = c"

fun join :: "string \<Rightarrow> string list \<Rightarrow> string" where
  "join sep [] = []"
| "join sep [x] = x"
| "join sep (x # y # xs) = x @ sep @ join sep (y # xs)"

definition parse_component :: "string \<Rightarrow> u32 result" where
  "parse_component component =
     (let (num_str, is_hardened) =
        (if ends_with_char component (CHR 0x27) \<or> ends_with_char component (CHR ''h'')
         then (take (length component - 1) component, True)
         else (component, False))
      in case parse_uint u32_max num_str of
           None \<Rightarrow> bitcoin_err (InvalidPath (''Invalid component: '' @ component))
         | Some num \<Rightarrow>
             Inr (if is_hardened then of_nat num OR HARDENED_OFFSET else of_nat num))"

fun parse_components :: "string list \<Rightarrow> u32 list result" where
  "parse_components [] = Inr []"
| "parse_components (component # components) =
     (let component = trim component in
      if component = [] then parse_components components
      else bind_res (parse_component component)
             (\<lambda>n. bind_res (parse_components components) (\<lambda>ns. Inr (n # ns))))"

definition parse_path :: "string \<Rightarrow> u32 list result" where
  "parse_path path =
     (let path = trim path in
      if path = ''m'' then Inr []
      else
        let path = (case strip_prefix ''m/'' path of Some p \<Rightarrow> p | None \<Rightarrow> path) in
        if path = [] then Inr []
        else parse_components (split_on (CHR ''/'') path))"

definition serialize_component :: "u32 \<Rightarrow> string" where
  "serialize_component n =
     (if HARDENED_OFFSET \<le> n then show_nat (unat (n - HARDENED_OFFSET)) @ [CHR 0x27]
      else show_nat (unat n))"

definition serialize_path :: "u32 list \<Rightarrow> string" where
  "serialize_path path =
     (let components = map serialize_component path in
      if components = [] then ''m'' else ''m/'' @ join ''/'' components)"

definition is_hardened :: "u32 \<Rightarrow> bool" where
  "is_hardened index \<longleftrightarrow> HARDENED_OFFSET \<le> index"

definition harden :: "u32 \<Rightarrow> u32" where
  "harden index = index OR HARDENED_OFFSET"

definition unharden :: "u32 \<Rightarrow> u32" where
  "unharden index = index AND NOT HARDENED_OFFSET"

section \<open>The hardened bit\<close>

lemma HARDENED_OFFSET_bit: "bit HARDENED_OFFSET n \<longleftrightarrow> n = 31"
proof -
  have *: "HARDENED_OFFSET = push_bit 31 1" by (simp add: HARDENED_OFFSET_def push_bit_eq_mult)
  show ?thesis unfolding * bit_push_bit_iff by (auto simp: bit_1_iff possible_bit_def)
qed

lemma is_hardened_unat: "is_hardened i \<longleftrightarrow> 2 ^ 31 \<le> unat i"
  by (simp add: is_hardened_def HARDENED_OFFSET_def word_le_nat_alt)

lemma is_hardened_bit: "is_hardened i \<longleftrightarrow> bit i 31"
proof -
  have "bit i 31 \<longleftrightarrow> bit (unat i) 31" by (simp add: bit_unsigned_iff)
  also have "\<dots> \<longleftrightarrow> odd (unat i div 2 ^ 31)" by (simp add: bit_iff_odd)
  also have "\<dots> \<longleftrightarrow> 2 ^ 31 \<le> unat i"
  proof -
    have "unat i div 2 ^ 31 < 2" using unat_u32_less [of i] by (simp add: less_mult_imp_div_less)
    then have "unat i div 2 ^ 31 = 0 \<or> unat i div 2 ^ 31 = 1" by linarith
    then show ?thesis by (auto simp: div_eq_0_iff)
  qed
  finally show ?thesis by (simp add: is_hardened_unat)
qed

lemma unharden_sub: "is_hardened i \<Longrightarrow> i AND NOT HARDENED_OFFSET = i - HARDENED_OFFSET"
proof -
  assume h: "is_hardened i"
  have "(i AND NOT HARDENED_OFFSET) AND HARDENED_OFFSET = 0" by (rule bit_eqI) (simp add: bit_simps)
  then have "(i AND NOT HARDENED_OFFSET) + HARDENED_OFFSET = (i AND NOT HARDENED_OFFSET) OR HARDENED_OFFSET"
    by (rule disjunctive_add_eq_or)
  also have "\<dots> = i"
    using h by (intro bit_eqI) (auto simp: bit_simps HARDENED_OFFSET_bit is_hardened_bit)
  finally show ?thesis by (metis add_diff_cancel_right')
qed

lemma harden_sub: "is_hardened i \<Longrightarrow> (i - HARDENED_OFFSET) OR HARDENED_OFFSET = i"
  using unharden_sub [of i, symmetric]
  by (simp) (intro bit_eqI, auto simp: bit_simps HARDENED_OFFSET_bit is_hardened_bit)

section \<open>Printing and parsing\<close>

lemma is_space_digit [simp]: "is_ascii_digit c \<Longrightarrow> \<not> is_space c"
  by (auto simp: is_space_def is_ascii_digit_def Let_def)

lemma trim_id: "s \<noteq> [] \<Longrightarrow> \<not> is_space (hd s) \<Longrightarrow> \<not> is_space (last s) \<Longrightarrow> trim s = s"
proof -
  assume s: "s \<noteq> []" "\<not> is_space (hd s)" "\<not> is_space (last s)"
  then have "dropWhile is_space s = s" "dropWhile is_space (rev s) = rev s"
    by (simp_all add: dropWhile_eq_self_iff hd_rev)
  then show ?thesis by (simp add: trim_def trim_start_def trim_end_def)
qed

lemma split_on_nonempty [simp]: "split_on c s \<noteq> []"
  by (induction s) auto

lemma split_on_free: "c \<notin> set s \<Longrightarrow> split_on c s = [s]"
  by (induction s) auto

lemma split_on_append: "c \<notin> set s \<Longrightarrow> split_on c (s @ c # t) = s # split_on c t"
  by (induction s) auto

lemma split_on_join:
  "xs \<noteq> [] \<Longrightarrow> \<forall>x \<in> set xs. c \<notin> set x \<Longrightarrow> split_on c (join [c] xs) = xs"
proof (induction "[c]" xs rule: join.induct)
  case (3 x y xs)
  then show ?case by (simp add: split_on_append)
qed (simp_all add: split_on_free)

lemma digits_no_mark:
  "list_all is_ascii_digit s \<Longrightarrow> c \<in> set s \<Longrightarrow> c \<noteq> CHR ''/'' \<and> c \<noteq> CHR 0x27 \<and> c \<noteq> CHR ''h''"
  by (auto simp: list_all_iff is_ascii_digit_def)

lemma hd_digit: "list_all is_ascii_digit s \<Longrightarrow> s \<noteq> [] \<Longrightarrow> is_ascii_digit (hd s)"
  by (cases s) auto

lemma last_digit: "list_all is_ascii_digit s \<Longrightarrow> s \<noteq> [] \<Longrightarrow> is_ascii_digit (last s)"
  by (simp add: list_all_iff)

lemma quote_not_space [simp]: "\<not> is_space (CHR 0x27)"
  by (simp add: is_space_def)

lemma serialize_component_shape:
  "serialize_component n \<noteq> []" "\<not> is_space (hd (serialize_component n))"
  "\<not> is_space (last (serialize_component n))" "CHR ''/'' \<notin> set (serialize_component n)"
  using hd_digit [OF show_nat_digits] last_digit [OF show_nat_digits] digits_no_mark [OF show_nat_digits]
  by (auto simp: serialize_component_def)

lemma parse_serialize_component: "parse_component (serialize_component n) = Inr n"
proof (cases "HARDENED_OFFSET \<le> n")
  case True
  then have "is_hardened n" by (simp add: is_hardened_def)
  moreover have "unat (n - HARDENED_OFFSET) \<le> u32_max"
    using unat_u32_less [of "n - HARDENED_OFFSET"] by (simp add: u32_max_def)
  ultimately show ?thesis
    using True harden_sub
    by (simp add: parse_component_def serialize_component_def ends_with_char_def parse_simps)
next
  case False
  have "last (show_nat (unat n)) \<noteq> CHR 0x27" "last (show_nat (unat n)) \<noteq> CHR ''h''"
    using digits_no_mark [OF show_nat_digits last_in_set [OF show_nat_nonempty]] by auto
  moreover have "unat n \<le> u32_max" using unat_u32_less [of n] by (simp add: u32_max_def)
  ultimately show ?thesis
    using False by (simp add: parse_component_def serialize_component_def ends_with_char_def parse_simps)
qed

lemma parse_components_serialized: "parse_components (map serialize_component path) = Inr path"
  by (induction path)
    (simp_all add: trim_id serialize_component_shape parse_serialize_component)

lemma join_hd_last:
  "xs \<noteq> [] \<Longrightarrow> \<forall>x \<in> set xs. x \<noteq> [] \<Longrightarrow>
     join sep xs \<noteq> [] \<and> hd (join sep xs) = hd (hd xs) \<and> last (join sep xs) = last (last xs)"
  by (induction sep xs rule: join.induct) auto

lemma parse_serialize_path: "parse_path (serialize_path path) = Inr path"
proof (cases "path = []")
  case True
  then show ?thesis by (simp add: parse_path_def serialize_path_def trim_def trim_start_def trim_end_def
        is_space_def)
next
  case False
  let ?cs = "map serialize_component path"
  have j: "join ''/'' ?cs \<noteq> []" "last (join ''/'' ?cs) = last (last ?cs)"
    using join_hd_last [of ?cs "''/''"] False by (auto simp: serialize_component_shape)
  have "\<not> is_space (last (join ''/'' ?cs))"
    using j False by (simp add: last_map serialize_component_shape)
  then have "trim (''m/'' @ join ''/'' ?cs) = ''m/'' @ join ''/'' ?cs"
    using j by (intro trim_id) (auto simp: is_space_def)
  moreover have "split_on (CHR ''/'') (join ''/'' ?cs) = ?cs"
    using False by (intro split_on_join) (auto simp: serialize_component_shape)
  ultimately show ?thesis
    using False j parse_components_serialized
    by (simp add: parse_path_def serialize_path_def strip_prefix_def)
qed

section \<open>Properties\<close>

text \<open>
  Printing a derivation path and parsing the text gives the path back, for every
  list of 32-bit indices, hardened or not.
\<close>

theorem path_roundtrip: "parse_path (serialize_path path) = Inr path"
  by (rule parse_serialize_path)

text \<open>
  Hardening sets exactly the top bit, clearing it gives back every index that was not
  hardened, and the test for a hardened index reads that bit.
\<close>

theorem harden_unharden:
  "is_hardened (harden i) \<and> \<not> is_hardened (unharden i) \<and> unharden (harden i) = unharden i
   \<and> (\<not> is_hardened i \<longrightarrow> unharden (harden i) = i) \<and> (is_hardened i \<longrightarrow> harden (unharden i) = i)"
  by (auto simp: is_hardened_bit harden_def unharden_def bit_simps HARDENED_OFFSET_bit intro!: bit_eqI)

theorem harden_unharden_witness:
  "\<not> is_hardened 84 \<and> unharden (harden 84) = 84 \<and> is_hardened 2147483732 \<and> harden (unharden 2147483732) = 2147483732"
proof -
  have "\<not> is_hardened 84" "is_hardened 2147483732" by (simp_all add: is_hardened_def HARDENED_OFFSET_def)
  with harden_unharden [of 84] harden_unharden [of 2147483732] show ?thesis by blast
qed

text \<open>
  The hardened mark is a bitwise or with the parsed number, whose range is not limited to
  31 bits: distinct texts denote the same index.
\<close>

theorem hardened_alias:
  "parse_path ''m/2147483732h'' = parse_path ''m/84h'' \<and> parse_path ''m/+84h'' = parse_path ''m//84h''"
  by (simp add: parse_path_def trim_def trim_start_def trim_end_def is_space_def strip_prefix_def
      parse_component_def ends_with_char_def parse_uint_def strip_plus_def is_ascii_digit_def
      digits_val_def digit_val_def u32_max_def HARDENED_OFFSET_def)

end
