(* ===== verification/Sign_Params.thy ===== *)
theory Sign_Params
  imports Bitcoin_Types
begin

text \<open>
  The parameters of a signing call (\<^verbatim>\<open>params.rs\<close>), the interface between transaction
  composition and the device session.
\<close>

record HDNodeType =
  hd_depth :: u32
  hd_fingerprint :: u32
  hd_child_num :: u32
  hd_chain_code :: bytes
  hd_public_key :: bytes

record MultisigPubkey =
  mp_node :: "HDNodeType option"
  mp_xpub :: "string option"
  mp_address_n :: "u32 list"

record MultisigConfig =
  ms_m :: u32
  ms_pubkeys :: "MultisigPubkey list"
  ms_signatures :: "string list option"

record SignTxInput =
  sti_prev_hash :: string
  sti_prev_index :: u32
  sti_path :: string
  sti_amount :: u64
  sti_script_type :: ScriptType
  sti_sequence :: "u32 option"
  sti_orig_hash :: "string option"
  sti_orig_index :: "u32 option"
  sti_multisig :: "MultisigConfig option"
  sti_script_pubkey :: "string option"
  sti_script_sig :: "string option"
  sti_witness :: "string option"
  sti_ownership_proof :: "string option"
  sti_commitment_data :: "string option"

record SignTxOutput =
  sto_address :: "string option"
  sto_path :: "string option"
  sto_amount :: u64
  sto_script_type :: "ScriptType option"
  sto_op_return_data :: "string option"
  sto_orig_hash :: "string option"
  sto_orig_index :: "u32 option"
  sto_multisig :: "MultisigConfig option"
  sto_payment_req_index :: "u32 option"

record SignTxPrevTxInput =
  pti_prev_hash :: string
  pti_prev_index :: u32
  pti_script_sig :: string
  pti_sequence :: u32

record SignTxPrevTxOutput =
  pto_amount :: u64
  pto_script_pubkey :: string

record SignTxPrevTx =
  ptx_hash :: string
  ptx_version :: u32
  ptx_lock_time :: u32
  ptx_inputs :: "SignTxPrevTxInput list"
  ptx_outputs :: "SignTxPrevTxOutput list"
  ptx_extra_data :: "string option"

record UnlockPath =
  up_address_n :: "u32 list"
  up_mac :: "string option"

record RefundMemo =
  rm_address :: string
  rm_address_n :: "u32 list"
  rm_mac :: string

record CoinPurchaseMemo =
  cpm_coin_type :: u32
  cpm_amount :: string
  cpm_address :: string
  cpm_address_n :: "u32 list"
  cpm_mac :: string

text \<open>A \<^verbatim>\<open>TextMemo\<close> has one field, its text.\<close>

record PaymentRequestMemo =
  prm_text_memo :: "string option"
  prm_refund_memo :: "RefundMemo option"
  prm_coin_purchase_memo :: "CoinPurchaseMemo option"

record PaymentRequest =
  pr_recipient_name :: string
  pr_nonce :: "string option"
  pr_memos :: "PaymentRequestMemo list"
  pr_amount :: "u64 option"
  pr_signature :: string

datatype AmountUnit = UnitBitcoin | UnitMilliBitcoin | UnitMicroBitcoin | UnitSatoshi

record SignTxParams =
  stp_inputs :: "SignTxInput list"
  stp_outputs :: "SignTxOutput list"
  stp_coin :: "Network option"
  stp_lock_time :: "u32 option"
  stp_version :: "u32 option"
  stp_prev_txs :: "SignTxPrevTx list"
  stp_push :: "bool option"
  stp_amount_unit :: "AmountUnit option"
  stp_serialize :: "bool option"
  stp_chunkify :: "bool option"
  stp_unlock_path :: "UnlockPath option"
  stp_payment_requests :: "PaymentRequest list"

end
