(* ===== verification/Precompose.thy ===== *)
theory Precompose
  imports Compose Path Sign_Params
begin

text \<open>
  The composition API (\<^verbatim>\<open>api/compose.rs\<close>): account data and fee levels in, one result
  per fee level out, and the conversion of a final result to signing parameters. Amounts cross
  this interface as decimal text. The decimal text of a fee rate is read with the full grammar
  of \<^verbatim>\<open>f64::from_str\<close>; \<open>show_f64\<close> (its \<^verbatim>\<open>Display\<close>) is an argument, no
  property depends on its digits.
\<close>

section \<open>Definitions\<close>

subsection \<open>Data\<close>

record FeeLevel =
  fee_per_unit :: string
  base_fee :: "u64 option"
  floor_base_fee :: "bool option"

record AccountAddress =
  aa_address :: string
  aa_path :: string
  aa_transfers :: u32

record AccountAddresses =
  addr_used :: "AccountAddress list"
  addr_unused :: "AccountAddress list"
  addr_change :: "AccountAddress list"

record ComposeUtxo =
  utxo_txid :: string
  utxo_vout :: u32
  utxo_amount :: u64
  utxo_address :: string
  utxo_path :: string
  utxo_confirmations :: u32
  utxo_coinbase :: bool
  utxo_own :: bool
  utxo_required :: "bool option"

record ComposeAccount =
  acc_path :: string
  acc_addresses :: AccountAddresses
  acc_utxo :: "ComposeUtxo list"

datatype PrecomposeOutput =
    PrePayment string string
  | PrePaymentNoAddress string
  | PreSendMax string
  | PreSendMaxNoAddress
  | PreOpReturn string

record PrecomposeParams =
  pp_outputs :: "PrecomposeOutput list"
  pp_coin :: string
  pp_account :: ComposeAccount
  pp_fee_levels :: "FeeLevel list"
  pp_sequence :: "u32 option"
  pp_sorting_strategy :: "SortingStrategy option"

record PrecomposedInput =
  pi_txid :: string
  pi_vout :: u32
  pi_amount :: string
  pi_address :: string
  pi_path :: string
  pi_script_type :: ScriptType

datatype PrecomposedOutput =
    PoPayment string string
  | PoChange string string string ScriptType
  | PoOpReturn string

text \<open>\<open>PreFinal total_spent fee fee_per_byte bytes inputs outputs outputs_permutation\<close> and
  \<open>PreNonFinal max total_spent fee fee_per_byte bytes\<close>.\<close>

datatype PrecomposedResult =
    PreFinal string string string nat "PrecomposedInput list" "PrecomposedOutput list" "nat list"
  | PreNonFinal "string option" string string string nat
  | PreError string

subsection \<open>Numbers as text\<close>

definition show_u64 :: "u64 \<Rightarrow> string" where
  "show_u64 n = show_nat (unat n)"

text \<open>\<^verbatim>\<open>s.parse::<u64>().unwrap_or(0)\<close>\<close>

definition parse_u64_or_0 :: "string \<Rightarrow> u64" where
  "parse_u64_or_0 s = (case parse_uint u64_max s of Some n \<Rightarrow> of_nat n | None \<Rightarrow> 0)"

definition strip_sign :: "string \<Rightarrow> bool \<times> string" where
  "strip_sign s =
     (case s of
        [] \<Rightarrow> (False, [])
      | c # cs \<Rightarrow> if c = CHR ''-'' then (True, cs) else if c = CHR ''+'' then (False, cs) else (False, s))"

text \<open>The exponent part: nothing, or \<open>e\<close> with a signed, non-empty digit string.\<close>

definition parse_exponent :: "string \<Rightarrow> int option" where
  "parse_exponent s =
     (case s of
        [] \<Rightarrow> Some 0
      | c # cs \<Rightarrow>
          if c = CHR ''e'' \<or> c = CHR ''E''
          then
            let (neg, ds) = strip_sign cs in
            if ds = [] \<or> \<not> list_all is_ascii_digit ds then None
            else Some (if neg then - int (digits_val ds) else int (digits_val ds))
          else None)"

definition parse_f64 :: "string \<Rightarrow> f64 option" where
  "parse_f64 s =
     (let (neg, body) = strip_sign s;
          lower = to_lowercase body
      in if body = [] then None
         else if lower = ''inf'' \<or> lower = ''infinity'' then Some (if neg then NegInf else PosInf)
         else if lower = ''nan'' then Some NaN
         else
           let int_part = takeWhile is_ascii_digit body;
               rest = dropWhile is_ascii_digit body;
               (frac, rest) =
                 (case rest of
                    c # cs \<Rightarrow> if c = CHR ''.'' then (takeWhile is_ascii_digit cs, dropWhile is_ascii_digit cs)
                              else ([], rest)
                  | [] \<Rightarrow> ([], []))
           in if int_part = [] \<and> frac = [] then None
              else
                case parse_exponent rest of
                  None \<Rightarrow> None
                | Some e \<Rightarrow>
                    let v = of_nat (digits_val (int_part @ frac)) * 10 powi (e - int (length frac))
                    in Some (round_f64 (if neg then - v else v)))"

subsection \<open>Signing parameters\<close>

definition precomposed_input_to_sign_input :: "PrecomposedInput \<Rightarrow> SignTxInput" where
  "precomposed_input_to_sign_input input =
     \<lparr>sti_prev_hash = pi_txid input, sti_prev_index = pi_vout input, sti_path = pi_path input,
      sti_amount = parse_u64_or_0 (pi_amount input), sti_script_type = pi_script_type input,
      sti_sequence = None, sti_orig_hash = None, sti_orig_index = None, sti_multisig = None,
      sti_script_pubkey = None, sti_script_sig = None, sti_witness = None,
      sti_ownership_proof = None, sti_commitment_data = None\<rparr>"

fun precomposed_output_to_sign_output :: "PrecomposedOutput \<Rightarrow> SignTxOutput" where
  "precomposed_output_to_sign_output (PoPayment address amount) =
     \<lparr>sto_address = Some address, sto_path = None, sto_amount = parse_u64_or_0 amount,
      sto_script_type = None, sto_op_return_data = None, sto_orig_hash = None, sto_orig_index = None,
      sto_multisig = None, sto_payment_req_index = None\<rparr>"
| "precomposed_output_to_sign_output (PoChange address path amount script_type) =
     \<lparr>sto_address = None, sto_path = Some path, sto_amount = parse_u64_or_0 amount,
      sto_script_type = Some script_type, sto_op_return_data = None, sto_orig_hash = None,
      sto_orig_index = None, sto_multisig = None, sto_payment_req_index = None\<rparr>"
| "precomposed_output_to_sign_output (PoOpReturn data_hex) =
     \<lparr>sto_address = None, sto_path = None, sto_amount = 0,
      sto_script_type = None, sto_op_return_data = Some data_hex, sto_orig_hash = None,
      sto_orig_index = None, sto_multisig = None, sto_payment_req_index = None\<rparr>"

definition precomposed_final_to_sign_params ::
    "PrecomposedInput list \<Rightarrow> PrecomposedOutput list \<Rightarrow> Network option \<Rightarrow> SignTxParams" where
  "precomposed_final_to_sign_params inputs outputs coin =
     \<lparr>stp_inputs = map precomposed_input_to_sign_input inputs,
      stp_outputs = map precomposed_output_to_sign_output outputs, stp_coin = coin,
      stp_lock_time = None, stp_version = None, stp_prev_txs = [], stp_push = None,
      stp_amount_unit = None, stp_serialize = None, stp_chunkify = None, stp_unlock_path = None,
      stp_payment_requests = []\<rparr>"

subsection \<open>Precompose\<close>

definition trim_end_matches :: "char \<Rightarrow> string \<Rightarrow> string" where
  "trim_end_matches c s = rev (dropWhile (\<lambda>d. d = c) (rev s))"

definition infer_change_script_type :: "string \<Rightarrow> ScriptType" where
  "infer_change_script_type account_path =
     (let parts = split_on (CHR ''/'') account_path in
      if 2 \<le> length parts
      then
        let purpose = (case parse_uint u32_max (trim_end_matches (CHR 0x27) (parts ! 1)) of
                         Some n \<Rightarrow> n | None \<Rightarrow> 84)
        in if purpose = 44 then SpendAddress
           else if purpose = 49 then SpendP2SHWitness
           else if purpose = 84 then SpendWitness
           else if purpose = 86 then SpendTaproot
           else SpendWitness
      else SpendWitness)"

definition compose_input_of :: "ComposeUtxo \<Rightarrow> ComposeInput" where
  "compose_input_of u =
     \<lparr>ci_txid = utxo_txid u, ci_vout = utxo_vout u, ci_amount = utxo_amount u,
      ci_address = utxo_address u, ci_path = utxo_path u, ci_confirmations = utxo_confirmations u,
      ci_coinbase = utxo_coinbase u, ci_own = utxo_own u,
      ci_required = (case utxo_required u of Some r \<Rightarrow> r | None \<Rightarrow> False),
      ci_script_type = script_type_from_address (utxo_address u)\<rparr>"

fun compose_output_of :: "PrecomposeOutput \<Rightarrow> ComposeOutput" where
  "compose_output_of (PrePayment address amount) = Payment address (parse_u64_or_0 amount)"
| "compose_output_of (PrePaymentNoAddress amount) = PaymentNoAddress (parse_u64_or_0 amount)"
| "compose_output_of (PreSendMax address) = SendMaxTo address"
| "compose_output_of PreSendMaxNoAddress = SendMaxNoAddress"
| "compose_output_of (PreOpReturn data_hex) = OpReturn data_hex"

text \<open>The first unused change address, else the first one.\<close>

definition change_address_of :: "ComposeAccount \<Rightarrow> AccountAddress option" where
  "change_address_of account =
     (let change = addr_change (acc_addresses account) in
      case List.find (\<lambda>a. aa_transfers a = 0) change of
        Some a \<Rightarrow> Some a
      | None \<Rightarrow> get change 0)"

definition precomposed_input_of :: "ComposedInput \<Rightarrow> PrecomposedInput" where
  "precomposed_input_of i =
     \<lparr>pi_txid = cdi_txid i, pi_vout = cdi_vout i, pi_amount = show_u64 (cdi_amount i),
      pi_address = cdi_address i, pi_path = cdi_path i, pi_script_type = cdi_script_type i\<rparr>"

fun precomposed_output_of :: "AccountAddress option \<Rightarrow> ComposedOutput \<Rightarrow> PrecomposedOutput" where
  "precomposed_output_of change_address (PaymentOut address amount) = PoPayment address (show_u64 amount)"
| "precomposed_output_of change_address (ChangeOut address path amount script_type) =
     (let (addr, path) = (case change_address of Some a \<Rightarrow> (aa_address a, aa_path a) | None \<Rightarrow> ([], []))
      in PoChange addr path (show_u64 amount) script_type)"
| "precomposed_output_of change_address (OpReturnOut data_hex) = PoOpReturn data_hex"

fun precomposed_result_of :: "(f64 \<Rightarrow> string) \<Rightarrow> AccountAddress option \<Rightarrow> ComposeResult \<Rightarrow> PrecomposedResult" where
  "precomposed_result_of show_f64 change_address (Final total_spent fee per_byte bytes inputs outputs perm) =
     PreFinal (show_u64 total_spent) (show_u64 fee) (show_f64 per_byte) bytes
       (map precomposed_input_of inputs) (map (precomposed_output_of change_address) outputs) perm"
| "precomposed_result_of show_f64 change_address (NonFinal mx total_spent fee per_byte bytes) =
     PreNonFinal (map_option show_u64 mx) (show_u64 total_spent) (show_u64 fee) (show_f64 per_byte) bytes"
| "precomposed_result_of show_f64 change_address (ComposeFailed e) = PreError (show_compose_error e)"

definition level_fee_rate :: "FeeLevel \<Rightarrow> f64" where
  "level_fee_rate level = (case parse_f64 (fee_per_unit level) of Some r \<Rightarrow> r | None \<Rightarrow> Fin 0)"

definition level_request :: "PrecomposeParams \<Rightarrow> FeeLevel \<Rightarrow> ComposeRequest" where
  "level_request params level =
     \<lparr>req_inputs = map compose_input_of (acc_utxo (pp_account params)),
      req_outputs = map compose_output_of (pp_outputs params),
      req_fee_rate = level_fee_rate level,
      req_base_fee = (case base_fee level of Some b \<Rightarrow> b | None \<Rightarrow> 0),
      req_change_script_type = infer_change_script_type (acc_path (pp_account params)),
      req_sorting_strategy = (case pp_sorting_strategy params of Some s \<Rightarrow> s | None \<Rightarrow> Random),
      req_sequence = pp_sequence params\<rparr>"

definition precompose_level :: "(f64 \<Rightarrow> string) \<Rightarrow> externals \<Rightarrow> PrecomposeParams \<Rightarrow> FeeLevel \<Rightarrow>
    PrecomposedResult option" where
  "precompose_level show_f64 ext params level =
     (let fee_rate = level_fee_rate level in
      if f64_le_zero fee_rate \<or> \<not> is_finite fee_rate
      then Some (PreError (show_compose_error IncorrectFeeRate))
      else map_option (precomposed_result_of show_f64 (change_address_of (pp_account params)))
             (compose_tx ext (level_request params level)))"

definition precompose :: "(f64 \<Rightarrow> string) \<Rightarrow> externals \<Rightarrow> PrecomposeParams \<Rightarrow> PrecomposedResult list option" where
  "precompose show_f64 ext params = those (map (precompose_level show_f64 ext params) (pp_fee_levels params))"

section \<open>Text round trips\<close>

lemma parse_show_u64 [simp]: "parse_u64_or_0 (show_u64 n) = n"
  using unat_u64_less [of n] by (simp add: parse_u64_or_0_def show_u64_def parse_uint_show_nat u64_max_def)

lemma sign_input_amount [simp]:
  "sti_amount (precomposed_input_to_sign_input (precomposed_input_of i)) = cdi_amount i"
  by (simp add: precomposed_input_to_sign_input_def precomposed_input_of_def)

lemma sign_output_amount [simp]:
  "sto_amount (precomposed_output_to_sign_output (precomposed_output_of ca out)) = out_amount out"
  by (cases out) (simp_all split: option.splits)

lemma precompose_level_final:
  assumes "precompose_level show_f64 ext params level = Some (PreFinal ts f pb bytes ins outs perm)"
  obtains spent fee per cins couts where
    "compose_tx ext (level_request params level) = Some (Final spent fee per bytes cins couts perm)"
    "f = show_u64 fee" "ts = show_u64 spent" "ins = map precomposed_input_of cins"
    "outs = map (precomposed_output_of (change_address_of (pp_account params))) couts"
proof -
  obtain res where res: "compose_tx ext (level_request params level) = Some res"
      "precomposed_result_of show_f64 (change_address_of (pp_account params)) res
        = PreFinal ts f pb bytes ins outs perm"
    using assms by (auto simp: precompose_level_def Let_def split: if_splits)
  then show thesis using that by (cases res) auto
qed

lemma trim_quote_digits:
  "list_all is_ascii_digit s \<Longrightarrow> s \<noteq> [] \<Longrightarrow> trim_end_matches (CHR 0x27) (s @ [CHR 0x27]) = s"
  "list_all is_ascii_digit s \<Longrightarrow> s \<noteq> [] \<Longrightarrow> trim_end_matches (CHR 0x27) s = s"
proof -
  assume s: "list_all is_ascii_digit s" "s \<noteq> []"
  then have "dropWhile (\<lambda>d. d = CHR 0x27) (rev s) = rev s"
    using digits_no_mark [of s "last s"] by (simp add: dropWhile_eq_self_iff hd_rev)
  then show "trim_end_matches (CHR 0x27) (s @ [CHR 0x27]) = s" "trim_end_matches (CHR 0x27) s = s"
    by (simp_all add: trim_end_matches_def)
qed

text \<open>A concrete account: one coin of 50300 satoshi, one payment of 50000, 2 sat/vB.\<close>

definition sample_params :: PrecomposeParams where
  "sample_params =
     \<lparr>pp_outputs = [PrePayment payee ''50000''], pp_coin = ''Bitcoin'',
      pp_account = \<lparr>acc_path = ''m/84h/0h/0h'',
        acc_addresses = \<lparr>addr_used = [], addr_unused = [], addr_change = []\<rparr>,
        acc_utxo = [\<lparr>utxo_txid = ''aa'', utxo_vout = 0, utxo_amount = 50300, utxo_address = payee,
          utxo_path = [], utxo_confirmations = 6, utxo_coinbase = False, utxo_own = False,
          utxo_required = None\<rparr>]\<rparr>,
      pp_fee_levels = [], pp_sequence = None, pp_sorting_strategy = Some Unsorted\<rparr>"

definition sample_level :: FeeLevel where
  "sample_level = \<lparr>fee_per_unit = ''2'', base_fee = None, floor_base_fee = None\<rparr>"

lemma sample_rate: "level_fee_rate sample_level = Fin 2"
proof -
  have "round_f64 2 = Fin 2" using round_f64_nat [of 2] by simp
  then show ?thesis
    by (simp add: level_fee_rate_def sample_level_def parse_f64_def strip_sign_def to_lowercase_def
        to_lower_def is_ascii_digit_def parse_exponent_def digits_val_def digit_val_def)
qed

lemma sample_request:
  "level_request sample_params sample_level
     = request_of [wallet_coin 50300 6 False] [Payment payee 50000] Unsorted"
proof -
  have "infer_change_script_type ''m/84h/0h/0h'' = SpendWitness"
    by (simp add: infer_change_script_type_def trim_end_matches_def parse_uint_def strip_plus_def
        is_ascii_digit_def)
  moreover have "parse_u64_or_0 ''50000'' = 50000"
    by (simp add: parse_u64_or_0_def parse_uint_def strip_plus_def is_ascii_digit_def digits_val_def
        digit_val_def u64_max_def)
  moreover have "req_fee_rate (level_request sample_params sample_level) = Fin 2"
    by (simp add: level_request_def sample_rate)
  ultimately show ?thesis
    by (simp add: level_request_def sample_params_def sample_level_def [THEN arg_cong, of base_fee]
        request_of_def wallet_coin_def compose_input_of_def)
qed

lemma sample_run:
  "\<exists>per. precompose_level show_f64 plain_ext sample_params sample_level
    = Some (PreFinal (show_u64 50300) (show_u64 300) (show_f64 per) 110
        [\<lparr>pi_txid = ''aa'', pi_vout = 0, pi_amount = show_u64 50300, pi_address = payee, pi_path = [],
          pi_script_type = SpendWitness\<rparr>] [PoPayment payee (show_u64 50000)] [0])"
proof -
  obtain per where "compose_tx plain_ext (level_request sample_params sample_level)
    = Some (Final 50300 300 per 110
        [\<lparr>cdi_index = 0, cdi_txid = ''aa'', cdi_vout = 0, cdi_amount = 50300, cdi_address = payee,
          cdi_path = [], cdi_script_type = SpendWitness\<rparr>] [PaymentOut payee 50000] [0])"
    using simple_payment unfolding sample_request by blast
  then show ?thesis
    by (auto simp: precompose_level_def sample_rate precomposed_input_of_def)
qed

section \<open>Properties\<close>



text \<open>
  Precomposition never panics and returns one result per fee level, in
  order; a level whose rate text is not a positive finite number yields the fee-rate error and
  does not disturb the others.
\<close>

theorem precompose_one_per_level:
  assumes "\<forall>xs. mset (shuffle ext xs) = mset xs"
  shows "\<exists>results. precompose show_f64 ext params = Some results
    \<and> length results = length (pp_fee_levels params)
    \<and> (\<forall>k < length results.
         precompose_level show_f64 ext params (pp_fee_levels params ! k) = Some (results ! k)
         \<and> (f64_le_zero (level_fee_rate (pp_fee_levels params ! k)) \<longrightarrow>
              results ! k = PreError ''Incorrect fee rate''))"
proof -
  let ?f = "precompose_level show_f64 ext params"
  have total: "\<exists>res. ?f l = Some res" for l
    using compose_total [of ext "level_request params l"] assms
    by (auto simp: precompose_level_def Let_def)
  then have some: "?f l = Some (the (?f l))" for l by (metis option.sel)
  then have "precompose show_f64 ext params = Some (map (\<lambda>l. the (?f l)) (pp_fee_levels params))"
    unfolding precompose_def by (intro those_map_Some)
  moreover have "the (?f l) = PreError ''Incorrect fee rate''" if "f64_le_zero (level_fee_rate l)" for l
    using that by (simp add: precompose_level_def)
  ultimately show ?thesis using some by auto
qed

theorem precompose_one_per_level_witness:
  "\<exists>results. precompose (\<lambda>_. []) plain_ext (sample_params\<lparr>pp_fee_levels := [sample_level, sample_level]\<rparr>)
     = Some results \<and> length results = 2"
  using precompose_one_per_level [of plain_ext "\<lambda>_. []"
      "sample_params\<lparr>pp_fee_levels := [sample_level, sample_level]\<rparr>"] plain_shuffle
  by auto

text \<open>
  The change script type inferred from a printed account path is the script
  type of the account's purpose, for all four account types.
\<close>

theorem infer_change_type_of_account:
  "infer_change_script_type (serialize_path (harden (purpose t) # rest)) = account_script_type t"
proof -
  let ?c = "serialize_component (harden (purpose t))"
  have parts: "split_on (CHR ''/'') (serialize_path (harden (purpose t) # rest))
      = [CHR ''m''] # ?c # map serialize_component rest"
  proof -
    have "serialize_path (harden (purpose t) # rest)
        = [CHR ''m''] @ CHR ''/'' # join ''/'' (?c # map serialize_component rest)"
      by (simp add: serialize_path_def)
    moreover have "split_on (CHR ''/'') (join ''/'' (?c # map serialize_component rest))
        = ?c # map serialize_component rest"
      by (rule split_on_join) (auto simp: serialize_component_shape)
    ultimately show ?thesis by (simp add: split_on_append)
  qed
  have c: "?c = show_nat (unat (purpose t)) @ [CHR 0x27]"
    by (cases t) (simp_all add: serialize_component_def harden_def HARDENED_OFFSET_def)
  have "unat (purpose t) \<le> u32_max" using unat_u32_less [of "purpose t"] by (simp add: u32_max_def)
  then have "parse_uint u32_max (trim_end_matches (CHR 0x27) ?c) = Some (unat (purpose t))"
    by (simp add: c trim_quote_digits parse_uint_show_nat)
  then show ?thesis
    unfolding infer_change_script_type_def parts by (cases t) simp_all
qed

text \<open>
  An amount that is not an unsigned 64-bit decimal is not an error: the output is
  composed with amount zero.
\<close>

theorem unparsable_amount_is_zero:
  "compose_output_of (PrePayment address ''1.5'') = Payment address 0
   \<and> compose_output_of (PrePayment address ''18446744073709551616'') = Payment address 0"
  by (simp add: parse_u64_or_0_def parse_uint_def strip_plus_def is_ascii_digit_def digits_val_def
      digit_val_def u64_max_def)

end
