(* ===== verification/Session_State.thy ===== *)
theory Session_State
  imports Prelude
begin

text \<open>
  The static session id, a fingerprint of the wallet a passphrase opens
  (\<^verbatim>\<open>session_state.rs\<close>): printing, strict parsing and the comparison that detects a wrong
  passphrase. Parsing accepts exactly the printed ids whose parts are well formed.
\<close>

section \<open>Definitions\<close>

record StaticSessionId =
  first_testnet_address :: string
  device_id :: string
  instance_no :: u32

definition build_static_session_id :: "string \<Rightarrow> string \<Rightarrow> u32 \<Rightarrow> string" where
  "build_static_session_id address dev inst = address @ ''@'' @ dev @ '':'' @ show_nat (unat inst)"

text \<open>\<^verbatim>\<open>s.matches(c).count()\<close> and \<^verbatim>\<open>s.split_once(c)\<close>\<close>

definition count_char :: "char \<Rightarrow> string \<Rightarrow> nat" where
  "count_char c s = length (filter (\<lambda>x. x = c) s)"

definition split_once :: "char \<Rightarrow> string \<Rightarrow> (string \<times> string) option" where
  "split_once c s =
     (if c \<in> set s then Some (takeWhile (\<lambda>x. x \<noteq> c) s, drop 1 (dropWhile (\<lambda>x. x \<noteq> c) s)) else None)"

definition parse_canonical_u32 :: "string \<Rightarrow> u32 option" where
  "parse_canonical_u32 s =
     (let canonical = s = ''0''
        \<or> (\<not> (s \<noteq> [] \<and> hd s = CHR ''0'') \<and> s \<noteq> [] \<and> list_all is_ascii_digit s)
      in if \<not> canonical then None else map_option of_nat (parse_uint u32_max s))"

definition parse_static_session_id :: "string \<Rightarrow> StaticSessionId option" where
  "parse_static_session_id state =
     (if count_char (CHR ''@'') state \<noteq> 1 then None
      else case split_once (CHR ''@'') state of
        None \<Rightarrow> None
      | Some (address, rest) \<Rightarrow>
          if count_char (CHR '':'') rest \<noteq> 1 then None
          else case split_once (CHR '':'') rest of
            None \<Rightarrow> None
          | Some (dev, inst) \<Rightarrow>
              if address = [] \<or> dev = [] then None
              else map_option (\<lambda>n. \<lparr>first_testnet_address = address, device_id = dev, instance_no = n\<rparr>)
                     (parse_canonical_u32 inst))"

definition is_unexpected_state :: "string \<Rightarrow> string \<Rightarrow> bool" where
  "is_unexpected_state expected current =
     (if expected = [] \<or> current = [] then False
      else case (parse_static_session_id expected, parse_static_session_id current) of
        (Some e, Some c) \<Rightarrow>
          first_testnet_address e \<noteq> first_testnet_address c \<or> device_id e \<noteq> device_id c
      | _ \<Rightarrow> False)"

section \<open>Splitting and canonical numbers\<close>

lemma split_once_append: "c \<notin> set a \<Longrightarrow> split_once c (a @ c # b) = Some (a, b)"
  by (auto simp: split_once_def takeWhile_append dropWhile_append)

lemma split_once_Some: "split_once c s = Some (a, b) \<longleftrightarrow> s = a @ c # b \<and> c \<notin> set a"
proof
  assume *: "split_once c s = Some (a, b)"
  then have "c \<in> set s" by (auto simp: split_once_def split: if_splits)
  then obtain x y where "s = x @ c # y" "c \<notin> set x" by (metis split_list_first)
  with * show "s = a @ c # b \<and> c \<notin> set a" by (simp add: split_once_append)
qed (simp add: split_once_append)

lemma count_char_append [simp]:
  "count_char c (a @ b) = count_char c a + count_char c b"
  "count_char c (x # b) = (if x = c then Suc (count_char c b) else count_char c b)" "count_char c [] = 0"
  by (simp_all add: count_char_def)

lemma count_char_0 [simp]: "count_char c s = 0 \<longleftrightarrow> c \<notin> set s"
  by (auto simp: count_char_def filter_empty_conv)

lemma digits_no_separator:
  assumes "list_all is_ascii_digit s"
  shows "CHR ''@'' \<notin> set s" "CHR '':'' \<notin> set s"
  using assms by (auto simp: list_all_iff is_ascii_digit_def)

lemma digit_char_val: "is_ascii_digit c \<Longrightarrow> digit_char (digit_val c) = c \<and> digit_val c < 10"
  by (auto simp: digit_char_def digit_val_def is_ascii_digit_def)

lemma digit_char_0: "digit_char 0 = CHR ''0''"
  by (simp add: digit_char_def char_of_eq_iff)

text \<open>A digit string without leading zero is the printed form of its value.\<close>

lemma show_nat_digits_val:
  assumes "list_all is_ascii_digit s" "s \<noteq> []" "hd s \<noteq> CHR ''0''"
  shows "0 < digits_val s \<and> show_nat (digits_val s) = s"
  using assms
proof (induction s rule: rev_induct)
  case (snoc c s)
  have c: "digit_char (digit_val c) = c" "digit_val c < 10" using snoc.prems digit_char_val by auto
  show ?case
  proof (cases "s = []")
    case True
    with snoc.prems c have "digit_val c \<noteq> 0" using digit_char_0 by (cases "digit_val c") auto
    with True c show ?thesis by (simp add: digits_val_def show_nat.simps [of "digit_val c"])
  next
    case False
    with snoc have "0 < digits_val s" "show_nat (digits_val s) = s" by auto
    with c show ?thesis by (simp add: digits_val_snoc show_nat.simps [of "10 * digits_val s + digit_val c"])
  qed
qed simp

lemma show_nat_0 [simp]: "show_nat 0 = ''0''"
  by (simp add: show_nat.simps digit_char_0)

lemma parse_canonical_iff: "parse_canonical_u32 s = Some n \<longleftrightarrow> s = show_nat (unat n)"
proof
  assume "s = show_nat (unat n)"
  moreover have "unat n \<le> u32_max" using unat_u32_less [of n] by (simp add: u32_max_def)
  moreover have "hd (show_nat (unat n)) = CHR ''0'' \<longleftrightarrow> unat n = 0"
    using hd_show_nat [of "unat n"] by (cases "unat n = 0") auto
  moreover have "parse_uint u32_max (show_nat (unat n)) = Some (unat n)"
    using calculation(2) by (simp add: parse_uint_show_nat)
  ultimately show "parse_canonical_u32 s = Some n"
    by (cases "unat n = 0") (auto simp: parse_canonical_u32_def word_unat_eq_iff)
next
  assume *: "parse_canonical_u32 s = Some n"
  then obtain m where m: "parse_uint u32_max s = Some m" "n = of_nat m" "m \<le> u32_max"
    using parse_uint_bound by (auto simp: parse_canonical_u32_def Let_def split: if_splits)
  then have n: "unat n = m" by (simp add: u32_max_def)
  show "s = show_nat (unat n)"
  proof (cases "s = ''0''")
    case True
    with m n show ?thesis by (simp add: parse_uint_def strip_plus_def digits_val_def digit_val_def is_ascii_digit_def split: if_splits)
  next
    case False
    with * have d: "hd s \<noteq> CHR ''0''" "s \<noteq> []" "list_all is_ascii_digit s"
      by (auto simp: parse_canonical_u32_def Let_def split: if_splits)
    with m have "m = digits_val s" by (auto simp: parse_uint_def Let_def split: if_splits)
    with d n show ?thesis using show_nat_digits_val by simp
  qed
qed

text \<open>Ids that can be told apart: non-empty parts, no separator where it would be ambiguous.\<close>

definition wf_session_id :: "StaticSessionId \<Rightarrow> bool" where
  "wf_session_id i \<longleftrightarrow>
     first_testnet_address i \<noteq> [] \<and> CHR ''@'' \<notin> set (first_testnet_address i)
     \<and> device_id i \<noteq> [] \<and> CHR ''@'' \<notin> set (device_id i) \<and> CHR '':'' \<notin> set (device_id i)"

abbreviation print_session_id :: "StaticSessionId \<Rightarrow> string" where
  "print_session_id i \<equiv> build_static_session_id (first_testnet_address i) (device_id i) (instance_no i)"

lemma parse_static_iff:
  "parse_static_session_id s = Some i \<longleftrightarrow> s = print_session_id i \<and> wf_session_id i"
proof
  assume "s = print_session_id i \<and> wf_session_id i"
  moreover have "CHR ''@'' \<notin> set (show_nat k)" "CHR '':'' \<notin> set (show_nat k)" for k
    using digits_no_separator [OF show_nat_digits] by auto
  ultimately show "parse_static_session_id s = Some i"
    by (simp add: parse_static_session_id_def build_static_session_id_def wf_session_id_def
        split_once_append parse_canonical_iff iffD2 [OF parse_canonical_iff refl])
next
  assume *: "parse_static_session_id s = Some i"
  then obtain a rest d inst where split: "split_once (CHR ''@'') s = Some (a, rest)" "count_char (CHR ''@'') s = 1"
    "split_once (CHR '':'') rest = Some (d, inst)" "a \<noteq> []" "d \<noteq> []"
    "first_testnet_address i = a" "device_id i = d" "parse_canonical_u32 inst = Some (instance_no i)"
    by (auto simp: parse_static_session_id_def split: if_splits option.splits)
  then have "s = a @ CHR ''@'' # d @ CHR '':'' # inst" "CHR ''@'' \<notin> set a" "CHR '':'' \<notin> set d"
    "inst = show_nat (unat (instance_no i))"
    by (auto simp: split_once_Some parse_canonical_iff)
  with split show "s = print_session_id i \<and> wf_session_id i"
    by (simp add: build_static_session_id_def wf_session_id_def)
qed

section \<open>Properties\<close>

text \<open>
  Parsing accepts exactly the printed ids with a non-empty address and device id
  free of separators, and returns the parts they were printed from.
\<close>

theorem static_session_id_exact:
  "parse_static_session_id s = Some i \<longleftrightarrow>
     s = build_static_session_id (first_testnet_address i) (device_id i) (instance_no i)
     \<and> first_testnet_address i \<noteq> [] \<and> CHR ''@'' \<notin> set (first_testnet_address i)
     \<and> device_id i \<noteq> [] \<and> CHR ''@'' \<notin> set (device_id i) \<and> CHR '':'' \<notin> set (device_id i)"
  using parse_static_iff [of s i] by (simp add: wf_session_id_def)

text \<open>
  For two well-formed ids the comparison reports a mismatch exactly when address or
  device differ, whatever the instances; it is symmetric, and never reports one when either side is
  empty or does not parse.
\<close>

theorem wrong_passphrase_detected:
  assumes "wf_session_id e" and "wf_session_id c"
  shows "is_unexpected_state (print_session_id e) (print_session_id c)
      \<longleftrightarrow> (first_testnet_address e, device_id e) \<noteq> (first_testnet_address c, device_id c)"
proof -
  have "print_session_id x \<noteq> []" for x by (simp add: build_static_session_id_def)
  moreover have "parse_static_session_id (print_session_id e) = Some e"
    "parse_static_session_id (print_session_id c) = Some c"
    using assms parse_static_iff by blast+
  ultimately show ?thesis by (simp add: is_unexpected_state_def)
qed

theorem wrong_passphrase_detected_witness:
  "is_unexpected_state ''mvA@dev:0'' ''mvB@dev:7'' \<and> \<not> is_unexpected_state ''mvA@dev:0'' ''mvA@dev:7''"
proof -
  have p: "print_session_id \<lparr>first_testnet_address = ''mvA'', device_id = ''dev'', instance_no = 0\<rparr> = ''mvA@dev:0''"
    "print_session_id \<lparr>first_testnet_address = ''mvA'', device_id = ''dev'', instance_no = 7\<rparr> = ''mvA@dev:7''"
    "print_session_id \<lparr>first_testnet_address = ''mvB'', device_id = ''dev'', instance_no = 7\<rparr> = ''mvB@dev:7''"
    by (simp_all add: build_static_session_id_def show_nat.simps digit_char_def char_of_eq_iff)
  have w: "wf_session_id \<lparr>first_testnet_address = ''mv'' @ x, device_id = ''dev'', instance_no = n\<rparr>"
    if "x \<in> {''A'', ''B''}" for x n
    using that by (auto simp: wf_session_id_def)
  show ?thesis
    using wrong_passphrase_detected [OF w [of "''A''" 0] w [of "''B''" 7]]
      wrong_passphrase_detected [OF w [of "''A''" 0] w [of "''A''" 7]] p by simp
qed

end
