(* ===== verification/Error_Text.thy ===== *)
theory Error_Text
  imports Errors
begin

text \<open>
  The text of an error, as the \<^verbatim>\<open>#[error]\<close> attributes of \<^verbatim>\<open>error.rs\<close> give it. The
  retry logic of the handshake reads it back with \<^verbatim>\<open>str::contains\<close>.
\<close>

section \<open>Definitions\<close>

fun contains :: "string \<Rightarrow> string \<Rightarrow> bool" where
  "contains needle [] = (needle = [])"
| "contains needle (c # s) = (take (length needle) (c # s) = needle \<or> contains needle s)"

definition show_int :: "int \<Rightarrow> string" where
  "show_int i = (if i < 0 then ''-'' @ show_nat (nat (- i)) else show_nat (nat i))"

definition debug_option_int :: "int option \<Rightarrow> string" where
  "debug_option_int v = (case v of None \<Rightarrow> ''None'' | Some i \<Rightarrow> ''Some('' @ show_int i @ '')'')"

fun transport_text :: "TransportError \<Rightarrow> string" where
  "transport_text DeviceNotFound = ''No Trezor device found''"
| "transport_text DeviceDisconnected = ''Device disconnected during operation''"
| "transport_text (UnableToOpen m) = ''Unable to open device: '' @ m"
| "transport_text (UnableToClose m) = ''Unable to close device: '' @ m"
| "transport_text (DataTransfer m) = ''Data transfer error: '' @ m"
| "transport_text (Usb m) = ''USB error: '' @ m"
| "transport_text (Bluetooth m) = ''Bluetooth error: '' @ m"
| "transport_text (PermissionDenied m) = ''Permission denied: '' @ m"
| "transport_text DeviceBusy = ''Device is busy''"

fun protocol_text :: "ProtocolError \<Rightarrow> string" where
  "protocol_text (Malformed m) = ''Malformed message: '' @ m"
| "protocol_text (InvalidMessageType t) = ''Invalid message type: '' @ show_nat (unat t)"
| "protocol_text (MessageTooShort expected actual) =
     ''Message too short: expected '' @ show_nat expected @ '', got '' @ show_nat actual"
| "protocol_text InvalidHeader = ''Invalid header''"
| "protocol_text ChunkHeaderMismatch = ''Chunk header mismatch''"
| "protocol_text (ProtobufEncode m) = ''Protobuf encode error: '' @ m"
| "protocol_text (ProtobufDecode m) = ''Protobuf decode error: '' @ m"
| "protocol_text (UnexpectedResponse expected actual) =
     ''Unexpected response type: expected '' @ expected @ '', got '' @ actual"

fun device_text :: "DeviceError \<Rightarrow> string" where
  "device_text NotConnected = ''Device not connected or session not acquired''"
| "device_text ActionCancelled = ''Action cancelled by user''"
| "device_text PinRequired = ''PIN is required''"
| "device_text InvalidPin = ''Invalid PIN''"
| "device_text PinCancelled = ''PIN entry cancelled''"
| "device_text PassphraseRequired = ''Passphrase is required''"
| "device_text PassphraseCancelled = ''Passphrase entry cancelled''"
| "device_text InvalidState = ''Passphrase is incorrect (device state mismatch)''"
| "device_text NotInitialized = ''Device is not initialized''"
| "device_text FirmwareUpdateRequired = ''Device needs firmware update''"
| "device_text SeedNotBackedUp = ''Seed is not backed up''"
| "device_text (NotSupported m) = ''Feature not supported: '' @ m"
| "device_text (Failure code m) = ''Device failure: '' @ debug_option_int code @ '' - '' @ m"
| "device_text (DeviceErrorResponse code m) = ''Device error: code '' @ show_int code @ '' - '' @ m"
| "device_text (ButtonRequest m) = ''Button request: '' @ m"
| "device_text (DeviceProtobufDecode m) = ''Protobuf decode error: '' @ m"
| "device_text (InvalidInput m) = ''Invalid input: '' @ m"
| "device_text (AddressMismatch expected actual) =
     ''Device address does not match the expected address: expected '' @ expected @ '', got '' @ actual"

fun thp_text :: "ThpError \<Rightarrow> string" where
  "thp_text ChannelAllocationFailed = ''Channel allocation failed''"
| "thp_text (HandshakeFailed m) = ''Handshake failed: '' @ m"
| "thp_text DeviceLocked = ''THP handshake failed: DeviceLocked''"
| "thp_text PairingRequired = ''Pairing required''"
| "thp_text (PairingFailed m) = ''Pairing failed: '' @ m"
| "thp_text InvalidCredentials = ''Invalid credentials''"
| "thp_text (EncryptionError m) = ''Encryption error: '' @ m"
| "thp_text (DecryptionError m) = ''Decryption error: '' @ m"
| "thp_text AckNotReceived = ''ACK not received''"
| "thp_text InvalidSyncBit = ''Invalid sync bit''"
| "thp_text StateMissing = ''THP state missing''"
| "thp_text (ThpSessionError m) = ''Session error: '' @ m"

fun session_text :: "SessionError \<Rightarrow> string" where
  "session_text NotFound = ''Session not found''"
| "session_text WrongPrevious = ''Wrong previous session''"
| "session_text AlreadyAcquired = ''Session already acquired by another client''"
| "session_text Expired = ''Session expired''"

fun bitcoin_text :: "BitcoinError \<Rightarrow> string" where
  "bitcoin_text (InvalidPath m) = ''Invalid derivation path: '' @ m"
| "bitcoin_text (InvalidAddress m) = ''Invalid address: '' @ m"
| "bitcoin_text (InvalidTransaction m) = ''Invalid transaction: '' @ m"
| "bitcoin_text InsufficientFundsError = ''Insufficient funds''"
| "bitcoin_text InvalidSignature = ''Invalid signature''"
| "bitcoin_text (NetworkMismatch expected actual) =
     ''Network mismatch: expected '' @ expected @ '', got '' @ actual"

fun error_text :: "TrezorError \<Rightarrow> string" where
  "error_text (Transport e) = ''Transport error: '' @ transport_text e"
| "error_text (Protocol e) = ''Protocol error: '' @ protocol_text e"
| "error_text (Device e) = ''Device error: '' @ device_text e"
| "error_text (Thp e) = ''THP error: '' @ thp_text e"
| "error_text (Session e) = ''Session error: '' @ session_text e"
| "error_text (Bitcoin_error e) = ''Bitcoin error: '' @ bitcoin_text e"
| "error_text Cancelled = ''Operation cancelled''"
| "error_text Timeout = ''Operation timed out''"
| "error_text (IoError m) = ''I/O error: '' @ m"
| "error_text (NotImplemented m) = ''Not implemented: '' @ m"

text \<open>Which failures of a handshake attempt are worth another one
  (\<^verbatim>\<open>perform_thp_handshake\<close> of \<^verbatim>\<open>transport/callback.rs\<close>).\<close>

definition is_retryable :: "string \<Rightarrow> bool" where
  "is_retryable error_str \<longleftrightarrow>
     \<not> contains ''Pairing cancelled by user'' error_str
     \<and> \<not> contains ''Code verification failed'' error_str
     \<and> (contains ''Not connected'' error_str
        \<or> contains ''Data transfer error'' error_str
        \<or> contains ''DecryptionError'' error_str
        \<or> contains ''DecryptionFailed'' error_str
        \<or> contains ''aead::Error'' error_str
        \<or> contains ''SessionError'' error_str
        \<or> contains ''Unexpected response'' error_str
        \<or> contains ''Timed out'' error_str
        \<or> contains ''Pairing failed'' error_str
        \<or> contains ''TransportBusy'' error_str
        \<or> contains ''UnallocatedChannel'' error_str
        \<or> contains ''Read timeout'' error_str
        \<or> contains ''Write failed'' error_str
        \<or> contains ''Device disconnected'' error_str)"

section \<open>Properties\<close>

lemma contains_substring: "contains needle s \<longleftrightarrow> (\<exists>a b. s = a @ needle @ b)"
proof (induction s)
  case (Cons c s)
  have "(\<exists>a b. c # s = a @ needle @ b) \<longleftrightarrow> (\<exists>b. c # s = needle @ b) \<or> (\<exists>a b. s = a @ needle @ b)"
    by (auto simp: Cons_eq_append_conv)
  moreover have "(\<exists>b. c # s = needle @ b) \<longleftrightarrow> take (length needle) (c # s) = needle"
    by (metis append_eq_conv_conj append_take_drop_id)
  ultimately show ?case by (simp add: Cons.IH)
qed simp

lemma contains_append: "contains needle s \<Longrightarrow> contains needle (a @ s @ b)"
  unfolding contains_substring by (metis append.assoc)

text \<open>
  A lost link, a failed pairing and an authentication failure of the cipher are
  retried whatever their details, unless the user cancelled or typed a wrong code; a timeout, a
  lost session and a missing connection are not, although the list of texts names them, because it
  spells them otherwise than their messages do.
\<close>

theorem retry_classes:
  "is_retryable (error_text (Transport DeviceDisconnected))
   \<and> is_retryable (error_text (Thp (DecryptionError ''aead::Error'')))
   \<and> is_retryable (error_text (Thp (PairingFailed ''Commitment mismatch'')))
   \<and> \<not> is_retryable (error_text (Thp (PairingFailed ''Pairing cancelled by user'')))
   \<and> \<not> is_retryable (error_text (Thp (PairingFailed ''Code verification failed'')))
   \<and> \<not> is_retryable (error_text Timeout)
   \<and> \<not> is_retryable (error_text (Device NotConnected))
   \<and> \<not> is_retryable (error_text (Session Expired))
   \<and> \<not> is_retryable (error_text (Thp (DecryptionError ''Response too short'')))
   \<and> \<not> is_retryable (error_text (Thp DeviceLocked))"
  unfolding is_retryable_def by simp

end
