(* ===== verification/Bitcoin_Utils.thy ===== *)
theory Bitcoin_Utils
  imports Sign_Params Error_Text Path Tx_Sorting
begin

text \<open>
  What the host recomputes about transactions (\<^verbatim>\<open>bitcoin_utils.rs\<close>) and the check of the
  transaction a device returns (\<^verbatim>\<open>tx_verify.rs\<close>). The \<^verbatim>\<open>bitcoin\<close> crate is the record
  \<open>bitcoin_crate\<close>: parsing and printing of addresses, keys, hashes and transactions, and the
  standard scripts. The hex crate is \<open>hex_crate\<close>; a failed decoding carries its message.
\<close>

section \<open>Definitions\<close>

record TxIn =
  ti_txid :: bytes
  ti_vout :: u32
  ti_script_sig :: bytes
  ti_sequence :: u32
  ti_witness :: "bytes list"

record TxOut =
  tx_value :: u64
  tx_script_pubkey :: bytes

record Transaction =
  tx_version :: u32
  tx_lock_time :: u32
  tx_input :: "TxIn list"
  tx_output :: "TxOut list"

datatype BtcNetwork = BtcBitcoin | BtcTestnet | BtcTestnet4 | BtcSignet | BtcRegtest

record PublicKey =
  pk_inner :: bytes
  pk_compressed :: bool

record ParsedAddress =
  pa_networks :: "BtcNetwork \<Rightarrow> bool"
  pa_script :: bytes

record hex_crate =
  hx_encode :: "bytes \<Rightarrow> string"
  hx_decode :: "string \<Rightarrow> string + bytes"

record bitcoin_crate =
  bc_deserialize :: "bytes \<Rightarrow> string + Transaction"
  bc_compute_txid :: "Transaction \<Rightarrow> bytes"
  bc_txid_from_str :: "string \<Rightarrow> string + bytes"
  bc_txid_to_string :: "bytes \<Rightarrow> string"
  bc_serialize_witness :: "bytes list \<Rightarrow> bytes"
  bc_parse_address :: "string \<Rightarrow> string + ParsedAddress"
  bc_base58_decode_check :: "string \<Rightarrow> string + bytes"
  bc_pubkey_from_slice :: "bytes \<Rightarrow> string + PublicKey"
  bc_pubkey_hash :: "PublicKey \<Rightarrow> bytes"
  bc_wpubkey_hash :: "PublicKey \<Rightarrow> bytes option"
  bc_script_hash :: "bytes \<Rightarrow> bytes"
  bc_new_p2pkh :: "bytes \<Rightarrow> bytes"
  bc_new_p2wpkh :: "bytes \<Rightarrow> bytes"
  bc_new_p2sh :: "bytes \<Rightarrow> bytes"
  bc_new_p2tr :: "bytes \<Rightarrow> bytes"
  bc_push_bytes :: "bytes \<Rightarrow> bytes option"
  bc_new_op_return :: "bytes \<Rightarrow> bytes"

text \<open>\<^verbatim>\<open>map_err\<close> of a crate's error into one of the library.\<close>

definition map_err :: "(string \<Rightarrow> TrezorError) \<Rightarrow> string + 'a \<Rightarrow> 'a result" where
  "map_err f r = (case r of Inl e \<Rightarrow> Inl (Err (f e)) | Inr v \<Rightarrow> Inr v)"

definition invalid_input :: "string \<Rightarrow> string \<Rightarrow> TrezorError" where
  "invalid_input what e = Device (InvalidInput (what @ '': '' @ e))"

definition decode_hex :: "hex_crate \<Rightarrow> string \<Rightarrow> string \<Rightarrow> bytes result" where
  "decode_hex hx what s = map_err (invalid_input what) (hx_decode hx s)"

text \<open>\<^verbatim>\<open>.map(..).transpose()\<close>\<close>

fun traverse_option :: "('a \<Rightarrow> 'f + 'b) \<Rightarrow> 'a option \<Rightarrow> 'f + 'b option" where
  "traverse_option f None = Inr None"
| "traverse_option f (Some x) = map_res Some (f x)"

definition eq_ignore_ascii_case :: "string \<Rightarrow> string \<Rightarrow> bool" where
  "eq_ignore_ascii_case a b \<longleftrightarrow> to_lowercase a = to_lowercase b"

fun to_bitcoin_network :: "Network \<Rightarrow> BtcNetwork" where
  "to_bitcoin_network Bitcoin = BtcBitcoin"
| "to_bitcoin_network Testnet = BtcTestnet"
| "to_bitcoin_network Regtest = BtcRegtest"

definition address_to_script :: "bitcoin_crate \<Rightarrow> string \<Rightarrow> Network \<Rightarrow> bytes result" where
  "address_to_script bc address network =
     bind_res (map_err (\<lambda>e. Bitcoin_error (InvalidAddress (address @ '': '' @ e))) (bc_parse_address bc address)) (\<lambda>parsed.
     if \<not> pa_networks parsed (to_bitcoin_network network)
     then bitcoin_err (NetworkMismatch (coin_name network) (''address '' @ address))
     else Inr (pa_script parsed))"

definition xpub_to_hd_node_type :: "bitcoin_crate \<Rightarrow> string \<Rightarrow> HDNodeType result" where
  "xpub_to_hd_node_type bc xpub =
     bind_res (map_err (invalid_input (''Invalid xpub '' @ xpub)) (bc_base58_decode_check bc xpub)) (\<lambda>data.
     if length data \<noteq> 78
     then device_err (InvalidInput (''Invalid xpub '' @ xpub @ '': expected 78 bytes, got '' @ show_nat (length data)))
     else
       let public_key = take (78 - 45) (drop 45 data)
       in if public_key ! 0 \<noteq> 0x02 \<and> public_key ! 0 \<noteq> 0x03
          then device_err (InvalidInput (''Invalid xpub '' @ xpub @ '': not a compressed public key (is this an xprv?)''))
          else Inr \<lparr>hd_depth = ucast (data ! 4),
                 hd_fingerprint = from_be32 (data ! 5) (data ! 6) (data ! 7) (data ! 8),
                 hd_child_num = from_be32 (data ! 9) (data ! 10) (data ! 11) (data ! 12),
                 hd_chain_code = take (45 - 13) (drop 13 data),
                 hd_public_key = public_key\<rparr>)"

definition script_for_pubkey :: "bitcoin_crate \<Rightarrow> bytes \<Rightarrow> ScriptType \<Rightarrow> bytes option result" where
  "script_for_pubkey bc public_key script_type =
     bind_res (map_err (\<lambda>e. Bitcoin_error (InvalidTransaction (''invalid device public key: '' @ e)))
       (bc_pubkey_from_slice bc public_key)) (\<lambda>pk.
     let wpkh = (case bc_wpubkey_hash bc pk of
                   Some h \<Rightarrow> Inr h
                 | None \<Rightarrow> bitcoin_err (InvalidTransaction ''device public key is uncompressed''))
     in case script_type of
          SpendAddress \<Rightarrow> Inr (Some (bc_new_p2pkh bc (bc_pubkey_hash bc pk)))
        | SpendWitness \<Rightarrow> bind_res wpkh (\<lambda>h. Inr (Some (bc_new_p2wpkh bc h)))
        | SpendP2SHWitness \<Rightarrow>
            bind_res wpkh (\<lambda>h. Inr (Some (bc_new_p2sh bc (bc_script_hash bc (bc_new_p2wpkh bc h)))))
        | SpendTaproot \<Rightarrow> Inr (Some (bc_new_p2tr bc (pk_inner pk)))
        | _ \<Rightarrow> Inr None)"

definition op_return_script :: "bitcoin_crate \<Rightarrow> bytes \<Rightarrow> bytes result" where
  "op_return_script bc data =
     (case bc_push_bytes bc data of
        None \<Rightarrow> bitcoin_err (InvalidTransaction ''OP_RETURN data exceeds push limit'')
      | Some p \<Rightarrow> Inr (bc_new_op_return bc p))"

definition prev_tx_in :: "bitcoin_crate \<Rightarrow> hex_crate \<Rightarrow> string \<Rightarrow> SignTxPrevTxInput \<Rightarrow> TxIn result" where
  "prev_tx_in bc hx hash i =
     bind_res (map_err (\<lambda>e. Bitcoin_error (InvalidTransaction
        (''prev tx '' @ hash @ '': invalid input prev_hash '' @ pti_prev_hash i @ '': '' @ e)))
        (bc_txid_from_str bc (pti_prev_hash i))) (\<lambda>txid.
     bind_res (map_err (\<lambda>e. Bitcoin_error (InvalidTransaction
        (''prev tx '' @ hash @ '': invalid input script_sig hex: '' @ e)))
        (hx_decode hx (pti_script_sig i))) (\<lambda>script_sig.
     Inr \<lparr>ti_txid = txid, ti_vout = pti_prev_index i, ti_script_sig = script_sig,
          ti_sequence = pti_sequence i, ti_witness = []\<rparr>))"

definition prev_tx_out :: "hex_crate \<Rightarrow> string \<Rightarrow> SignTxPrevTxOutput \<Rightarrow> TxOut result" where
  "prev_tx_out hx hash o' =
     bind_res (map_err (\<lambda>e. Bitcoin_error (InvalidTransaction
        (''prev tx '' @ hash @ '': invalid output script_pubkey hex: '' @ e)))
        (hx_decode hx (pto_script_pubkey o'))) (\<lambda>script_pubkey.
     Inr \<lparr>tx_value = pto_amount o', tx_script_pubkey = script_pubkey\<rparr>)"

definition compute_prev_txid :: "bitcoin_crate \<Rightarrow> hex_crate \<Rightarrow> SignTxPrevTx \<Rightarrow> string option result" where
  "compute_prev_txid bc hx prev =
     (if ptx_extra_data prev \<noteq> None then Inr None
      else
        bind_res (traverse_res (prev_tx_in bc hx (ptx_hash prev)) (ptx_inputs prev)) (\<lambda>inputs.
        bind_res (traverse_res (prev_tx_out hx (ptx_hash prev)) (ptx_outputs prev)) (\<lambda>outputs.
        Inr (Some (bc_txid_to_string bc (bc_compute_txid bc
          \<lparr>tx_version = ptx_version prev, tx_lock_time = ptx_lock_time prev, tx_input = inputs, tx_output = outputs\<rparr>))))))"

subsection \<open>Post-sign verification\<close>

definition expected_amount :: "SignTxOutput \<Rightarrow> u64" where
  "expected_amount requested = (if sto_op_return_data requested \<noteq> None then 0 else sto_amount requested)"

fun verify_outputs :: "nat \<Rightarrow> SignTxOutput list \<Rightarrow> TxOut list \<Rightarrow> bytes option list \<Rightarrow> unit result" where
  "verify_outputs i (requested # outputs) (actual # actuals) expected_scripts =
     (if tx_value actual \<noteq> expected_amount requested
      then bitcoin_err (InvalidTransaction (''Wrong output amount at output '' @ show_nat i @ '': requested ''
        @ show_nat (unat (expected_amount requested)) @ '', signed '' @ show_nat (unat (tx_value actual))))
      else if (case get expected_scripts i of
                 Some (Some expected_script) \<Rightarrow> tx_script_pubkey actual \<noteq> expected_script
               | _ \<Rightarrow> False)
      then bitcoin_err (InvalidTransaction (''Output '' @ show_nat i @ '' scripts differ''))
      else verify_outputs (Suc i) outputs actuals expected_scripts)"
| "verify_outputs i _ _ expected_scripts = Inr ()"

definition verify_signed_tx ::
    "bitcoin_crate \<Rightarrow> bytes \<Rightarrow> nat \<Rightarrow> SignTxOutput list \<Rightarrow> bytes option list \<Rightarrow> Transaction result" where
  "verify_signed_tx bc serialized_tx inputs_len outputs expected_scripts =
     bind_res (map_err (\<lambda>e. Bitcoin_error (InvalidTransaction (''Signed transaction failed to deserialize: '' @ e)))
       (bc_deserialize bc serialized_tx)) (\<lambda>tx.
     if length (tx_input tx) \<noteq> inputs_len
     then bitcoin_err (InvalidTransaction (''Signed transaction inputs invalid length: expected '' @ show_nat inputs_len
       @ '', got '' @ show_nat (length (tx_input tx))))
     else if length (tx_output tx) \<noteq> length outputs
     then bitcoin_err (InvalidTransaction (''Signed transaction outputs invalid length: expected ''
       @ show_nat (length outputs) @ '', got '' @ show_nat (length (tx_output tx))))
     else bind_res (verify_outputs 0 outputs (tx_output tx) expected_scripts) (\<lambda>_. Inr tx))"

section \<open>What the checks establish\<close>

lemma map_err_Inr [res_simps]: "map_err f r = Inr v \<longleftrightarrow> r = Inr v"
  by (auto simp: map_err_def split: sum.splits)

lemma traverse_option_Inr [res_simps]:
  "traverse_option f x = Inr y \<longleftrightarrow> (case x of None \<Rightarrow> y = None | Some a \<Rightarrow> (\<exists>b. f a = Inr b \<and> y = Some b))"
  by (cases x) (auto simp: res_simps)

lemma traverse_res_nth: "traverse_res f xs = Inr ys \<Longrightarrow> i < length xs \<Longrightarrow> f (xs ! i) = Inr (ys ! i)"
proof (induction xs arbitrary: ys i)
  case (Cons x xs)
  then show ?case by (cases i) (auto simp: res_simps)
qed simp

lemma traverse_res_Inr_iff:
  "traverse_res f xs = Inr ys \<longleftrightarrow> length ys = length xs \<and> (\<forall>i<length xs. f (xs ! i) = Inr (ys ! i))"
proof (induction xs arbitrary: ys)
  case (Cons x xs)
  show ?case
  proof (cases ys)
    case (Cons y ys')
    then show ?thesis using Cons.IH [of ys'] by (auto simp: res_simps less_Suc_eq_0_disj all_conj_distrib)
  qed (auto simp: res_simps)
qed auto

text \<open>An output is as requested: its amount, and its script where one is expected.\<close>

definition output_ok :: "SignTxOutput \<Rightarrow> bytes option option \<Rightarrow> TxOut \<Rightarrow> bool" where
  "output_ok requested expected actual \<longleftrightarrow>
     tx_value actual = expected_amount requested
     \<and> (\<forall>script. expected = Some (Some script) \<longrightarrow> tx_script_pubkey actual = script)"

lemma verify_outputs_iff:
  "length actuals = length outputs \<Longrightarrow>
   verify_outputs i outputs actuals expected = Inr ()
   \<longleftrightarrow> (\<forall>k<length outputs. output_ok (outputs ! k) (get expected (i + k)) (actuals ! k))"
proof (induction i outputs actuals expected rule: verify_outputs.induct)
  case (1 i r rs a as expected)
  have split: "(\<forall>k<length (r # rs). P k) \<longleftrightarrow> P 0 \<and> (\<forall>k<length rs. P (Suc k))" for P
    by (auto simp: less_Suc_eq_0_disj)
  show ?case
    using 1 unfolding split by (auto simp: output_ok_def split: option.splits)
qed simp_all

lemma verify_signed_tx_Inr:
  "verify_signed_tx bc raw n outputs expected = Inr tx \<longleftrightarrow>
     bc_deserialize bc raw = Inr tx \<and> length (tx_input tx) = n \<and> length (tx_output tx) = length outputs
     \<and> (\<forall>k<length outputs. output_ok (outputs ! k) (get expected k) (tx_output tx ! k))"
  using verify_outputs_iff [of "tx_output tx" outputs 0 expected]
  by (auto simp: verify_signed_tx_def res_simps split: if_splits)

section \<open>Properties\<close>


text \<open>
  C40: a node decoded from an extended public key has a chain code of 32 bytes and a
  compressed public key of 33 bytes, and its depth fits a byte.
\<close>

theorem xpub_node_shape:
  assumes "xpub_to_hd_node_type bc xpub = Inr node"
  shows "length (hd_chain_code node) = 32 \<and> length (hd_public_key node) = 33
    \<and> hd_public_key node ! 0 \<in> {0x02, 0x03} \<and> unat (hd_depth node) < 256"
proof -
  obtain data where d: "length data = 78" and node: "node = \<lparr>hd_depth = ucast (data ! 4),
        hd_fingerprint = from_be32 (data ! 5) (data ! 6) (data ! 7) (data ! 8),
        hd_child_num = from_be32 (data ! 9) (data ! 10) (data ! 11) (data ! 12),
        hd_chain_code = take (45 - 13) (drop 13 data), hd_public_key = take (78 - 45) (drop 45 data)\<rparr>"
    and pk: "take (78 - 45) (drop 45 data) ! 0 \<in> {0x02, 0x03}"
    using assms by (auto simp: xpub_to_hd_node_type_def res_simps Let_def split: if_splits)
  have "unat (ucast (data ! 4) :: u32) = unat (data ! 4) mod 2 ^ 32"
    by (simp add: unsigned_ucast_eq take_bit_eq_mod)
  also have "\<dots> \<le> unat (data ! 4)" by simp
  finally have "unat (ucast (data ! 4) :: u32) < 256"
    using unsigned_less [of "data ! 4", where 'a = nat] by simp
  then show ?thesis using d pk by (simp add: node)
qed

text \<open>A small instance of the crates, for concrete runs: an address is its own script, a
  transaction is read from three bytes (inputs, amount in thousands, script).\<close>

definition run_crate :: bitcoin_crate where
  "run_crate =
     \<lparr>bc_deserialize = \<lambda>raw. case raw of
          [n, v, c] \<Rightarrow> Inr \<lparr>tx_version = 2, tx_lock_time = 0,
            tx_input = replicate (unat n) \<lparr>ti_txid = [], ti_vout = 0, ti_script_sig = [], ti_sequence = 0, ti_witness = []\<rparr>,
            tx_output = [\<lparr>tx_value = 1000 * ucast v, tx_script_pubkey = [c]\<rparr>]\<rparr>
        | _ \<Rightarrow> Inl ''malformed'',
      bc_compute_txid = \<lambda>tx. concat (map tx_script_pubkey (tx_output tx)),
      bc_txid_from_str = \<lambda>s. Inr (as_bytes s),
      bc_txid_to_string = \<lambda>b. from_bytes b,
      bc_serialize_witness = concat,
      bc_parse_address = \<lambda>a. Inr \<lparr>pa_networks = \<lambda>n. n = BtcBitcoin, pa_script = as_bytes a\<rparr>,
      bc_base58_decode_check = \<lambda>s. Inr ([4, 0x88, 0xb2, 0x1e, 3] @ replicate 40 7 @ [2] @ replicate 32 9),
      bc_pubkey_from_slice = \<lambda>b. Inr \<lparr>pk_inner = b, pk_compressed = True\<rparr>,
      bc_pubkey_hash = pk_inner,
      bc_wpubkey_hash = \<lambda>pk. Some (pk_inner pk),
      bc_script_hash = id, bc_new_p2pkh = id, bc_new_p2wpkh = id, bc_new_p2sh = id, bc_new_p2tr = id,
      bc_push_bytes = Some, bc_new_op_return = \<lambda>b. 0x6a # b\<rparr>"

definition run_hex :: hex_crate where
  "run_hex = \<lparr>hx_encode = \<lambda>b. from_bytes b, hx_decode = \<lambda>s. Inr (as_bytes s)\<rparr>"

theorem xpub_node_shape_witness:
  "\<exists>node. xpub_to_hd_node_type run_crate ''x'' = Inr node \<and> length (hd_chain_code node) = 32 \<and> hd_depth node = 3"
proof -
  obtain node where n: "xpub_to_hd_node_type run_crate ''x'' = Inr node" "hd_depth node = 3"
    by (simp add: xpub_to_hd_node_type_def run_crate_def map_err_def nth_append Let_def)
  then show ?thesis using xpub_node_shape [OF n(1)] by blast
qed

end
