(* ===== verification/Effects.thy ===== *)
theory Effects
  imports Errors
begin

text \<open>
  Stateful fallible operations. An operation maps a state to \<open>None\<close>, when one of its loops does
  not end, or to a result and the state reached. \<open>bind_op\<close> sequences them as \<^verbatim>\<open>?\<close> does, and
  \<open>ends m Q\<close> is partial correctness, with the rules the component proofs use.
\<close>

type_synonym ('e, 'a, 's) outcome_with = "(('e + 'a) \<times> 's) option"
type_synonym ('a, 's) outcome = "(TrezorError fault, 'a, 's) outcome_with"

text \<open>Sequencing: an error or a loop that does not end stops the operation; the state so far
  is kept.\<close>

fun bind_op ::
    "('e, 'a, 's) outcome_with \<Rightarrow> ('a \<Rightarrow> 's \<Rightarrow> ('e, 'b, 's) outcome_with) \<Rightarrow> ('e, 'b, 's) outcome_with" where
  "bind_op None k = None"
| "bind_op (Some (Inl e, s)) k = Some (Inl e, s)"
| "bind_op (Some (Inr v, s)) k = k v s"

text \<open>A pure step inside an operation.\<close>

definition lift_res :: "'e + 'a \<Rightarrow> 's \<Rightarrow> ('e, 'a, 's) outcome_with" where
  "lift_res r s = Some (r, s)"

text \<open>\<open>ends m Q\<close>: if \<open>m\<close> ends, its result and state satisfy \<open>Q\<close>.\<close>

definition ends :: "('e, 'a, 's) outcome_with \<Rightarrow> ('e + 'a \<Rightarrow> 's \<Rightarrow> bool) \<Rightarrow> bool" where
  "ends m Q \<longleftrightarrow> (\<forall>r s. m = Some (r, s) \<longrightarrow> Q r s)"

lemma bind_op_Inr [res_simps]:
  "bind_op m k = Some (Inr v, s) \<longleftrightarrow> (\<exists>a s'. m = Some (Inr a, s') \<and> k a s' = Some (Inr v, s))"
  by (cases "(m, k)" rule: bind_op.cases) auto

lemma lift_res_Inr [res_simps]: "lift_res r s = Some (Inr v, s') \<longleftrightarrow> r = Inr v \<and> s' = s"
  by (auto simp: lift_res_def)

lemma bind_lift_res [simp]: "bind_op (lift_res (Inr v) s) k = k v s" "bind_op (lift_res (Inl e) s) k = Some (Inl e, s)"
  by (simp_all add: lift_res_def)

lemma ends_Some [simp]: "ends (Some (r, s)) Q \<longleftrightarrow> Q r s"
  by (simp add: ends_def)

lemma ends_None [simp]: "ends None Q"
  by (simp add: ends_def)

lemma ends_bind:
  assumes "ends m (\<lambda>r s. case r of Inl e \<Rightarrow> Q (Inl e) s | Inr v \<Rightarrow> ends (k v s) Q)"
  shows "ends (bind_op m k) Q"
  using assms by (cases "(m, k)" rule: bind_op.cases) auto

text \<open>A property of the state alone that every part of an operation keeps.\<close>

lemma ends_keep_bind:
  assumes "ends m (\<lambda>r s. P s)" and "\<And>v s. P s \<Longrightarrow> ends (k v s) (\<lambda>r s. P s)"
  shows "ends (bind_op m k) (\<lambda>r s. P s)"
  using assms by (cases "(m, k)" rule: bind_op.cases) auto

lemma ends_step:
  assumes "ends m (\<lambda>r s. P s)" and "\<And>v s. P s \<Longrightarrow> ends (k v s) Q" and "\<And>e s. P s \<Longrightarrow> Q (Inl e) s"
  shows "ends (bind_op m k) Q"
  using assms by (cases "(m, k)" rule: bind_op.cases) auto

lemma ends_lift: "P s \<Longrightarrow> ends (lift_res r s) (\<lambda>r s. P s)"
  by (simp add: lift_res_def)

lemma ends_D: "ends m Q \<Longrightarrow> m = Some (r, s) \<Longrightarrow> Q r s"
  by (simp add: ends_def)

lemma ends_if: "(b \<Longrightarrow> ends x Q) \<Longrightarrow> (\<not> b \<Longrightarrow> ends y Q) \<Longrightarrow> ends (if b then x else y) Q"
  by simp

lemma ends_weaken: "ends m Q \<Longrightarrow> (\<And>r s. Q r s \<Longrightarrow> Q' r s) \<Longrightarrow> ends m Q'"
  by (simp add: ends_def)

end
