(* ===== verification/Credential_Store.thy ===== *)
theory Credential_Store
  imports Bitcoin_Utils Effects
begin

text \<open>
  The credential store of the desktop library (\<^verbatim>\<open>credential_store.rs\<close>): pairing credentials kept
  in a JSON file or in the keychain of the operating system. The operating system is explicit: the
  files with their modes, the directories and the keychain are the state \<open>system\<close>, and every call to
  it may be refused, with any message, by the oracle \<open>os_fault\<close>; a refused write may leave anything in
  the file. Serialisation is the record \<open>store_json\<close>. Hash maps are maps.
\<close>

section \<open>The operating system\<close>

datatype sys_op =
    ReadFile string | MakeDirs string | Chmod string | WriteFile string | RenameFile string
  | KeyringEntry string | KeyringGet string | KeyringSet string | KeyringDelete string

record system =
  sy_files :: "string \<rightharpoonup> string \<times> u32"
  sy_dirs :: "string \<rightharpoonup> u32"
  sy_keychain :: "string \<rightharpoonup> string"

record os =
  os_fault :: "sys_op \<Rightarrow> system \<Rightarrow> string option"
  os_torn :: "string \<Rightarrow> string \<Rightarrow> system \<Rightarrow> string option"
  os_file_mode :: u32
  os_dir_mode :: u32

definition not_found :: string where
  "not_found = ''No such file or directory (os error 2)''"

definition path_exists :: "string \<Rightarrow> system \<Rightarrow> bool" where
  "path_exists p sys \<longleftrightarrow> sy_files sys p \<noteq> None \<or> sy_dirs sys p \<noteq> None"

text \<open>\<^verbatim>\<open>Path::parent\<close> and \<^verbatim>\<open>Path::with_extension\<close>, for paths without empty components.\<close>

definition file_name :: "string \<Rightarrow> string" where
  "file_name p = rev (takeWhile (\<lambda>c. c \<noteq> CHR ''/'') (rev p))"

definition parent_dir :: "string \<Rightarrow> string option" where
  "parent_dir p =
     (if p = [] \<or> p = ''/'' then None
      else
        let dir = take (length p - length (file_name p)) p
        in if dir = [] \<or> dir = ''/'' then Some dir else Some (butlast dir))"

definition with_extension_tmp :: "string \<Rightarrow> string" where
  "with_extension_tmp p =
     (let name = file_name p;
          dir = take (length p - length name) p;
          ext = takeWhile (\<lambda>c. c \<noteq> CHR ''.'') (rev name);
          stem = (if length name \<le> Suc (length ext) then name else take (length name - length ext - 1) name)
      in if name = [] \<or> name = ''..'' then p else dir @ stem @ ''.tmp'')"

definition ancestors :: "string \<Rightarrow> string list" where
  "ancestors p = filter (\<lambda>q. q \<noteq> [] \<and> (q = p \<or> take 1 (drop (length q) p) = ''/'')) (map (\<lambda>n. take n p) [0..<Suc (length p)])"

definition read_to_string :: "os \<Rightarrow> string \<Rightarrow> system \<Rightarrow> string + string" where
  "read_to_string os p sys =
     (case os_fault os (ReadFile p) sys of
        Some e \<Rightarrow> Inl e
      | None \<Rightarrow> (case sy_files sys p of Some (content, _) \<Rightarrow> Inr content | None \<Rightarrow> Inl not_found))"

definition create_dir_all :: "os \<Rightarrow> string \<Rightarrow> system \<Rightarrow> (string + unit) \<times> system" where
  "create_dir_all os p sys =
     (if p = [] then (Inr (), sys)
      else case os_fault os (MakeDirs p) sys of
             Some e \<Rightarrow> (Inl e, sys)
           | None \<Rightarrow> (Inr (), sys\<lparr>sy_dirs := (\<lambda>q. if q \<in> set (ancestors p) \<and> sy_dirs sys q = None
               then Some (os_dir_mode os) else sy_dirs sys q)\<rparr>))"

definition set_permissions :: "os \<Rightarrow> string \<Rightarrow> u32 \<Rightarrow> system \<Rightarrow> (string + unit) \<times> system" where
  "set_permissions os p mode sys =
     (case os_fault os (Chmod p) sys of
        Some e \<Rightarrow> (Inl e, sys)
      | None \<Rightarrow>
          (case sy_files sys p of
             Some (content, _) \<Rightarrow> (Inr (), sys\<lparr>sy_files := (sy_files sys)(p \<mapsto> (content, mode))\<rparr>)
           | None \<Rightarrow>
               if sy_dirs sys p \<noteq> None then (Inr (), sys\<lparr>sy_dirs := (sy_dirs sys)(p \<mapsto> mode)\<rparr>)
               else (Inl not_found, sys)))"

definition put_file :: "os \<Rightarrow> string \<Rightarrow> string \<Rightarrow> system \<Rightarrow> system" where
  "put_file os p content sys =
     sys\<lparr>sy_files := (sy_files sys)(p \<mapsto> (content, case sy_files sys p of Some (_, mode) \<Rightarrow> mode | None \<Rightarrow> os_file_mode os))\<rparr>"

definition fs_write :: "os \<Rightarrow> string \<Rightarrow> string \<Rightarrow> system \<Rightarrow> (string + unit) \<times> system" where
  "fs_write os p content sys =
     (case os_fault os (WriteFile p) sys of
        Some e \<Rightarrow> (Inl e, case os_torn os p content sys of Some torn \<Rightarrow> put_file os p torn sys | None \<Rightarrow> sys)
      | None \<Rightarrow>
          (case parent_dir p of
             Some dir \<Rightarrow>
               if dir \<noteq> [] \<and> sy_dirs sys dir = None then (Inl not_found, sys)
               else (Inr (), put_file os p content sys)
           | None \<Rightarrow> (Inl ''Is a directory (os error 21)'', sys)))"

definition fs_rename :: "os \<Rightarrow> string \<Rightarrow> string \<Rightarrow> system \<Rightarrow> (string + unit) \<times> system" where
  "fs_rename os source target sys =
     (case os_fault os (RenameFile source) sys of
        Some e \<Rightarrow> (Inl e, sys)
      | None \<Rightarrow>
          (case sy_files sys source of
             Some f \<Rightarrow> (Inr (), sys\<lparr>sy_files := (sy_files sys)(source := None, target \<mapsto> f)\<rparr>)
           | None \<Rightarrow> (Inl not_found, sys)))"

section \<open>Credentials\<close>

record StoredCredentialEntry =
  se_device_id :: string
  se_host_static_key :: string
  se_trezor_static_public_key :: string
  se_credential :: string
  se_created_at :: u64
  se_device_label :: "string option"

text \<open>\<^verbatim>\<open>now\<close> is the system clock, \<open>None\<close> when it is before the epoch.\<close>

definition credential_new :: "u64 option \<Rightarrow> string \<Rightarrow> string \<Rightarrow> string \<Rightarrow> string \<Rightarrow> StoredCredentialEntry" where
  "credential_new now device_id host_static_key trezor_static_public_key credential =
     \<lparr>se_device_id = device_id, se_host_static_key = host_static_key,
      se_trezor_static_public_key = trezor_static_public_key, se_credential = credential,
      se_created_at = (case now of Some t \<Rightarrow> t | None \<Rightarrow> 0), se_device_label = None\<rparr>"

definition with_label :: "string \<Rightarrow> StoredCredentialEntry \<Rightarrow> StoredCredentialEntry" where
  "with_label label c = c\<lparr>se_device_label := Some label\<rparr>"

definition host_static_key_bytes :: "hex_crate \<Rightarrow> StoredCredentialEntry \<Rightarrow> bytes option" where
  "host_static_key_bytes hx c =
     (case hx_decode hx (se_host_static_key c) of
        Inr b \<Rightarrow> if length b \<noteq> 32 then None else Some b
      | Inl _ \<Rightarrow> None)"

definition credential_bytes :: "hex_crate \<Rightarrow> StoredCredentialEntry \<Rightarrow> bytes option" where
  "credential_bytes hx c = (case hx_decode hx (se_credential c) of Inr b \<Rightarrow> Some b | Inl _ \<Rightarrow> None)"

section \<open>The store\<close>

record CredentialFile =
  cf_version :: u32
  cf_credentials :: "string \<rightharpoonup> StoredCredentialEntry"

definition credential_file_new :: CredentialFile where
  "credential_file_new = \<lparr>cf_version = 1, cf_credentials = Map.empty\<rparr>"

datatype Backend = FileBackend string | KeychainBackend string

record CredentialStore =
  st_backend :: Backend
  st_data :: CredentialFile
  st_dirty :: bool

record store_json =
  js_pretty :: "CredentialFile \<Rightarrow> string + string"
  js_compact :: "CredentialFile \<Rightarrow> string + string"
  js_parse :: "string \<Rightarrow> string + CredentialFile"

definition io_error :: "string \<Rightarrow> string \<Rightarrow> TrezorError" where
  "io_error what e = IoError (what @ e)"

type_synonym 'a store_op = "CredentialStore \<times> system \<Rightarrow> ('a, CredentialStore \<times> system) outcome"

text \<open>A call to the system inside a store operation, with its \<^verbatim>\<open>map_err\<close>.\<close>

definition sys_call :: "string \<Rightarrow> (system \<Rightarrow> (string + 'a) \<times> system) \<Rightarrow> 'a store_op" where
  "sys_call what f = (\<lambda>(st, sys). case f sys of (r, sys) \<Rightarrow> Some (map_err (io_error what) r, st, sys))"

definition read_credentials :: "os \<Rightarrow> store_json \<Rightarrow> string \<Rightarrow> system \<Rightarrow> CredentialFile result" where
  "read_credentials os js path sys =
     bind_res (map_err (io_error []) (read_to_string os path sys)) (\<lambda>content.
     map_err (io_error ''Failed to parse credentials: '') (js_parse js content))"

definition store_new :: "os \<Rightarrow> store_json \<Rightarrow> string \<Rightarrow> system \<Rightarrow> CredentialStore result" where
  "store_new os js path sys =
     bind_res (if path_exists path sys then read_credentials os js path sys else Inr credential_file_new) (\<lambda>data.
     Inr \<lparr>st_backend = FileBackend path, st_data = data, st_dirty = False\<rparr>)"

definition keychain_load :: "os \<Rightarrow> store_json \<Rightarrow> string \<Rightarrow> system \<Rightarrow> CredentialFile result" where
  "keychain_load os js service sys =
     (case os_fault os (KeyringEntry service) sys of
        Some e \<Rightarrow> Inl (Err (io_error ''Keychain entry error: '' e))
      | None \<Rightarrow>
          (case os_fault os (KeyringGet service) sys of
             Some e \<Rightarrow> Inl (Err (io_error ''Keychain read error: '' e))
           | None \<Rightarrow>
               (case sy_keychain sys service of
                  Some content \<Rightarrow> map_err (io_error ''Failed to parse keychain credentials: '') (js_parse js content)
                | None \<Rightarrow> Inr credential_file_new)))"

definition KEYRING_SERVICE :: string where "KEYRING_SERVICE = ''trezor-connect''"

definition new_keychain :: "os \<Rightarrow> store_json \<Rightarrow> string option \<Rightarrow> system \<Rightarrow> CredentialStore result" where
  "new_keychain os js service sys =
     (let service = (case service of Some s \<Rightarrow> s | None \<Rightarrow> KEYRING_SERVICE) in
      bind_res (keychain_load os js service sys) (\<lambda>data.
      Inr \<lparr>st_backend = KeychainBackend service, st_data = data, st_dirty = False\<rparr>))"

definition keychain_save :: "os \<Rightarrow> store_json \<Rightarrow> string \<Rightarrow> CredentialFile \<Rightarrow> system \<Rightarrow> unit result \<times> system" where
  "keychain_save os js service data sys =
     (case os_fault os (KeyringEntry service) sys of
        Some e \<Rightarrow> (Inl (Err (io_error ''Keychain entry error: '' e)), sys)
      | None \<Rightarrow>
          if cf_credentials data = Map.empty
          then (case os_fault os (KeyringDelete service) sys of
                  Some e \<Rightarrow> (Inl (Err (io_error ''Keychain delete error: '' e)), sys)
                | None \<Rightarrow> (Inr (), sys\<lparr>sy_keychain := (sy_keychain sys)(service := None)\<rparr>))
          else
            (case map_err (io_error ''Failed to serialize credentials: '') (js_compact js data) of
               Inl e \<Rightarrow> (Inl e, sys)
             | Inr content \<Rightarrow>
                 (case os_fault os (KeyringSet service) sys of
                    Some e \<Rightarrow> (Inl (Err (io_error ''Keychain write error: '' e)), sys)
                  | None \<Rightarrow> (Inr (), sys\<lparr>sy_keychain := (sy_keychain sys)(service \<mapsto> content)\<rparr>))))"

definition load :: "os \<Rightarrow> store_json \<Rightarrow> unit store_op" where
  "load os js = (\<lambda>(st, sys).
     (case st_backend st of
        FileBackend path \<Rightarrow>
          if path_exists path sys
          then bind_op (lift_res (read_credentials os js path sys) (st, sys)) (\<lambda>data (st, sys).
                 Some (Inr (), st\<lparr>st_data := data, st_dirty := False\<rparr>, sys))
          else Some (Inr (), st, sys)
      | KeychainBackend service \<Rightarrow>
          bind_op (lift_res (keychain_load os js service sys) (st, sys)) (\<lambda>data (st, sys).
            Some (Inr (), st\<lparr>st_data := data, st_dirty := False\<rparr>, sys))))"

text \<open>The branch of \<^verbatim>\<open>save\<close> for files: parent directories, the temporary file, its mode, the rename.\<close>

definition save_directory :: "os \<Rightarrow> string \<Rightarrow> unit store_op" where
  "save_directory os path = (\<lambda>(st, sys).
     case parent_dir path of
       Some parent \<Rightarrow>
         if \<not> path_exists parent sys
         then bind_op (sys_call ''Failed to create directory: '' (create_dir_all os parent) (st, sys)) (\<lambda>_ w.
              sys_call ''Failed to set directory permissions: '' (set_permissions os parent 0x1c0) w)
         else Some (Inr (), st, sys)
     | None \<Rightarrow> Some (Inr (), st, sys))"

definition save_file :: "os \<Rightarrow> store_json \<Rightarrow> string \<Rightarrow> unit store_op" where
  "save_file os js path w =
     bind_op (save_directory os path w) (\<lambda>_ w.
     bind_op (lift_res (map_err (io_error ''Failed to serialize credentials: '') (js_pretty js (st_data (fst w)))) w) (\<lambda>content w.
     let tmp_path = with_extension_tmp path in
     bind_op (sys_call [] (fs_write os tmp_path content) w) (\<lambda>_ w.
     bind_op (sys_call ''Failed to set file permissions: '' (set_permissions os tmp_path 0x180) w) (\<lambda>_ w.
     sys_call ''Failed to rename temp file: '' (fs_rename os tmp_path path) w))))"

definition save :: "os \<Rightarrow> store_json \<Rightarrow> unit store_op" where
  "save os js = (\<lambda>(st, sys).
     if \<not> st_dirty st then Some (Inr (), st, sys)
     else
       bind_op
         (case st_backend st of
            FileBackend path \<Rightarrow> save_file os js path (st, sys)
          | KeychainBackend service \<Rightarrow>
              (case keychain_save os js service (st_data st) sys of (r, sys) \<Rightarrow> Some (r, st, sys))) (\<lambda>_ (st, sys).
       Some (Inr (), st\<lparr>st_dirty := False\<rparr>, sys)))"

definition store_get :: "string \<Rightarrow> CredentialStore \<Rightarrow> StoredCredentialEntry option" where
  "store_get device_id st = cf_credentials (st_data st) device_id"

definition with_credentials :: "((string \<rightharpoonup> StoredCredentialEntry) \<Rightarrow> (string \<rightharpoonup> StoredCredentialEntry)) \<Rightarrow> CredentialStore \<Rightarrow> CredentialStore" where
  "with_credentials f st = st\<lparr>st_data := (st_data st)\<lparr>cf_credentials := f (cf_credentials (st_data st))\<rparr>, st_dirty := True\<rparr>"

definition store :: "os \<Rightarrow> store_json \<Rightarrow> StoredCredentialEntry \<Rightarrow> unit store_op" where
  "store os js credential = (\<lambda>(st, sys).
     save os js (with_credentials (\<lambda>m. m(se_device_id credential \<mapsto> credential)) st, sys))"

definition remove :: "os \<Rightarrow> store_json \<Rightarrow> string \<Rightarrow> unit store_op" where
  "remove os js device_id = (\<lambda>(st, sys).
     if store_get device_id st \<noteq> None
     then save os js (with_credentials (\<lambda>m. m(device_id := None)) st, sys)
     else Some (Inr (), st, sys))"

definition clear :: "os \<Rightarrow> store_json \<Rightarrow> unit store_op" where
  "clear os js = (\<lambda>(st, sys).
     if cf_credentials (st_data st) \<noteq> Map.empty
     then save os js (with_credentials (\<lambda>m. Map.empty) st, sys)
     else Some (Inr (), st, sys))"

text \<open>The order of the ids is that of a hash map, unspecified.\<close>

definition list_devices :: "CredentialStore \<Rightarrow> string set" where
  "list_devices st = dom (cf_credentials (st_data st))"

definition has_credentials :: "string \<Rightarrow> CredentialStore \<Rightarrow> bool" where
  "has_credentials device_id st = (store_get device_id st \<noteq> None)"

definition store_path :: "CredentialStore \<Rightarrow> string option" where
  "store_path st = (case st_backend st of FileBackend path \<Rightarrow> Some path | KeychainBackend _ \<Rightarrow> None)"

section \<open>What the system calls change\<close>

lemma ends_sys_call: "ends (sys_call what f (st, sys)) Q \<longleftrightarrow> Q (map_err (io_error what) (fst (f sys))) (st, snd (f sys))"
  by (simp add: sys_call_def split: prod.split)

lemma map_err_Inl [simp]: "map_err f (Inl e) = Inl (Err (f e))"
  by (simp add: map_err_def)

lemma map_err_Inr' [simp]: "map_err f (Inr v) = Inr v"
  by (simp add: map_err_def)

lemma map_err_eq_Inr: "map_err f r = Inr v \<longleftrightarrow> r = Inr v"
  by (cases r) simp_all

lemma create_dir_files: "sy_files (snd (create_dir_all os p sys)) = sy_files sys"
  by (simp add: create_dir_all_def split: option.split)

lemma chmod_files:
  "q \<noteq> p \<or> sy_files sys p = None \<Longrightarrow> sy_files (snd (set_permissions os p mode sys)) q = sy_files sys q"
  by (auto simp: set_permissions_def split: option.split)

lemma chmod_done: "set_permissions os p mode sys = (Inr u, sys') \<Longrightarrow> sy_files sys p = Some (c, m) \<Longrightarrow> sy_files sys' p = Some (c, mode)"
  by (auto simp: set_permissions_def split: option.splits)

lemma write_other: "q \<noteq> p \<Longrightarrow> sy_files (snd (fs_write os p content sys)) q = sy_files sys q"
  by (simp add: fs_write_def put_file_def split: option.split)

lemma write_done: "fs_write os p content sys = (Inr u, sys') \<Longrightarrow> \<exists>m. sy_files sys' p = Some (content, m)"
  by (auto simp: fs_write_def put_file_def split: option.splits if_splits)

lemma rename_other: "q \<noteq> a \<Longrightarrow> q \<noteq> b \<Longrightarrow> sy_files (snd (fs_rename os a b sys)) q = sy_files sys q"
  by (simp add: fs_rename_def split: option.split)

lemma rename_done: "fs_rename os a b sys = (Inr u, sys') \<Longrightarrow> sy_files sys' b = sy_files sys a"
  by (auto simp: fs_rename_def split: option.splits)

lemma rename_failed: "fs_rename os a b sys = (Inl e, sys') \<Longrightarrow> sys' = sys"
  by (auto simp: fs_rename_def split: option.splits)

lemma save_directory_files:
  "ends (save_directory os p (st, sys)) (\<lambda>r (st', sys'). st' = st \<and> sy_files sys' = sy_files sys)"
proof (cases "parent_dir p")
  case (Some parent)
  show ?thesis
  proof (cases "path_exists parent sys")
    case False
    then have none: "sy_files (snd (create_dir_all os parent sys)) parent = None"
      by (simp add: path_exists_def create_dir_files del: not_None_eq)
    have "ends (bind_op (sys_call a (create_dir_all os parent) (st, sys)) (\<lambda>_ w. sys_call b (set_permissions os parent m) w))
        (\<lambda>r (st', sys'). st' = st \<and> sy_files sys' = sy_files sys)" for a b m
      by (rule ends_bind, simp only: ends_sys_call)
        (auto simp: ends_sys_call create_dir_files chmod_files [OF disjI2 [OF none]] fun_eq_iff split: sum.split)
    then show ?thesis using Some False by (simp add: save_directory_def)
  qed (simp add: save_directory_def Some)
qed (simp add: save_directory_def)

text \<open>\<open>saved\<close>: what a save to a file may leave, whatever fails.\<close>

definition saved :: "store_json \<Rightarrow> string \<Rightarrow> CredentialStore \<Rightarrow> system \<Rightarrow> unit result \<Rightarrow> CredentialStore \<times> system \<Rightarrow> bool" where
  "saved js p st sys r = (\<lambda>(st', sys').
     st' = st \<and> (\<forall>q. q \<noteq> p \<longrightarrow> q \<noteq> with_extension_tmp p \<longrightarrow> sy_files sys' q = sy_files sys q)
     \<and> (case r of
          Inl e \<Rightarrow> sy_files sys' p = sy_files sys p
        | Inr _ \<Rightarrow> \<exists>content. js_pretty js (st_data st) = Inr content \<and> sy_files sys' p = Some (content, 0x180)))"

lemma save_file_saved:
  assumes "with_extension_tmp p \<noteq> p"
  shows "ends (save_file os js p (st, sys)) (saved js p st sys)"
proof -
  let ?t = "with_extension_tmp p"
  have rename: "ends (sys_call b (fs_rename os ?t p) (st, sys2)) (saved js p st sys)"
    if "js_pretty js (st_data st) = Inr content" "sy_files sys2 ?t = Some (content, 0x180)"
      "\<And>q. q \<noteq> ?t \<Longrightarrow> sy_files sys2 q = sy_files sys q" for b content sys2
    using that assms rename_done [of os ?t p sys2] rename_other [of _ ?t p os sys2] rename_failed [of os ?t p sys2]
    by (cases "fs_rename os ?t p sys2"; cases "fst (fs_rename os ?t p sys2)")
      (auto simp: ends_sys_call saved_def)
  have chmod: "ends (bind_op (sys_call a (set_permissions os ?t 0x180) (st, sys1)) (\<lambda>_ w. sys_call b (fs_rename os ?t p) w))
      (saved js p st sys)"
    if "js_pretty js (st_data st) = Inr content" "sy_files sys1 ?t = Some (content, m)"
      "\<And>q. q \<noteq> ?t \<Longrightarrow> sy_files sys1 q = sy_files sys q" for a b content m sys1
  proof (cases "set_permissions os ?t 0x180 sys1")
    case (Pair r sys2)
    have other: "sy_files sys2 q = sy_files sys q" if "q \<noteq> ?t" for q
      using chmod_files [of q ?t sys1 os "0x180"] Pair that \<open>\<And>q. q \<noteq> ?t \<Longrightarrow> sy_files sys1 q = sy_files sys q\<close> by simp
    show ?thesis
    proof (cases r)
      case (Inr u)
      then show ?thesis
        using Pair rename [OF that(1) _ other, of b] chmod_done [of os ?t "0x180" sys1] that(2)
        by (simp add: sys_call_def)
    qed (use Pair other assms in \<open>auto simp: sys_call_def saved_def\<close>)
  qed
  have written: "ends (bind_op (sys_call c (fs_write os ?t content) (st, sys0)) (\<lambda>_ w.
      bind_op (sys_call a (set_permissions os ?t 0x180) w) (\<lambda>_ w. sys_call b (fs_rename os ?t p) w))) (saved js p st sys)"
    if "js_pretty js (st_data st) = Inr content" "sy_files sys0 = sy_files sys" for a b c content sys0
  proof (cases "fs_write os ?t content sys0")
    case (Pair r sys1)
    have other: "sy_files sys1 q = sy_files sys q" if "q \<noteq> ?t" for q
      using write_other [OF that, of os content sys0] Pair \<open>sy_files sys0 = sy_files sys\<close> by simp
    show ?thesis
    proof (cases r)
      case (Inr u)
      then obtain m where "sy_files sys1 ?t = Some (content, m)" using write_done [of os ?t content sys0] Pair by blast
      then show ?thesis using Pair Inr chmod [OF that(1) _ other, of m] by (simp add: sys_call_def)
    qed (use Pair other assms in \<open>auto simp: sys_call_def saved_def\<close>)
  qed
  show ?thesis
    unfolding save_file_def Let_def
  proof (rule ends_bind, rule ends_weaken [OF save_directory_files], clarsimp split: sum.split, intro conjI allI impI)
    fix sys0 :: system assume f: "sy_files sys0 = sy_files sys"
    show "ends (bind_op (lift_res (map_err (io_error ''Failed to serialize credentials: '') (js_pretty js (st_data st))) (st, sys0)) (\<lambda>content w.
       bind_op (sys_call [] (fs_write os ?t content) w) (\<lambda>_ w.
       bind_op (sys_call ''Failed to set file permissions: '' (set_permissions os ?t 0x180) w) (\<lambda>_ w.
       sys_call ''Failed to rename temp file: '' (fs_rename os ?t p) w)))) (saved js p st sys)"
      using written f by (cases "js_pretty js (st_data st)") (simp_all add: lift_res_def saved_def)
  qed (auto simp: saved_def)
qed

lemma save_saved:
  assumes "st_backend st = FileBackend p" "with_extension_tmp p \<noteq> p" "save os js (st, sys) = Some (r, st', sys')"
  shows "(case r of
       Inr _ \<Rightarrow> st' = st\<lparr>st_dirty := False\<rparr>
         \<and> (if st_dirty st then \<exists>content. js_pretty js (st_data st) = Inr content \<and> sy_files sys' p = Some (content, 0x180)
            else sys' = sys)
     | Inl _ \<Rightarrow> st' = st \<and> st_dirty st \<and> sy_files sys' p = sy_files sys p)
    \<and> (\<forall>q. q \<noteq> p \<longrightarrow> q \<noteq> with_extension_tmp p \<longrightarrow> sy_files sys' q = sy_files sys q)"
proof (cases "st_dirty st")
  case True
  show ?thesis
  proof (cases "save_file os js p (st, sys)")
    case (Some w)
    obtain r1 st1 sys1 where w: "w = (r1, st1, sys1)" by (cases w)
    have "saved js p st sys r1 (st1, sys1)" using ends_D [OF save_file_saved [OF assms(2)] Some [unfolded w]] .
    then show ?thesis using assms(1,3) Some w True by (cases r1) (auto simp: save_def saved_def)
  qed (use assms True in \<open>simp add: save_def\<close>)
qed (use assms(3) in \<open>auto simp: save_def\<close>)

lemma saved_again:
  assumes "\<And>f t. js_pretty js f = Inr t \<Longrightarrow> js_parse js t = Inr f"
    and "sy_files sys p = Some (content, m)" "js_pretty js data = Inr content" "os_fault os (ReadFile p) sys = None"
  shows "read_credentials os js p sys = Inr data" "path_exists p sys"
  using assms by (simp_all add: read_credentials_def read_to_string_def path_exists_def)

section \<open>The store and its file agree\<close>

text \<open>What a caller can do with a store; the file is changed by the store only.\<close>

inductive store_step :: "os \<Rightarrow> store_json \<Rightarrow> CredentialStore \<times> system \<Rightarrow> CredentialStore \<times> system \<Rightarrow> bool"
  for os js where
  step_load: "load os js w = Some (r, w') \<Longrightarrow> store_step os js w w'"
| step_save: "save os js w = Some (r, w') \<Longrightarrow> store_step os js w w'"
| step_store: "store os js cred w = Some (r, w') \<Longrightarrow> store_step os js w w'"
| step_remove: "remove os js device_id w = Some (r, w') \<Longrightarrow> store_step os js w w'"
| step_clear: "clear os js w = Some (r, w') \<Longrightarrow> store_step os js w w'"

definition synced :: "store_json \<Rightarrow> string \<Rightarrow> CredentialStore \<times> system \<Rightarrow> bool" where
  "synced js p = (\<lambda>(st, sys).
     st_backend st = FileBackend p
     \<and> (st_dirty st \<or> (case sy_files sys p of
          Some (content, _) \<Rightarrow> js_parse js content = Inr (st_data st)
        | None \<Rightarrow> st_data st = credential_file_new)))"

lemma with_credentials_fields [simp]:
  "st_backend (with_credentials f st) = st_backend st" "st_dirty (with_credentials f st)"
  "cf_credentials (st_data (with_credentials f st)) = f (cf_credentials (st_data st))"
  by (simp_all add: with_credentials_def)

lemma save_synced:
  assumes "with_extension_tmp p \<noteq> p" "\<And>f t. js_pretty js f = Inr t \<Longrightarrow> js_parse js t = Inr f"
    and "synced js p (st, sys)" "save os js (st, sys) = Some (r, w')"
  shows "synced js p w'"
proof -
  obtain st' sys' where w: "w' = (st', sys')" by force
  note s = save_saved [OF _ assms(1) assms(4) [unfolded w]]
  show ?thesis
    using s assms(2,3) w by (cases r; cases "st_dirty st") (auto simp: synced_def split: option.splits)
qed

lemma synced_dirty: "synced js p (st, sys) \<Longrightarrow> synced js p (with_credentials f st, sys)"
  by (simp add: synced_def)

lemma load_synced:
  assumes "synced js p (st, sys)" "load os js (st, sys) = Some (r, w')"
  shows "synced js p w'"
proof -
  have "synced js p (st\<lparr>st_data := data, st_dirty := False\<rparr>, sys)" if "read_credentials os js p sys = Inr data" for data
    using assms(1) that
    by (auto simp: synced_def read_credentials_def read_to_string_def res_simps map_err_eq_Inr split: option.splits)
  then show ?thesis
    using assms
    by (cases "read_credentials os js p sys") (auto simp: load_def synced_def lift_res_def split: if_splits)
qed

lemma store_step_synced:
  assumes "store_step os js w w'" "synced js p w"
    and "with_extension_tmp p \<noteq> p" "\<And>f t. js_pretty js f = Inr t \<Longrightarrow> js_parse js t = Inr f"
  shows "synced js p w'"
proof -
  obtain st sys where w: "w = (st, sys)" by force
  have changed: "synced js p w'" if "save os js (with_credentials f st, sys) = Some (r, w')" for f r
    using save_synced [OF assms(3,4) synced_dirty that] assms(2) w by simp
  show ?thesis
    using assms(1)
  proof cases
    case (step_load r)
    then show ?thesis using load_synced assms(2) w by blast
  next
    case (step_save r)
    then show ?thesis using save_synced [OF assms(3,4)] assms(2) w by blast
  next
    case (step_store cred r)
    then show ?thesis using changed w by (simp add: store_def)
  next
    case (step_remove device_id r)
    then show ?thesis using changed assms(2) w by (auto simp: remove_def split: if_splits)
  next
    case (step_clear r)
    then show ?thesis using changed assms(2) w by (auto simp: clear_def split: if_splits)
  qed
qed

section \<open>Properties\<close>

text \<open>
  C27: a save either replaces the credential file by the serialised
  credentials with owner-only permissions, or reports an error and leaves the file and the store as
  they were, whichever call to the operating system fails; besides the temporary file no other file
  is touched. The hypothesis excludes a credential file with extension \<^verbatim>\<open>tmp\<close>.
\<close>

theorem credential_save_atomic:
  assumes "st_backend st = FileBackend p" "st_dirty st" "with_extension_tmp p \<noteq> p"
    and "save os js (st, sys) = Some (r, st', sys')"
  shows "(case r of
       Inr _ \<Rightarrow> \<not> st_dirty st' \<and> st_data st' = st_data st
         \<and> (\<exists>content. js_pretty js (st_data st) = Inr content \<and> sy_files sys' p = Some (content, 0x180))
     | Inl _ \<Rightarrow> st' = st \<and> sy_files sys' p = sy_files sys p)
    \<and> (q \<noteq> p \<and> q \<noteq> with_extension_tmp p \<longrightarrow> sy_files sys' q = sy_files sys q)"
  using save_saved [OF assms(1,3,4)] assms(2) by (cases r) auto

text \<open>
  A credential stored with success is there when the file is opened
  again, and the credentials of other devices are unchanged. The hypothesis on the codec is that
  what it prints parses to what was printed.
\<close>

theorem credential_roundtrip:
  assumes "\<And>f t. js_pretty js f = Inr t \<Longrightarrow> js_parse js t = Inr f"
    and "st_backend st = FileBackend p" "with_extension_tmp p \<noteq> p"
    and "store os js cred (st, sys) = Some (Inr (), st', sys')" "os_fault os (ReadFile p) sys' = None"
  shows "\<exists>st''. store_new os js p sys' = Inr st''
    \<and> store_get d st'' = (if d = se_device_id cred then Some cred else store_get d st)"
proof -
  let ?st = "with_credentials (\<lambda>m. m(se_device_id cred \<mapsto> cred)) st"
  obtain content where c: "js_pretty js (st_data ?st) = Inr content" "sy_files sys' p = Some (content, 0x180)"
    using save_saved [of ?st p os js sys "Inr ()" st' sys'] assms(2-4) by (auto simp: store_def)
  then show ?thesis
    using saved_again [OF assms(1) c(2,1) assms(5)] by (simp add: store_new_def store_get_def)
qed

text \<open>
  After any sequence of loads, saves and changes, failed ones included, a
  store without unsaved changes holds what its file says, or nothing when there is no file.
\<close>

theorem store_matches_file:
  assumes "with_extension_tmp p \<noteq> p" "\<And>f t. js_pretty js f = Inr t \<Longrightarrow> js_parse js t = Inr f"
    and "store_new os js p sys0 = Inr st0" "(store_step os js)\<^sup>*\<^sup>* (st0, sys0) (st, sys)" "\<not> st_dirty st"
  shows "case sy_files sys p of
      Some (content, _) \<Rightarrow> js_parse js content = Inr (st_data st)
    | None \<Rightarrow> st_data st = credential_file_new"
proof -
  have start: "synced js p (st0, sys0)"
    using assms(3)
    by (auto simp: store_new_def synced_def read_credentials_def read_to_string_def path_exists_def res_simps map_err_eq_Inr
        split: if_splits option.splits)
  from assms(4) have "synced js p (st, sys)"
    by (induction rule: rtranclp_induct) (auto intro: start store_step_synced [OF _ _ assms(1,2)])
  then show ?thesis using assms(5) by (simp add: synced_def)
qed

text \<open>A run: one credential in \<^verbatim>\<open>/c/creds.json\<close>, a codec that knows that file, and a system where \<open>f\<close>
  is refused.\<close>

definition run_credential :: StoredCredentialEntry where
  "run_credential = credential_new (Some 7) ''dev'' ''aa'' ''bb'' ''cc''"

definition run_file :: CredentialFile where
  "run_file = \<lparr>cf_version = 1, cf_credentials = [''dev'' \<mapsto> run_credential]\<rparr>"

definition run_json :: store_json where
  "run_json = \<lparr>js_pretty = \<lambda>f. if f = run_file then Inr ''X'' else Inl ''other'', js_compact = \<lambda>f. Inl ''other'',
     js_parse = \<lambda>t. if t = ''X'' then Inr run_file else Inl ''syntax''\<rparr>"

definition run_os :: "sys_op set \<Rightarrow> os" where
  "run_os refused = \<lparr>os_fault = \<lambda>f sys. if f \<in> refused then Some ''refused'' else None, os_torn = \<lambda>p c sys. Some [],
     os_file_mode = 0x1a4, os_dir_mode = 0x1ed\<rparr>"

definition run_system :: system where
  "run_system = \<lparr>sy_files = Map.empty, sy_dirs = [''/'' \<mapsto> 0x1ed, ''/c'' \<mapsto> 0x1ed], sy_keychain = Map.empty\<rparr>"

definition run_store :: "string \<Rightarrow> CredentialStore" where
  "run_store p = \<lparr>st_backend = FileBackend p, st_data = credential_file_new, st_dirty = False\<rparr>"

definition dirty_store :: "string \<Rightarrow> CredentialStore" where
  "dirty_store p = \<lparr>st_backend = FileBackend p, st_data = run_file, st_dirty = True\<rparr>"

lemma run_json_codec: "js_pretty run_json f = Inr t \<Longrightarrow> js_parse run_json t = Inr f"
  by (simp add: run_json_def split: if_splits)

lemma run_paths:
  "parent_dir ''/c/creds.json'' = Some ''/c''" "with_extension_tmp ''/c/creds.json'' = ''/c/creds.tmp''"
  "parent_dir ''/c/creds.tmp'' = Some ''/c''" "parent_dir ''creds.json'' = Some []"
  by (simp_all add: parent_dir_def with_extension_tmp_def file_name_def Let_def)

lemma run_store_dirty: "with_credentials (\<lambda>m. m(''dev'' \<mapsto> run_credential)) (run_store p) = dirty_store p"
  by (simp add: with_credentials_def run_store_def dirty_store_def run_file_def credential_file_new_def)

lemma run_device [simp]: "se_device_id run_credential = ''dev''"
  by (simp add: run_credential_def credential_new_def)

lemma run_saves:
  "\<exists>sys. save (run_os {}) run_json (dirty_store ''/c/creds.json'', run_system)
      = Some (Inr (), (dirty_store ''/c/creds.json'')\<lparr>st_dirty := False\<rparr>, sys)"
  by (simp add: save_def dirty_store_def save_file_def save_directory_def run_paths path_exists_def run_system_def run_json_def
      sys_call_def fs_write_def run_os_def put_file_def set_permissions_def fs_rename_def Let_def)

lemma run_refused:
  "save (run_os {Chmod ''/c/creds.tmp''}) run_json (dirty_store ''/c/creds.json'', run_system)
    = Some (Inl (Err (IoError ''Failed to set file permissions: refused'')), dirty_store ''/c/creds.json'',
        run_system\<lparr>sy_files := [''/c/creds.tmp'' \<mapsto> (''X'', 0x1a4)]\<rparr>)"
  by (simp add: save_def dirty_store_def save_file_def save_directory_def run_paths path_exists_def run_system_def run_json_def
      sys_call_def fs_write_def run_os_def put_file_def set_permissions_def io_error_def Let_def)

theorem credential_save_atomic_witness:
  "\<exists>st sys. save (run_os {Chmod ''/c/creds.tmp''}) run_json (dirty_store ''/c/creds.json'', run_system)
      = Some (Inl (Err (IoError ''Failed to set file permissions: refused'')), st, sys)
    \<and> st_dirty st \<and> sy_files sys ''/c/creds.json'' = None"
  using credential_save_atomic [OF _ _ _ run_refused, of "''/c/creds.json''"] run_refused
  by (simp add: run_paths dirty_store_def run_system_def)

theorem credential_roundtrip_witness:
  "\<exists>st sys st''. store (run_os {}) run_json run_credential (run_store ''/c/creds.json'', run_system) = Some (Inr (), st, sys)
     \<and> store_new (run_os {}) run_json ''/c/creds.json'' sys = Inr st'' \<and> store_get ''dev'' st'' = Some run_credential"
proof -
  obtain st sys where s: "store (run_os {}) run_json run_credential (run_store ''/c/creds.json'', run_system) = Some (Inr (), st, sys)"
    using run_saves by (auto simp: store_def run_store_dirty)
  show ?thesis
    using credential_roundtrip [OF run_json_codec _ _ s, of "''/c/creds.json''" "''dev''"] s
    by (auto simp: run_store_def run_paths run_os_def)
qed

theorem store_matches_file_witness:
  "\<exists>st sys. (store_step (run_os {}) run_json)\<^sup>*\<^sup>* (run_store ''/c/creds.json'', run_system) (st, sys) \<and> \<not> st_dirty st
     \<and> (case sy_files sys ''/c/creds.json'' of
          Some (content, _) \<Rightarrow> js_parse run_json content = Inr (st_data st)
        | None \<Rightarrow> st_data st = credential_file_new)"
proof -
  obtain sys where s: "store (run_os {}) run_json run_credential (run_store ''/c/creds.json'', run_system)
      = Some (Inr (), (dirty_store ''/c/creds.json'')\<lparr>st_dirty := False\<rparr>, sys)"
    using run_saves by (auto simp: store_def run_store_dirty)
  have reach: "(store_step (run_os {}) run_json)\<^sup>*\<^sup>* (run_store ''/c/creds.json'', run_system) ((dirty_store ''/c/creds.json'')\<lparr>st_dirty := False\<rparr>, sys)"
    by (intro r_into_rtranclp step_store) (rule s)
  have new: "store_new (run_os {}) run_json ''/c/creds.json'' run_system = Inr (run_store ''/c/creds.json'')"
    by (simp add: store_new_def run_store_def path_exists_def run_system_def)
  show ?thesis
    using store_matches_file [OF _ run_json_codec new reach] reach
    by (intro exI [of _ "(dirty_store ''/c/creds.json'')\<lparr>st_dirty := False\<rparr>"] exI [of _ sys]) (simp add: run_paths)
qed

text \<open>
  A store at a bare file name can never be saved: the parent of the path is the
  empty path, which does not exist, need not be created, and whose permissions cannot be set. And
  the temporary file is written before its permissions are restricted: when that call fails, the
  credentials stay on disk in a file that others can read.
\<close>

theorem store_defects:
  "save (run_os {}) run_json (dirty_store ''creds.json'', run_system)
     = Some (Inl (Err (IoError (''Failed to set directory permissions: '' @ not_found))), dirty_store ''creds.json'', run_system)
   \<and> (\<exists>e st sys. save (run_os {Chmod ''/c/creds.tmp''}) run_json (dirty_store ''/c/creds.json'', run_system) = Some (Inl e, st, sys)
        \<and> sy_files sys ''/c/creds.tmp'' = Some (''X'', 0x1a4))"
proof -
  have "save (run_os {}) run_json (dirty_store ''creds.json'', run_system)
     = Some (Inl (Err (IoError (''Failed to set directory permissions: '' @ not_found))), dirty_store ''creds.json'', run_system)"
    by (simp add: save_def dirty_store_def save_file_def save_directory_def run_paths path_exists_def run_system_def
        sys_call_def create_dir_all_def run_os_def set_permissions_def io_error_def)
  then show ?thesis using run_refused by simp
qed

end
