(* ===== verification/Chunk.thy ===== *)
theory Chunk
  imports Errors
begin

text \<open>
  Splitting messages into fixed-size transport chunks and putting them together again
  (\<^verbatim>\<open>protocol/chunk.rs\<close>). The splitting loop does not end when the chunk size equals the
  header length, and its \<^verbatim>\<open>usize\<close> arithmetic wraps when it is smaller: it is a partial
  function, shown to return whenever a chunk has room for payload.
\<close>

section \<open>Definitions\<close>

partial_function (option) chunk_loop :: "bytes \<Rightarrow> bytes \<Rightarrow> nat \<Rightarrow> nat \<Rightarrow> bytes list \<Rightarrow> bytes list option" where
  "chunk_loop data chunk_header chunk_size offset chunks =
     (if offset < length data
      then
        let remaining = drop offset data;
            payload_size = usize_sub chunk_size (length chunk_header);
            chunk_data = take payload_size remaining;
            chunk = pad_to chunk_size (chunk_header @ chunk_data)
        in chunk_loop data chunk_header chunk_size (usize_add offset payload_size) (chunks @ [chunk])
      else Some chunks)"

definition create_chunks :: "bytes \<Rightarrow> bytes \<Rightarrow> nat \<Rightarrow> bytes list option" where
  "create_chunks data chunk_header chunk_size =
     chunk_loop data chunk_header chunk_size chunk_size [pad_to chunk_size (take chunk_size data)]"

definition reassemble_chunks :: "bytes list \<Rightarrow> nat \<Rightarrow> nat \<Rightarrow> nat \<Rightarrow> bytes result" where
  "reassemble_chunks chunks header_size continuation_header_size total_length =
     (case chunks of
        [] \<Rightarrow> protocol_err (Malformed ''No chunks to reassemble'')
      | first # rest \<Rightarrow>
          let payload = (if header_size < length first then drop header_size first else []);
              payload = payload @ concat (map (\<lambda>chunk.
                if continuation_header_size < length chunk then drop continuation_header_size chunk else []) rest)
          in Inr (take total_length payload))"

definition chunks_needed :: "nat \<Rightarrow> nat \<Rightarrow> nat \<Rightarrow> nat" where
  "chunks_needed message_length chunk_size continuation_header_size =
     (if message_length \<le> chunk_size then 1
      else
        let remaining = message_length - chunk_size;
            continuation_payload_size = chunk_size - continuation_header_size;
            continuation_chunks = (remaining + continuation_payload_size - 1) div continuation_payload_size
        in 1 + continuation_chunks)"

section \<open>The loop in closed form\<close>

text \<open>A list cut into pieces of length \<open>n\<close>, the last one possibly shorter.\<close>

function segments :: "nat \<Rightarrow> bytes \<Rightarrow> bytes list" where
  "segments n xs = (if xs = [] \<or> n = 0 then [] else take n xs # segments n (drop n xs))"
  by pat_completeness auto
termination
  by (relation "measure (\<lambda>(n, xs). length xs)") auto

declare segments.simps [simp del]

lemma segments_Nil [simp]: "segments n [] = []"
  by (simp add: segments.simps)

lemma concat_segments: "0 < n \<Longrightarrow> concat (segments n xs) = xs"
proof (induction n xs rule: segments.induct)
  case (1 n xs)
  then show ?case by (subst segments.simps) auto
qed

lemma segments_bound: "seg \<in> set (segments n xs) \<Longrightarrow> 0 < length seg \<and> length seg \<le> n"
proof (induction n xs rule: segments.induct)
  case (1 n xs)
  then show ?case by (subst (asm) (2) segments.simps) (auto split: if_splits)
qed

lemma length_segments: "0 < n \<Longrightarrow> length (segments n xs) = (length xs + n - 1) div n"
proof (induction n xs rule: segments.induct)
  case (1 n xs)
  show ?case
  proof (cases "xs = []")
    case False
    have "(length xs + n - 1) div n = (length xs - 1 + n) div n" using False by (cases xs) auto
    also have "\<dots> = Suc ((length xs - 1) div n)" using 1(2) by (simp only: div_add_self2)
    finally have *: "(length xs + n - 1) div n = Suc ((length xs - 1) div n)" .
    have "(length (drop n xs) + n - 1) div n = (length xs - 1) div n"
    proof (cases "n < length xs")
      case True
      then have "length (drop n xs) + n - 1 = length xs - 1" by simp
      then show ?thesis by simp
    next
      case False
      then show ?thesis using 1 \<open>xs \<noteq> []\<close> by simp
    qed
    with 1 False * show ?thesis by (subst segments.simps) simp
  qed (use 1 in simp)
qed

text \<open>All pieces but the last are full, so padding shows only at the end.\<close>

lemma concat_padded_segments:
  assumes "0 < n"
  shows "\<exists>k. concat (map (pad_to n) (segments n xs)) = xs @ replicate k 0"
  using assms
proof (induction n xs rule: segments.induct)
  case (1 n xs)
  show ?case
  proof (cases "n < length xs")
    case True
    then have "xs \<noteq> []" by auto
    with 1 obtain k where "concat (map (pad_to n) (segments n (drop n xs))) = drop n xs @ replicate k 0"
      by auto
    moreover have "pad_to n (take n xs) = take n xs" using True by (simp add: pad_to_def)
    ultimately show ?thesis using \<open>xs \<noteq> []\<close> 1
      by (subst segments.simps) (auto simp: append_assoc [symmetric] simp del: append_assoc)
  next
    case False
    then show ?thesis using 1 by (subst segments.simps) (auto simp: pad_to_def)
  qed
qed

definition continuation :: "nat \<Rightarrow> bytes \<Rightarrow> bytes \<Rightarrow> bytes" where
  "continuation chunk_size chunk_header seg = pad_to chunk_size (chunk_header @ seg)"

lemma chunk_loop_closed:
  assumes "length chunk_header < chunk_size" "chunk_size < 2 ^ 63" "length data < 2 ^ 63"
    and "offset < 2 ^ 63"
  shows "chunk_loop data chunk_header chunk_size offset chunks
    = Some (chunks @ map (continuation chunk_size chunk_header)
        (segments (chunk_size - length chunk_header) (drop offset data)))"
  using assms(4)
proof (induction "length data - offset" arbitrary: offset chunks rule: less_induct)
  case less
  let ?n = "chunk_size - length chunk_header"
  have n: "usize_sub chunk_size (length chunk_header) = ?n" "0 < ?n"
    using assms(1,2) by (simp_all add: usize_sub_exact)
  show ?case
  proof (cases "offset < length data")
    case True
    have add: "usize_add offset ?n = offset + ?n"
      using less.prems assms(2) by (intro usize_add_exact) auto
    have seg: "segments ?n (drop offset data)
        = take ?n (drop offset data) # segments ?n (drop (offset + ?n) data)"
      using True n by (subst segments.simps) (auto simp: add.commute)
    show ?thesis
    proof (cases "offset + ?n < length data")
      case more: True
      have IH: "chunk_loop data chunk_header chunk_size (offset + ?n)
          (chunks @ [continuation chunk_size chunk_header (take ?n (drop offset data))])
        = Some ((chunks @ [continuation chunk_size chunk_header (take ?n (drop offset data))])
            @ map (continuation chunk_size chunk_header) (segments ?n (drop (offset + ?n) data)))"
        using n more assms(3) True by (intro less.hyps) auto
      then show ?thesis
        using True n add seg
        by (subst chunk_loop.simps) (simp add: continuation_def)
    next
      case False
      then have "chunk_loop data chunk_header chunk_size (offset + ?n) cs = Some cs" for cs
        by (subst chunk_loop.simps) simp
      with False True n add seg show ?thesis
        by (subst chunk_loop.simps) (simp add: continuation_def)
    qed
  next
    case False
    then show ?thesis by (subst chunk_loop.simps) simp
  qed
qed

lemma create_chunks_closed:
  assumes "length chunk_header < chunk_size" "chunk_size < 2 ^ 63" "length data < 2 ^ 63"
  shows "create_chunks data chunk_header chunk_size
    = Some (pad_to chunk_size (take chunk_size data) # map (continuation chunk_size chunk_header)
        (segments (chunk_size - length chunk_header) (drop chunk_size data)))"
  unfolding create_chunks_def using chunk_loop_closed [OF assms assms(2)] by simp

lemma continuation_payload:
  assumes "length chunk_header < chunk_size" "length seg \<le> chunk_size - length chunk_header"
  shows "length (continuation chunk_size chunk_header seg) = chunk_size"
    and "drop (length chunk_header) (continuation chunk_size chunk_header seg)
      = pad_to (chunk_size - length chunk_header) seg"
  using assms by (simp_all add: continuation_def pad_to_def)

lemma reassemble_created:
  assumes "length chunk_header < chunk_size" "chunk_size < 2 ^ 63" "length data < 2 ^ 63"
    and "header_size < chunk_size" "header_size \<le> length data"
    and chunks: "create_chunks data chunk_header chunk_size = Some chunks"
  shows "reassemble_chunks chunks header_size (length chunk_header) (length data - header_size)
    = Inr (drop header_size data)"
proof -
  let ?n = "chunk_size - length chunk_header" and ?hl = "length chunk_header"
  let ?segs = "segments ?n (drop chunk_size data)"
  have chunks: "chunks = pad_to chunk_size (take chunk_size data)
      # map (continuation chunk_size chunk_header) ?segs"
    using create_chunks_closed [OF assms(1-3)] chunks by simp
  have segs: "map (\<lambda>c. if ?hl < length c then drop ?hl c else []) (map (continuation chunk_size chunk_header) ?segs)
      = map (pad_to ?n) ?segs"
    using assms(1) continuation_payload segments_bound [of _ ?n "drop chunk_size data"] by auto
  obtain k where k: "concat (map (pad_to ?n) ?segs) = drop chunk_size data @ replicate k 0"
    using concat_padded_segments [of ?n "drop chunk_size data"] assms(1) by auto
  have first: "header_size < length (pad_to chunk_size (take chunk_size data))" using assms(4) by simp
  have "reassemble_chunks chunks header_size ?hl (length data - header_size)
      = Inr (take (length data - header_size)
          (drop header_size (pad_to chunk_size (take chunk_size data)) @ drop chunk_size data @ replicate k 0))"
    using first by (simp only: reassemble_chunks_def chunks list.case Let_def segs k if_True)
  also have "drop header_size (pad_to chunk_size (take chunk_size data)) @ drop chunk_size data @ replicate k 0
      = drop header_size data @ replicate (chunk_size - length data + k) 0"
  proof (cases "chunk_size \<le> length data")
    case True
    then have "pad_to chunk_size (take chunk_size data) = take chunk_size data"
      by (simp add: pad_to_def)
    moreover have "drop header_size (take chunk_size data) @ drop chunk_size data = drop header_size data"
      using assms(4) True by (metis append_take_drop_id drop_append diff_is_0_eq drop_0 length_take
          less_imp_le_nat min.absorb2)
    ultimately show ?thesis using True by (metis append.assoc diff_is_0_eq add_0)
  next
    case False
    then show ?thesis using assms(5) by (simp add: pad_to_def replicate_add [symmetric])
  qed
  finally show ?thesis by simp
qed

lemma create_chunks_spec:
  assumes "length chunk_header < chunk_size" and "chunk_size < 2 ^ 63" and "length data < 2 ^ 63"
  shows "\<exists>chunks. create_chunks data chunk_header chunk_size = Some chunks \<and> chunks \<noteq> []
    \<and> hd chunks = pad_to chunk_size (take chunk_size data)
    \<and> length chunks = chunks_needed (length data) chunk_size (length chunk_header)
    \<and> (\<forall>c \<in> set chunks. length c = chunk_size)
    \<and> (\<forall>c \<in> set (tl chunks). take (length chunk_header) c = chunk_header)"
proof -
  let ?n = "chunk_size - length chunk_header"
  let ?segs = "segments ?n (drop chunk_size data)"
  have "length ?segs = (length data - chunk_size + ?n - 1) div ?n"
    using length_segments [of ?n "drop chunk_size data"] assms(1) by simp
  moreover have "length ?segs = 0" if "length data \<le> chunk_size" using that by simp
  ultimately have "Suc (length ?segs) = chunks_needed (length data) chunk_size (length chunk_header)"
    unfolding chunks_needed_def Let_def by (cases "length data \<le> chunk_size") (simp_all only: if_True if_False plus_1_eq_Suc)
  moreover have "length (continuation chunk_size chunk_header seg) = chunk_size" if "seg \<in> set ?segs" for seg
    using continuation_payload(1) [OF assms(1)] segments_bound [OF that] by simp
  moreover have "take (length chunk_header) (continuation chunk_size chunk_header seg) = chunk_header" for seg
    by (simp add: continuation_def pad_to_def)
  ultimately show ?thesis using create_chunks_closed [OF assms] by auto
qed

section \<open>Properties\<close>

text \<open>
  Splitting ends whenever the continuation header leaves room for payload; every
  chunk then has exactly the chunk size, every chunk after the first starts with the header,
  and the number of chunks is the one \<^verbatim>\<open>chunks_needed\<close> predicts.
\<close>

theorem create_chunks_shape:
  assumes "length chunk_header < chunk_size" and "chunk_size < 2 ^ 63" and "length data < 2 ^ 63"
  shows "\<exists>chunks. create_chunks data chunk_header chunk_size = Some chunks
    \<and> length chunks = chunks_needed (length data) chunk_size (length chunk_header)
    \<and> (\<forall>c \<in> set chunks. length c = chunk_size)
    \<and> (\<forall>c \<in> set (tl chunks). take (length chunk_header) c = chunk_header)"
  using create_chunks_spec [OF assms] by blast

theorem create_chunks_shape_witness:
  "\<exists>chunks. create_chunks (replicate 130 7) [63] 64 = Some chunks \<and> length chunks = 3"
  using create_chunks_shape [of "[63]" 64 "replicate 130 7"] by (auto simp: chunks_needed_def)

text \<open>
  Putting the chunks of a message together again, skipping the message header in the
  first chunk and the continuation header in the others, gives the message without its header;
  the padding is cut off.
\<close>

theorem chunk_roundtrip:
  assumes "length chunk_header < chunk_size" and "chunk_size < 2 ^ 63" and "length data < 2 ^ 63"
    and "header_size < chunk_size" and "header_size \<le> length data"
    and "create_chunks data chunk_header chunk_size = Some chunks"
  shows "reassemble_chunks chunks header_size (length chunk_header) (length data - header_size)
    = Inr (drop header_size data)"
  by (rule reassemble_created [OF assms])

theorem chunk_roundtrip_witness:
  "reassemble_chunks (the (create_chunks [1, 2, 3, 4, 5, 6] [63] 4)) 2 1 4 = Inr [3, 4, 5, 6]"
proof -
  have "create_chunks [1, 2, 3, 4, 5, 6] [63] 4 = Some [[1, 2, 3, 4], [63, 5, 6, 0]]"
    using create_chunks_closed [of "[63]" 4 "[1, 2, 3, 4, 5, 6]"]
    by (simp add: segments.simps continuation_def pad_to_def)
  moreover have "reassemble_chunks [[1, 2, 3, 4], [63, 5, 6, 0]] 2 (length [63 :: u8])
      (length [1, 2, 3, 4, 5, 6 :: u8] - 2) = Inr (drop 2 [1, 2, 3, 4, 5, 6])"
    using calculation by (intro chunk_roundtrip [of "[63]" 4 "[1, 2, 3, 4, 5, 6]" 2]) simp_all
  moreover have "length [1, 2, 3, 4, 5, 6 :: u8] - 2 = 4" by simp
  ultimately show ?thesis by (metis One_nat_def drop_Suc_Cons drop_0 length_Cons list.size(3) numeral_2_eq_2 option.sel)
qed

end
