(* ===== verification/Protocol_V1.thy ===== *)
theory Protocol_V1
  imports Chunk
begin

text \<open>
  The unencrypted wire protocol (\<^verbatim>\<open>protocol/mod.rs\<close>, \<^verbatim>\<open>protocol/v1\<close>). The Rust trait
  \<^verbatim>\<open>Protocol\<close> is the locale \<open>protocol\<close>: its laws say what sender and receiver rely on,
  and the transfer of a message through chunks is proved once from them. The locale is
  interpreted on protocol v1 at the USB and the Bluetooth chunk size.
\<close>

section \<open>Definitions\<close>

definition USB_CHUNK_SIZE :: nat where "USB_CHUNK_SIZE = 64"
definition BLE_CHUNK_SIZE :: nat where "BLE_CHUNK_SIZE = 244"
definition PROTOCOL_V1_MAGIC :: u8 where "PROTOCOL_V1_MAGIC = 0x3F"
definition PROTOCOL_V1_HEADER_BYTE :: u8 where "PROTOCOL_V1_HEADER_BYTE = 0x23"
definition PROTOCOL_V1_HEADER_SIZE :: nat where "PROTOCOL_V1_HEADER_SIZE = 9"

record DecodedMessage =
  dm_message_type :: u16
  dm_length :: u32
  dm_payload :: bytes

datatype ProtocolVersion = V1 | V2

fun version_chunk_size :: "ProtocolVersion \<Rightarrow> bool \<Rightarrow> nat" where
  "version_chunk_size V1 is_bluetooth = (if is_bluetooth then BLE_CHUNK_SIZE else USB_CHUNK_SIZE)"
| "version_chunk_size V2 is_bluetooth = BLE_CHUNK_SIZE"

record ProtocolV1 =
  v1_chunk_size :: nat

definition protocol_usb :: ProtocolV1 where
  "protocol_usb = \<lparr>v1_chunk_size = USB_CHUNK_SIZE\<rparr>"

definition protocol_bluetooth :: ProtocolV1 where
  "protocol_bluetooth = \<lparr>v1_chunk_size = BLE_CHUNK_SIZE\<rparr>"

definition with_chunk_size :: "nat \<Rightarrow> ProtocolV1" where
  "with_chunk_size chunk_size = \<lparr>v1_chunk_size = chunk_size\<rparr>"

subsection \<open>Encoding\<close>

definition encode_message :: "u16 \<Rightarrow> bytes \<Rightarrow> bytes" where
  "encode_message message_type data =
     (let data_length = of_nat (length data) :: u32 in
      [PROTOCOL_V1_MAGIC, PROTOCOL_V1_HEADER_BYTE, PROTOCOL_V1_HEADER_BYTE]
      @ be16 message_type @ be32 data_length @ data)"

definition encode_header :: "u16 \<Rightarrow> u32 \<Rightarrow> bytes" where
  "encode_header message_type data_length =
     [PROTOCOL_V1_MAGIC, PROTOCOL_V1_HEADER_BYTE, PROTOCOL_V1_HEADER_BYTE,
      ucast (drop_bit 8 message_type), ucast message_type,
      ucast (drop_bit 24 data_length), ucast (drop_bit 16 data_length),
      ucast (drop_bit 8 data_length), ucast data_length]"

definition continuation_header :: bytes where
  "continuation_header = [PROTOCOL_V1_MAGIC]"

subsection \<open>Decoding\<close>

definition decode_message :: "bytes \<Rightarrow> DecodedMessage result" where
  "decode_message buffer =
     (if length buffer < PROTOCOL_V1_HEADER_SIZE
      then protocol_err (MessageTooShort PROTOCOL_V1_HEADER_SIZE (length buffer))
      else if buffer ! 0 \<noteq> PROTOCOL_V1_MAGIC then protocol_err InvalidHeader
      else if buffer ! 1 \<noteq> PROTOCOL_V1_HEADER_BYTE \<or> buffer ! 2 \<noteq> PROTOCOL_V1_HEADER_BYTE
      then protocol_err InvalidHeader
      else Inr \<lparr>dm_message_type = from_be16 (buffer ! 3) (buffer ! 4),
                dm_length = from_be32 (buffer ! 5) (buffer ! 6) (buffer ! 7) (buffer ! 8),
                dm_payload = drop PROTOCOL_V1_HEADER_SIZE buffer\<rparr>)"

definition parse_header :: "bytes \<Rightarrow> (u16 \<times> u32) result" where
  "parse_header buffer =
     (if length buffer < PROTOCOL_V1_HEADER_SIZE
      then protocol_err (MessageTooShort PROTOCOL_V1_HEADER_SIZE (length buffer))
      else if buffer ! 0 \<noteq> PROTOCOL_V1_MAGIC \<or> buffer ! 1 \<noteq> PROTOCOL_V1_HEADER_BYTE
        \<or> buffer ! 2 \<noteq> PROTOCOL_V1_HEADER_BYTE
      then protocol_err InvalidHeader
      else Inr (from_be16 (buffer ! 3) (buffer ! 4),
                from_be32 (buffer ! 5) (buffer ! 6) (buffer ! 7) (buffer ! 8)))"

definition decode_continuation :: "bytes \<Rightarrow> bytes result" where
  "decode_continuation buffer =
     (if buffer = [] then protocol_err (MessageTooShort 1 0)
      else if buffer ! 0 \<noteq> PROTOCOL_V1_MAGIC then protocol_err ChunkHeaderMismatch
      else Inr (drop 1 buffer))"

definition is_valid_header :: "bytes \<Rightarrow> bool" where
  "is_valid_header buffer \<longleftrightarrow>
     PROTOCOL_V1_HEADER_SIZE \<le> length buffer \<and> buffer ! 0 = PROTOCOL_V1_MAGIC
     \<and> buffer ! 1 = PROTOCOL_V1_HEADER_BYTE \<and> buffer ! 2 = PROTOCOL_V1_HEADER_BYTE"

definition is_valid_continuation :: "bytes \<Rightarrow> bool" where
  "is_valid_continuation buffer \<longleftrightarrow> buffer \<noteq> [] \<and> buffer ! 0 = PROTOCOL_V1_MAGIC"

subsection \<open>The trait's methods\<close>

definition v1_encode :: "ProtocolV1 \<Rightarrow> u16 \<Rightarrow> bytes \<Rightarrow> bytes result" where
  "v1_encode self message_type data = Inr (encode_message message_type data)"

definition v1_decode :: "ProtocolV1 \<Rightarrow> bytes \<Rightarrow> DecodedMessage result" where
  "v1_decode self buffer = decode_message buffer"

definition get_headers :: "ProtocolV1 \<Rightarrow> bytes \<Rightarrow> bytes \<times> bytes" where
  "get_headers self data =
     (let message_header = (if PROTOCOL_V1_HEADER_SIZE \<le> length data
                            then take PROTOCOL_V1_HEADER_SIZE data else data)
      in (message_header, [PROTOCOL_V1_MAGIC]))"

definition is_continuation :: "ProtocolV1 \<Rightarrow> bytes \<Rightarrow> bool" where
  "is_continuation self buffer =
     (if buffer = [] then False
      else buffer ! 0 = PROTOCOL_V1_MAGIC
        \<and> (length buffer < 3 \<or> buffer ! 1 \<noteq> PROTOCOL_V1_HEADER_BYTE
           \<or> buffer ! 2 \<noteq> PROTOCOL_V1_HEADER_BYTE))"

section \<open>The protocol interface\<close>

text \<open>
  What sender and receiver rely on: an encoded message is a header followed by the data; the
  first chunk of it, padded, decodes to the type and the length; a continuation header leaves
  room for payload.
\<close>

locale protocol =
  fixes chunk_size :: nat
    and header_size :: nat
    and enc :: "u16 \<Rightarrow> bytes \<Rightarrow> bytes result"
    and dec :: "bytes \<Rightarrow> DecodedMessage result"
    and headers :: "bytes \<Rightarrow> bytes \<times> bytes"
  assumes sizes: "header_size < chunk_size" "chunk_size < 2 ^ 32"
    and continuation_room: "length (snd (headers b)) < chunk_size"
    and enc_layout: "enc t d = Inr b \<Longrightarrow> drop header_size b = d \<and> length b = header_size + length d"
    and dec_first: "enc t d = Inr b \<Longrightarrow> length d < 2 ^ 32 \<Longrightarrow>
      \<exists>m. dec (pad_to chunk_size (take chunk_size b)) = Inr m
        \<and> dm_message_type m = t \<and> dm_length m = of_nat (length d)"
begin

lemma transfer:
  assumes "enc t d = Inr b" "length d < 2 ^ 32"
  obtains chunks m where
    "create_chunks b (snd (headers b)) chunk_size = Some chunks" "chunks \<noteq> []"
    "length chunks = chunks_needed (header_size + length d) chunk_size (length (snd (headers b)))"
    "dec (hd chunks) = Inr m" "dm_message_type m = t" "unat (dm_length m) = length d"
    "reassemble_chunks chunks header_size (length (snd (headers b))) (unat (dm_length m)) = Inr d"
proof -
  let ?ch = "snd (headers b)"
  have cs: "chunk_size < 2 ^ 63" using sizes(2) by simp
  have len: "length b = header_size + length d" "drop header_size b = d"
    using enc_layout [OF assms(1)] by auto
  then have b: "length b < 2 ^ 63" using assms(2) sizes by simp
  from create_chunks_spec [OF continuation_room cs b] obtain chunks where
    chunks: "create_chunks b ?ch chunk_size = Some chunks" "chunks \<noteq> []"
      "hd chunks = pad_to chunk_size (take chunk_size b)"
      "length chunks = chunks_needed (length b) chunk_size (length ?ch)"
    by blast
  from dec_first [OF assms] obtain m where
    m: "dec (hd chunks) = Inr m" "dm_message_type m = t" "dm_length m = of_nat (length d)"
    using chunks(3) by auto
  then have ml: "unat (dm_length m) = length d" using assms(2) by simp
  have "reassemble_chunks chunks header_size (length ?ch) (length b - header_size) = Inr (drop header_size b)"
    using continuation_room cs b sizes(1) _ chunks(1) by (rule reassemble_created) (simp add: len)
  then show thesis using that chunks m ml len by simp
qed

end

section \<open>Encoding and decoding\<close>

lemma length_encode_header [simp]: "length (encode_header t l) = 9"
  by (simp add: encode_header_def)

lemma encode_message_header: "encode_message t d = encode_header t (of_nat (length d)) @ d"
  by (simp add: encode_message_def encode_header_def be16_def be32_def Let_def)

lemma decode_header_append:
  "decode_message (encode_header t l @ rest) = Inr \<lparr>dm_message_type = t, dm_length = l, dm_payload = rest\<rparr>"
  by (simp add: decode_message_def encode_header_def PROTOCOL_V1_HEADER_SIZE_def be_simps)

lemma decode_prefix:
  assumes "9 \<le> n"
  shows "\<exists>m. decode_message (pad_to n (take n (encode_message t d))) = Inr m
    \<and> dm_message_type m = t \<and> dm_length m = of_nat (length d)"
  using assms decode_header_append by (simp add: encode_message_header pad_to_def)

text \<open>Any chunk size with room for the header serves, as \<^verbatim>\<open>with_chunk_size\<close> allows.\<close>

lemma v1_protocol:
  assumes "9 < n" "n < 2 ^ 32"
  shows "protocol n PROTOCOL_V1_HEADER_SIZE (v1_encode self) (v1_decode self) (get_headers self)"
proof
  show "PROTOCOL_V1_HEADER_SIZE < n" "n < 2 ^ 32" using assms by (simp_all add: PROTOCOL_V1_HEADER_SIZE_def)
  show "length (snd (get_headers self b)) < n" for b using assms by (simp add: get_headers_def Let_def)
  show "drop PROTOCOL_V1_HEADER_SIZE b = d \<and> length b = PROTOCOL_V1_HEADER_SIZE + length d"
    if "v1_encode self t d = Inr b" for t d b
    using that by (auto simp: v1_encode_def PROTOCOL_V1_HEADER_SIZE_def encode_message_header)
  show "\<exists>m. v1_decode self (pad_to n (take n b)) = Inr m \<and> dm_message_type m = t
      \<and> dm_length m = of_nat (length d)" if "v1_encode self t d = Inr b" for t d b
    using that decode_prefix [of n t d] assms by (auto simp: v1_encode_def v1_decode_def)
qed

interpretation v1_usb: protocol "v1_chunk_size protocol_usb" PROTOCOL_V1_HEADER_SIZE
  "v1_encode protocol_usb" "v1_decode protocol_usb" "get_headers protocol_usb"
  by (rule v1_protocol) (simp_all add: protocol_usb_def USB_CHUNK_SIZE_def)

interpretation v1_bluetooth: protocol "v1_chunk_size protocol_bluetooth" PROTOCOL_V1_HEADER_SIZE
  "v1_encode protocol_bluetooth" "v1_decode protocol_bluetooth" "get_headers protocol_bluetooth"
  by (rule v1_protocol) (simp_all add: protocol_bluetooth_def BLE_CHUNK_SIZE_def)

section \<open>Properties\<close>

text \<open>
  Decoding an encoded message gives the type, the length and the data back, and the
  header alone decodes to the same type and length.
\<close>

theorem v1_roundtrip:
  "decode_message (encode_message t d) = Inr \<lparr>dm_message_type = t, dm_length = of_nat (length d), dm_payload = d\<rparr>
   \<and> parse_header (encode_message t d) = Inr (t, of_nat (length d))
   \<and> take 9 (encode_message t d) = encode_header t (of_nat (length d))"
proof -
  have "parse_header (encode_header t l @ rest) = Inr (t, l)" for l rest
    by (simp add: parse_header_def encode_header_def PROTOCOL_V1_HEADER_SIZE_def be_simps)
  then show ?thesis by (simp add: encode_message_header decode_header_append)
qed

text \<open>
  A message below 4 GiB sent over USB as 64-byte chunks arrives: the first chunk
  decodes to its type and length, and putting the chunks together gives the data.
\<close>

theorem v1_usb_transfer:
  assumes "length d < 2 ^ 32"
  shows "\<exists>chunks m. create_chunks (encode_message t d) (snd (get_headers protocol_usb (encode_message t d)))
        (v1_chunk_size protocol_usb) = Some chunks
    \<and> decode_message (hd chunks) = Inr m \<and> dm_message_type m = t \<and> unat (dm_length m) = length d
    \<and> reassemble_chunks chunks 9 1 (unat (dm_length m)) = Inr d"
proof -
  have enc: "v1_encode protocol_usb t d = Inr (encode_message t d)" by (simp add: v1_encode_def)
  obtain chunks m where
    "create_chunks (encode_message t d) (snd (get_headers protocol_usb (encode_message t d)))
      (v1_chunk_size protocol_usb) = Some chunks"
    "v1_decode protocol_usb (hd chunks) = Inr m" "dm_message_type m = t" "unat (dm_length m) = length d"
    "reassemble_chunks chunks PROTOCOL_V1_HEADER_SIZE
      (length (snd (get_headers protocol_usb (encode_message t d)))) (unat (dm_length m)) = Inr d"
    by (rule v1_usb.transfer [OF enc assms])
  then show ?thesis
    by (auto simp: v1_decode_def PROTOCOL_V1_HEADER_SIZE_def get_headers_def)
qed

theorem v1_usb_transfer_witness:
  "\<exists>chunks m. create_chunks (encode_message 17 (replicate 200 5))
        (snd (get_headers protocol_usb (encode_message 17 (replicate 200 5)))) (v1_chunk_size protocol_usb) = Some chunks
    \<and> decode_message (hd chunks) = Inr m \<and> dm_message_type m = 17"
  using v1_usb_transfer [of "replicate 200 5" 17] by auto

text \<open>
  A chunk that starts a message is never taken for a continuation; a continuation
  chunk is recognised unless its payload starts with the two header bytes, in which case it looks
  like the start of a message.
\<close>

theorem continuation_ambiguous:
  "\<not> is_continuation self (encode_message t d)
   \<and> (is_continuation self (PROTOCOL_V1_MAGIC # payload) \<longleftrightarrow>
        \<not> (\<exists>rest. payload = PROTOCOL_V1_HEADER_BYTE # PROTOCOL_V1_HEADER_BYTE # rest))"
proof
  show "\<not> is_continuation self (encode_message t d)"
    by (simp add: is_continuation_def encode_message_header encode_header_def)
  show "is_continuation self (PROTOCOL_V1_MAGIC # payload) \<longleftrightarrow>
        \<not> (\<exists>rest. payload = PROTOCOL_V1_HEADER_BYTE # PROTOCOL_V1_HEADER_BYTE # rest)"
  proof (cases payload)
    case (Cons a ps)
    then show ?thesis by (cases ps) (auto simp: is_continuation_def)
  qed (simp add: is_continuation_def)
qed

end
