(* ===== verification/Transport_V1.thy ===== *)
theory Transport_V1
  imports Protocol_V1
begin

text \<open>
  Reading a protocol v1 reply, in the fallback branch of \<^verbatim>\<open>call\<close> in
  \<^verbatim>\<open>transport/callback.rs\<close>, with the native transport as an argument: \<open>read\<close> gives the result
  of the \<open>n\<close>-th read. \<open>V1_Calls\<close> shows that the reader of the transport, which threads the
  state of the link, returns the same.
\<close>

section \<open>Definitions\<close>

record read_result =
  rr_success :: bool
  rr_data :: bytes
  rr_error :: string

record write_result =
  wr_success :: bool
  wr_error :: string

abbreviation transport_err :: "TransportError \<Rightarrow> 'a result" where
  "transport_err e \<equiv> Inl (Err (Transport e))"

definition starts_message :: "bytes \<Rightarrow> bool" where
  "starts_message chunk \<longleftrightarrow> 3 \<le> length chunk \<and> chunk ! 0 = 0x3F \<and> chunk ! 1 = 0x23 \<and> chunk ! 2 = 0x23"

text \<open>At most \<open>attempts\<close> reads, failed, empty and foreign chunks skipped.\<close>

fun find_first_chunk :: "(nat \<Rightarrow> read_result) \<Rightarrow> nat \<Rightarrow> nat \<Rightarrow> bytes option \<times> nat" where
  "find_first_chunk read n 0 = (None, n)"
| "find_first_chunk read n (Suc attempts) =
     (let r = read n in
      if \<not> rr_success r \<or> rr_data r = [] then find_first_chunk read (n + 1) attempts
      else if starts_message (rr_data r) then (Some (rr_data r), n + 1)
      else find_first_chunk read (n + 1) attempts)"

fun read_chunks :: "(nat \<Rightarrow> read_result) \<Rightarrow> nat \<Rightarrow> nat \<Rightarrow> bytes list result" where
  "read_chunks read n 0 = Inr []"
| "read_chunks read n (Suc k) =
     (let r = read n in
      if \<not> rr_success r then transport_err (DataTransfer (rr_error r))
      else bind_res (read_chunks read (n + 1) k) (\<lambda>cs. Inr (rr_data r # cs)))"

definition read_response :: "(nat \<Rightarrow> read_result) \<Rightarrow> nat \<Rightarrow> (u16 \<times> bytes) result" where
  "read_response read chunk_size =
     (case find_first_chunk read 0 20 of
        (None, n) \<Rightarrow> transport_err (DataTransfer ''No Protocol v1 header found'')
      | (Some first_chunk, n) \<Rightarrow>
          bind_res (v1_decode (with_chunk_size chunk_size) first_chunk) (\<lambda>decoded.
            let header_size = PROTOCOL_V1_HEADER_SIZE;
                first_payload_size = usize_sub chunk_size header_size;
                len = unat (dm_length decoded);
                remaining = (if first_payload_size < len then len - first_payload_size else 0);
                num_chunks =
                  (if 0 < remaining
                   then let continuation_payload = usize_sub chunk_size 1
                        in (remaining + continuation_payload - 1) div continuation_payload
                   else 0)
            in bind_res (read_chunks read n num_chunks) (\<lambda>rest.
                 bind_res (reassemble_chunks (first_chunk # rest) header_size 1 len) (\<lambda>payload.
                   Inr (dm_message_type decoded, payload)))))"

section \<open>Reading a reply\<close>

text \<open>The device's side of an exchange: \<open>j\<close> reads that are skipped, then the chunks of the reply.\<close>

definition replies :: "(nat \<Rightarrow> read_result) \<Rightarrow> nat \<Rightarrow> bytes list \<Rightarrow> bool" where
  "replies read j chunks \<longleftrightarrow>
     (\<forall>i < j. \<not> rr_success (read i) \<or> rr_data (read i) = [] \<or> \<not> starts_message (rr_data (read i)))
     \<and> (\<forall>i < length chunks. rr_success (read (j + i)) \<and> rr_data (read (j + i)) = chunks ! i)"

lemma find_first_chunk_skips:
  assumes "\<forall>i. n \<le> i \<and> i < n + j \<longrightarrow>
      \<not> rr_success (read i) \<or> rr_data (read i) = [] \<or> \<not> starts_message (rr_data (read i))"
    and "j < attempts" and "rr_success (read (n + j))" and "starts_message (rr_data (read (n + j)))"
  shows "find_first_chunk read n attempts = (Some (rr_data (read (n + j))), n + j + 1)"
  using assms
proof (induction j arbitrary: n attempts)
  case 0
  then obtain a where "attempts = Suc a" by (cases attempts) auto
  moreover have "rr_data (read n) \<noteq> []" using 0 by (auto simp: starts_message_def)
  ultimately show ?case using 0 by (simp add: Let_def)
next
  case (Suc j)
  then obtain a where a: "attempts = Suc a" by (cases attempts) auto
  have "find_first_chunk read (n + 1) a = (Some (rr_data (read (n + 1 + j))), n + 1 + j + 1)"
    using Suc.prems a by (intro Suc.IH) auto
  moreover have "\<not> rr_success (read n) \<or> rr_data (read n) = [] \<or> \<not> starts_message (rr_data (read n))"
    using Suc.prems(1) by simp
  ultimately show ?case using a by (auto simp: Let_def)
qed

lemma read_chunks_all:
  "\<forall>i < k. rr_success (read (n + i)) \<and> rr_data (read (n + i)) = cs ! i \<Longrightarrow> length cs = k \<Longrightarrow>
     read_chunks read n k = Inr cs"
proof (induction k arbitrary: n cs)
  case (Suc k)
  then obtain c cs' where cs: "cs = c # cs'" by (cases cs) auto
  have "read_chunks read (n + 1) k = Inr cs'"
  proof (rule Suc.IH)
    show "\<forall>i < k. rr_success (read (n + 1 + i)) \<and> rr_data (read (n + 1 + i)) = cs' ! i"
      using Suc.prems(1) cs by (metis Suc_less_eq add.assoc nth_Cons_Suc plus_1_eq_Suc)
  qed (use Suc.prems cs in simp)
  moreover have "rr_success (read n)" "rr_data (read n) = c" using Suc.prems(1) cs by force+
  ultimately show ?case using cs by (simp add: Let_def)
qed simp

lemma starts_message_first:
  assumes "9 < n"
  shows "starts_message (pad_to n (take n (encode_message t d)))"
proof -
  have "take n (encode_message t d) = encode_header t (of_nat (length d)) @ take (n - 9) d"
    using assms by (simp add: encode_message_header)
  then show ?thesis
    by (simp add: starts_message_def pad_to_def encode_header_def PROTOCOL_V1_MAGIC_def
        PROTOCOL_V1_HEADER_BYTE_def)
qed

definition continuation_count :: "nat \<Rightarrow> nat \<Rightarrow> nat" where
  "continuation_count n len =
     (if 0 < (if usize_sub n 9 < len then len - usize_sub n 9 else 0)
      then ((if usize_sub n 9 < len then len - usize_sub n 9 else 0) + usize_sub n 1 - 1) div usize_sub n 1 else 0)"

lemma reply_parts:
  assumes n: "9 < n" "n < 2 ^ 32" and d: "length d < 2 ^ 32"
    and chunks: "create_chunks (encode_message t d) continuation_header n = Some chunks"
    and rep: "replies read j chunks" "j < 20"
  obtains c cs m where "chunks = c # cs" "find_first_chunk read 0 20 = (Some c, j + 1)" "decode_message c = Inr m"
    "dm_message_type m = t" "unat (dm_length m) = length d" "continuation_count n (length d) = length cs"
    "read_chunks read (j + 1) (length cs) = Inr cs" "reassemble_chunks (c # cs) 9 1 (length d) = Inr d"
proof -
  have n63: "n < 2 ^ 63" and b63: "length (encode_message t d) < 2 ^ 63"
    using n d by (simp_all add: encode_message_header)
  have ch: "length continuation_header < n" "length continuation_header = 1"
    using n by (simp_all add: continuation_header_def)
  have spec: "chunks \<noteq> []" "hd chunks = pad_to n (take n (encode_message t d))"
    "length chunks = chunks_needed (9 + length d) n 1"
    using create_chunks_spec [OF ch(1) n63 b63] chunks ch(2) by (auto simp: encode_message_header)
  obtain c cs where cs: "chunks = c # cs" using spec(1) by (cases chunks) auto
  have "rr_success (read j)" "rr_data (read j) = c" using rep cs by (force simp: replies_def)+
  then have first: "find_first_chunk read 0 20 = (Some c, j + 1)"
    using find_first_chunk_skips [of 0 j read 20] rep spec(2) cs starts_message_first [OF n(1)]
    by (simp add: replies_def)
  obtain m where m: "decode_message c = Inr m" "dm_message_type m = t" "dm_length m = of_nat (length d)"
    using decode_prefix [of n t d] spec(2) cs n by auto
  have ml: "unat (dm_length m) = length d" using m(3) d by simp
  have count: "length cs = (if n - 9 < length d then (length d - (n - 9) + (n - 1) - 1) div (n - 1) else 0)"
  proof (cases "9 + length d \<le> n")
    case True
    then show ?thesis using spec(3) cs n by (simp add: chunks_needed_def)
  next
    case False
    then have "9 + length d - n = length d - (n - 9)" "n - 9 < length d" using n by simp_all
    then show ?thesis
      using spec(3) cs False by (simp only: chunks_needed_def Let_def if_True if_False) simp
  qed
  moreover have "\<forall>i < length cs. rr_success (read (j + 1 + i)) \<and> rr_data (read (j + 1 + i)) = cs ! i"
  proof (intro allI impI)
    fix i assume "i < length cs"
    then have "Suc i < length chunks" using cs by simp
    then have "rr_success (read (j + Suc i)) \<and> rr_data (read (j + Suc i)) = chunks ! Suc i"
      using rep(1) unfolding replies_def by blast
    then show "rr_success (read (j + 1 + i)) \<and> rr_data (read (j + 1 + i)) = cs ! i"
      using cs by simp
  qed
  ultimately have rest: "read_chunks read (j + 1) (length cs) = Inr cs"
    by (intro read_chunks_all) auto
  have "reassemble_chunks chunks 9 1 (length (encode_message t d) - 9) = Inr (drop 9 (encode_message t d))"
    using reassemble_created [OF ch(1) n63 b63, of 9 chunks] n chunks ch(2)
    by (simp add: encode_message_header)
  then have "reassemble_chunks (c # cs) 9 1 (length d) = Inr d"
    by (simp add: cs encode_message_header)
  note whole = this
  have "usize_sub n 9 = n - 9" "usize_sub n 1 = n - 1"
    using n by (simp_all add: usize_sub_exact)
  then have "continuation_count n (length d) = length cs"
    using count by (cases "n - 9 < length d") (simp_all only: continuation_count_def if_True if_False zero_less_diff less_irrefl)
  then show ?thesis using that [OF cs first m(1,2) ml _ rest whole] by simp
qed

lemma read_response_delivers:
  assumes "9 < n" "n < 2 ^ 32" "length d < 2 ^ 32"
    and "create_chunks (encode_message t d) continuation_header n = Some chunks" "replies read j chunks" "j < 20"
  shows "read_response read n = Inr (t, d)"
  using assms
proof (rule reply_parts)
  fix c cs m
  assume h: "find_first_chunk read 0 20 = (Some c, j + 1)" "decode_message c = Inr m" "dm_message_type m = t"
    "unat (dm_length m) = length d" "continuation_count n (length d) = length cs"
    "read_chunks read (j + 1) (length cs) = Inr cs" "reassemble_chunks (c # cs) 9 1 (length d) = Inr d"
  show ?thesis
    using h(6,7)
    by (simp only: read_response_def h(1-4) prod.case option.case v1_decode_def bind_res.simps Let_def
        PROTOCOL_V1_HEADER_SIZE_def h(5) [unfolded continuation_count_def])
qed

end
