(* ===== verification/Thp_State.thy ===== *)
theory Thp_State
  imports Errors
begin

text \<open>
  The state of an encrypted channel (\<^verbatim>\<open>protocol/thp/state.rs\<close>): phase, channel id,
  alternating bits, nonces, credentials and session id, with every method that changes it. The
  methods are also the rules of a step relation, on which the invariants are proved by rule
  induction. The hex codec of channel ids belongs to another crate and is an argument.
\<close>

section \<open>Definitions\<close>

datatype ThpPhase = Handshake | Pairing | Paired

datatype ThpPairingMethod = NoMethod | CodeEntry | QrCode | Nfc

fun pairing_method_code :: "ThpPairingMethod \<Rightarrow> u8" where
  "pairing_method_code NoMethod = 0"
| "pairing_method_code CodeEntry = 2"
| "pairing_method_code QrCode = 3"
| "pairing_method_code Nfc = 4"

record ThpCredentials =
  cr_host_static_key :: string
  cr_trezor_static_public_key :: string
  cr_credential :: string
  cr_autoconnect :: bool

record ThpHandshakeCredentials =
  hc_pairing_methods :: "ThpPairingMethod list"
  hc_handshake_hash :: bytes
  hc_handshake_commitment :: bytes
  hc_code_entry_challenge :: bytes
  hc_trezor_encrypted_static_pubkey :: bytes
  hc_host_encrypted_static_pubkey :: bytes
  hc_static_key :: bytes
  hc_host_static_public_key :: bytes
  hc_host_key :: bytes
  hc_trezor_key :: bytes
  hc_trezor_cpace_public_key :: bytes

record ThpChannelState =
  cs_channel :: string
  cs_send_bit :: u8
  cs_recv_bit :: u8
  cs_send_ack_bit :: u8
  cs_recv_ack_bit :: u8
  cs_send_nonce :: u32
  cs_recv_nonce :: u32
  cs_expected_responses :: bytes

record ThpState =
  phase :: ThpPhase
  is_paired :: bool
  channel :: "u8 \<times> u8"
  send_bit :: u8
  recv_bit :: u8
  send_ack_bit :: u8
  recv_ack_bit :: u8
  send_nonce :: u32
  recv_nonce :: u32
  nonce_exhausted :: bool
  expected_responses :: bytes
  handshake_credentials :: "ThpHandshakeCredentials option"
  pairing_credentials :: "ThpCredentials list"
  selected_method :: "ThpPairingMethod option"
  nfc_secret :: "bytes option"
  session_id :: u8

definition thp_new :: ThpState where
  "thp_new =
     \<lparr>phase = Handshake, is_paired = False, channel = (0, 0), send_bit = 0, recv_bit = 0,
      send_ack_bit = 0, recv_ack_bit = 0, send_nonce = 0, recv_nonce = 1, nonce_exhausted = False,
      expected_responses = [], handshake_credentials = None, pairing_credentials = [],
      selected_method = None, nfc_secret = None, session_id = 0\<rparr>"

definition flip :: "u8 \<Rightarrow> u8" where
  "flip b = (if 0 < b then 0 else 1)"

definition update_ack_bit :: "bool \<Rightarrow> ThpState \<Rightarrow> ThpState" where
  "update_ack_bit is_send s =
     (if is_send then s\<lparr>send_ack_bit := flip (send_ack_bit s)\<rparr>
      else s\<lparr>recv_ack_bit := flip (recv_ack_bit s)\<rparr>)"

definition update_sync_bit :: "bool \<Rightarrow> ThpState \<Rightarrow> ThpState" where
  "update_sync_bit is_send s =
     (if is_send then s\<lparr>send_bit := flip (send_bit s)\<rparr>
      else s\<lparr>recv_bit := flip (recv_bit s)\<rparr>)"

definition u32_MAX :: u32 where
  "u32_MAX = 0xFFFFFFFF"

definition update_nonce :: "bool \<Rightarrow> ThpState \<Rightarrow> string + ThpState" where
  "update_nonce is_send s =
     (if is_send
      then if u32_MAX - 1 \<le> send_nonce s then Inl ''send nonce overflow: re-key required''
           else Inr (s\<lparr>send_nonce := send_nonce s + 1\<rparr>)
      else if u32_MAX - 1 \<le> recv_nonce s then Inl ''recv nonce overflow: re-key required''
           else Inr (s\<lparr>recv_nonce := recv_nonce s + 1\<rparr>))"

definition add_pairing_credentials :: "ThpCredentials \<Rightarrow> ThpState \<Rightarrow> ThpState" where
  "add_pairing_credentials creds s = s\<lparr>pairing_credentials := pairing_credentials s @ [creds]\<rparr>"

definition set_pairing_credentials :: "ThpCredentials \<Rightarrow> ThpState \<Rightarrow> ThpState" where
  "set_pairing_credentials creds s = s\<lparr>pairing_credentials := [creds]\<rparr>"

definition create_new_session_id :: "ThpState \<Rightarrow> u8 \<times> ThpState" where
  "create_new_session_id s =
     (let id = session_id s + 1;
          id = (if id = 0 then 1 else id)
      in (id, s\<lparr>session_id := id\<rparr>))"

definition thp_reset :: "ThpState \<Rightarrow> ThpState" where
  "thp_reset s =
     s\<lparr>phase := Handshake, is_paired := False, channel := (0, 0), send_bit := 0, recv_bit := 0,
       send_ack_bit := 0, recv_ack_bit := 0, send_nonce := 0, recv_nonce := 1,
       nonce_exhausted := False, expected_responses := [], handshake_credentials := None,
       selected_method := None, nfc_secret := None, session_id := 0\<rparr>"

definition serialize_state :: "(bytes \<Rightarrow> string) \<Rightarrow> ThpState \<Rightarrow> ThpChannelState" where
  "serialize_state hex_encode s =
     \<lparr>cs_channel = hex_encode [fst (channel s), snd (channel s)], cs_send_bit = send_bit s,
      cs_recv_bit = recv_bit s, cs_send_ack_bit = send_ack_bit s, cs_recv_ack_bit = recv_ack_bit s,
      cs_send_nonce = send_nonce s, cs_recv_nonce = recv_nonce s,
      cs_expected_responses = expected_responses s\<rparr>"

definition deserialize_state :: "(string \<Rightarrow> bytes option) \<Rightarrow> ThpChannelState \<Rightarrow> ThpState \<Rightarrow> string + ThpState" where
  "deserialize_state hex_decode cs s =
     (case hex_decode (cs_channel cs) of
        None \<Rightarrow> Inl ''Invalid channel hex''
      | Some channel_bytes \<Rightarrow>
          if length channel_bytes \<noteq> 2 then Inl ''Invalid channel length''
          else Inr (s\<lparr>channel := (channel_bytes ! 0, channel_bytes ! 1), send_bit := cs_send_bit cs,
                      recv_bit := cs_recv_bit cs, send_ack_bit := cs_send_ack_bit cs,
                      recv_ack_bit := cs_recv_ack_bit cs, send_nonce := cs_send_nonce cs,
                      recv_nonce := cs_recv_nonce cs,
                      expected_responses := cs_expected_responses cs\<rparr>))"

section \<open>The step relation\<close>

text \<open>One call of a method that changes the state. A failed \<^verbatim>\<open>update_nonce\<close> changes nothing and
  is no step. \<^verbatim>\<open>deserialize\<close>, which the crate calls in its tests only, is not a step: it
  takes every bit and nonce from its argument.\<close>

inductive thp_step :: "ThpState \<Rightarrow> ThpState \<Rightarrow> bool" where
  set_phase: "thp_step s (s\<lparr>phase := p\<rparr>)"
| set_is_paired: "thp_step s (s\<lparr>is_paired := b\<rparr>)"
| set_channel: "thp_step s (s\<lparr>channel := c\<rparr>)"
| ack_bit: "thp_step s (update_ack_bit d s)"
| sync_bit: "thp_step s (update_sync_bit d s)"
| nonce: "update_nonce d s = Inr s' \<Longrightarrow> thp_step s s'"
| set_expected: "thp_step s (s\<lparr>expected_responses := rs\<rparr>)"
| set_handshake_credentials: "thp_step s (s\<lparr>handshake_credentials := hc\<rparr>)"
| add_credentials: "thp_step s (add_pairing_credentials cr s)"
| set_credentials: "thp_step s (set_pairing_credentials cr s)"
| set_method: "thp_step s (s\<lparr>selected_method := Some m\<rparr>)"
| new_session: "thp_step s (snd (create_new_session_id s))"
| reset: "thp_step s (thp_reset s)"

inductive_cases thp_step_elim: "thp_step s s'"

abbreviation thp_reachable :: "ThpState \<Rightarrow> bool" where
  "thp_reachable s \<equiv> thp_step\<^sup>*\<^sup>* thp_new s"

section \<open>Invariants\<close>

definition thp_inv :: "ThpState \<Rightarrow> bool" where
  "thp_inv s \<longleftrightarrow>
     send_bit s \<in> {0, 1} \<and> recv_bit s \<in> {0, 1} \<and> send_ack_bit s \<in> {0, 1} \<and> recv_ack_bit s \<in> {0, 1}
     \<and> send_nonce s \<le> u32_MAX - 1 \<and> recv_nonce s \<le> u32_MAX - 1 \<and> 1 \<le> recv_nonce s
     \<and> \<not> nonce_exhausted s"

lemma flip_bit [simp]: "flip b \<in> {0, 1}"
  by (simp add: flip_def)

lemma nonce_succ:
  fixes n :: u32
  assumes "\<not> u32_MAX - 1 \<le> n"
  shows "unat (n + 1) = unat n + 1" and "n + 1 \<le> u32_MAX - 1"
proof -
  have "unat n < 4294967294" using assms by (simp add: u32_MAX_def word_le_nat_alt)
  then show "unat (n + 1) = unat n + 1" by (simp add: unat_word_ariths)
  with \<open>unat n < 4294967294\<close> show "n + 1 \<le> u32_MAX - 1"
    by (simp add: word_le_nat_alt u32_MAX_def)
qed

lemma thp_inv_new: "thp_inv thp_new"
  by (simp add: thp_inv_def thp_new_def u32_MAX_def)

lemma thp_inv_step: "thp_step s s' \<Longrightarrow> thp_inv s \<Longrightarrow> thp_inv s'"
proof (induction rule: thp_step.induct)
  case (nonce d s s')
  have "1 \<le> n + 1" if "\<not> u32_MAX - 1 \<le> n" for n
    using nonce_succ(1) [OF that] by (simp add: word_le_nat_alt)
  with nonce nonce_succ(2) show ?case
    by (auto simp: update_nonce_def thp_inv_def split: if_splits)
next
  case (ack_bit s d)
  then show ?case using flip_bit by (auto simp: update_ack_bit_def thp_inv_def)
next
  case (sync_bit s d)
  then show ?case using flip_bit by (auto simp: update_sync_bit_def thp_inv_def)
next
  case (reset s)
  then show ?case by (simp add: thp_reset_def thp_inv_def u32_MAX_def)
qed (simp_all add: thp_inv_def add_pairing_credentials_def set_pairing_credentials_def
      create_new_session_id_def Let_def)

lemma thp_reachable_inv: "thp_reachable s \<Longrightarrow> thp_inv s"
  by (induction rule: rtranclp_induct) (auto intro: thp_inv_new thp_inv_step)

text \<open>Nonces only grow between resets.\<close>

lemma send_nonce_mono:
  "thp_step s s' \<Longrightarrow> s' = thp_reset s \<or> send_nonce s \<le> send_nonce s'"
proof (induction rule: thp_step.induct)
  case (nonce d s s')
  have "n \<le> n + 1" if "\<not> u32_MAX - 1 \<le> n" for n
    using nonce_succ(1) [OF that] by (simp add: word_le_nat_alt)
  with nonce show ?case by (auto simp: update_nonce_def split: if_splits)
qed (simp_all add: update_ack_bit_def update_sync_bit_def add_pairing_credentials_def
      set_pairing_credentials_def create_new_session_id_def Let_def)

text \<open>The nonces of \<open>k\<close> messages sent in a row; the list ends where \<^verbatim>\<open>update_nonce\<close> refuses.\<close>

fun sent_nonces :: "nat \<Rightarrow> ThpState \<Rightarrow> u32 list" where
  "sent_nonces 0 s = []"
| "sent_nonces (Suc k) s =
     send_nonce s # (case update_nonce True s of Inl e \<Rightarrow> [] | Inr s' \<Rightarrow> sent_nonces k s')"

lemma sent_nonces_ge: "n \<in> set (sent_nonces k s) \<Longrightarrow> unat (send_nonce s) \<le> unat n"
proof (induction k arbitrary: s)
  case (Suc k)
  show ?case
  proof (cases "u32_MAX - 1 \<le> send_nonce s")
    case True
    with Suc.prems show ?thesis by (simp add: update_nonce_def)
  next
    case False
    with Suc.prems Suc.IH [of "s\<lparr>send_nonce := send_nonce s + 1\<rparr>"] nonce_succ(1) [OF False]
    show ?thesis by (auto simp: update_nonce_def)
  qed
qed simp

lemma sent_nonces_distinct: "distinct (sent_nonces k s)"
proof (induction k arbitrary: s)
  case (Suc k)
  show ?case
  proof (cases "u32_MAX - 1 \<le> send_nonce s")
    case True
    then show ?thesis by (simp add: update_nonce_def)
  next
    case False
    then have "send_nonce s \<notin> set (sent_nonces k (s\<lparr>send_nonce := send_nonce s + 1\<rparr>))"
      using sent_nonces_ge [of "send_nonce s" k "s\<lparr>send_nonce := send_nonce s + 1\<rparr>"] nonce_succ(1) [OF False]
      by auto
    with False Suc show ?thesis by (simp add: update_nonce_def)
  qed
qed simp

section \<open>Properties\<close>





text \<open>
  Storing a channel and restoring it into any state brings back channel id, bits,
  nonces and expected responses and leaves the rest of that state alone, given a hex codec that
  decodes what it encodes.
\<close>

theorem thp_serialize_roundtrip:
  assumes "\<forall>bs. hex_decode (hex_encode bs) = Some bs"
  shows "deserialize_state hex_decode (serialize_state hex_encode s) s'
    = Inr (s'\<lparr>channel := channel s, send_bit := send_bit s, recv_bit := recv_bit s,
             send_ack_bit := send_ack_bit s, recv_ack_bit := recv_ack_bit s,
             send_nonce := send_nonce s, recv_nonce := recv_nonce s,
             expected_responses := expected_responses s\<rparr>)"
  using assms by (simp add: deserialize_state_def serialize_state_def)

text \<open>A hex codec, to instantiate the argument.\<close>

definition codec_encode :: "bytes \<Rightarrow> string" where
  "codec_encode bs = map (\<lambda>b. char_of (unat b)) bs"

definition codec_decode :: "string \<Rightarrow> bytes option" where
  "codec_decode s = Some (map (\<lambda>c. of_nat (of_char c)) s)"

lemma codec_roundtrip: "codec_decode (codec_encode bs) = Some bs"
proof -
  have "of_nat (of_char (char_of (unat b) :: char)) = b" for b :: u8
    using unat_u8_less [of b] by simp
  then show ?thesis by (simp add: codec_decode_def codec_encode_def comp_def map_idI)
qed

theorem thp_serialize_roundtrip_witness:
  "deserialize_state codec_decode (serialize_state codec_encode (thp_new\<lparr>channel := (18, 52), send_nonce := 7\<rparr>)) thp_new
   = Inr (thp_new\<lparr>channel := (18, 52), send_nonce := 7\<rparr>)"
  using thp_serialize_roundtrip [of codec_decode codec_encode "thp_new\<lparr>channel := (18, 52), send_nonce := 7\<rparr>" thp_new]
    codec_roundtrip by (simp add: thp_new_def)

text \<open>
  A new session id is never 0, it differs from the one before it, and it is the one
  the state holds afterwards.
\<close>

theorem session_id_never_zero:
  "fst (create_new_session_id s) \<noteq> 0 \<and> fst (create_new_session_id s) \<noteq> session_id s
   \<and> session_id (snd (create_new_session_id s)) = fst (create_new_session_id s)"
  by (auto simp: create_new_session_id_def Let_def)

end
