(* ===== verification/Thp_Crypto.thy ===== *)
theory Thp_Crypto
  imports Errors
begin

text \<open>
  The cryptographic helpers of the encrypted protocol (\<^verbatim>\<open>protocol/thp/crypto.rs\<close>). The
  primitives come from other crates and are the fields of the record \<open>primitives\<close>; what the
  file computes itself is modelled: the Noise key derivation, nonces to initialisation vectors,
  modular exponentiation, the Elligator map and the table-driven CRC-32, which is shown equal to
  the bit-wise definition and to detect every change of a single byte.
\<close>

section \<open>Definitions\<close>

text \<open>AEAD calls return \<open>None\<close> where the crate returns an error.\<close>

record primitives =
  p_sha256 :: "bytes \<Rightarrow> bytes"
  p_sha512 :: "bytes \<Rightarrow> bytes"
  p_hmac_sha256 :: "bytes \<Rightarrow> bytes \<Rightarrow> bytes"
  p_aes_encrypt :: "bytes \<Rightarrow> bytes \<Rightarrow> bytes \<Rightarrow> bytes \<Rightarrow> bytes option"
  p_aes_decrypt :: "bytes \<Rightarrow> bytes \<Rightarrow> bytes \<Rightarrow> bytes \<Rightarrow> bytes option"
  p_x25519_base :: "bytes \<Rightarrow> bytes"
  p_x25519 :: "bytes \<Rightarrow> bytes \<Rightarrow> bytes"

definition x25519_dh :: "primitives \<Rightarrow> bytes \<Rightarrow> bytes \<Rightarrow> bytes" where
  "x25519_dh prim private_key public_key = p_x25519 prim private_key public_key"

definition keypair_from_secret :: "primitives \<Rightarrow> bytes \<Rightarrow> bytes \<times> bytes" where
  "keypair_from_secret prim secret_bytes = (secret_bytes, p_x25519_base prim secret_bytes)"

definition hash_of_two :: "primitives \<Rightarrow> bytes \<Rightarrow> bytes \<Rightarrow> bytes" where
  "hash_of_two prim a b = p_sha256 prim (a @ b)"

definition hkdf_derive :: "primitives \<Rightarrow> bytes \<Rightarrow> bytes \<Rightarrow> bytes \<times> bytes" where
  "hkdf_derive prim chaining_key input =
     (let temp_key = p_hmac_sha256 prim chaining_key input;
          output1 = p_hmac_sha256 prim temp_key [0x01];
          output2 = p_hmac_sha256 prim temp_key (output1 @ [0x02])
      in (output1, output2))"

definition get_iv_from_nonce :: "u32 \<Rightarrow> bytes" where
  "get_iv_from_nonce nonce = replicate 8 0 @ be32 nonce"

definition aes_gcm_encrypt :: "primitives \<Rightarrow> bytes \<Rightarrow> bytes \<Rightarrow> bytes \<Rightarrow> bytes \<Rightarrow> bytes result" where
  "aes_gcm_encrypt prim key nonce aad plaintext =
     (case p_aes_encrypt prim key nonce aad plaintext of
        Some c \<Rightarrow> Inr c
      | None \<Rightarrow> thp_err (EncryptionError ''aead::Error''))"

definition aes_gcm_decrypt :: "primitives \<Rightarrow> bytes \<Rightarrow> bytes \<Rightarrow> bytes \<Rightarrow> bytes \<Rightarrow> bytes result" where
  "aes_gcm_decrypt prim key nonce aad ciphertext =
     (case p_aes_decrypt prim key nonce aad ciphertext of
        Some p \<Rightarrow> Inr p
      | None \<Rightarrow> thp_err (DecryptionError ''aead::Error''))"

subsection \<open>Modular exponentiation and Elligator\<close>

function mod_pow_loop :: "nat \<Rightarrow> nat \<Rightarrow> nat \<Rightarrow> nat \<Rightarrow> nat" where
  "mod_pow_loop m result base exp =
     (if exp = 0 then result
      else mod_pow_loop m (if exp mod 2 = 1 then result * base mod m else result)
             (base * base mod m) (exp div 2))"
  by pat_completeness auto
termination
  by (relation "measure (\<lambda>(m, result, base, exp). exp)") auto

declare mod_pow_loop.simps [simp del]

definition mod_pow :: "nat \<Rightarrow> nat \<Rightarrow> nat \<Rightarrow> nat" where
  "mod_pow base exp m = (if m = 1 then 0 else mod_pow_loop m 1 (base mod m) exp)"

fun bytes_le :: "nat \<Rightarrow> nat \<Rightarrow> bytes" where
  "bytes_le 0 x = []"
| "bytes_le (Suc n) x = of_nat (x mod 256) # bytes_le n (x div 256)"

fun from_bytes_le :: "bytes \<Rightarrow> nat" where
  "from_bytes_le [] = 0"
| "from_bytes_le (b # bs) = unat b + 256 * from_bytes_le bs"

definition curve_p :: nat where
  "curve_p = 2 ^ 255 - 19"

definition curve_j :: nat where
  "curve_j = 486662"

definition curve_c3 :: nat where
  "curve_c3 = 19681161376707505956807079304988542015446066515923890162744021073123829784752"

definition elligator2 :: "bytes \<Rightarrow> bytes" where
  "elligator2 input =
     (let p = curve_p; j = curve_j; c3 = curve_c3;
          c4 = (p - 5) div 8;
          coord = input[31 := input ! 31 AND 0x7f];
          u = from_bytes_le coord mod p;
          tv1 = u * u mod p;
          tv1 = 2 * tv1 mod p;
          xd = (tv1 + 1) mod p;
          x1n = (p - j) mod p;
          tv2 = xd * xd mod p;
          gxd = tv2 * xd mod p;
          gx1 = j * tv1 mod p;
          gx1 = gx1 * x1n mod p;
          gx1 = (gx1 + tv2) mod p;
          gx1 = gx1 * x1n mod p;
          tv3 = gxd * gxd mod p;
          tv2 = tv3 * tv3 mod p;
          tv3 = tv3 * gxd mod p;
          tv3 = tv3 * gx1 mod p;
          tv2 = tv2 * tv3 mod p;
          y11 = mod_pow tv2 c4 p;
          y11 = y11 * tv3 mod p;
          y12 = y11 * c3 mod p;
          tv2 = y11 * y11 mod p;
          tv2 = tv2 * gxd mod p;
          e1 = (tv2 = gx1);
          y1 = (if e1 then y11 else y12);
          x2n = x1n * tv1 mod p;
          tv2 = y1 * y1 mod p;
          tv2 = tv2 * gxd mod p;
          e3 = (tv2 = gx1);
          xn = (if e3 then x1n else x2n);
          xd_inv = mod_pow xd (p - 2) p;
          x = xn * xd_inv mod p
      in bytes_le 32 x)"

subsection \<open>CRC-32\<close>

definition protocol_name :: bytes where
  "protocol_name =
     map (\<lambda>c. of_nat (of_char c)) ''Noise_XX_25519_AESGCM_SHA256'' @ replicate 4 0"

definition CRC_TABLE :: "u32 list" where
  "CRC_TABLE =
     [0x00000000, 0x77073096, 0xee0e612c, 0x990951ba, 0x076dc419, 0x706af48f, 0xe963a535, 0x9e6495a3,
      0x0edb8832, 0x79dcb8a4, 0xe0d5e91e, 0x97d2d988, 0x09b64c2b, 0x7eb17cbd, 0xe7b82d07, 0x90bf1d91,
      0x1db71064, 0x6ab020f2, 0xf3b97148, 0x84be41de, 0x1adad47d, 0x6ddde4eb, 0xf4d4b551, 0x83d385c7,
      0x136c9856, 0x646ba8c0, 0xfd62f97a, 0x8a65c9ec, 0x14015c4f, 0x63066cd9, 0xfa0f3d63, 0x8d080df5,
      0x3b6e20c8, 0x4c69105e, 0xd56041e4, 0xa2677172, 0x3c03e4d1, 0x4b04d447, 0xd20d85fd, 0xa50ab56b,
      0x35b5a8fa, 0x42b2986c, 0xdbbbc9d6, 0xacbcf940, 0x32d86ce3, 0x45df5c75, 0xdcd60dcf, 0xabd13d59,
      0x26d930ac, 0x51de003a, 0xc8d75180, 0xbfd06116, 0x21b4f4b5, 0x56b3c423, 0xcfba9599, 0xb8bda50f,
      0x2802b89e, 0x5f058808, 0xc60cd9b2, 0xb10be924, 0x2f6f7c87, 0x58684c11, 0xc1611dab, 0xb6662d3d,
      0x76dc4190, 0x01db7106, 0x98d220bc, 0xefd5102a, 0x71b18589, 0x06b6b51f, 0x9fbfe4a5, 0xe8b8d433,
      0x7807c9a2, 0x0f00f934, 0x9609a88e, 0xe10e9818, 0x7f6a0dbb, 0x086d3d2d, 0x91646c97, 0xe6635c01,
      0x6b6b51f4, 0x1c6c6162, 0x856530d8, 0xf262004e, 0x6c0695ed, 0x1b01a57b, 0x8208f4c1, 0xf50fc457,
      0x65b0d9c6, 0x12b7e950, 0x8bbeb8ea, 0xfcb9887c, 0x62dd1ddf, 0x15da2d49, 0x8cd37cf3, 0xfbd44c65,
      0x4db26158, 0x3ab551ce, 0xa3bc0074, 0xd4bb30e2, 0x4adfa541, 0x3dd895d7, 0xa4d1c46d, 0xd3d6f4fb,
      0x4369e96a, 0x346ed9fc, 0xad678846, 0xda60b8d0, 0x44042d73, 0x33031de5, 0xaa0a4c5f, 0xdd0d7cc9,
      0x5005713c, 0x270241aa, 0xbe0b1010, 0xc90c2086, 0x5768b525, 0x206f85b3, 0xb966d409, 0xce61e49f,
      0x5edef90e, 0x29d9c998, 0xb0d09822, 0xc7d7a8b4, 0x59b33d17, 0x2eb40d81, 0xb7bd5c3b, 0xc0ba6cad,
      0xedb88320, 0x9abfb3b6, 0x03b6e20c, 0x74b1d29a, 0xead54739, 0x9dd277af, 0x04db2615, 0x73dc1683,
      0xe3630b12, 0x94643b84, 0x0d6d6a3e, 0x7a6a5aa8, 0xe40ecf0b, 0x9309ff9d, 0x0a00ae27, 0x7d079eb1,
      0xf00f9344, 0x8708a3d2, 0x1e01f268, 0x6906c2fe, 0xf762575d, 0x806567cb, 0x196c3671, 0x6e6b06e7,
      0xfed41b76, 0x89d32be0, 0x10da7a5a, 0x67dd4acc, 0xf9b9df6f, 0x8ebeeff9, 0x17b7be43, 0x60b08ed5,
      0xd6d6a3e8, 0xa1d1937e, 0x38d8c2c4, 0x4fdff252, 0xd1bb67f1, 0xa6bc5767, 0x3fb506dd, 0x48b2364b,
      0xd80d2bda, 0xaf0a1b4c, 0x36034af6, 0x41047a60, 0xdf60efc3, 0xa867df55, 0x316e8eef, 0x4669be79,
      0xcb61b38c, 0xbc66831a, 0x256fd2a0, 0x5268e236, 0xcc0c7795, 0xbb0b4703, 0x220216b9, 0x5505262f,
      0xc5ba3bbe, 0xb2bd0b28, 0x2bb45a92, 0x5cb36a04, 0xc2d7ffa7, 0xb5d0cf31, 0x2cd99e8b, 0x5bdeae1d,
      0x9b64c2b0, 0xec63f226, 0x756aa39c, 0x026d930a, 0x9c0906a9, 0xeb0e363f, 0x72076785, 0x05005713,
      0x95bf4a82, 0xe2b87a14, 0x7bb12bae, 0x0cb61b38, 0x92d28e9b, 0xe5d5be0d, 0x7cdcefb7, 0x0bdbdf21,
      0x86d3d2d4, 0xf1d4e242, 0x68ddb3f8, 0x1fda836e, 0x81be16cd, 0xf6b9265b, 0x6fb077e1, 0x18b74777,
      0x88085ae6, 0xff0f6a70, 0x66063bca, 0x11010b5c, 0x8f659eff, 0xf862ae69, 0x616bffd3, 0x166ccf45,
      0xa00ae278, 0xd70dd2ee, 0x4e048354, 0x3903b3c2, 0xa7672661, 0xd06016f7, 0x4969474d, 0x3e6e77db,
      0xaed16a4a, 0xd9d65adc, 0x40df0b66, 0x37d83bf0, 0xa9bcae53, 0xdebb9ec5, 0x47b2cf7f, 0x30b5ffe9,
      0xbdbdf21c, 0xcabac28a, 0x53b39330, 0x24b4a3a6, 0xbad03605, 0xcdd70693, 0x54de5729, 0x23d967bf,
      0xb3667a2e, 0xc4614ab8, 0x5d681b02, 0x2a6f2b94, 0xb40bbe37, 0xc30c8ea1, 0x5a05df1b, 0x2d02ef8d]"

definition crc_update :: "u32 \<Rightarrow> u8 \<Rightarrow> u32" where
  "crc_update crc byte =
     (let index = unat ((crc XOR ucast byte) AND 0xff)
      in CRC_TABLE ! index XOR drop_bit 8 crc)"

definition crc32 :: "bytes \<Rightarrow> bytes" where
  "crc32 data = be32 (foldl crc_update 0xFFFFFFFF data XOR 0xFFFFFFFF)"

section \<open>CRC-32 bit by bit\<close>

definition crc_poly :: u32 where
  "crc_poly = 0xEDB88320"

definition crc_bit :: "u32 \<Rightarrow> u32" where
  "crc_bit x = drop_bit 1 x XOR (if bit x 0 then crc_poly else 0)"

definition crc_byte :: "u32 \<Rightarrow> u32" where
  "crc_byte x = (crc_bit ^^ 8) x"

lemma crc_byte_unfold:
  "crc_byte x = crc_bit (crc_bit (crc_bit (crc_bit (crc_bit (crc_bit (crc_bit (crc_bit x)))))))"
  by (simp add: crc_byte_def eval_nat_numeral)

lemma crc_bit_xor: "crc_bit (x XOR y) = crc_bit x XOR crc_bit y"
  by (rule bit_eqI) (auto simp: crc_bit_def bit_simps)

lemma crc_byte_xor: "crc_byte (x XOR y) = crc_byte x XOR crc_byte y"
  by (simp add: crc_byte_unfold crc_bit_xor)

text \<open>The table is generated by its entries at the powers of two.\<close>

fun xor_span :: "u32 list \<Rightarrow> u32 list \<Rightarrow> u32 list" where
  "xor_span [] t = t"
| "xor_span (g # gs) t = xor_span gs (t @ map (\<lambda>x. x XOR g) t)"

lemma crc_table_span:
  "CRC_TABLE = xor_span [0x77073096, 0xee0e612c, 0x076dc419, 0x0edb8832,
     0x1db71064, 0x3b6e20c8, 0x76dc4190, 0xedb88320] [0]"
  unfolding CRC_TABLE_def by simp

lemma crc_byte_powers:
  "crc_byte 1 = 0x77073096" "crc_byte 2 = 0xee0e612c" "crc_byte 4 = 0x076dc419" "crc_byte 8 = 0x0edb8832"
  "crc_byte 16 = 0x1db71064" "crc_byte 32 = 0x3b6e20c8" "crc_byte 64 = 0x76dc4190" "crc_byte 128 = 0xedb88320"
  by (simp_all add: crc_byte_unfold crc_bit_def crc_poly_def drop_bit_eq_div)

definition crc_entries :: "nat \<Rightarrow> u32 list" where
  "crc_entries n = map (\<lambda>i. crc_byte (of_nat i)) [0..<n]"

lemma crc_entries_double:
  assumes "n = 2 ^ k" "k < 32"
  shows "crc_entries n @ map (\<lambda>x. x XOR crc_byte (of_nat n)) (crc_entries n) = crc_entries (2 * n)"
proof -
  have "crc_byte (of_nat i) XOR crc_byte (of_nat n) = crc_byte (of_nat (i + n))" if "i < n" for i
  proof -
    have "\<not> bit i k" using that assms(1) by (simp add: bit_iff_odd)
    moreover have n: "(of_nat n :: u32) = 2 ^ k" using assms(1) by simp
    ultimately have "(of_nat i :: u32) AND of_nat n = 0"
      unfolding n by (intro bit_eqI) (auto simp: bit_and_iff bit_exp_iff bit_of_nat_iff)
    then have "(of_nat i :: u32) + of_nat n = of_nat i XOR of_nat n" by (rule disjunctive_add_eq_xor)
    then show ?thesis by (simp add: crc_byte_xor [symmetric])
  qed
  then have "map (\<lambda>x. x XOR crc_byte (of_nat n)) (map (\<lambda>i. crc_byte (of_nat i)) [0..<n])
      = map (\<lambda>i. crc_byte (of_nat i)) (map (\<lambda>i. i + n) [0..<n])"
    by simp
  also have "map (\<lambda>i. i + n) [0..<n] = [n..<2 * n]"
    by (rule nth_equalityI) simp_all
  finally show ?thesis
    unfolding crc_entries_def
    by (simp only: map_append [symmetric] upt_add_eq_append [of 0 n n, simplified, symmetric] mult_2)
qed

lemma xor_span_step:
  "n = 2 ^ k \<Longrightarrow> k < 32 \<Longrightarrow> g = crc_byte (of_nat n) \<Longrightarrow> m = 2 * n \<Longrightarrow>
     xor_span (g # gs) (crc_entries n) = xor_span gs (crc_entries m)"
  using crc_entries_double [of n k] by simp

lemma crc_table_bits: "CRC_TABLE = crc_entries 256"
proof -
  have "crc_byte 0 = 0" by (simp add: crc_byte_unfold crc_bit_def)
  then have s: "[0] = crc_entries 1" by (simp add: crc_entries_def)
  have s0: "xor_span (0x77073096 # gs) (crc_entries 1) = xor_span gs (crc_entries 2)" for gs
    by (rule xor_span_step [of _ 0]) (simp_all add: crc_byte_powers)
  have s1: "xor_span (0xee0e612c # gs) (crc_entries 2) = xor_span gs (crc_entries 4)" for gs
    by (rule xor_span_step [of _ 1]) (simp_all add: crc_byte_powers)
  have s2: "xor_span (0x076dc419 # gs) (crc_entries 4) = xor_span gs (crc_entries 8)" for gs
    by (rule xor_span_step [of _ 2]) (simp_all add: crc_byte_powers)
  have s3: "xor_span (0x0edb8832 # gs) (crc_entries 8) = xor_span gs (crc_entries 16)" for gs
    by (rule xor_span_step [of _ 3]) (simp_all add: crc_byte_powers)
  have s4: "xor_span (0x1db71064 # gs) (crc_entries 16) = xor_span gs (crc_entries 32)" for gs
    by (rule xor_span_step [of _ 4]) (simp_all add: crc_byte_powers)
  have s5: "xor_span (0x3b6e20c8 # gs) (crc_entries 32) = xor_span gs (crc_entries 64)" for gs
    by (rule xor_span_step [of _ 5]) (simp_all add: crc_byte_powers)
  have s6: "xor_span (0x76dc4190 # gs) (crc_entries 64) = xor_span gs (crc_entries 128)" for gs
    by (rule xor_span_step [of _ 6]) (simp_all add: crc_byte_powers)
  have s7: "xor_span (0xedb88320 # gs) (crc_entries 128) = xor_span gs (crc_entries 256)" for gs
    by (rule xor_span_step [of _ 7]) (simp_all add: crc_byte_powers)
  show ?thesis
    by (simp only: crc_table_span s s0 s1 s2 s3 s4 s5 s6 s7 xor_span.simps(1))
qed


lemma crc_byte_high:
  assumes "x AND 0xff = 0"
  shows "crc_byte x = drop_bit 8 x"
proof -
  have low: "\<not> bit x n" if "n < 8" for n
  proof -
    have "(0xff :: u32) = mask 8" by (simp add: mask_eq_exp_minus_1)
    then have "bit (0xff :: u32) n" using that by (simp only: bit_mask_iff) simp
    moreover have "\<not> bit (x AND 0xff) n" using assms by simp
    ultimately show ?thesis by (simp add: bit_and_iff)
  qed
  have step: "crc_bit (drop_bit k x) = drop_bit (Suc k) x" if "k < 8" for k
    using low [OF that] by (simp add: crc_bit_def bit_drop_bit_eq)
  have "(crc_bit ^^ k) x = drop_bit k x" if "k \<le> 8" for k
    using that by (induction k) (simp_all add: step del: drop_bit_Suc)
  then show ?thesis by (simp add: crc_byte_def)
qed

lemma crc_update_bits: "crc_update crc b = crc_byte (crc XOR ucast b)"
proof -
  define x where "x = crc XOR ucast b"
  define l where "l = x AND 0xff"
  have "unat l < 256"
    using word_and_le1 [of x "0xff"] unfolding l_def by (simp add: word_le_nat_alt)
  then have table: "CRC_TABLE ! unat l = crc_byte l"
    by (simp add: crc_table_bits crc_entries_def)
  have mask: "(0xff :: u32) = mask 8" by (simp add: mask_eq_exp_minus_1)
  have split: "x = l XOR (x XOR l)"
    by (rule bit_eqI) (auto simp: bit_xor_iff)
  have "(x XOR l) AND 0xff = 0"
    unfolding l_def mask by (rule bit_eqI) (auto simp: bit_simps)
  then have "crc_byte (x XOR l) = drop_bit 8 (x XOR l)" by (rule crc_byte_high)
  also have "\<dots> = drop_bit 8 crc"
    unfolding x_def l_def mask
    by (rule bit_word_eqI) (auto simp: bit_simps dest: bit_imp_le_length)
  finally have "crc_byte x = crc_byte l XOR drop_bit 8 crc"
    by (metis split crc_byte_xor)
  then show ?thesis by (simp add: crc_update_def table flip: x_def l_def)
qed

text \<open>One bit step is injective, because the top bit of the polynomial is set.\<close>

lemma crc_bit_inj: "crc_bit x = crc_bit y \<Longrightarrow> x = y"
proof -
  have ker: "z = 0" if "crc_bit z = 0" for z
  proof -
    have "\<not> bit z 32" using bit_imp_le_length [of z 32] by auto
    then have "bit (crc_bit z) 31 = bit z 0"
      by (simp add: crc_bit_def crc_poly_def bit_simps)
    with that have b0: "\<not> bit z 0" by simp
    with that have "drop_bit 1 z = 0" by (simp add: crc_bit_def)
    then have "\<not> bit z (Suc n)" for n
      using bit_drop_bit_eq [of 1 z] by (auto simp: fun_eq_iff)
    with b0 have "\<not> bit z n" for n by (cases n) simp_all
    then show "z = 0" by (simp add: bit_eq_iff)
  qed
  assume "crc_bit x = crc_bit y"
  then have "crc_bit (x XOR y) = 0" by (simp add: crc_bit_xor)
  then have "x XOR y = 0" by (rule ker)
  then show ?thesis by (simp add: bit_eq_iff bit_xor_iff)
qed

lemma crc_byte_inj: "crc_byte x = crc_byte y \<Longrightarrow> x = y"
  unfolding crc_byte_unfold by (drule crc_bit_inj)+

lemma xor_cancel_right: "x XOR z = y XOR z \<longleftrightarrow> x = (y :: 'a :: len word)"
  by (metis xor.assoc xor_self_eq xor.right_neutral)

lemma crc_update_inj_state: "crc_update c b = crc_update d b \<Longrightarrow> c = d"
  by (auto simp: crc_update_bits xor_cancel_right dest: crc_byte_inj)

lemma crc_update_inj_byte: "crc_update c a = crc_update c b \<Longrightarrow> a = b"
proof -
  assume "crc_update c a = crc_update c b"
  then have "c XOR ucast a = c XOR (ucast b :: u32)" by (auto simp: crc_update_bits dest: crc_byte_inj)
  then have "(ucast a :: u32) = ucast b" by (simp add: xor.commute [of c] xor_cancel_right)
  then have "unat (ucast a :: u32) = unat (ucast b :: u32)" by simp
  then show ?thesis
    using unat_u8_less [of a] unat_u8_less [of b]
    by (simp add: unsigned_ucast_eq take_bit_eq_mod word_unat_eq_iff)
qed

lemma crc_fold_inj: "foldl crc_update c bs = foldl crc_update d bs \<Longrightarrow> c = d"
  by (induction bs arbitrary: c d) (auto dest: crc_update_inj_state)


lemma crc32_byte_change:
  assumes "a \<noteq> b"
  shows "crc32 (xs @ a # ys) \<noteq> crc32 (xs @ b # ys)"
proof
  assume "crc32 (xs @ a # ys) = crc32 (xs @ b # ys)"
  then have "foldl crc_update 0xFFFFFFFF (xs @ a # ys) = foldl crc_update 0xFFFFFFFF (xs @ b # ys)"
    unfolding crc32_def by (auto simp only: xor_cancel_right dest!: be32_inj)
  then show False using assms by (auto dest!: crc_fold_inj crc_update_inj_byte)
qed

lemma length_crc32 [simp]: "length (crc32 xs) = 4"
  by (simp add: crc32_def)

section \<open>Exponentiation and little-endian numbers\<close>

lemma mod_pow_loop_value: "r < m \<Longrightarrow> mod_pow_loop m r b e = r * b ^ e mod m"
proof (induction m r b e rule: mod_pow_loop.induct)
  case (1 m r b e)
  show ?case
  proof (cases "e = 0")
    case True
    with 1 show ?thesis by (simp add: mod_pow_loop.simps [of m r b 0])
  next
    case False
    define r' where "r' = (if e mod 2 = 1 then r * b mod m else r)"
    have less: "r' < m" using 1(2) by (simp add: r'_def)
    have e: "e = 2 * (e div 2) + e mod 2" by simp
    have "mod_pow_loop m r b e = mod_pow_loop m r' (b * b mod m) (e div 2)"
      using False by (simp add: mod_pow_loop.simps [of m r b e] r'_def)
    also have "\<dots> = r' * (b * b mod m) ^ (e div 2) mod m"
      using 1(1) [OF False] less by (simp add: r'_def)
    also have "\<dots> = r' * (b * b) ^ (e div 2) mod m"
      by (metis mod_mult_right_eq power_mod)
    also have "\<dots> = r * b ^ (e mod 2) * (b * b) ^ (e div 2) mod m"
      using mod2_eq_if [of e] by (auto simp: r'_def mod_mult_left_eq)
    also have "\<dots> = r * b ^ e mod m"
      by (metis e mult.assoc mult.commute power2_eq_square power_add power_mult)
    finally show ?thesis .
  qed
qed

lemma mod_pow_value:
  assumes "0 < m"
  shows "mod_pow b e m = b ^ e mod m"
  using assms by (auto simp: mod_pow_def mod_pow_loop_value power_mod)

lemma length_bytes_le [simp]: "length (bytes_le n x) = n"
  by (induction n x rule: bytes_le.induct) simp_all

lemma from_bytes_le_bytes_le: "from_bytes_le (bytes_le n x) = x mod 256 ^ n"
proof (induction n x rule: bytes_le.induct)
  case (2 n x)
  then show ?case
    by (simp add: unat_of_nat take_bit_eq_mod mod_mult2_eq [of x 256 "256 ^ n"])
qed simp

lemma elligator2_shape: "\<exists>x. elligator2 input = bytes_le 32 (x mod curve_p)"
  unfolding elligator2_def Let_def by (rule exI) (rule refl)

lemma length_get_iv [simp]: "length (get_iv_from_nonce n) = 12"
  by (simp add: get_iv_from_nonce_def)

section \<open>Properties\<close>

text \<open>
  C19: the table-driven checksum is the reflected CRC-32 with polynomial 0xEDB88320: every
  byte is folded into the register and shifted out bit by bit, from all ones, with a final complement.
\<close>

theorem crc32_equals_bitwise:
  "crc32 data = be32 (foldl (\<lambda>crc b. crc_byte (crc XOR ucast b)) 0xFFFFFFFF data XOR 0xFFFFFFFF)"
proof -
  have "crc_update = (\<lambda>crc b. crc_byte (crc XOR ucast b))"
    by (intro ext) (rule crc_update_bits)
  then show ?thesis by (simp add: crc32_def)
qed

text \<open>
  Two messages that differ in exactly one byte have different checksums.
\<close>

theorem crc32_detects_byte_error:
  assumes "a \<noteq> b"
  shows "crc32 (xs @ a # ys) \<noteq> crc32 (xs @ b # ys)"
  using assms by (rule crc32_byte_change)

theorem crc32_detects_byte_error_witness:
  "crc32 [4, 0x12, 0x34] \<noteq> crc32 [4, 0x12, 0x35]"
  using crc32_detects_byte_error [of "0x34" "0x35" "[4, 0x12]" "[]"] by simp

text \<open>
  For a positive modulus, square-and-multiply computes the power modulo the modulus.
\<close>

theorem mod_pow_correct:
  assumes "0 < m"
  shows "mod_pow base exp m = base ^ exp mod m"
  using assms by (rule mod_pow_value)

theorem mod_pow_correct_witness: "mod_pow 7 5 11 = 7 ^ 5 mod 11"
  using mod_pow_correct [of 11 7 5] by simp

text \<open>
  The point the map returns is 32 bytes long and the canonical little-endian encoding
  of a field element below 2^255 - 19; the top bit of the input does not influence it.
\<close>

theorem elligator2_canonical:
  "length (elligator2 input) = 32 \<and> from_bytes_le (elligator2 input) < curve_p
   \<and> elligator2 (input[31 := input ! 31 AND 0x7f]) = elligator2 input"
proof -
  obtain y where "elligator2 input = bytes_le 32 (y mod curve_p)"
    using elligator2_shape by blast
  moreover have "0 < curve_p" by (simp add: curve_p_def)
  ultimately obtain x where x: "x < curve_p" "elligator2 input = bytes_le 32 x"
    by (meson mod_less_divisor)
  have "curve_p < 256 ^ 32" by (simp add: curve_p_def)
  with x have "from_bytes_le (elligator2 input) = x"
    by (simp add: from_bytes_le_bytes_le)
  moreover have "(input[31 := input ! 31 AND 0x7f])[31 := input[31 := input ! 31 AND 0x7f] ! 31 AND 0x7f]
      = input[31 := input ! 31 AND 0x7f]"
    by (cases "31 < length input") (simp_all add: and.assoc list_update_beyond)
  then have "elligator2 (input[31 := input ! 31 AND 0x7f]) = elligator2 input"
    unfolding elligator2_def by (simp only: Let_def)
  ultimately show ?thesis using x by simp
qed

text \<open>
  Two nonces give the same 12-byte initialisation vector only when they are equal.
\<close>

theorem iv_distinct:
  "length (get_iv_from_nonce n) = 12 \<and> (get_iv_from_nonce n = get_iv_from_nonce m \<longleftrightarrow> n = m)"
  by (auto simp: get_iv_from_nonce_def dest: be32_inj)

end
