(* ===== verification/Thp_Frame.thy ===== *)
theory Thp_Frame
  imports Thp_State Thp_Crypto Protocol_V1
begin

text \<open>
  Framing of the encrypted protocol: the control bytes (\<^verbatim>\<open>constants.rs\<close>), their
  classification (\<^verbatim>\<open>protocol/thp/mod.rs\<close>), encoding (\<^verbatim>\<open>encode.rs\<close>), decoding
  (\<^verbatim>\<open>decode.rs\<close>) and the checks the transport makes on a received frame
  (\<^verbatim>\<open>validate_crc\<close>, \<^verbatim>\<open>validate_channel\<close> of \<^verbatim>\<open>transport/callback.rs\<close>).
  The random nonce of a channel allocation request is an argument.
\<close>

section \<open>Definitions\<close>

definition THP_HEADER_SIZE :: nat where "THP_HEADER_SIZE = 3"
definition THP_MESSAGE_LEN_SIZE :: nat where "THP_MESSAGE_LEN_SIZE = 2"
definition CRC_LENGTH :: nat where "CRC_LENGTH = 4"

definition HANDSHAKE_INIT_REQ :: u8 where "HANDSHAKE_INIT_REQ = 0x00"
definition HANDSHAKE_INIT_RES :: u8 where "HANDSHAKE_INIT_RES = 0x01"
definition HANDSHAKE_COMP_REQ :: u8 where "HANDSHAKE_COMP_REQ = 0x02"
definition HANDSHAKE_COMP_RES :: u8 where "HANDSHAKE_COMP_RES = 0x03"
definition ENCRYPTED :: u8 where "ENCRYPTED = 0x04"
definition ACK_MESSAGE :: u8 where "ACK_MESSAGE = 0x20"
definition CHANNEL_ALLOCATION_REQ :: u8 where "CHANNEL_ALLOCATION_REQ = 0x40"
definition CHANNEL_ALLOCATION_RES :: u8 where "CHANNEL_ALLOCATION_RES = 0x41"
definition ERROR :: u8 where "ERROR = 0x42"
definition PING :: u8 where "PING = 0x43"
definition PONG :: u8 where "PONG = 0x44"
definition CONTINUATION_PACKET :: u8 where "CONTINUATION_PACKET = 0x80"

lemmas thp_control_defs =
  HANDSHAKE_INIT_REQ_def HANDSHAKE_INIT_RES_def HANDSHAKE_COMP_REQ_def HANDSHAKE_COMP_RES_def
  ENCRYPTED_def ACK_MESSAGE_def CHANNEL_ALLOCATION_REQ_def CHANNEL_ALLOCATION_RES_def ERROR_def
  PING_def PONG_def CONTINUATION_PACKET_def

definition THP_DEFAULT_CHANNEL :: "u8 \<times> u8" where
  "THP_DEFAULT_CHANNEL = (0xff, 0xff)"

definition decode_control_byte :: "u8 \<Rightarrow> u8 option" where
  "decode_control_byte ctrl_byte =
     (let data_type = ctrl_byte AND 0xe7 in
      if data_type \<in> {HANDSHAKE_INIT_REQ, HANDSHAKE_INIT_RES, HANDSHAKE_COMP_REQ, HANDSHAKE_COMP_RES, ENCRYPTED}
      then Some data_type
      else let ack_type = ctrl_byte AND 0xf7 in
      if ack_type = ACK_MESSAGE then Some ack_type
      else if ctrl_byte \<in> {CHANNEL_ALLOCATION_REQ, CHANNEL_ALLOCATION_RES, PING, PONG, ERROR}
      then Some ctrl_byte
      else None)"

definition is_ack_expected :: "u8 \<Rightarrow> bool" where
  "is_ack_expected ctrl_byte \<longleftrightarrow>
     (let data_type = ctrl_byte AND 0xe7 in
      data_type \<in> {HANDSHAKE_INIT_REQ, HANDSHAKE_INIT_RES, HANDSHAKE_COMP_REQ, HANDSHAKE_COMP_RES, ENCRYPTED})"

subsection \<open>Text of bytes\<close>

text \<open>\<^verbatim>\<open>{:02x}\<close> and \<^verbatim>\<open>{:02X}\<close>: at least two hexadecimal digits.\<close>

definition hex_digit :: "char \<Rightarrow> nat \<Rightarrow> char" where
  "hex_digit ten d = (if d < 10 then digit_char d else char_of (of_char ten + (d - 10)))"

fun show_hex :: "char \<Rightarrow> nat \<Rightarrow> string" where
  "show_hex ten n = (if n < 16 then [hex_digit ten n] else show_hex ten (n div 16) @ [hex_digit ten (n mod 16)])"

declare show_hex.simps [simp del]

definition show_hex2 :: "char \<Rightarrow> nat \<Rightarrow> string" where
  "show_hex2 ten n = (if n < 16 then ''0'' else '''') @ show_hex ten n"

text \<open>\<^verbatim>\<open>{:02x?}\<close> of a byte slice\<close>

fun commas :: "string list \<Rightarrow> string" where
  "commas [] = ''''"
| "commas [s] = s"
| "commas (s # t # ss) = s @ '', '' @ commas (t # ss)"

definition show_bytes :: "bytes \<Rightarrow> string" where
  "show_bytes bs = ''['' @ commas (map (\<lambda>b. show_hex2 (CHR ''a'') (unat b)) bs) @ '']''"

text \<open>\<^verbatim>\<open>String::from_utf8_lossy\<close>: the longest prefix of a valid sequence that turns out
  invalid becomes one replacement character (bytes EF BF BD).\<close>

definition is_cont :: "u8 \<Rightarrow> bool" where
  "is_cont b \<longleftrightarrow> 0x80 \<le> b \<and> b \<le> 0xBF"

definition second_ok :: "u8 \<Rightarrow> u8 \<Rightarrow> bool" where
  "second_ok a b \<longleftrightarrow>
     (if a = 0xE0 then 0xA0 \<le> b \<and> b \<le> 0xBF
      else if a = 0xED then 0x80 \<le> b \<and> b \<le> 0x9F
      else if a = 0xF0 then 0x90 \<le> b \<and> b \<le> 0xBF
      else if a = 0xF4 then 0x80 \<le> b \<and> b \<le> 0x8F
      else is_cont b)"

definition utf8_width :: "u8 \<Rightarrow> nat" where
  "utf8_width a =
     (if a < 0x80 then 1
      else if 0xC2 \<le> a \<and> a \<le> 0xDF then 2
      else if 0xE0 \<le> a \<and> a \<le> 0xEF then 3
      else if 0xF0 \<le> a \<and> a \<le> 0xF4 then 4
      else 0)"

definition valid_run :: "bytes \<Rightarrow> nat" where
  "valid_run bs =
     (case bs of
        [] \<Rightarrow> 0
      | a # rest \<Rightarrow>
          (case rest of
             [] \<Rightarrow> 1
           | b # rest' \<Rightarrow>
               if utf8_width a < 2 \<or> \<not> second_ok a b then 1
               else 2 + length (takeWhile is_cont (take (utf8_width a - 2) rest'))))"

function from_utf8_lossy :: "bytes \<Rightarrow> string" where
  "from_utf8_lossy bs =
     (if bs = [] then ''''
      else let n = valid_run bs in
        (if n = utf8_width (hd bs) then map (\<lambda>b. char_of (unat b)) (take n bs)
         else [char_of (0xEF :: nat), char_of (0xBF :: nat), char_of (0xBD :: nat)])
        @ from_utf8_lossy (drop n bs))"
  by pat_completeness auto
termination
  by (relation "measure length") (auto simp: valid_run_def split: list.splits)

declare from_utf8_lossy.simps [simp del]

subsection \<open>Encoding\<close>

definition encrypt_payload :: "primitives \<Rightarrow> ThpState \<Rightarrow> bytes \<Rightarrow> bytes \<Rightarrow> bytes result" where
  "encrypt_payload prim state key plaintext =
     (if length key \<noteq> 32 then thp_err (EncryptionError ''Invalid key length'')
      else
        let send_nonce = send_nonce state;
            iv = get_iv_from_nonce send_nonce;
            aad = []
        in aes_gcm_encrypt prim key iv aad plaintext)"

definition encode_thp_message :: "primitives \<Rightarrow> ThpState \<Rightarrow> u16 \<Rightarrow> bytes \<Rightarrow> bytes result" where
  "encode_thp_message prim state message_type data =
     (if nonce_exhausted state
      then thp_err (EncryptionError ''Nonce exhausted: re-key required'')
      else
        let channel = channel state;
            control_byte =
              (if is_paired state
               then let sync_bit = send_bit state in ENCRYPTED OR push_bit 4 sync_bit
               else ENCRYPTED)
        in bind_res
             (if is_paired state
              then case handshake_credentials state of
                     None \<Rightarrow> thp_err StateMissing
                   | Some creds \<Rightarrow>
                       let session_id = session_id state;
                           plaintext = [session_id] @ be16 message_type @ data
                       in encrypt_payload prim state (hc_host_key creds) plaintext
              else Inr data)
             (\<lambda>payload.
                let length = (of_nat (length payload) :: u16) + of_nat CRC_LENGTH;
                    message = [control_byte] @ [fst channel, snd channel] @ be16 length @ payload;
                    crc = crc32 message
                in Inr (message @ crc)))"

definition encode_channel_allocation_request :: "bytes \<Rightarrow> bytes" where
  "encode_channel_allocation_request nonce =
     (let length = 8 + of_nat CRC_LENGTH :: u16;
          message = [CHANNEL_ALLOCATION_REQ] @ [fst THP_DEFAULT_CHANNEL, snd THP_DEFAULT_CHANNEL]
            @ be16 length @ nonce;
          crc = crc32 message
      in message @ crc)"

definition encode_handshake_init_request :: "u8 \<times> u8 \<Rightarrow> bytes \<Rightarrow> bool \<Rightarrow> u8 \<Rightarrow> bytes" where
  "encode_handshake_init_request ch host_ephemeral_pubkey try_to_unlock sync =
     (let length = 32 + 1 + of_nat CRC_LENGTH :: u16;
          message = [HANDSHAKE_INIT_REQ OR push_bit 4 sync] @ [fst ch, snd ch]
            @ be16 length @ host_ephemeral_pubkey @ [if try_to_unlock then 1 else 0];
          crc = crc32 message
      in message @ crc)"

definition encode_handshake_completion_request :: "u8 \<times> u8 \<Rightarrow> bytes \<Rightarrow> bytes \<Rightarrow> u8 \<Rightarrow> bytes" where
  "encode_handshake_completion_request ch encrypted_host_static_pubkey encrypted_payload sync =
     (let payload_len = length encrypted_host_static_pubkey + length encrypted_payload;
          length = (of_nat payload_len :: u16) + of_nat CRC_LENGTH;
          message = [HANDSHAKE_COMP_REQ OR push_bit 4 sync] @ [fst ch, snd ch]
            @ be16 length @ encrypted_host_static_pubkey @ encrypted_payload;
          crc = crc32 message
      in message @ crc)"

definition encode_ack :: "u8 \<times> u8 \<Rightarrow> u8 \<Rightarrow> bytes" where
  "encode_ack ch ack_bit =
     (let length = of_nat CRC_LENGTH :: u16;
          message = [ACK_MESSAGE OR push_bit 3 ack_bit] @ [fst ch, snd ch] @ be16 length;
          crc = crc32 message
      in message @ crc)"

definition encode_encrypted_message :: "primitives \<Rightarrow> ThpState \<Rightarrow> u16 \<Rightarrow> bytes \<Rightarrow> bytes result" where
  "encode_encrypted_message prim state protobuf_type protobuf_data =
     (case handshake_credentials state of
        None \<Rightarrow> thp_err StateMissing
      | Some creds \<Rightarrow>
          let channel = channel state;
              sync_bit = send_bit state;
              session_id = session_id state;
              payload = [session_id] @ be16 protobuf_type @ protobuf_data
          in bind_res (encrypt_payload prim state (hc_host_key creds) payload) (\<lambda>encrypted.
               let length = (of_nat (length encrypted) :: u16) + of_nat CRC_LENGTH;
                   message = [ENCRYPTED OR push_bit 4 sync_bit] @ [fst channel, snd channel]
                     @ be16 length @ encrypted;
                   crc = crc32 message
               in Inr (message @ crc)))"


subsection \<open>Decoding\<close>

definition decode_thp_message :: "bytes \<Rightarrow> DecodedMessage result" where
  "decode_thp_message buffer =
     (let min_size = THP_HEADER_SIZE + THP_MESSAGE_LEN_SIZE in
      if length buffer < min_size then protocol_err (MessageTooShort min_size (length buffer))
      else
        let control_byte = buffer ! 0 in
        case decode_control_byte control_byte of
          None \<Rightarrow> protocol_err (InvalidMessageType (ucast control_byte))
        | Some message_type \<Rightarrow>
            let len = (ucast (from_be16 (buffer ! 3) (buffer ! 4)) :: u32);
                crc_len = 4;
                data_after_header = drop min_size buffer;
                payload =
                  (if crc_len < unat len \<and> unat len \<le> length data_after_header
                   then take (unat len - crc_len) data_after_header
                   else if crc_len < length data_after_header
                   then take (length data_after_header - crc_len) data_after_header
                   else data_after_header)
            in Inr \<lparr>dm_message_type = ucast message_type, dm_length = len, dm_payload = payload\<rparr>)"

definition decode_encrypted_message :: "primitives \<Rightarrow> ThpState \<Rightarrow> bytes \<Rightarrow> (u16 \<times> bytes) result" where
  "decode_encrypted_message prim state buffer =
     bind_res (decode_thp_message buffer) (\<lambda>decoded.
       case handshake_credentials state of
         None \<Rightarrow> thp_err StateMissing
       | Some creds \<Rightarrow>
           if length (hc_trezor_key creds) \<noteq> 32 then thp_err (DecryptionError ''Invalid key length'')
           else
             let key = hc_trezor_key creds;
                 iv = get_iv_from_nonce (recv_nonce state)
             in bind_res (aes_gcm_decrypt prim key iv [] (dm_payload decoded)) (\<lambda>decrypted.
                  if length decrypted < 3
                  then protocol_err (Malformed ''Decrypted payload too short'')
                  else
                    let protobuf_type = from_be16 (decrypted ! 1) (decrypted ! 2);
                        protobuf_data = drop 3 decrypted
                    in Inr (protobuf_type, protobuf_data)))"

definition unexpected_type :: "string \<Rightarrow> DecodedMessage \<Rightarrow> 'a result" where
  "unexpected_type expected decoded =
     protocol_err (UnexpectedResponse expected (''0x'' @ show_hex2 (CHR ''A'') (unat (dm_message_type decoded))))"

definition parse_channel_allocation_response :: "bytes \<Rightarrow> (u8 \<times> u8) result" where
  "parse_channel_allocation_response buffer =
     bind_res (decode_thp_message buffer) (\<lambda>decoded.
       if dm_message_type decoded \<noteq> ucast CHANNEL_ALLOCATION_RES
       then unexpected_type ''ChannelAllocationResponse'' decoded
       else if length buffer < 3 then protocol_err (Malformed ''Response too short'')
       else Inr (buffer ! 1, buffer ! 2))"

record HandshakeInitResponse =
  ir_trezor_ephemeral_pubkey :: bytes
  ir_trezor_encrypted_static_pubkey :: bytes
  ir_tag :: bytes

definition parse_handshake_init_response :: "bytes \<Rightarrow> HandshakeInitResponse result" where
  "parse_handshake_init_response buffer =
     bind_res (decode_thp_message buffer) (\<lambda>decoded.
       if dm_message_type decoded \<noteq> ucast HANDSHAKE_INIT_RES
       then unexpected_type ''HandshakeInitResponse'' decoded
       else if length (dm_payload decoded) < 96
       then protocol_err (Malformed ''HandshakeInitResponse payload too short'')
       else Inr \<lparr>ir_trezor_ephemeral_pubkey = take 32 (dm_payload decoded),
                 ir_trezor_encrypted_static_pubkey = take 48 (drop 32 (dm_payload decoded)),
                 ir_tag = take 16 (drop 80 (dm_payload decoded))\<rparr>)"

definition decode_handshake_completion_response :: "bytes \<Rightarrow> bytes result" where
  "decode_handshake_completion_response buffer =
     bind_res (decode_thp_message buffer) (\<lambda>decoded.
       if dm_message_type decoded \<noteq> ucast HANDSHAKE_COMP_RES
       then unexpected_type ''HandshakeCompletionResponse'' decoded
       else Inr (dm_payload decoded))"

definition parse_ack :: "bytes \<Rightarrow> u8 result" where
  "parse_ack buffer =
     bind_res (decode_thp_message buffer) (\<lambda>decoded.
       let ack_type = buffer ! 0 AND 0xf7 in
       if ack_type \<noteq> ACK_MESSAGE then unexpected_type ''ACK'' decoded
       else
         let ack_bit = drop_bit 3 (buffer ! 0) AND 0x01
         in Inr ack_bit)"

definition parse_error :: "bytes \<Rightarrow> (u8 \<times> string) result" where
  "parse_error buffer =
     bind_res (decode_thp_message buffer) (\<lambda>decoded.
       if dm_message_type decoded \<noteq> ucast ERROR then unexpected_type ''Error'' decoded
       else
         let error_code = (if dm_payload decoded \<noteq> [] then dm_payload decoded ! 0 else 0);
             error_message =
               (if 1 < length (dm_payload decoded) then from_utf8_lossy (drop 1 (dm_payload decoded))
                else ''Unknown error'')
         in Inr (error_code, error_message))"

definition is_ack_message :: "bytes \<Rightarrow> bool" where
  "is_ack_message buffer = (if buffer = [] then False else buffer ! 0 AND 0xf7 = ACK_MESSAGE)"

definition is_error_message :: "bytes \<Rightarrow> bool" where
  "is_error_message buffer = (if buffer = [] then False else buffer ! 0 = ERROR)"

definition get_recv_sync_bit :: "bytes \<Rightarrow> u8 option" where
  "get_recv_sync_bit buffer =
     (if buffer = [] then None
      else
        let control = buffer ! 0;
            data_type = control AND 0xe7
        in if data_type \<in> {HANDSHAKE_INIT_RES, HANDSHAKE_COMP_RES, ENCRYPTED}
           then Some (drop_bit 4 control AND 0x01) else None)"

subsection \<open>The protocol object\<close>

record ProtocolThp =
  thp_protocol_state :: ThpState
  thp_chunk_size :: nat

definition protocol_thp_new :: ProtocolThp where
  "protocol_thp_new = \<lparr>thp_protocol_state = thp_new, thp_chunk_size = BLE_CHUNK_SIZE\<rparr>"

definition protocol_thp_reset :: "ProtocolThp \<Rightarrow> ProtocolThp" where
  "protocol_thp_reset self = self\<lparr>thp_protocol_state := thp_reset (thp_protocol_state self)\<rparr>"

definition thp_encode :: "primitives \<Rightarrow> ProtocolThp \<Rightarrow> u16 \<Rightarrow> bytes \<Rightarrow> bytes result" where
  "thp_encode prim self message_type data = encode_thp_message prim (thp_protocol_state self) message_type data"

definition thp_decode :: "ProtocolThp \<Rightarrow> bytes \<Rightarrow> DecodedMessage result" where
  "thp_decode self buffer = decode_thp_message buffer"

definition thp_get_headers :: "ProtocolThp \<Rightarrow> bytes \<Rightarrow> bytes \<times> bytes" where
  "thp_get_headers self data =
     (let message_header = (if THP_HEADER_SIZE \<le> length data then take THP_HEADER_SIZE data else data);
          channel = channel (thp_protocol_state self);
          chunk_header = [CONTINUATION_PACKET, fst channel, snd channel]
      in (message_header, chunk_header))"

definition thp_is_continuation :: "ProtocolThp \<Rightarrow> bytes \<Rightarrow> bool" where
  "thp_is_continuation self buffer = (if buffer = [] then False else buffer ! 0 = CONTINUATION_PACKET)"

subsection \<open>Checks on received frames\<close>

definition validate_crc :: "bytes \<Rightarrow> unit result" where
  "validate_crc data =
     (if length data < 9 then Inr ()
      else
        let payload_len = unat (from_be16 (data ! 3) (data ! 4));
            total_expected = 5 + payload_len
        in if length data < total_expected \<or> payload_len < 4 then Inr ()
           else
             let crc_offset = 5 + payload_len - 4;
                 message_part = take crc_offset data;
                 received_crc = take 4 (drop crc_offset data);
                 computed_crc = crc32 message_part
             in if received_crc \<noteq> computed_crc
                then thp_err (DecryptionError (''CRC32 mismatch: expected '' @ show_bytes computed_crc
                       @ '', got '' @ show_bytes received_crc))
                else Inr ())"

definition validate_channel :: "bytes \<Rightarrow> u8 \<times> u8 \<Rightarrow> unit result" where
  "validate_channel data expected_channel =
     (if length data < 3 then Inr ()
      else if data ! 0 = CHANNEL_ALLOCATION_RES then Inr ()
      else
        let msg_channel = take 2 (drop 1 data) in
        if msg_channel \<noteq> [fst expected_channel, snd expected_channel]
        then thp_err (DecryptionError (''Channel mismatch: expected ''
               @ show_bytes [fst expected_channel, snd expected_channel] @ '', got '' @ show_bytes msg_channel))
        else Inr ())"


section \<open>Frames\<close>

text \<open>What every encoder builds: control byte, channel, length of payload and checksum, payload,
  checksum.\<close>

definition frame_body :: "u8 \<Rightarrow> u8 \<times> u8 \<Rightarrow> bytes \<Rightarrow> bytes" where
  "frame_body ctrl ch payload = [ctrl, fst ch, snd ch] @ be16 (of_nat (length payload) + 4) @ payload"

definition thp_frame :: "u8 \<Rightarrow> u8 \<times> u8 \<Rightarrow> bytes \<Rightarrow> bytes" where
  "thp_frame ctrl ch payload = frame_body ctrl ch payload @ crc32 (frame_body ctrl ch payload)"

lemmas frame_defs = thp_frame_def frame_body_def

lemma length_frame_body [simp]: "length (frame_body ctrl ch payload) = 5 + length payload"
  by (simp add: frame_body_def)

lemma encode_ack_frame: "encode_ack ch b = thp_frame (ACK_MESSAGE OR push_bit 3 b) ch []"
  by (simp add: encode_ack_def frame_defs CRC_LENGTH_def)

lemma encode_completion_frame:
  "encode_handshake_completion_request ch k p b = thp_frame (HANDSHAKE_COMP_REQ OR push_bit 4 b) ch (k @ p)"
  by (simp add: encode_handshake_completion_request_def frame_defs CRC_LENGTH_def Let_def)

lemma encode_init_frame:
  "length k = 32 \<Longrightarrow> encode_handshake_init_request ch k u b
     = thp_frame (HANDSHAKE_INIT_REQ OR push_bit 4 b) ch (k @ [if u then 1 else 0])"
  by (simp add: encode_handshake_init_request_def frame_defs CRC_LENGTH_def Let_def)

lemma encode_allocation_frame:
  "length n = 8 \<Longrightarrow> encode_channel_allocation_request n
     = thp_frame CHANNEL_ALLOCATION_REQ THP_DEFAULT_CHANNEL n"
  by (simp add: encode_channel_allocation_request_def frame_defs CRC_LENGTH_def Let_def)

lemma encode_encrypted_frame:
  "encode_encrypted_message prim s t d =
     (case handshake_credentials s of
        None \<Rightarrow> thp_err StateMissing
      | Some creds \<Rightarrow>
          map_res (thp_frame (ENCRYPTED OR push_bit 4 (send_bit s)) (channel s))
            (encrypt_payload prim s (hc_host_key creds) ([session_id s] @ be16 t @ d)))"
proof (cases "handshake_credentials s")
  case (Some creds)
  then show ?thesis
    by (cases "encrypt_payload prim s (hc_host_key creds) (session_id s # be16 t @ d)")
      (simp_all add: encode_encrypted_message_def frame_defs CRC_LENGTH_def Let_def)
qed (simp add: encode_encrypted_message_def)

lemma unat_frame_length:
  assumes "length payload < 65532"
  shows "unat (of_nat (length payload) + 4 :: u16) = length payload + 4"
proof -
  have "of_nat (length payload) + 4 = (of_nat (length payload + 4) :: u16)" by simp
  then show ?thesis
    using unat_of_nat_u16 [of "length payload + 4"] assms by (simp del: of_nat_add)
qed

lemma decode_frame:
  assumes "decode_control_byte ctrl = Some ty" and "0 < length payload" and "length payload < 65532"
  shows "decode_thp_message (thp_frame ctrl ch payload @ pad)
    = Inr \<lparr>dm_message_type = ucast ty, dm_length = of_nat (length payload + 4), dm_payload = payload\<rparr>"
proof -
  let ?l = "of_nat (length payload) + 4 :: u16"
  have u: "unat (ucast ?l :: u32) = length payload + 4"
    using unat_frame_length [OF assms(3)] assms(3) by (simp add: unsigned_ucast_eq take_bit_eq_mod)
  then have "(ucast ?l :: u32) = of_nat (length payload + 4)"
    using assms(3) unat_of_nat_u32 [of "length payload + 4"] by (simp add: word_unat_eq_iff del: of_nat_add)
  with u show ?thesis
    using assms by (simp add: decode_thp_message_def frame_defs THP_HEADER_SIZE_def
        THP_MESSAGE_LEN_SIZE_def be16_def be_simps)
qed

lemma encode_paired_frame:
  "is_paired s \<Longrightarrow> \<not> nonce_exhausted s \<Longrightarrow> encode_thp_message prim s t d = encode_encrypted_message prim s t d"
  by (simp add: encode_thp_message_def encode_encrypted_message_def Let_def split: option.splits)

text \<open>The control byte of a data frame carries the sync bit beside the type.\<close>

lemma control_byte_sync:
  fixes b :: u8
  assumes "b \<in> {0, 1}" and "ty \<in> {HANDSHAKE_INIT_REQ, HANDSHAKE_INIT_RES, HANDSHAKE_COMP_REQ, HANDSHAKE_COMP_RES, ENCRYPTED}"
  shows "(ty OR push_bit 4 b) AND 0xe7 = ty" and "drop_bit 4 (ty OR push_bit 4 b) AND 1 = b"
  using assms by (auto simp: thp_control_defs push_bit_eq_mult drop_bit_eq_div)

lemma decode_data_control:
  assumes "b \<in> {0, 1}" and "ty \<in> {HANDSHAKE_INIT_REQ, HANDSHAKE_INIT_RES, HANDSHAKE_COMP_REQ, HANDSHAKE_COMP_RES, ENCRYPTED}"
  shows "decode_control_byte (ty OR push_bit 4 b) = Some ty"
  using assms(2) by (simp add: decode_control_byte_def Let_def control_byte_sync(1) [OF assms])

lemma control_byte_ack:
  fixes b :: u8
  assumes "b \<in> {0, 1}"
  shows "(ACK_MESSAGE OR push_bit 3 b) AND 0xf7 = ACK_MESSAGE"
    and "drop_bit 3 (ACK_MESSAGE OR push_bit 3 b) AND 1 = b"
    and "decode_control_byte (ACK_MESSAGE OR push_bit 3 b) = Some ACK_MESSAGE"
  using assms by (auto simp: decode_control_byte_def thp_control_defs push_bit_eq_mult drop_bit_eq_div)

section \<open>Checksums of frames\<close>

lemma validate_crc_cases:
  assumes "length payload < 65532" and "length m = 5 + length payload" and "length c = 4"
    and "take 2 (drop 3 m) = be16 (of_nat (length payload) + 4)"
  shows "validate_crc (m @ c) = Inr () \<longleftrightarrow> c = crc32 m"
proof -
  let ?l = "of_nat (length payload) + 4 :: u16"
  have "m ! 3 = be16 ?l ! 0 \<and> m ! 4 = be16 ?l ! 1"
    using assms(2) nth_take [of 0 2 "drop 3 m"] nth_take [of 1 2 "drop 3 m"]
    by (simp flip: assms(4))
  then have "from_be16 ((m @ c) ! 3) ((m @ c) ! 4) = ?l"
    using assms(2) by (simp add: nth_append be16_def be_simps)
  moreover have "unat ?l = length payload + 4" by (rule unat_frame_length) (rule assms(1))
  ultimately show ?thesis
    using assms(2,3) by (simp add: validate_crc_def Let_def)
qed

lemma crc32_update:
  assumes "i < length m" and "m ! i \<noteq> b"
  shows "crc32 (m[i := b]) \<noteq> crc32 m"
proof -
  have "m = take i m @ m ! i # drop (Suc i) m" "m[i := b] = take i m @ b # drop (Suc i) m"
    using assms(1) by (simp_all add: id_take_nth_drop upd_conv_take_nth_drop)
  then show ?thesis using crc32_byte_change assms(2) by metis
qed

lemma frame_body_length_field: "take 2 (drop 3 (frame_body ctrl ch payload)) = be16 (of_nat (length payload) + 4)"
  by (simp add: frame_body_def)

lemma validate_crc_frame:
  "length payload < 65532 \<Longrightarrow> validate_crc (thp_frame ctrl ch payload) = Inr ()"
  using validate_crc_cases [OF _ length_frame_body length_crc32 frame_body_length_field]
  by (simp add: thp_frame_def)

lemma validate_crc_corrupted:
  assumes p: "length payload < 65532" and i: "i < length (thp_frame ctrl ch payload)" "i \<noteq> 3" "i \<noteq> 4"
    and b: "thp_frame ctrl ch payload ! i \<noteq> b"
  shows "validate_crc ((thp_frame ctrl ch payload)[i := b]) \<noteq> Inr ()"
proof -
  let ?m = "frame_body ctrl ch payload"
  show ?thesis
  proof (cases "i < length ?m")
    case True
    have "take 2 (drop 3 (?m[i := b])) = be16 (of_nat (length payload) + 4)"
    proof -
      have "take 2 (drop 3 (?m[i := b])) = take 2 (drop 3 ?m)"
        using i(2,3) by (rule_tac nth_equalityI) (auto simp: less_Suc_eq numeral_2_eq_2)
      then show ?thesis by (simp only: frame_body_length_field)
    qed
    then have "validate_crc (?m[i := b] @ crc32 ?m) = Inr () \<longleftrightarrow> crc32 ?m = crc32 (?m[i := b])"
      using p by (intro validate_crc_cases) simp_all
    moreover have "crc32 (?m[i := b]) \<noteq> crc32 ?m"
      using True b by (intro crc32_update) (simp_all add: thp_frame_def nth_append)
    ultimately show ?thesis using True by (simp add: thp_frame_def list_update_append)
  next
    case False
    let ?c = "(crc32 ?m)[i - length ?m := b]"
    have "validate_crc (?m @ ?c) = Inr () \<longleftrightarrow> ?c = crc32 ?m"
      using p by (intro validate_crc_cases [OF _ length_frame_body _ frame_body_length_field]) simp_all
    moreover have "i - length ?m < 4" using i(1) False by (simp add: thp_frame_def)
    then have "?c ! (i - length ?m) = b" by simp
    then have "?c \<noteq> crc32 ?m" using b False by (auto simp: thp_frame_def nth_append)
    ultimately show ?thesis using False by (simp add: thp_frame_def list_update_append)
  qed
qed

section \<open>Properties\<close>

text \<open>
  What the protocol needs of AES-GCM: decryption undoes encryption under the same key, vector and
  associated data, and the ciphertext is the plaintext's length plus a 16-byte tag.
\<close>

definition aead_ok :: "primitives \<Rightarrow> bool" where
  "aead_ok prim \<longleftrightarrow>
     (\<forall>k iv aad p. \<exists>c. p_aes_encrypt prim k iv aad p = Some c \<and> length c = length p + 16
        \<and> p_aes_decrypt prim k iv aad c = Some p)"

text \<open>An instance of the primitives that satisfies it: the plaintext with a constant tag.\<close>

definition plain_prim :: primitives where
  "plain_prim =
     \<lparr>p_sha256 = \<lambda>m. replicate 32 0, p_sha512 = \<lambda>m. replicate 64 0, p_hmac_sha256 = \<lambda>k m. replicate 32 0,
      p_aes_encrypt = \<lambda>k iv aad p. Some (p @ replicate 16 0),
      p_aes_decrypt = \<lambda>k iv aad c. if length c < 16 then None else Some (take (length c - 16) c),
      p_x25519_base = \<lambda>s. s, p_x25519 = \<lambda>s p. replicate 32 0\<rparr>"

lemma aead_ok_plain: "aead_ok plain_prim"
  by (simp add: aead_ok_def plain_prim_def)

lemma encrypt_payload_ok:
  assumes "aead_ok prim" and "length key = 32"
  obtains c where "encrypt_payload prim s key p = Inr c" and "length c = length p + 16"
    and "aes_gcm_decrypt prim key (get_iv_from_nonce (send_nonce s)) [] c = Inr p"
proof -
  obtain c where "p_aes_encrypt prim key (get_iv_from_nonce (send_nonce s)) [] p = Some c"
      "length c = length p + 16" "p_aes_decrypt prim key (get_iv_from_nonce (send_nonce s)) [] c = Some p"
    using assms(1) unfolding aead_ok_def by blast
  then show thesis using that assms(2) by (simp add: encrypt_payload_def aes_gcm_encrypt_def aes_gcm_decrypt_def)
qed

text \<open>
  C7: a message encoded on one side of a channel decodes, whatever padding follows
  it, to its type and data on the other: the peer whose receive key and receive nonce are the
  sender's send key and send nonce. Data of up to 65512 bytes fits.
\<close>

theorem thp_encrypted_roundtrip:
  assumes "aead_ok prim"
    and "handshake_credentials s = Some cs" and "length (hc_host_key cs) = 32" and "send_bit s \<in> {0, 1}"
    and "handshake_credentials r = Some cr" and "hc_trezor_key cr = hc_host_key cs"
    and "recv_nonce r = send_nonce s"
    and "length data \<le> 65512"
  shows "\<exists>msg. encode_encrypted_message prim s t data = Inr msg
    \<and> decode_encrypted_message prim r (msg @ pad) = Inr (t, data)
    \<and> get_recv_sync_bit msg = Some (send_bit s) \<and> validate_channel msg (channel s) = Inr ()"
proof -
  let ?p = "[session_id s] @ be16 t @ data" and ?ctrl = "ENCRYPTED OR push_bit 4 (send_bit s)"
  obtain c where c: "encrypt_payload prim s (hc_host_key cs) ?p = Inr c" "length c = length ?p + 16"
    "aes_gcm_decrypt prim (hc_host_key cs) (get_iv_from_nonce (send_nonce s)) [] c = Inr ?p"
    using encrypt_payload_ok [OF assms(1,3)] by metis
  let ?msg = "thp_frame ?ctrl (channel s) c"
  have "encode_encrypted_message prim s t data = Inr ?msg"
    using assms(2) c(1) by (simp add: encode_encrypted_frame)
  moreover have "decode_thp_message (?msg @ pad)
      = Inr \<lparr>dm_message_type = ucast ENCRYPTED, dm_length = of_nat (length c + 4), dm_payload = c\<rparr>"
    using assms(8) c(2) by (intro decode_frame decode_data_control assms(4)) simp_all
  then have "decode_encrypted_message prim r (?msg @ pad) = Inr (t, data)"
    using assms(3,5-7) c(3) by (simp add: decode_encrypted_message_def be16_def be_simps)
  moreover have "get_recv_sync_bit ?msg = Some (send_bit s)"
    using control_byte_sync [OF assms(4), of ENCRYPTED]
    by (simp add: get_recv_sync_bit_def frame_defs Let_def)
  moreover have "validate_channel ?msg (channel s) = Inr ()"
    by (simp add: validate_channel_def frame_defs)
  ultimately show ?thesis by blast
qed

text \<open>Two ends of a channel, to instantiate the hypotheses.\<close>

definition sample_credentials :: ThpHandshakeCredentials where
  "sample_credentials =
     \<lparr>hc_pairing_methods = [], hc_handshake_hash = [], hc_handshake_commitment = [],
      hc_code_entry_challenge = [], hc_trezor_encrypted_static_pubkey = [],
      hc_host_encrypted_static_pubkey = [], hc_static_key = [], hc_host_static_public_key = [],
      hc_host_key = replicate 32 7, hc_trezor_key = replicate 32 7, hc_trezor_cpace_public_key = []\<rparr>"

definition sample_end :: ThpState where
  "sample_end = thp_new\<lparr>handshake_credentials := Some sample_credentials, is_paired := True,
     channel := (0x12, 0x34), send_nonce := 1\<rparr>"

theorem thp_encrypted_roundtrip_witness:
  "\<exists>msg. encode_encrypted_message plain_prim sample_end 55 [1, 2] = Inr msg
    \<and> decode_encrypted_message plain_prim sample_end (msg @ replicate 200 0) = Inr (55, [1, 2])"
proof -
  have "handshake_credentials sample_end = Some sample_credentials" "send_bit sample_end \<in> {0, 1}"
    "recv_nonce sample_end = send_nonce sample_end"
    "length (hc_host_key sample_credentials) = 32"
    "hc_trezor_key sample_credentials = hc_host_key sample_credentials"
    by (simp_all add: sample_end_def sample_credentials_def thp_new_def)
  with thp_encrypted_roundtrip [OF aead_ok_plain, of sample_end sample_credentials sample_end sample_credentials "[1, 2]" 55]
  show ?thesis by auto
qed

text \<open>
  In a paired state whose exhaustion flag is unset the trait's encoder and the encoder the
  transports call give the same result, errors included.
\<close>

theorem encoders_agree:
  assumes "is_paired s" and "\<not> nonce_exhausted s"
  shows "encode_thp_message prim s t d = encode_encrypted_message prim s t d"
  using assms by (rule encode_paired_frame)

theorem encoders_agree_witness:
  "encode_thp_message plain_prim sample_end 55 [1] = encode_encrypted_message plain_prim sample_end 55 [1]"
  by (rule encoders_agree) (simp_all add: sample_end_def thp_new_def)



text \<open>
  An acknowledgement carries its bit: it is recognised as one, parsed back to the bit, passes
  the checksum and channel tests, and is not itself acknowledged.
\<close>

theorem ack_roundtrip:
  assumes "b \<in> {0, 1}"
  shows "parse_ack (encode_ack ch b) = Inr b \<and> is_ack_message (encode_ack ch b)
    \<and> validate_crc (encode_ack ch b) = Inr () \<and> validate_channel (encode_ack ch b) ch = Inr ()
    \<and> \<not> is_ack_expected (encode_ack ch b ! 0) \<and> get_recv_sync_bit (encode_ack ch b) = None"
proof -
  let ?m = "encode_ack ch b"
  have first: "?m ! 0 = ACK_MESSAGE OR push_bit 3 b" "?m \<noteq> []" "length ?m = 9"
    by (simp_all add: encode_ack_frame frame_defs)
  have ctrl: "(ACK_MESSAGE OR push_bit 3 b) AND 0xe7 = 0x20"
    using assms by (auto simp: thp_control_defs push_bit_eq_mult)
  have "parse_ack ?m = Inr b"
    using control_byte_ack [OF assms]
    by (simp add: parse_ack_def decode_thp_message_def first Let_def THP_HEADER_SIZE_def THP_MESSAGE_LEN_SIZE_def)
  moreover have "is_ack_message ?m" using control_byte_ack [OF assms] first by (simp add: is_ack_message_def)
  moreover have "validate_crc ?m = Inr ()" by (simp add: encode_ack_frame validate_crc_frame)
  moreover have "validate_channel ?m ch = Inr ()"
    by (simp add: validate_channel_def encode_ack_frame frame_defs)
  moreover have "\<not> is_ack_expected (?m ! 0)" "get_recv_sync_bit ?m = None"
    by (simp_all add: is_ack_expected_def get_recv_sync_bit_def first ctrl Let_def) (simp_all add: thp_control_defs)
  ultimately show ?thesis by blast
qed

theorem ack_roundtrip_witness: "parse_ack (encode_ack (0x12, 0x34) 1) = Inr 1"
  using ack_roundtrip [of 1 "(0x12, 0x34)"] by simp

text \<open>
  The decoder strips the checksum only from frames with a payload: an acknowledgement
  decodes with its checksum as payload, although the payload is documented to come without it.
\<close>

theorem ack_payload_is_crc:
  "map_res dm_payload (decode_thp_message (encode_ack (0x12, 0x34) 1))
   = Inr (crc32 [ACK_MESSAGE OR 8, 0x12, 0x34, 0, 4])"
proof -
  have "decode_control_byte (ACK_MESSAGE OR 8) = Some ACK_MESSAGE"
    using control_byte_ack(3) [of 1] by (simp add: push_bit_eq_mult)
  then show ?thesis
    by (simp add: decode_thp_message_def encode_ack_def CRC_LENGTH_def THP_HEADER_SIZE_def
        THP_MESSAGE_LEN_SIZE_def be16_def push_bit_eq_mult from_be16_def drop_bit_eq_div)
qed

text \<open>
  A channel whose send nonce has reached its last value cannot advance it, and the
  encoder, whose guard looks at a flag no method sets, still encrypts: the next message uses the
  same nonce again.
\<close>

theorem exhausted_nonce_reused:
  assumes "send_nonce s = u32_MAX - 1" and "\<not> nonce_exhausted s" and "is_paired s"
    and "handshake_credentials s = Some cs" and "length (hc_host_key cs) = 32" and "aead_ok prim"
  shows "(\<exists>e. update_nonce True s = Inl e) \<and> (\<exists>msg. encode_thp_message prim s t d = Inr msg)"
proof -
  have "encode_thp_message prim s t d = encode_encrypted_message prim s t d"
    using assms(2,3) by (simp add: encode_paired_frame)
  moreover obtain c where "encrypt_payload prim s (hc_host_key cs) ([session_id s] @ be16 t @ d) = Inr c"
    using encrypt_payload_ok [OF assms(6,5)] by metis
  ultimately show ?thesis
    using assms(1,4) by (simp add: update_nonce_def encode_encrypted_frame)
qed

theorem exhausted_nonce_reused_witness:
  "(\<exists>e. update_nonce True (sample_end\<lparr>send_nonce := u32_MAX - 1\<rparr>) = Inl e)
   \<and> (\<exists>msg. encode_thp_message plain_prim (sample_end\<lparr>send_nonce := u32_MAX - 1\<rparr>) 55 [1] = Inr msg)"
  by (rule exhausted_nonce_reused [of _ sample_credentials, OF _ _ _ _ _ aead_ok_plain])
    (simp_all add: sample_end_def thp_new_def sample_credentials_def)

end
