(* ===== verification/Transport_Thp.thy ===== *)
theory Transport_Thp
  imports Transport_V1 Thp_Frame Effects
begin

text \<open>
  Encrypted messages over the callback transport (\<^verbatim>\<open>transport/callback.rs\<close>): writing a frame
  as chunks, reading one back with retries and continuation packets, and the exchange of one
  request and its response. The device and the native layer are a \<open>device\<close> record whose answers
  may depend on everything done so far, kept in \<open>io\<close>. An operation returns \<open>None\<close> when one of
  its loops does not end, and otherwise its result with the new state.
\<close>

section \<open>Definitions\<close>

record io =
  written :: "bytes list"
  reads :: nat

record device =
  dev_write :: "io \<Rightarrow> bytes \<Rightarrow> write_result"
  dev_read :: "io \<Rightarrow> read_result"
  dev_chunk_size :: nat

record BleDeviceState =
  ble_protocol :: ProtocolThp
  handshake_complete :: bool

definition write_chunk :: "device \<Rightarrow> bytes \<Rightarrow> io \<Rightarrow> unit result \<times> io" where
  "write_chunk dev chunk io =
     (let result = dev_write dev io chunk;
          io = io\<lparr>written := written io @ [chunk]\<rparr>
      in (if \<not> wr_success result then transport_err (DataTransfer (wr_error result)) else Inr (), io))"

partial_function (option) write_continuations ::
    "device \<Rightarrow> bytes \<Rightarrow> u8 \<times> u8 \<Rightarrow> nat \<Rightarrow> io \<Rightarrow> (unit result \<times> io) option" where
  "write_continuations dev data ch offset io =
     (if offset < length data
      then
        if dev_chunk_size dev < 3 then Some (Inl Panic, io)
        else
          let chunk_size = dev_chunk_size dev;
              cont_payload_size = chunk_size - 3;
              next_offset = min (offset + cont_payload_size) (length data);
              payload = take (next_offset - offset) (drop offset data);
              cont_chunk = pad_to chunk_size ([CONTINUATION_PACKET, fst ch, snd ch] @ payload)
          in case write_chunk dev cont_chunk io of
               (Inl e, io') \<Rightarrow> Some (Inl e, io')
             | (Inr u, io') \<Rightarrow> write_continuations dev data ch next_offset io'
      else Some (Inr (), io))"

definition write_raw :: "device \<Rightarrow> bytes \<Rightarrow> io \<Rightarrow> (unit result \<times> io) option" where
  "write_raw dev data io =
     (let chunk_size = dev_chunk_size dev in
      if length data \<le> chunk_size
      then
        let padded = pad_to chunk_size data
        in Some (write_chunk dev padded io)
      else
        let ch = (if 3 \<le> length data then (data ! 1, data ! 2) else (0, 0));
            first_end = min chunk_size (length data);
            first_chunk = pad_to chunk_size (take first_end data)
        in case write_chunk dev first_chunk io of
             (Inl e, io') \<Rightarrow> Some (Inl e, io')
           | (Inr u, io') \<Rightarrow> write_continuations dev data ch first_end io')"

fun read_with_timeout :: "device \<Rightarrow> nat \<Rightarrow> io \<Rightarrow> bytes result \<times> io" where
  "read_with_timeout dev 0 io = (transport_err (DataTransfer ''Read timeout''), io)"
| "read_with_timeout dev (Suc attempts) io =
     (let result = dev_read dev io;
          io = io\<lparr>reads := reads io + 1\<rparr>
      in if rr_success result \<and> rr_data result \<noteq> [] then (Inr (rr_data result), io)
         else read_with_timeout dev attempts io)"

definition is_ack :: "bytes \<Rightarrow> bool" where
  "is_ack data = (if data = [] then False else data ! 0 AND 0xf7 = ACK_MESSAGE)"

definition thp_error_name :: "u8 \<Rightarrow> string" where
  "thp_error_name error_code =
     (if error_code = 0x01 then ''TransportBusy''
      else if error_code = 0x02 then ''UnallocatedChannel''
      else if error_code = 0x03 then ''DecryptionFailed''
      else if error_code = 0x05 then ''DeviceLocked''
      else ''Unknown'')"

partial_function (option) read_continuations ::
    "device \<Rightarrow> bytes \<Rightarrow> nat \<Rightarrow> io \<Rightarrow> (bytes result \<times> io) option" where
  "read_continuations dev full_data bytes_remaining io =
     (if 0 < bytes_remaining
      then case read_with_timeout dev 50 io of
             (Inl e, io') \<Rightarrow> Some (Inl e, io')
           | (Inr cont_chunk, io') \<Rightarrow>
               let cont_ctrl = get_or cont_chunk 0 0 in
               if is_ack cont_chunk then read_continuations dev full_data bytes_remaining io'
               else if cont_ctrl AND 0x80 \<noteq> 0x80 then Some (Inr full_data, io')
               else if 3 < length cont_chunk
               then
                 let cont_data = drop 3 cont_chunk
                 in read_continuations dev (full_data @ cont_data) (bytes_remaining - length cont_data) io'
               else read_continuations dev full_data bytes_remaining io'
      else Some (Inr full_data, io))"

fun thp_read_response :: "device \<Rightarrow> nat \<Rightarrow> (u8 \<times> u8) option \<Rightarrow> io \<Rightarrow> (bytes result \<times> io) option" where
  "thp_read_response dev 0 expected_channel io =
     Some (transport_err (DataTransfer ''No response after max attempts''), io)"
| "thp_read_response dev (Suc attempts) expected_channel io =
     (case read_with_timeout dev 50 io of
        (Inl e, io) \<Rightarrow> Some (Inl e, io)
      | (Inr first_chunk, io) \<Rightarrow>
          let ctrl_byte = get_or first_chunk 0 0;
              ctrl_type = ctrl_byte AND 0xe7
          in case bind_res (validate_crc first_chunk) (\<lambda>_.
                    case expected_channel of None \<Rightarrow> Inr () | Some ch \<Rightarrow> validate_channel first_chunk ch) of
               Inl e \<Rightarrow> Some (Inl e, io)
             | Inr _ \<Rightarrow>
                 if is_ack first_chunk then thp_read_response dev attempts expected_channel io
                 else if ctrl_type = ERROR
                 then
                   let error_code = get_or first_chunk 5 0 in
                   if error_code = 0x05 then Some (thp_err DeviceLocked, io)
                   else Some (thp_err (HandshakeFailed (''THP Error: '' @ thp_error_name error_code)), io)
                 else if 5 \<le> length first_chunk
                 then
                   let payload_len = unat (from_be16 (first_chunk ! 3) (first_chunk ! 4));
                       total_needed = 5 + payload_len
                   in if dev_chunk_size dev < total_needed
                      then read_continuations dev first_chunk (usize_sub total_needed (length first_chunk)) io
                      else Some (Inr first_chunk, io)
                 else Some (Inr first_chunk, io))"

subsection \<open>One exchange\<close>

type_synonym ble_states = "string \<rightharpoonup> BleDeviceState"

definition protocol_state :: "BleDeviceState \<Rightarrow> ThpState" where
  "protocol_state st = thp_protocol_state (ble_protocol st)"

definition with_protocol_state :: "(ThpState \<Rightarrow> ThpState) \<Rightarrow> BleDeviceState \<Rightarrow> BleDeviceState" where
  "with_protocol_state f st =
     st\<lparr>ble_protocol := (ble_protocol st)\<lparr>thp_protocol_state := f (protocol_state st)\<rparr>\<rparr>"

text \<open>The sync bit is toggled before the nonce, whose update may fail.\<close>

definition advance :: "bool \<Rightarrow> (string \<Rightarrow> ThpError) \<Rightarrow> string \<Rightarrow> ble_states \<Rightarrow> unit result \<times> ble_states" where
  "advance is_send mk_error path states =
     (case states path of
        None \<Rightarrow> (Inr (), states)
      | Some st \<Rightarrow>
          let st = with_protocol_state (update_sync_bit is_send) st in
          case update_nonce is_send (protocol_state st) of
            Inl e \<Rightarrow> (thp_err (mk_error e), states(path \<mapsto> st))
          | Inr s \<Rightarrow> (Inr (), states(path \<mapsto> with_protocol_state (\<lambda>_. s) st)))"

definition decrypt_response :: "primitives \<Rightarrow> string \<Rightarrow> ble_states \<Rightarrow> bytes \<Rightarrow> (u16 \<times> bytes) result" where
  "decrypt_response prim path states response =
     (if length response < 5 then thp_err (DecryptionError ''Response too short'')
      else
        let payload_len = unat (from_be16 (response ! 3) (response ! 4));
            crc_len = 4;
            header_len = 5
        in if payload_len \<le> crc_len \<or> length response < header_len + payload_len
           then thp_err (DecryptionError (''Invalid payload: response_len='' @ show_nat (length response)
                  @ '', payload_len='' @ show_nat payload_len
                  @ '', needed='' @ show_nat (header_len + payload_len)))
           else
             let encrypted_payload = take (payload_len - crc_len) (drop header_len response) in
             case states path of
               None \<Rightarrow> transport_err DeviceNotFound
             | Some st \<Rightarrow>
                 (case handshake_credentials (protocol_state st) of
                    None \<Rightarrow> thp_err StateMissing
                  | Some creds \<Rightarrow>
                      if length (hc_trezor_key creds) \<noteq> 32 then thp_err (DecryptionError ''Invalid key'')
                      else
                        let iv = get_iv_from_nonce (recv_nonce (protocol_state st)) in
                        bind_res (aes_gcm_decrypt prim (hc_trezor_key creds) iv [] encrypted_payload) (\<lambda>decrypted.
                          if length decrypted < 3
                          then thp_err (DecryptionError ''Decrypted payload too short'')
                          else Inr (from_be16 (decrypted ! 1) (decrypted ! 2), drop 3 decrypted))))"

type_synonym world = "ble_states \<times> io"

definition on_io :: "(io \<Rightarrow> ('a result \<times> io) option) \<Rightarrow> world \<Rightarrow> ('a result \<times> world) option" where
  "on_io m w = map_option (\<lambda>(r, io). (r, fst w, io)) (m (snd w))"

definition on_states :: "(ble_states \<Rightarrow> 'a result \<times> ble_states) \<Rightarrow> world \<Rightarrow> ('a result \<times> world) option" where
  "on_states m w = (case m (fst w) of (r, states) \<Rightarrow> Some (r, states, snd w))"

definition send_encrypted_message ::
    "primitives \<Rightarrow> device \<Rightarrow> string \<Rightarrow> u8 \<times> u8 \<Rightarrow> u16 \<Rightarrow> bytes \<Rightarrow> world
      \<Rightarrow> ((u16 \<times> bytes) result \<times> world) option" where
  "send_encrypted_message prim dev path ch message_type data w =
     bind_op
       (Some (case fst w path of
                None \<Rightarrow> transport_err DeviceNotFound
              | Some st \<Rightarrow> encode_encrypted_message prim (protocol_state st) message_type data, w)) (\<lambda>message w.
     bind_op (on_io (write_raw dev message) w) (\<lambda>_ w.
     bind_op (on_states (advance True EncryptionError path) w) (\<lambda>_ w.
     bind_op (on_io (thp_read_response dev 300 (Some ch)) w) (\<lambda>response w.
       if response = [] then Some (Inl Panic, w)
       else
         let ack_bit = drop_bit 4 (response ! 0) AND 1;
             ack = encode_ack ch ack_bit
         in bind_op (on_io (write_raw dev ack) w) (\<lambda>_ w.
            bind_op (Some (decrypt_response prim path (fst w) response, w)) (\<lambda>resp w.
            bind_op (on_states (advance False DecryptionError path) w) (\<lambda>_ w.
              Some (Inr resp, w))))))))"

definition thp_call ::
    "primitives \<Rightarrow> device \<Rightarrow> string \<Rightarrow> u16 \<Rightarrow> bytes \<Rightarrow> world \<Rightarrow> ((u16 \<times> bytes) result \<times> world) option" where
  "thp_call prim dev path message_type data w =
     bind_op
       (Some (case fst w path of
                None \<Rightarrow> transport_err DeviceNotFound
              | Some st \<Rightarrow> Inr (channel (protocol_state st)), w)) (\<lambda>ch w.
     send_encrypted_message prim dev path ch message_type data w)"

section \<open>Writing\<close>

definition accepts_writes :: "device \<Rightarrow> bool" where
  "accepts_writes dev \<longleftrightarrow> (\<forall>io c. wr_success (dev_write dev io c))"

definition cont_header :: "u8 \<times> u8 \<Rightarrow> bytes" where
  "cont_header ch = [CONTINUATION_PACKET, fst ch, snd ch]"

lemma length_cont_header [simp]: "length (cont_header ch) = 3"
  by (simp add: cont_header_def)

lemma write_chunk_accepted:
  "accepts_writes dev \<Longrightarrow> write_chunk dev c io = (Inr (), io\<lparr>written := written io @ [c]\<rparr>)"
  by (simp add: write_chunk_def accepts_writes_def Let_def)

lemma write_continuations_closed:
  assumes "accepts_writes dev" and "3 < dev_chunk_size dev"
  shows "write_continuations dev data ch offset io = Some (Inr (), io\<lparr>written := written io
      @ map (continuation (dev_chunk_size dev) (cont_header ch))
          (segments (dev_chunk_size dev - 3) (drop offset data))\<rparr>)"
proof -
  obtain n where n: "dev_chunk_size dev = n + 3" "0 < n"
    using assms(2) by (metis add.commute less_imp_add_positive)
  show ?thesis
  proof (induction "length data - offset" arbitrary: offset io rule: less_induct)
    case less
    show ?case
    proof (cases "offset < length data")
      case True
      let ?e = "min (offset + n) (length data)"
      have seg: "segments n (drop offset data) = take n (drop offset data) # segments n (drop ?e data)"
        using True n by (subst segments.simps) (auto simp: add.commute min_def)
      have payload: "take (?e - offset) (drop offset data) = take n (drop offset data)"
        using True by (auto simp: min_def)
      have "length data - ?e < length data - offset" using True n by auto
      from less [OF this] show ?thesis
        using True assms(1) n seg payload
        by (subst write_continuations.simps)
          (simp add: write_chunk_accepted continuation_def cont_header_def Let_def)
    next
      case False
      then show ?thesis by (subst write_continuations.simps) simp
    qed
  qed
qed

text \<open>Writing a frame is chunking it with the continuation header of its channel.\<close>

lemma write_raw_chunks:
  assumes "accepts_writes dev" and "3 < dev_chunk_size dev" and "dev_chunk_size dev < 2 ^ 63"
    and "3 \<le> length data" and "length data < 2 ^ 63"
  obtains chunks where
    "create_chunks data (cont_header (data ! 1, data ! 2)) (dev_chunk_size dev) = Some chunks"
    "write_raw dev data io = Some (Inr (), io\<lparr>written := written io @ chunks\<rparr>)"
proof -
  let ?cs = "dev_chunk_size dev" and ?ch = "(data ! 1, data ! 2)"
  let ?chunks = "pad_to ?cs (take ?cs data) # map (continuation ?cs (cont_header ?ch))
    (segments (?cs - 3) (drop ?cs data))"
  have "create_chunks data (cont_header ?ch) ?cs = Some ?chunks"
    using create_chunks_closed [of "cont_header ?ch" ?cs data] assms by simp
  moreover have "write_raw dev data io = Some (Inr (), io\<lparr>written := written io @ ?chunks\<rparr>)"
    using assms write_continuations_closed [OF assms(1,2)]
    by (simp add: write_raw_def write_chunk_accepted Let_def)
  ultimately show thesis by (rule that)
qed

section \<open>Reading\<close>

text \<open>From read number \<open>n\<close> on, the device delivers the given chunks.\<close>

definition delivers :: "device \<Rightarrow> nat \<Rightarrow> bytes list \<Rightarrow> bool" where
  "delivers dev n chunks \<longleftrightarrow>
     (\<forall>i < length chunks. \<forall>io. reads io = n + i \<longrightarrow>
        rr_success (dev_read dev io) \<and> rr_data (dev_read dev io) = chunks ! i)"

lemma delivers_Cons:
  "delivers dev n (c # cs) \<Longrightarrow> delivers dev (Suc n) cs"
  unfolding delivers_def by (metis Suc_less_eq add_Suc_shift length_Cons nth_Cons_Suc)

lemma read_delivered:
  assumes "delivers dev (reads io) (c # cs)" and "c \<noteq> []" and "0 < attempts"
  shows "read_with_timeout dev attempts io = (Inr c, io\<lparr>reads := Suc (reads io)\<rparr>)"
proof -
  have "rr_success (dev_read dev io)" "rr_data (dev_read dev io) = c"
    using assms(1) unfolding delivers_def by force+
  then show ?thesis using assms(2,3) by (cases attempts) (simp_all add: Let_def)
qed

lemma read_continuations_delivered:
  assumes "3 < n" and "delivers dev (reads io) (map (continuation n (cont_header ch)) (segments (n - 3) rest))"
  shows "read_continuations dev full (length rest) io =
    Some (Inr (full @ concat (map (pad_to (n - 3)) (segments (n - 3) rest))),
      io\<lparr>reads := reads io + length (segments (n - 3) rest)\<rparr>)"
  using assms(2)
proof (induction "length rest" arbitrary: rest full io rule: less_induct)
  case less
  show ?case
  proof (cases "rest = []")
    case True
    then show ?thesis by (subst read_continuations.simps) simp
  next
    case False
    let ?seg = "take (n - 3) rest" and ?rest = "drop (n - 3) rest"
    let ?c = "continuation n (cont_header ch) ?seg"
    have seg: "segments (n - 3) rest = ?seg # segments (n - 3) ?rest"
      using False assms(1) by (subst segments.simps) simp
    have c: "length ?c = n" "drop 3 ?c = pad_to (n - 3) ?seg"
      using continuation_payload [of "cont_header ch" n ?seg] assms(1) by simp_all
    have ctrl: "?c ! 0 = 0x80" "?c \<noteq> []"
      by (simp_all add: continuation_def cont_header_def pad_to_def CONTINUATION_PACKET_def)
    have read: "read_with_timeout dev 50 io = (Inr ?c, io\<lparr>reads := Suc (reads io)\<rparr>)"
      using less.prems ctrl(2) by (intro read_delivered) (simp_all add: seg)
    have "read_continuations dev (full @ pad_to (n - 3) ?seg) (length ?rest) (io\<lparr>reads := Suc (reads io)\<rparr>)
        = Some (Inr ((full @ pad_to (n - 3) ?seg) @ concat (map (pad_to (n - 3)) (segments (n - 3) ?rest))),
            io\<lparr>reads := Suc (reads io) + length (segments (n - 3) ?rest)\<rparr>)"
    proof -
      have "length ?rest < length rest" using False assms(1) by (cases rest) auto
      moreover have "delivers dev (Suc (reads io)) (map (continuation n (cont_header ch)) (segments (n - 3) ?rest))"
        using less.prems by (simp only: seg list.map delivers_Cons)
      ultimately show ?thesis
        using less.hyps [of ?rest "io\<lparr>reads := Suc (reads io)\<rparr>"] by simp
    qed
    moreover have "length rest - max (n - 3) (length ?seg) = length ?rest" by simp
    ultimately show ?thesis
      using False assms(1) c ctrl read seg
      by (subst read_continuations.simps)
        (simp add: is_ack_def get_or_def ACK_MESSAGE_def)
  qed
qed

text \<open>The first chunk of a frame carries its header and passes the checksum test: the whole
  frame does, and an incomplete one is not tested.\<close>

lemma frame_chunk:
  fixes ctrl :: u8 and ch :: "u8 \<times> u8"
  assumes "length payload < 65532" and "5 \<le> n"
  defines "c \<equiv> pad_to n (take n (thp_frame ctrl ch payload))"
  shows "length c = n" "c ! 0 = ctrl" "take 2 (drop 1 c) = [fst ch, snd ch]"
    "unat (from_be16 (c ! 3) (c ! 4)) = length payload + 4" "validate_crc c = Inr ()"
proof -
  let ?l = "of_nat (length payload) + 4 :: u16" and ?m = "frame_body ctrl ch payload"
  let ?rest = "take (n - 5) (payload @ crc32 ?m) @ replicate (n - (9 + length payload)) 0"
  have c: "c = [ctrl, fst ch, snd ch] @ be16 ?l @ ?rest"
    using assms(2) by (simp add: c_def pad_to_def frame_defs be16_def eval_nat_numeral take_Cons' min_def)
  show len: "length c = n" using assms(2) by (simp add: c_def)
  show "c ! 0 = ctrl" "take 2 (drop 1 c) = [fst ch, snd ch]" by (simp_all add: c)
  have "from_be16 (c ! 3) (c ! 4) = ?l" by (simp add: c be16_def be_simps)
  then show u: "unat (from_be16 (c ! 3) (c ! 4)) = length payload + 4"
    using unat_frame_length [OF assms(1)] by simp
  show "validate_crc c = Inr ()"
  proof (cases "n < 9 + length payload")
    case True
    then show ?thesis using u len by (auto simp: validate_crc_def Let_def)
  next
    case False
    then have "c = ?m @ crc32 ?m @ replicate (n - (9 + length payload)) 0"
      by (simp add: c_def pad_to_def thp_frame_def)
    then show ?thesis using False u len by (simp add: validate_crc_def Let_def)
  qed
qed

lemma read_response_frame:
  assumes p: "length payload < 65532" and n: "dev_chunk_size dev = n" "8 < n" "n < 2 ^ 32"
    and ctrl: "ctrl AND 0xf7 \<noteq> ACK_MESSAGE" "ctrl AND 0xe7 \<noteq> ERROR"
    and chunks: "create_chunks (thp_frame ctrl ch payload) (cont_header ch) n = Some chunks"
    and del: "delivers dev (reads io) chunks" and att: "0 < attempts"
  shows "\<exists>k. thp_read_response dev attempts (Some ch) io
    = Some (Inr (thp_frame ctrl ch payload @ replicate k 0), io\<lparr>reads := reads io + length chunks\<rparr>)"
proof -
  let ?f = "thp_frame ctrl ch payload" and ?c = "pad_to n (take n (thp_frame ctrl ch payload))"
  let ?segs = "segments (n - 3) (drop n ?f)"
  have flen: "length ?f = 9 + length payload" by (simp add: thp_frame_def)
  have cs: "chunks = ?c # map (continuation n (cont_header ch)) ?segs"
    using create_chunks_closed [of "cont_header ch" n ?f] chunks n p flen by simp
  have n5: "5 \<le> n" using n by simp
  note c = frame_chunk [OF p n5, of ctrl ch]
  have ne: "?c \<noteq> []" using c(1) n(2) by (metis list.size(3) not_less_zero)
  obtain a where a: "attempts = Suc a" using att by (cases attempts) auto
  have read: "read_with_timeout dev 50 io = (Inr ?c, io\<lparr>reads := Suc (reads io)\<rparr>)"
    using del ne by (intro read_delivered) (simp_all add: cs)
  have channel_ok: "validate_channel ?c ch = Inr ()"
    using c(1,3) n by (simp add: validate_channel_def)
  have first: "get_or ?c 0 0 = ctrl" "\<not> is_ack ?c"
    using c(1,2) ne n ctrl by (simp_all add: get_or_def is_ack_def)
  have step: "thp_read_response dev attempts (Some ch) io =
      (if n < 5 + (length payload + 4)
       then read_continuations dev ?c (usize_sub (5 + (length payload + 4)) n) (io\<lparr>reads := Suc (reads io)\<rparr>)
       else Some (Inr ?c, io\<lparr>reads := Suc (reads io)\<rparr>))"
    unfolding a thp_read_response.simps read using n5
    by (simp only: prod.case sum.case Let_def c(1,4,5) bind_res.simps option.case channel_ok first ctrl n(1) if_True if_False simp_thms)
  show ?thesis
  proof (cases "n < 9 + length payload")
    case True
    have sub: "usize_sub (5 + (length payload + 4)) n = length (drop n ?f)"
      using True p flen by (simp add: usize_sub_exact)
    have "read_continuations dev ?c (length (drop n ?f)) (io\<lparr>reads := Suc (reads io)\<rparr>)
        = Some (Inr (?c @ concat (map (pad_to (n - 3)) ?segs)), io\<lparr>reads := Suc (reads io) + length ?segs\<rparr>)"
      using read_continuations_delivered [of n dev "io\<lparr>reads := Suc (reads io)\<rparr>" ch "drop n ?f" ?c]
        delivers_Cons [OF del [unfolded cs]] n by simp
    moreover obtain k where "concat (map (pad_to (n - 3)) ?segs) = drop n ?f @ replicate k 0"
      using concat_padded_segments [of "n - 3" "drop n ?f"] n by auto
    moreover have "?c = take n ?f" using True flen by (simp add: pad_to_def)
    ultimately have "read_continuations dev ?c (length (drop n ?f)) (io\<lparr>reads := Suc (reads io)\<rparr>)
        = Some (Inr (?f @ replicate k 0), io\<lparr>reads := Suc (reads io) + length ?segs\<rparr>)"
      by (metis append.assoc append_take_drop_id)
    with True show ?thesis unfolding step sub cs by auto
  next
    case False
    then have "?segs = []" "?c = ?f @ replicate (n - length ?f) 0" using flen by (simp_all add: pad_to_def)
    with False show ?thesis unfolding step cs by auto
  qed
qed

lemma read_response_ack:
  assumes n: "8 < n" and b: "b \<in> {0, 1}"
    and del: "delivers dev (reads io) (pad_to n (encode_ack ch b) # rest)"
  shows "thp_read_response dev (Suc a) (Some ch) io = thp_read_response dev a (Some ch) (io\<lparr>reads := Suc (reads io)\<rparr>)"
proof -
  let ?c = "pad_to n (take n (thp_frame (ACK_MESSAGE OR push_bit 3 b) ch []))"
  have c_eq: "pad_to n (encode_ack ch b) = ?c"
    using n by (simp add: encode_ack_frame thp_frame_def)
  have n5: "5 \<le> n" using n by simp
  have zero: "length ([] :: bytes) < 65532" by simp
  note c = frame_chunk [OF zero n5, of "ACK_MESSAGE OR push_bit 3 b" ch]
  have ne: "?c \<noteq> []" using c(1) n by (metis list.size(3) not_less_zero)
  have read: "read_with_timeout dev 50 io = (Inr ?c, io\<lparr>reads := Suc (reads io)\<rparr>)"
    using del ne unfolding c_eq by (intro read_delivered) simp_all
  have channel_ok: "validate_channel ?c ch = Inr ()"
    using c(1,3) n by (simp add: validate_channel_def)
  have ack: "is_ack ?c" using c(2) ne control_byte_ack(1) [OF b] by (simp add: is_ack_def)
  show ?thesis
    unfolding thp_read_response.simps read
    by (simp only: prod.case sum.case Let_def c(5) bind_res.simps option.case channel_ok ack if_True)
qed

lemma read_response_acks:
  assumes "length payload < 65532" and "dev_chunk_size dev = n" "8 < n" "n < 2 ^ 32"
    and "ctrl AND 0xf7 \<noteq> ACK_MESSAGE" "ctrl AND 0xe7 \<noteq> ERROR"
    and "create_chunks (thp_frame ctrl ch payload) (cont_header ch) n = Some chunks"
  shows "set acks \<subseteq> {0, 1} \<Longrightarrow> length acks < attempts \<Longrightarrow>
    delivers dev (reads io) (map (\<lambda>b. pad_to n (encode_ack ch b)) acks @ chunks) \<Longrightarrow>
    \<exists>k. thp_read_response dev attempts (Some ch) io = Some (Inr (thp_frame ctrl ch payload @ replicate k 0),
      io\<lparr>reads := reads io + length acks + length chunks\<rparr>)"
proof (induction acks arbitrary: io attempts)
  case Nil
  then show ?case using read_response_frame [OF assms] by simp
next
  case (Cons b acks)
  then obtain a where a: "attempts = Suc a" by (cases attempts) auto
  have del: "delivers dev (Suc (reads io)) (map (\<lambda>b. pad_to n (encode_ack ch b)) acks @ chunks)"
    using Cons.prems(3) by (simp add: delivers_Cons)
  have "thp_read_response dev attempts (Some ch) io
      = thp_read_response dev a (Some ch) (io\<lparr>reads := Suc (reads io)\<rparr>)"
    unfolding a using Cons.prems assms(3) by (intro read_response_ack) auto
  with Cons.IH [of a "io\<lparr>reads := Suc (reads io)\<rparr>"] Cons.prems a del show ?case by simp
qed

section \<open>The exchange\<close>

text \<open>The state of a channel after a successful exchange: both directions have moved on.\<close>

definition exchanged :: "ThpState \<Rightarrow> ThpState" where
  "exchanged s = s\<lparr>send_bit := flip (send_bit s), recv_bit := flip (recv_bit s),
     send_nonce := send_nonce s + 1, recv_nonce := recv_nonce s + 1\<rparr>"

lemma advance_ok:
  assumes "states path = Some st" and "\<not> u32_MAX - 1 \<le> (if d then send_nonce (protocol_state st) else recv_nonce (protocol_state st))"
  shows "advance d mk path states = (Inr (), states(path \<mapsto> with_protocol_state (\<lambda>s.
    if d then s\<lparr>send_bit := flip (send_bit s), send_nonce := send_nonce s + 1\<rparr>
    else s\<lparr>recv_bit := flip (recv_bit s), recv_nonce := recv_nonce s + 1\<rparr>) st))"
  using assms
  by (cases d) (simp_all add: advance_def update_nonce_def update_sync_bit_def with_protocol_state_def protocol_state_def Let_def)

lemma decrypt_response_frame:
  assumes "0 < length c" and "length c < 65532"
    and "states path = Some st" and "handshake_credentials (protocol_state st) = Some cs" and "length (hc_trezor_key cs) = 32"
    and "aes_gcm_decrypt prim (hc_trezor_key cs) (get_iv_from_nonce (recv_nonce (protocol_state st))) [] c
      = Inr ([sid] @ be16 t @ data)"
  shows "decrypt_response prim path states (thp_frame ctrl ch c @ pad) = Inr (t, data)"
proof -
  let ?r = "thp_frame ctrl ch c @ pad"
  have "from_be16 (?r ! 3) (?r ! 4) = of_nat (length c) + 4"
    by (simp add: frame_defs be16_def be_simps)
  then have len: "unat (from_be16 (?r ! 3) (?r ! 4)) = length c + 4"
    using unat_frame_length [OF assms(2)] by simp
  have "take (length c) (drop 5 ?r) = c" by (simp add: frame_defs be16_def)
  with len assms show ?thesis
    by (simp add: decrypt_response_def thp_frame_def be16_def be_simps)
qed

lemma frame_channel_bytes: "thp_frame ctrl ch c ! 1 = fst ch" "thp_frame ctrl ch c ! 2 = snd ch"
  by (simp_all add: frame_defs)

lemma write_raw_frame:
  assumes "accepts_writes dev" and "dev_chunk_size dev = n" and "8 < n" and "n < 2 ^ 32" and "length c < 2 ^ 32"
  shows "\<exists>chunks. create_chunks (thp_frame ctrl ch c) (cont_header ch) n = Some chunks
    \<and> write_raw dev (thp_frame ctrl ch c) io = Some (Inr (), io\<lparr>written := written io @ chunks\<rparr>)"
proof -
  let ?f = "thp_frame ctrl ch c"
  have ch: "(?f ! 1, ?f ! 2) = ch" by (simp only: frame_channel_bytes prod.collapse)
  have "3 < dev_chunk_size dev" "dev_chunk_size dev < 2 ^ 63" "3 \<le> length ?f" "length ?f < 2 ^ 63"
    using assms by (simp_all add: thp_frame_def)
  from write_raw_chunks [OF assms(1) this] obtain chunks where
    "create_chunks ?f (cont_header (?f ! 1, ?f ! 2)) (dev_chunk_size dev) = Some chunks"
    "write_raw dev ?f io = Some (Inr (), io\<lparr>written := written io @ chunks\<rparr>)"
    by blast
  then show ?thesis unfolding ch assms(2) by blast
qed

lemma write_raw_small:
  assumes "accepts_writes dev" and "length data \<le> dev_chunk_size dev"
  shows "write_raw dev data io = Some (Inr (), io\<lparr>written := written io @ [pad_to (dev_chunk_size dev) data]\<rparr>)"
  using assms by (simp add: write_raw_def write_chunk_accepted Let_def)

lemma request_written:
  assumes "aead_ok prim" and "handshake_credentials s = Some cs" "length (hc_host_key cs) = 32"
    and "accepts_writes dev" "dev_chunk_size dev = n" "8 < n" "n < 2 ^ 32" and "length data \<le> 65512"
  obtains request chunks where
    "encode_encrypted_message prim s t data = Inr request"
    "create_chunks request (cont_header (channel s)) n = Some chunks"
    "write_raw dev request io = Some (Inr (), io\<lparr>written := written io @ chunks\<rparr>)"
proof -
  obtain c where c: "encrypt_payload prim s (hc_host_key cs) ([session_id s] @ be16 t @ data) = Inr c"
    "length c = length ([session_id s] @ be16 t @ data) + 16"
    using encrypt_payload_ok [OF assms(1,3)] by metis
  let ?req = "thp_frame (ENCRYPTED OR push_bit 4 (send_bit s)) (channel s) c"
  have "encode_encrypted_message prim s t data = Inr ?req"
    using assms(2) c(1) by (simp add: encode_encrypted_frame)
  moreover have "length c < 2 ^ 32" using c(2) assms(8) by simp
  ultimately show thesis using write_raw_frame [OF assms(4-7)] that by blast
qed

lemma reply_received:
  assumes "aead_ok prim" and dev: "dev_chunk_size dev = n" "8 < n" "n < 2 ^ 32"
    and r: "handshake_credentials r = Some cr" "length (hc_host_key cr) = 32" "send_bit r \<in> {0, 1}"
    and reply: "length reply \<le> 65512" "encode_encrypted_message prim r t' reply = Inr frame"
      "create_chunks frame (cont_header (channel r)) n = Some chunks"
    and acks: "set acks \<subseteq> {0, 1}" "length acks < 300"
      "delivers dev (reads io) (map (\<lambda>b. pad_to n (encode_ack (channel r) b)) acks @ chunks)"
    and st: "states path = Some st" "handshake_credentials (protocol_state st) = Some cs"
      "hc_trezor_key cs = hc_host_key cr" "recv_nonce (protocol_state st) = send_nonce r"
  obtains response where "response \<noteq> []" "drop_bit 4 (response ! 0) AND 1 = send_bit r"
    "thp_read_response dev 300 (Some (channel r)) io
      = Some (Inr response, io\<lparr>reads := reads io + length acks + length chunks\<rparr>)"
    "decrypt_response prim path states response = Inr (t', reply)"
proof -
  let ?ctrl = "ENCRYPTED OR push_bit 4 (send_bit r)"
  obtain d where d: "encrypt_payload prim r (hc_host_key cr) ([session_id r] @ be16 t' @ reply) = Inr d"
    "length d = length ([session_id r] @ be16 t' @ reply) + 16"
    "aes_gcm_decrypt prim (hc_host_key cr) (get_iv_from_nonce (send_nonce r)) [] d = Inr ([session_id r] @ be16 t' @ reply)"
    using encrypt_payload_ok [OF assms(1) r(2)] by metis
  have frame: "frame = thp_frame ?ctrl (channel r) d"
    using reply(2) r(1) d(1) by (simp add: encode_encrypted_frame)
  have dlen: "0 < length d" "length d < 65532" using d(2) reply(1) by simp_all
  have ctrl: "?ctrl AND 0xf7 \<noteq> ACK_MESSAGE" "?ctrl AND 0xe7 \<noteq> ERROR"
    using r(3) by (auto simp: thp_control_defs push_bit_eq_mult)
  obtain k where rd: "thp_read_response dev 300 (Some (channel r)) io
      = Some (Inr (frame @ replicate k 0), io\<lparr>reads := reads io + length acks + length chunks\<rparr>)"
    using read_response_acks [OF dlen(2) dev ctrl reply(3) [unfolded frame] acks]
    unfolding frame by blast
  have "decrypt_response prim path states (frame @ replicate k 0) = Inr (t', reply)"
    unfolding frame using dlen st(1,2)
    by (rule decrypt_response_frame [where sid = "session_id r"]) (use d(3) r(2) st in simp_all)
  moreover have "frame \<noteq> []" "(frame @ replicate k 0) ! 0 = ?ctrl" by (simp_all add: frame frame_defs)
  then have "drop_bit 4 ((frame @ replicate k 0) ! 0) AND 1 = send_bit r"
    using control_byte_sync(2) [OF r(3), of ENCRYPTED] by (simp only: insert_iff simp_thms)
  ultimately show thesis using rd \<open>frame \<noteq> []\<close> that by blast
qed

lemma exchange_delivers:
  assumes aead: "aead_ok prim"
    and st: "states path = Some st" "s = protocol_state st" "handshake_credentials s = Some cs"
      "length (hc_host_key cs) = 32" "length (hc_trezor_key cs) = 32"
    and nonces: "send_nonce s < u32_MAX - 1" "recv_nonce s < u32_MAX - 1"
    and dev: "accepts_writes dev" "dev_chunk_size dev = n" "8 < n" "n < 2 ^ 32"
    and r: "handshake_credentials r = Some cr" "hc_host_key cr = hc_trezor_key cs"
      "channel r = channel s" "send_nonce r = recv_nonce s" "send_bit r \<in> {0, 1}"
    and sizes: "length data \<le> 65512" "length reply \<le> 65512"
    and reply: "encode_encrypted_message prim r t' reply = Inr frame"
      "create_chunks frame (cont_header (channel s)) n = Some chunks"
    and acks: "set acks \<subseteq> {0, 1}" "length acks < 300"
      "delivers dev (reads io) (map (\<lambda>b. pad_to n (encode_ack (channel s) b)) acks @ chunks)"
  shows "\<exists>request request_chunks.
    encode_encrypted_message prim s t data = Inr request
    \<and> create_chunks request (cont_header (channel s)) n = Some request_chunks
    \<and> send_encrypted_message prim dev path (channel s) t data (states, io) =
      Some (Inr (t', reply), states(path \<mapsto> with_protocol_state exchanged st),
        \<lparr>written = written io @ request_chunks @ [pad_to n (encode_ack (channel s) (send_bit r))],
         reads = reads io + length acks + length chunks\<rparr>)"
proof -
  obtain req rcs where req: "encode_encrypted_message prim s t data = Inr req"
    "create_chunks req (cont_header (channel s)) n = Some rcs"
    "write_raw dev req io = Some (Inr (), io\<lparr>written := written io @ rcs\<rparr>)"
    using request_written [OF aead st(3,4) dev sizes(1)] by blast
  define io1 where "io1 = io\<lparr>written := written io @ rcs\<rparr>"
  define st1 where "st1 = with_protocol_state (\<lambda>s. s\<lparr>send_bit := flip (send_bit s), send_nonce := send_nonce s + 1\<rparr>) st"
  define states1 where "states1 = states(path \<mapsto> st1)"
  have adv1: "advance True EncryptionError path states = (Inr (), states1)"
    using advance_ok [of states path st True EncryptionError] nonces(1) st(1,2) by (simp add: states1_def st1_def)
  have st1: "states1 path = Some st1" "protocol_state st1 = s\<lparr>send_bit := flip (send_bit s), send_nonce := send_nonce s + 1\<rparr>"
    by (simp_all add: states1_def st1_def with_protocol_state_def protocol_state_def st(2))
  obtain response where resp: "response \<noteq> []" "drop_bit 4 (response ! 0) AND 1 = send_bit r"
    "thp_read_response dev 300 (Some (channel s)) io1
      = Some (Inr response, io1\<lparr>reads := reads io + length acks + length chunks\<rparr>)"
    "decrypt_response prim path states1 response = Inr (t', reply)"
  proof -
    have "length (hc_host_key cr) = 32" "hc_trezor_key cs = hc_host_key cr" using r(2) st(5) by simp_all
    moreover have "handshake_credentials (protocol_state st1) = Some cs"
      "recv_nonce (protocol_state st1) = send_nonce r" using st1(2) st(3) r(4) by simp_all
    moreover have "reads io1 = reads io" by (simp add: io1_def)
    ultimately show thesis
      using reply_received [OF aead dev(2-4) r(1) _ r(5) sizes(2) reply(1), of chunks acks io1 states1 path st1 cs]
        reply(2) acks st1(1) r(3) that by metis
  qed
  have upd: "with_protocol_state (\<lambda>s. s\<lparr>recv_bit := flip (recv_bit s), recv_nonce := recv_nonce s + 1\<rparr>) st1
      = with_protocol_state exchanged st"
    by (simp add: st1_def with_protocol_state_def protocol_state_def exchanged_def)
  have over: "states1(path \<mapsto> x) = states(path \<mapsto> x)" for x by (simp add: states1_def)
  have "\<not> u32_MAX - 1 \<le> recv_nonce (protocol_state st1)" using nonces(2) st1(2) by simp
  then have adv2: "advance False DecryptionError path states1 = (Inr (), states(path \<mapsto> with_protocol_state exchanged st))"
    using advance_ok [of states1 path st1 False DecryptionError] st1(1) by (simp add: upd over)
  have ack: "write_raw dev (encode_ack (channel s) (send_bit r)) io'
      = Some (Inr (), io'\<lparr>written := written io' @ [pad_to n (encode_ack (channel s) (send_bit r))]\<rparr>)" for io'
    using write_raw_small [OF dev(1)] dev(2,3) by (simp add: encode_ack_frame thp_frame_def)
  have "send_encrypted_message prim dev path (channel s) t data (states, io)
    = Some (Inr (t', reply), states(path \<mapsto> with_protocol_state exchanged st),
        \<lparr>written = written io @ rcs @ [pad_to n (encode_ack (channel s) (send_bit r))],
         reads = reads io + length acks + length chunks\<rparr>)"
    using st(1) req(1,3) adv1 resp adv2 ack
    by (simp add: send_encrypted_message_def on_io_def on_states_def st(2) [symmetric] io1_def [symmetric] Let_def)
      (simp add: io1_def)
  then show ?thesis using req(1,2) by blast
qed

section \<open>Properties\<close>

text \<open>
  C33: if the writes succeed and the device answers, after fewer than 300 acknowledgements,
  with the chunks of a message its end of the channel encoded, the call returns that message. The
  request has then been written as the chunks of its frame, followed by an acknowledgement with
  the sync bit of the reply, and sync bits and nonces of both directions have moved on by one.
\<close>

theorem thp_call_delivers:
  assumes "aead_ok prim"
    and "states path = Some st" "s = protocol_state st" "handshake_credentials s = Some cs"
      "length (hc_host_key cs) = 32" "length (hc_trezor_key cs) = 32"
    and "send_nonce s < u32_MAX - 1" "recv_nonce s < u32_MAX - 1"
    and "accepts_writes dev" "dev_chunk_size dev = n" "8 < n" "n < 2 ^ 32"
    and "handshake_credentials r = Some cr" "hc_host_key cr = hc_trezor_key cs"
      "channel r = channel s" "send_nonce r = recv_nonce s" "send_bit r \<in> {0, 1}"
    and "length data \<le> 65512" "length reply \<le> 65512"
    and "encode_encrypted_message prim r t' reply = Inr frame"
      "create_chunks frame (cont_header (channel s)) n = Some chunks"
    and "set acks \<subseteq> {0, 1}" "length acks < 300"
      "delivers dev (reads io) (map (\<lambda>b. pad_to n (encode_ack (channel s) b)) acks @ chunks)"
  shows "\<exists>request request_chunks.
    encode_encrypted_message prim s t data = Inr request
    \<and> create_chunks request (cont_header (channel s)) n = Some request_chunks
    \<and> thp_call prim dev path t data (states, io) =
      Some (Inr (t', reply), states(path \<mapsto> with_protocol_state exchanged st),
        \<lparr>written = written io @ request_chunks @ [pad_to n (encode_ack (channel s) (send_bit r))],
         reads = reads io + length acks + length chunks\<rparr>)"
proof -
  have "thp_call prim dev path t data (states, io)
      = send_encrypted_message prim dev path (channel s) t data (states, io)"
    using assms(2,3) by (simp add: thp_call_def)
  then show ?thesis using exchange_delivers [where states = states and path = path, OF assms] by simp
qed

text \<open>A device that acknowledges the request and answers with message type 2.\<close>

definition sample_reply :: bytes where
  "sample_reply = thp_frame ENCRYPTED (0x12, 0x34) ([0] @ be16 2 @ [8, 1] @ replicate 16 0)"

definition sample_device :: device where
  "sample_device =
     \<lparr>dev_write = \<lambda>io c. \<lparr>wr_success = True, wr_error = []\<rparr>,
      dev_read = \<lambda>io. \<lparr>rr_success = True,
        rr_data = pad_to 64 (if reads io = 0 then encode_ack (0x12, 0x34) 0 else sample_reply), rr_error = []\<rparr>,
      dev_chunk_size = 64\<rparr>"

definition sample_ble :: BleDeviceState where
  "sample_ble = \<lparr>ble_protocol = \<lparr>thp_protocol_state = sample_end, thp_chunk_size = 244\<rparr>, handshake_complete = True\<rparr>"

theorem thp_call_delivers_witness:
  "\<exists>w. thp_call plain_prim sample_device ''ble:1'' 55 [10, 0]
       ([''ble:1'' \<mapsto> sample_ble], \<lparr>written = [], reads = 0\<rparr>) = Some (Inr (2, [8, 1]), w)"
proof -
  let ?io = "\<lparr>written = [], reads = 0\<rparr> :: io"
  have s: "protocol_state sample_ble = sample_end" by (simp add: protocol_state_def sample_ble_def)
  have fields: "handshake_credentials sample_end = Some sample_credentials" "send_nonce sample_end < u32_MAX - 1"
    "recv_nonce sample_end < u32_MAX - 1" "send_nonce sample_end = recv_nonce sample_end"
    "send_bit sample_end = 0" "channel sample_end = (0x12, 0x34)" "session_id sample_end = 0"
    by (simp_all add: sample_end_def thp_new_def u32_MAX_def word_less_nat_alt)
  have keys: "length (hc_host_key sample_credentials) = 32" "length (hc_trezor_key sample_credentials) = 32"
    "hc_host_key sample_credentials = hc_trezor_key sample_credentials"
    by (simp_all add: sample_credentials_def)
  have enc: "encode_encrypted_message plain_prim sample_end 2 [8, 1] = Inr sample_reply"
    using keys(1) by (simp add: encode_encrypted_frame fields encrypt_payload_def aes_gcm_encrypt_def plain_prim_def
        sample_reply_def)
  have len: "length sample_reply \<le> 64" by (simp add: sample_reply_def thp_frame_def)
  then have "create_chunks sample_reply (cont_header (0x12, 0x34)) 64 = Some [pad_to 64 sample_reply]"
    using create_chunks_closed [of "cont_header (0x12, 0x34)" 64 sample_reply] by simp
  note chunks = this [folded fields(6)]
  have dev: "accepts_writes sample_device" "dev_chunk_size sample_device = 64"
    by (simp_all add: accepts_writes_def sample_device_def)
  have del: "delivers sample_device (reads ?io)
      (map (\<lambda>b. pad_to 64 (encode_ack (channel sample_end) b)) [0] @ [pad_to 64 sample_reply])"
    by (auto simp: delivers_def sample_device_def fields less_Suc_eq nth_Cons')
  from thp_call_delivers [where states = "[''ble:1'' \<mapsto> sample_ble]" and path = "''ble:1''" and t = 55 and data = "[10, 0]",
      OF aead_ok_plain _ s [symmetric] fields(1) keys(1,2) fields(2,3) dev _ _ fields(1) keys(3) refl fields(4) _ _ _ enc chunks _ _ del]
  show ?thesis by (auto simp: fields)
qed

end
