(* ===== verification/Pairing_Messages.thy ===== *)
theory Pairing_Messages
  imports Errors
begin

text \<open>
  The hand-written protobuf codec of the pairing messages
  (\<^verbatim>\<open>protocol/thp/pairing_messages.rs\<close>): variable-length integers, the encoders of the host's
  messages and the decoders of the device's. Slices out of range are panics, \<^verbatim>\<open>usize\<close> sums wrap,
  and the field loop of the credential response, which can be sent back by a wrapped length, is a
  partial function.
\<close>

section \<open>Definitions\<close>

lemma drop_7_less: "0x80 \<le> v \<Longrightarrow> unat (drop_bit 7 v) < unat v" for v :: u64
  by (simp add: word_le_nat_alt drop_bit_eq_div unat_div)

function encode_varint :: "bytes \<Rightarrow> u64 \<Rightarrow> bytes" where
  "encode_varint buf value =
     (if 0x80 \<le> value then encode_varint (buf @ [ucast value OR 0x80]) (drop_bit 7 value)
      else buf @ [ucast value])"
  by pat_completeness auto
termination
  by (relation "measure (\<lambda>(buf, value). unat value)") (simp_all add: drop_7_less)

declare encode_varint.simps [simp del]

fun decode_varint_loop :: "nat \<Rightarrow> u64 \<Rightarrow> nat \<Rightarrow> bytes \<Rightarrow> (u64 \<times> nat) result" where
  "decode_varint_loop i value shift [] = thp_err (PairingFailed ''Incomplete varint'')"
| "decode_varint_loop i value shift (byte # data) =
     (let value = value OR push_bit shift (ucast (byte AND 0x7f)) in
      if byte AND 0x80 = 0 then Inr (value, i + 1)
      else
        let shift = shift + 7 in
        if 63 < shift then thp_err (PairingFailed ''Varint too long'')
        else decode_varint_loop (i + 1) value shift data)"

definition decode_varint :: "bytes \<Rightarrow> (u64 \<times> nat) result" where
  "decode_varint data = decode_varint_loop 0 0 0 data"

subsection \<open>The host's messages\<close>

definition encode_pairing_request :: "string \<Rightarrow> string \<Rightarrow> bytes" where
  "encode_pairing_request host_name app_name =
     (let data = [0x0a];
          data = encode_varint data (of_nat (length host_name));
          data = data @ as_bytes host_name;
          data = data @ [0x12];
          data = encode_varint data (of_nat (length app_name))
      in data @ as_bytes app_name)"

definition encode_select_method :: "u8 \<Rightarrow> bytes" where
  "encode_select_method method = [0x08, method]"

definition encode_code_entry_challenge :: "bytes \<Rightarrow> bytes" where
  "encode_code_entry_challenge challenge =
     (let data = [0x0a];
          data = encode_varint data (of_nat (length challenge))
      in data @ challenge)"

definition encode_cpace_host_tag :: "bytes \<Rightarrow> bytes \<Rightarrow> bytes" where
  "encode_cpace_host_tag cpace_pubkey tag =
     (let data = [0x0a];
          data = encode_varint data (of_nat (length cpace_pubkey));
          data = data @ cpace_pubkey;
          data = data @ [0x12];
          data = encode_varint data (of_nat (length tag))
      in data @ tag)"

definition encode_credential_request :: "bytes \<Rightarrow> bool \<Rightarrow> bytes option \<Rightarrow> bytes" where
  "encode_credential_request host_static_pubkey autoconnect credential =
     (let data = [0x0a];
          data = encode_varint data (of_nat (length host_static_pubkey));
          data = data @ host_static_pubkey;
          data = (if autoconnect then data @ [0x10, 0x01] else data)
      in case credential of
           Some cred \<Rightarrow> encode_varint (data @ [0x1a]) (of_nat (length cred)) @ cred
         | None \<Rightarrow> data)"

definition encode_create_new_session :: "string option \<Rightarrow> bool \<Rightarrow> bytes" where
  "encode_create_new_session passphrase on_device =
     (let data = (case passphrase of
                    Some p \<Rightarrow> encode_varint [0x0a] (of_nat (length p)) @ as_bytes p
                  | None \<Rightarrow> [])
      in if on_device then data @ [0x10, 0x01] else data)"

subsection \<open>The device's messages\<close>

text \<open>\<^verbatim>\<open>data[a..b]\<close>\<close>

definition slice :: "bytes \<Rightarrow> nat \<Rightarrow> nat \<Rightarrow> bytes result" where
  "slice data a b = (if a \<le> b \<and> b \<le> length data then Inr (take (b - a) (drop a data)) else Inl Panic)"

definition decode_code_entry_commitment :: "bytes \<Rightarrow> bytes result" where
  "decode_code_entry_commitment data =
     (if length data < 2 then thp_err (PairingFailed ''Commitment too short'')
      else if data ! 0 \<noteq> 0x0a then thp_err (PairingFailed ''Invalid commitment field'')
      else bind_res (decode_varint (drop 1 data)) (\<lambda>(len, offset).
        let start = 1 + offset;
            end = usize_add start (unat len)
        in if length data < end then thp_err (PairingFailed ''Commitment data truncated'')
           else slice data start end))"

definition decode_cpace_trezor :: "bytes \<Rightarrow> bytes result" where
  "decode_cpace_trezor data =
     (if length data < 2 then thp_err (PairingFailed ''CPACE response too short'')
      else if data ! 0 \<noteq> 0x0a then thp_err (PairingFailed ''Invalid CPACE field'')
      else bind_res (decode_varint (drop 1 data)) (\<lambda>(len, offset).
        if len \<noteq> 32 then thp_err (PairingFailed ''Invalid CPACE pubkey length'')
        else
          let start = 1 + offset
          in slice data start (start + 32)))"

definition decode_code_entry_secret :: "bytes \<Rightarrow> bytes result" where
  "decode_code_entry_secret data =
     (if length data < 2 then thp_err (PairingFailed ''Secret too short'')
      else if data ! 0 \<noteq> 0x0a then thp_err (PairingFailed ''Invalid secret field'')
      else bind_res (decode_varint (drop 1 data)) (\<lambda>(len, offset).
        let start = 1 + offset;
            end = usize_add start (unat len)
        in if length data < end then thp_err (PairingFailed ''Secret data truncated'')
           else slice data start end))"

partial_function (option) credential_loop ::
    "bytes \<Rightarrow> nat \<Rightarrow> bytes \<Rightarrow> bytes \<Rightarrow> (bytes \<times> bytes) result option" where
  "credential_loop data pos trezor_pubkey credential =
     (if pos < length data
      then
        let tag = data ! pos;
            pos = pos + 1;
            field_num = drop_bit 3 tag;
            wire_type = tag AND 0x07
        in if wire_type \<noteq> 2
           then
             if wire_type = 0
             then case decode_varint (drop pos data) of
                    Inl e \<Rightarrow> Some (Inl e)
                  | Inr v \<Rightarrow> credential_loop data (pos + snd v) trezor_pubkey credential
             else credential_loop data pos trezor_pubkey credential
           else case decode_varint (drop pos data) of
                  Inl e \<Rightarrow> Some (Inl e)
                | Inr v \<Rightarrow>
                    let pos = pos + snd v;
                        end = usize_add pos (unat (fst v))
                    in if length data < end then Some (Inr (trezor_pubkey, credential))
                       else if field_num = 1
                       then case slice data pos end of
                              Inl e \<Rightarrow> Some (Inl e)
                            | Inr f \<Rightarrow> credential_loop data end f credential
                       else if field_num = 2
                       then case slice data pos end of
                              Inl e \<Rightarrow> Some (Inl e)
                            | Inr f \<Rightarrow> credential_loop data end trezor_pubkey f
                       else credential_loop data end trezor_pubkey credential
      else Some (Inr (trezor_pubkey, credential)))"

definition decode_credential_response :: "bytes \<Rightarrow> (bytes \<times> bytes) result option" where
  "decode_credential_response data =
     map_option (\<lambda>r. bind_res r (\<lambda>(trezor_pubkey, credential).
       if trezor_pubkey = [] \<or> credential = []
       then thp_err (PairingFailed ''Missing credential response fields'')
       else Inr (trezor_pubkey, credential)))
     (credential_loop data 0 [] [])"

section \<open>Variable-length integers\<close>

lemma encode_varint_append: "encode_varint buf v = buf @ encode_varint [] v"
proof (induction "unat v" arbitrary: buf v rule: less_induct)
  case less
  show ?case
  proof (cases "0x80 \<le> v")
    case True
    have "encode_varint b (drop_bit 7 v) = b @ encode_varint [] (drop_bit 7 v)" for b
      by (rule less) (rule drop_7_less [OF True])
    from this [of "buf @ [ucast v OR 0x80]"] this [of "[ucast v OR 0x80]"] show ?thesis
      using True by (simp add: encode_varint.simps [of buf v] encode_varint.simps [of "[]" v])
  qed (simp add: encode_varint.simps [of buf v] encode_varint.simps [of "[]" v])
qed

lemma encode_varint_big: "0x80 \<le> v \<Longrightarrow> encode_varint [] v = (ucast v OR 0x80) # encode_varint [] (drop_bit 7 v)"
  by (simp add: encode_varint.simps [of "[]" v]) (simp add: encode_varint_append [of "[_]"])

lemma encode_varint_small: "v < 0x80 \<Longrightarrow> encode_varint [] v = [ucast v]"
  by (auto simp: encode_varint.simps [of "[]" v] dest: leD)

lemma bit_0x80: "bit (0x80 :: 'a :: len word) n \<longleftrightarrow> n = 7 \<and> 7 < LENGTH('a)"
proof -
  have "(0x80 :: 'a word) = 2 ^ 7" by simp
  then show ?thesis by (simp only: bit_exp_iff possible_bit_word) auto
qed

lemma bit_0x7f: "bit (0x7f :: 'a :: len word) n \<longleftrightarrow> n < 7 \<and> n < LENGTH('a)"
proof -
  have "(0x7f :: 'a word) = mask 7" by (simp add: mask_eq_exp_minus_1)
  then show ?thesis by (simp only: bit_mask_iff possible_bit_word) auto
qed

lemma low_seven_bits: "ucast ((ucast v OR 0x80 :: u8) AND 0x7f) = take_bit 7 v" for v :: u64
  by (rule bit_word_eqI) (auto simp: bit_and_iff bit_or_iff bit_unsigned_iff bit_take_bit_iff bit_0x80 bit_0x7f
      simp del: bit_numeral_word_iff)

lemma join_seven_bits: "take_bit 7 v OR push_bit 7 (drop_bit 7 v) = v" for v :: u64
proof (rule bit_word_eqI)
  fix n assume "n < LENGTH(64)"
  then show "bit (take_bit 7 v OR push_bit 7 (drop_bit 7 v)) n = bit v n"
    by (cases "n < 7") (auto simp: bit_simps)
qed

lemma bit_less_128: "v < 0x80 \<Longrightarrow> bit v n \<Longrightarrow> n < 7" for v :: u64
proof -
  assume v: "v < 0x80" and n: "bit v n"
  from v have "unat v < 2 ^ 7" by (simp add: word_less_nat_alt)
  then have "take_bit 7 (unat v) = unat v" by (simp add: take_bit_nat_eq_self_iff)
  moreover have "bit (unat v) n" using n by (simp add: bit_unsigned_iff)
  ultimately show ?thesis by (metis bit_take_bit_iff)
qed

lemma decode_loop_encode:
  "unat v < 2 ^ (64 - shift) \<Longrightarrow> shift \<le> 63 \<Longrightarrow>
   decode_varint_loop i acc shift (encode_varint [] v @ rest)
     = Inr (acc OR push_bit shift v, i + length (encode_varint [] v))"
proof (induction "unat v" arbitrary: v i acc shift rule: less_induct)
  case less
  show ?case
  proof (cases "0x80 \<le> v")
    case True
    let ?b = "ucast v OR 0x80 :: u8"
    have top: "?b AND 0x80 \<noteq> 0"
    proof
      assume "?b AND 0x80 = 0"
      then have "\<not> bit (?b AND 0x80) 7" by simp
      then show False by (simp add: bit_and_iff bit_or_iff bit_0x80 del: bit_numeral_word_iff)
    qed
    have "2 ^ 7 \<le> unat v" using True by (simp add: word_le_nat_alt)
    then have "(2 :: nat) ^ 7 < 2 ^ (64 - shift)" using less.prems(1) by linarith
    then have "7 < 64 - shift" using power_less_imp_less_exp [of "2 :: nat" 7 "64 - shift"] by simp
    then have shift: "shift + 7 \<le> 63" by simp
    have "unat (drop_bit 7 v) < 2 ^ (64 - (shift + 7))"
    proof -
      have "64 - shift = (64 - (shift + 7)) + 7" using shift by simp
      then have "unat v < 2 ^ (64 - (shift + 7)) * 2 ^ 7"
        using less.prems(1) by (simp only: power_add)
      then show ?thesis by (simp add: drop_bit_eq_div unat_div div_less_iff_less_mult)
    qed
    then have "decode_varint_loop (i + 1) (acc OR push_bit shift (ucast (?b AND 0x7f))) (shift + 7)
        (encode_varint [] (drop_bit 7 v) @ rest)
      = Inr ((acc OR push_bit shift (ucast (?b AND 0x7f))) OR push_bit (shift + 7) (drop_bit 7 v),
          i + 1 + length (encode_varint [] (drop_bit 7 v)))"
      using shift by (intro less.hyps drop_7_less [OF True])
    moreover have "push_bit shift (ucast (?b AND 0x7f)) OR push_bit (shift + 7) (drop_bit 7 v) = push_bit shift v"
      by (simp only: low_seven_bits push_bit_push_bit [symmetric] push_bit_or [symmetric] join_seven_bits)
    ultimately show ?thesis
      using True top shift by (simp add: encode_varint_big Let_def or.assoc)
  next
    case False
    let ?b = "ucast v :: u8"
    have small: "v < 0x80" using False by simp
    have "?b AND 0x80 = 0" "ucast (?b AND 0x7f) = v"
      by (auto intro!: bit_word_eqI simp: bit_and_iff bit_unsigned_iff bit_0x80 bit_0x7f simp del: bit_numeral_word_iff)
        (auto dest: bit_less_128 [OF small])
    then show ?thesis by (simp add: encode_varint_small [OF small] Let_def)
  qed
qed

lemma decode_encode_varint:
  "decode_varint (encode_varint [] v @ rest) = Inr (v, length (encode_varint [] v))"
  unfolding decode_varint_def using decode_loop_encode [of v 0 0 0 rest] unsigned_less [of v] by simp

lemma encode_varint_nonempty: "encode_varint [] v \<noteq> []"
  by (cases "0x80 \<le> v") (simp_all add: encode_varint_big encode_varint_small not_le)

lemma decode_loop_offset:
  "decode_varint_loop i acc shift data = Inr (v, k) \<Longrightarrow> i < k \<and> k \<le> i + length data"
  by (induction i acc shift data rule: decode_varint_loop.induct)
    (fastforce simp: Let_def split: if_splits)+

lemma decode_loop_offset_shift:
  "decode_varint_loop i acc shift data = Inr (v, k) \<Longrightarrow> shift \<le> 63 \<Longrightarrow> shift + 7 * (k - i) \<le> 70"
proof (induction i acc shift data rule: decode_varint_loop.induct)
  case (2 i acc shift byte data)
  show ?case
  proof (cases "byte AND 0x80 = 0")
    case True
    then show ?thesis using 2(2,3) by (auto simp: Let_def)
  next
    case False
    then have n: "\<not> 63 < shift + 7"
      and d: "decode_varint_loop (i + 1) (acc OR push_bit shift (ucast (byte AND 0x7f))) (shift + 7) data = Inr (v, k)"
      using 2(2) by (auto simp: Let_def split: if_splits)
    have "shift + 7 + 7 * (k - (i + 1)) \<le> 70"
      using 2(1) [OF refl False refl n d] n by simp
    then show ?thesis using decode_loop_offset [OF d] by simp
  qed
qed simp

lemma length_encode_varint: "length (encode_varint [] v) \<le> 10"
proof -
  have d: "decode_varint_loop 0 0 0 (encode_varint [] v @ []) = Inr (v, length (encode_varint [] v))"
    using decode_encode_varint [of v "[]"] by (simp only: decode_varint_def)
  show ?thesis using decode_loop_offset_shift [OF d] by simp
qed

text \<open>
  Every 64-bit length is written in at most ten bytes, which the decoder reads
  back, whatever follows them; and no decoded number takes more than ten bytes.
\<close>

theorem varint_roundtrip:
  "decode_varint (encode_varint [] v @ rest) = Inr (v, length (encode_varint [] v))
   \<and> length (encode_varint [] v) \<le> 10"
  by (simp add: decode_encode_varint length_encode_varint)

section \<open>Length-delimited fields\<close>

lemma unat_of_nat_len: "n < 2 ^ 64 \<Longrightarrow> unat (of_nat n :: u64) = n"
  by (simp add: unat_of_nat take_bit_nat_eq_self)

lemma slice_field: "n = length a \<Longrightarrow> m = n + length b \<Longrightarrow> slice (a @ b @ c) n m = Inr b"
  by (simp add: slice_def)

text \<open>
  The commitment and the secret of code entry, whose wire format is
  that of the challenge, are read back exactly: a field of any length below two to the 62 followed
  by further bytes decodes to the bytes it carries.
\<close>

theorem code_entry_fields_roundtrip:
  assumes "length b < 2 ^ 62"
  shows "decode_code_entry_commitment (encode_code_entry_challenge b @ rest) = Inr b
    \<and> decode_code_entry_secret (encode_code_entry_challenge b @ rest) = Inr b"
proof -
  let ?v = "encode_varint [] (of_nat (length b))"
  have e: "encode_code_entry_challenge b @ rest = 0x0a # ?v @ b @ rest"
    by (simp add: encode_code_entry_challenge_def) (simp add: encode_varint_append [of "[_]"])
  have l: "unat (of_nat (length b) :: u64) = length b"
    using assms by (intro unat_of_nat_len) simp
  have v: "length ?v \<le> 10" "?v \<noteq> []"
    using length_encode_varint encode_varint_nonempty by blast+
  then have u: "usize_add (Suc (length ?v)) (length b) = Suc (length ?v + length b)"
    using assms usize_add_exact [of "Suc (length ?v)" "length b"] by simp
  have s: "slice (0x0a # ?v @ b @ rest) (Suc (length ?v)) (Suc (length ?v + length b)) = Inr b"
    using slice_field [of "Suc (length ?v)" "0x0a # ?v" _ b rest] by simp
  have n: "\<not> length (0x0a # ?v @ b @ rest) < 2" using v(2) by (cases ?v) auto
  show ?thesis
    using n v(2) unfolding e decode_code_entry_commitment_def decode_code_entry_secret_def
    by (simp add: decode_encode_varint l u s Let_def)
qed

theorem code_entry_fields_roundtrip_witness:
  "decode_code_entry_commitment (encode_code_entry_challenge [1, 2] @ [7]) = Inr [1, 2]
    \<and> decode_code_entry_secret (encode_code_entry_challenge [1, 2] @ [7]) = Inr [1, 2]"
  using code_entry_fields_roundtrip [of "[1, 2]" "[7]"] by simp

section \<open>The credential response\<close>

definition delimited :: "u8 \<Rightarrow> bytes \<Rightarrow> bytes" where
  "delimited tag f = tag # encode_varint [] (of_nat (length f)) @ f"

lemma encode_cpace_host_tag_delimited:
  "encode_cpace_host_tag a b = delimited 0x0a a @ delimited 0x12 b"
  by (simp add: encode_cpace_host_tag_def delimited_def Let_def)
    (simp add: encode_varint_append [of "_ @ _"] encode_varint_append [of "[_]"] encode_varint_append [of "_ # _"])

lemma credential_loop_end:
  "length data \<le> pos \<Longrightarrow> credential_loop data pos t c = Some (Inr (t, c))"
  by (simp add: credential_loop.simps [of data pos])

lemma credential_loop_field:
  assumes d: "data = pre @ delimited tag f @ post" and len: "length data < 2 ^ 62"
    and wire: "tag AND 0x07 = 2"
  shows "credential_loop data (length pre) t c =
    (let end = length pre + length (delimited tag f) in
     if drop_bit 3 tag = 1 then credential_loop data end f c
     else if drop_bit 3 tag = 2 then credential_loop data end t f
     else credential_loop data end t c)"
proof -
  let ?v = "encode_varint [] (of_nat (length f))"
  have l: "unat (of_nat (length f) :: u64) = length f"
    using len by (intro unat_of_nat_len) (simp add: d delimited_def)
  have u: "usize_add (Suc (length pre + length ?v)) (length f) = length pre + length (delimited tag f)"
    using len usize_add_exact [of "Suc (length pre + length ?v)" "length f"]
    by (simp add: d delimited_def)
  have at: "data ! length pre = tag" "drop (Suc (length pre)) data = ?v @ f @ post"
    by (simp_all add: d delimited_def)
  have s: "slice data (Suc (length pre + length ?v)) (length pre + length (delimited tag f)) = Inr f"
    using slice_field [of "length (pre @ tag # ?v)" "pre @ tag # ?v" "length pre + length (delimited tag f)" f post]
    by (simp add: d delimited_def add.assoc)
  have "length pre < length data" "\<not> length data < length pre + length (delimited tag f)"
    by (simp_all add: d delimited_def)
  then show ?thesis
    using wire by (simp add: credential_loop.simps [of data "length pre"] at decode_encode_varint l u s Let_def)
qed

lemma credential_response_back:
  assumes "a \<noteq> []" "b \<noteq> []" "length a < 2 ^ 60" "length b < 2 ^ 60"
  shows "decode_credential_response (encode_cpace_host_tag a b) = Some (Inr (a, b))"
proof -
  let ?d = "delimited 0x0a a @ delimited 0x12 b"
  have len: "length ?d < 2 ^ 62"
    using assms(3,4) length_encode_varint [of "of_nat (length a)"] length_encode_varint [of "of_nat (length b)"]
    by (simp add: delimited_def)
  have tags: "(0x0a :: u8) AND 0x07 = 2" "(0x12 :: u8) AND 0x07 = 2"
      "drop_bit 3 (0x0a :: u8) = 1" "drop_bit 3 (0x12 :: u8) = 2"
    by (simp_all add: drop_bit_eq_div)
  have one: "credential_loop ?d 0 [] [] = credential_loop ?d (length (delimited 0x0a a)) a []"
    using credential_loop_field [of ?d "[]" "0x0a" a "delimited 0x12 b" "[]" "[]"] len tags by (simp add: Let_def)
  have two: "credential_loop ?d (length (delimited 0x0a a)) a [] = credential_loop ?d (length ?d) a b"
    using credential_loop_field [of ?d "delimited 0x0a a" "0x12" b "[]" a "[]"] len tags by (simp add: Let_def)
  show ?thesis
    using assms(1,2)
    by (simp add: decode_credential_response_def encode_cpace_host_tag_delimited one two credential_loop_end
        del: length_append)
qed

text \<open>
  The loop ends when no length makes the field's end wrap; with a length of two to the 64 less
  eleven after an unknown field's tag the end wraps to the start of the message, and the loop
  never ends.
\<close>

lemma credential_loop_returns:
  assumes "\<And>pos v k. pos \<le> length data \<Longrightarrow> decode_varint (drop pos data) = Inr (v, k) \<Longrightarrow>
      pos + k + unat v < 2 ^ 64"
  shows "\<exists>r. credential_loop data pos t c = Some r"
proof (induction "length data - pos" arbitrary: pos t c rule: less_induct)
  case less
  show ?case
  proof (cases "pos < length data")
    case True
    have next_field: "\<exists>r. credential_loop data p t' c' = Some r" if "pos < p" for p t' c'
      using less that True by (meson diff_less_mono2)
    let ?d = "decode_varint (drop (Suc pos) data)"
    consider e where "?d = Inl e" | v k where "?d = Inr (v, k)" by (cases ?d) auto
    then show ?thesis
    proof cases
      case 1
      then show ?thesis using True next_field by (simp add: credential_loop.simps [of data pos] Let_def)
    next
      case (2 v k)
      then have "Suc pos + k + unat v < 2 ^ 64" using assms [of "Suc pos"] True by simp
      then have "usize_add (Suc (pos + k)) (unat v) = Suc (pos + k) + unat v"
        using usize_add_exact [of "Suc (pos + k)" "unat v"] by simp
      then show ?thesis
        using True 2 next_field by (simp add: credential_loop.simps [of data pos] Let_def split: sum.split)
    qed
  qed (simp add: credential_loop_end)
qed

definition looping_response :: bytes where
  "looping_response = [0x1a, 0xf5, 0xff, 0xff, 0xff, 0xff, 0xff, 0xff, 0xff, 0xff, 0x01]"

lemma looping_response_step: "decode_varint (drop 1 looping_response) = Inr (0xfffffffffffffff5, 10)"
  by (simp add: looping_response_def decode_varint_def)

lemma looping_tag:
  "looping_response ! 0 = 0x1a" "length looping_response = 11" "(0x1a :: u8) AND 0x07 = 2"
  "drop_bit 3 (0x1a :: u8) = 3"
  by (simp_all add: looping_response_def drop_bit_eq_div)

text \<open>
  A credential response whose unknown field declares a length of two
  to the 64 less eleven makes the decoder loop forever: the wrapped end of the field is the start
  of the message.
\<close>

theorem credential_response_hangs: "decode_credential_response looping_response = None"
proof -
  have "data = looping_response \<longrightarrow> pos \<noteq> 0" if "credential_loop data pos t c = Some r" for data pos t c r
  proof (rule credential_loop.raw_induct [of "\<lambda>data pos t c r. data = looping_response \<longrightarrow> pos \<noteq> 0",
        OF _ that], goal_cases)
    case (1 loop data pos t c r)
    show ?case
    proof (intro impI notI)
      assume d: "data = looping_response" "pos = 0"
      have "loop looping_response 0 t c \<noteq> Some r" using 1(1) by blast
      then show False
        using 1(2) looping_response_step by (simp add: d Let_def usize_add_def looping_tag)
    qed
  qed
  then have "credential_loop looping_response 0 [] [] = None" by (metis not_None_eq)
  then show ?thesis by (simp add: decode_credential_response_def)
qed

end
