(* ===== verification/Thp_Pairing.thy ===== *)
theory Thp_Pairing
  imports Thp_Handshake
begin

text \<open>
  The pairing methods (\<^verbatim>\<open>protocol/thp/pairing.rs\<close>): the CPACE exchange of code entry, the
  checks of the code, the QR tag and the NFC tag, and the search of known credentials. The random
  private key and the hex codec are arguments.
\<close>

section \<open>Definitions\<close>

record CpaceHostKeys =
  ck_private_key :: bytes
  ck_public_key :: bytes

definition cpace_prefix :: bytes where
  "cpace_prefix = [0x08, 0x43, 0x50, 0x61, 0x63, 0x65, 0x32, 0x35, 0x35, 0x06]"

definition cpace_padding :: bytes where
  "cpace_padding = [0x6f] @ replicate 111 0 @ [0x20]"

definition get_cpace_host_keys :: "primitives \<Rightarrow> bytes \<Rightarrow> bytes \<Rightarrow> bytes \<Rightarrow> CpaceHostKeys" where
  "get_cpace_host_keys prim random_key code handshake_hash =
     (let sha_output = p_sha512 prim (cpace_prefix @ code @ cpace_padding @ handshake_hash @ [0x00]);
          pregenerator = take 32 sha_output;
          generator = elligator2 pregenerator;
          private_key = random_key;
          (secret, _) = keypair_from_secret prim private_key;
          public_key = x25519_dh prim secret generator
      in \<lparr>ck_private_key = private_key, ck_public_key = public_key\<rparr>)"

definition get_shared_secret :: "primitives \<Rightarrow> bytes \<Rightarrow> bytes \<Rightarrow> bytes" where
  "get_shared_secret prim trezor_cpace_pubkey host_cpace_privkey =
     (let (secret, _) = keypair_from_secret prim host_cpace_privkey;
          shared = x25519_dh prim secret trezor_cpace_pubkey
      in p_sha256 prim shared)"

text \<open>\<^verbatim>\<open>BigUint::from_bytes_be\<close>\<close>

definition from_bytes_be :: "bytes \<Rightarrow> nat" where
  "from_bytes_be bs = foldl (\<lambda>n b. n * 256 + unat b) 0 bs"

definition validate_code_entry_tag ::
    "primitives \<Rightarrow> ThpHandshakeCredentials \<Rightarrow> string \<Rightarrow> bytes \<Rightarrow> unit result" where
  "validate_code_entry_tag prim credentials displayed_value secret =
     (if p_sha256 prim secret \<noteq> hc_handshake_commitment credentials
      then thp_err (PairingFailed ''Commitment mismatch'')
      else
        let hash = p_sha256 prim ([pairing_method_code CodeEntry] @ hc_handshake_hash credentials @ secret
              @ hc_code_entry_challenge credentials);
            v = from_bytes_be hash mod 1000000
        in case parse_uint u64_max displayed_value of
             None \<Rightarrow> thp_err (PairingFailed ''Invalid code format'')
           | Some expected_value \<Rightarrow>
               if v \<noteq> expected_value
               then thp_err (PairingFailed
                      (''Code mismatch: expected '' @ show_nat expected_value @ '', got '' @ show_nat v))
               else Inr ())"

definition validate_qr_code_tag :: "primitives \<Rightarrow> ThpHandshakeCredentials \<Rightarrow> bytes \<Rightarrow> bytes \<Rightarrow> unit result" where
  "validate_qr_code_tag prim credentials tag secret =
     (let calculated_tag = p_sha256 prim ([pairing_method_code QrCode] @ hc_handshake_hash credentials @ secret)
      in if length tag < 16 \<or> take 16 calculated_tag \<noteq> take 16 tag
         then thp_err (PairingFailed ''QR code tag mismatch'')
         else Inr ())"

definition validate_nfc_tag :: "primitives \<Rightarrow> ThpHandshakeCredentials \<Rightarrow> bytes \<Rightarrow> bytes \<Rightarrow> unit result" where
  "validate_nfc_tag prim credentials tag secret =
     (let calculated_tag = p_sha256 prim ([pairing_method_code Nfc] @ hc_handshake_hash credentials @ secret)
      in if length tag < 16 \<or> take 16 calculated_tag \<noteq> take 16 tag
         then thp_err (PairingFailed ''NFC tag mismatch'')
         else Inr ())"

definition create_pairing_credentials ::
    "(bytes \<Rightarrow> string) \<Rightarrow> ThpState \<Rightarrow> bytes \<Rightarrow> bool \<Rightarrow> ThpCredentials option result" where
  "create_pairing_credentials hex_encode state trezor_static_pubkey autoconnect =
     (case handshake_credentials state of
        None \<Rightarrow> Inr None
      | Some creds \<Rightarrow>
          bind_res (slice (hc_handshake_hash creds) 0 16) (\<lambda>cred.
            Inr (Some \<lparr>cr_host_static_key = hex_encode (hc_static_key creds),
                       cr_trezor_static_public_key = hex_encode trezor_static_pubkey,
                       cr_credential = hex_encode cred,
                       cr_autoconnect = autoconnect\<rparr>)))"

fun find_known_credentials ::
    "primitives \<Rightarrow> (string \<Rightarrow> bytes option) \<Rightarrow> ThpCredentials list \<Rightarrow> bytes \<Rightarrow> bytes \<Rightarrow> ThpCredentials option" where
  "find_known_credentials prim hex_decode [] masked ephemeral = None"
| "find_known_credentials prim hex_decode (cred # creds) masked ephemeral =
     (case hex_decode (cr_trezor_static_public_key cred) of
        None \<Rightarrow> find_known_credentials prim hex_decode creds masked ephemeral
      | Some trezor_static \<Rightarrow>
          let h = hash_of_two prim trezor_static ephemeral in
          if length trezor_static \<noteq> 32 then find_known_credentials prim hex_decode creds masked ephemeral
          else
            let (secret, _) = keypair_from_secret prim h;
                expected_masked = x25519_dh prim secret trezor_static
            in if expected_masked = masked then Some cred
               else find_known_credentials prim hex_decode creds masked ephemeral)"

section \<open>Properties\<close>

lemma digits_val_zeros: "digits_val (replicate n CHR ''0'' @ s) = digits_val s"
  by (induction n) (simp_all add: digits_val_def digit_val_def)

definition code_value :: "primitives \<Rightarrow> ThpHandshakeCredentials \<Rightarrow> bytes \<Rightarrow> nat" where
  "code_value prim creds secret =
     from_bytes_be (p_sha256 prim ([pairing_method_code CodeEntry] @ hc_handshake_hash creds @ secret
       @ hc_code_entry_challenge creds)) mod 1000000"

text \<open>The six digits the device shows.\<close>

definition six_digits :: "nat \<Rightarrow> string" where
  "six_digits v = replicate (6 - length (show_nat v)) CHR ''0'' @ show_nat v"

lemma parse_six_digits:
  assumes "v < 1000000"
  shows "parse_uint u64_max (six_digits v) = Some v"
proof -
  have "strip_plus (six_digits v) = six_digits v"
  proof -
    have "list_all is_ascii_digit (six_digits v)"
      by (simp add: six_digits_def list_all_iff is_ascii_digit_def)
        (use show_nat_digits [of v] in \<open>auto simp: list_all_iff is_ascii_digit_def\<close>)
    then show ?thesis
      by (cases "six_digits v") (auto simp: strip_plus_def is_ascii_digit_def)
  qed
  moreover have "list_all is_ascii_digit (six_digits v)"
    using show_nat_digits [of v] by (auto simp: six_digits_def list_all_iff is_ascii_digit_def)
  moreover have "six_digits v \<noteq> []" by (simp add: six_digits_def)
  moreover have "digits_val (six_digits v) = v" by (simp add: six_digits_def digits_val_zeros)
  ultimately show ?thesis using assms by (simp add: parse_uint_def u64_max_def)
qed

lemma code_entry_iff:
  "validate_code_entry_tag prim creds text secret = Inr ()
   \<longleftrightarrow> p_sha256 prim secret = hc_handshake_commitment creds
     \<and> parse_uint u64_max text = Some (code_value prim creds secret)"
  by (auto simp: validate_code_entry_tag_def code_value_def Let_def split: option.split)

text \<open>
  The code check accepts exactly when the revealed secret opens the device's
  commitment and the typed text reads as the number derived from the handshake, the secret and the
  host's challenge; so with the right secret the six digits the device shows are accepted, and no
  other six digits are.
\<close>

theorem code_entry_accepts:
  "(validate_code_entry_tag prim creds text secret = Inr ()
      \<longleftrightarrow> p_sha256 prim secret = hc_handshake_commitment creds
        \<and> parse_uint u64_max text = Some (code_value prim creds secret))
   \<and> (p_sha256 prim secret = hc_handshake_commitment creds \<and> v < 1000000
        \<longrightarrow> (validate_code_entry_tag prim creds (six_digits v) secret = Inr ()
              \<longleftrightarrow> v = code_value prim creds secret))"
  by (auto simp: code_entry_iff parse_six_digits)

lemma from_bytes_be_zeros: "from_bytes_be (replicate n 0) = 0"
  by (induction n) (simp_all add: from_bytes_be_def)

theorem code_entry_accepts_witness:
  "validate_code_entry_tag plain_prim (sample_credentials\<lparr>hc_handshake_commitment := replicate 32 0\<rparr>)
     (six_digits 0) [1] = Inr ()"
  using code_entry_accepts [of plain_prim "sample_credentials\<lparr>hc_handshake_commitment := replicate 32 0\<rparr>" "[]" "[1]" 0]
  by (simp add: code_value_def plain_prim_def from_bytes_be_zeros)



text \<open>The search returns the first credential whose key masks to what the device sent.\<close>

definition credential_matches ::
    "primitives \<Rightarrow> (string \<Rightarrow> bytes option) \<Rightarrow> bytes \<Rightarrow> bytes \<Rightarrow> ThpCredentials \<Rightarrow> bool" where
  "credential_matches prim hex_decode masked ephemeral cred \<longleftrightarrow>
     (\<exists>key. hex_decode (cr_trezor_static_public_key cred) = Some key \<and> length key = 32
        \<and> verify_stored_credential prim
            \<lparr>sc_host_static_key = [], sc_trezor_static_public_key = key, sc_credential = []\<rparr> masked ephemeral)"

lemma find_known_credentials_first:
  "find_known_credentials prim hex_decode creds masked ephemeral
     = List.find (credential_matches prim hex_decode masked ephemeral) creds"
  by (induction creds)
    (auto simp: credential_matches_def verify_stored_credential_def keypair_from_secret_def x25519_dh_def Let_def
      split: option.split)

end
