(* ===== verification/Callback_Pairing.thy ===== *)
theory Callback_Pairing
  imports Transport_Thp Thp_Pairing Error_Text
begin

text \<open>
  Pairing and session creation over the callback transport (\<^verbatim>\<open>perform_pairing\<close> and
  \<^verbatim>\<open>create_thp_session\<close> of \<^verbatim>\<open>transport/callback.rs\<close>). The native layer is the record
  \<open>native\<close>: its answers may depend on the whole state, the log of its calls included. Random
  values come from a numbered supply; the hex, JSON, protobuf and Unicode codecs are other crates'
  and are the record \<open>codecs\<close>.
\<close>

section \<open>Definitions\<close>

definition BUTTON_REQUEST :: u16 where "BUTTON_REQUEST = 26"
definition BUTTON_ACK :: u16 where "BUTTON_ACK = 27"
definition SUCCESS :: u16 where "SUCCESS = 2"
definition FAILURE :: u16 where "FAILURE = 3"
definition THP_CREATE_NEW_SESSION :: u16 where "THP_CREATE_NEW_SESSION = 1000"
definition THP_PAIRING_REQUEST :: u16 where "THP_PAIRING_REQUEST = 1008"
definition THP_PAIRING_REQUEST_APPROVED :: u16 where "THP_PAIRING_REQUEST_APPROVED = 1009"
definition THP_SELECT_METHOD :: u16 where "THP_SELECT_METHOD = 1010"
definition THP_PAIRING_PREPARATIONS_FINISHED :: u16 where "THP_PAIRING_PREPARATIONS_FINISHED = 1011"
definition THP_CREDENTIAL_REQUEST :: u16 where "THP_CREDENTIAL_REQUEST = 1016"
definition THP_CREDENTIAL_RESPONSE :: u16 where "THP_CREDENTIAL_RESPONSE = 1017"
definition THP_END_REQUEST :: u16 where "THP_END_REQUEST = 1018"
definition THP_END_RESPONSE :: u16 where "THP_END_RESPONSE = 1019"
definition THP_CODE_ENTRY_COMMITMENT :: u16 where "THP_CODE_ENTRY_COMMITMENT = 1024"
definition THP_CODE_ENTRY_CHALLENGE :: u16 where "THP_CODE_ENTRY_CHALLENGE = 1025"
definition THP_CODE_ENTRY_CPACE_TREZOR :: u16 where "THP_CODE_ENTRY_CPACE_TREZOR = 1026"
definition THP_CODE_ENTRY_CPACE_HOST_TAG :: u16 where "THP_CODE_ENTRY_CPACE_HOST_TAG = 1027"
definition THP_CODE_ENTRY_SECRET :: u16 where "THP_CODE_ENTRY_SECRET = 1028"
definition CODE_ENTRY :: u8 where "CODE_ENTRY = 2"

record StoredCredentialJson =
  js_host_static_key :: string
  js_trezor_static_public_key :: string
  js_credential :: string

record codecs =
  hex_encode :: "bytes \<Rightarrow> string"
  hex_decode :: "string \<Rightarrow> bytes option"
  json_encode :: "StoredCredentialJson \<Rightarrow> string option"
  json_decode :: "string \<Rightarrow> StoredCredentialJson option"
  failure_decode :: "bytes \<Rightarrow> (int option \<times> string) option"
  nfkd :: "string \<Rightarrow> string"

definition array32_or_zero :: "bytes option \<Rightarrow> bytes" where
  "array32_or_zero v = (case v of Some b \<Rightarrow> if length b = 32 then b else replicate 32 0 | None \<Rightarrow> replicate 32 0)"

definition credential_of_json :: "codecs \<Rightarrow> StoredCredentialJson \<Rightarrow> StoredCredential" where
  "credential_of_json cx json =
     \<lparr>sc_host_static_key = array32_or_zero (hex_decode cx (js_host_static_key json)),
      sc_trezor_static_public_key = array32_or_zero (hex_decode cx (js_trezor_static_public_key json)),
      sc_credential = (case hex_decode cx (js_credential json) of Some c \<Rightarrow> c | None \<Rightarrow> [])\<rparr>"

definition json_of_credential :: "codecs \<Rightarrow> StoredCredential \<Rightarrow> StoredCredentialJson" where
  "json_of_credential cx cred =
     \<lparr>js_host_static_key = hex_encode cx (sc_host_static_key cred),
      js_trezor_static_public_key = hex_encode cx (sc_trezor_static_public_key cred),
      js_credential = hex_encode cx (sc_credential cred)\<rparr>"

definition decode_failure_detail :: "codecs \<Rightarrow> bytes \<Rightarrow> string" where
  "decode_failure_detail cx data =
     (case failure_decode cx data of
        Some (code, message) \<Rightarrow> ''code='' @ debug_option_int code @ '', message='' @ message
      | None \<Rightarrow> ''undecodable Failure'')"

definition normalize_passphrase :: "codecs \<Rightarrow> string \<Rightarrow> string" where
  "normalize_passphrase cx passphrase = nfkd cx passphrase"

subsection \<open>The native layer and the state of the transport\<close>

datatype event = Opened string | Closed string | Saved string string | Cleared string

record link =
  states :: ble_states
  link_io :: io
  events :: "event list"
  draws :: nat

record native =
  nl_device :: "string \<Rightarrow> event list \<Rightarrow> device"
  nl_open :: "string \<Rightarrow> link \<Rightarrow> write_result"
  nl_load :: "string \<Rightarrow> link \<Rightarrow> string option"
  nl_pairing_code :: "link \<Rightarrow> string"
  nl_random :: "nat \<Rightarrow> nat \<Rightarrow> bytes"

record identity =
  host_name :: string
  app_name :: string

type_synonym 'a link_op = "link \<Rightarrow> ('a result \<times> link) option"

text \<open>Operations of the layer below, on the chunks and the channel states only.\<close>

definition on_world :: "(world \<Rightarrow> ('a result \<times> world) option) \<Rightarrow> 'a link_op" where
  "on_world m w = map_option (\<lambda>(r, st, io). (r, w\<lparr>states := st, link_io := io\<rparr>)) (m (states w, link_io w))"

definition device_of :: "native \<Rightarrow> string \<Rightarrow> link \<Rightarrow> device" where
  "device_of nl path w = nl_device nl path (events w)"

definition link_write :: "native \<Rightarrow> string \<Rightarrow> bytes \<Rightarrow> unit link_op" where
  "link_write nl path data w = on_world (on_io (write_raw (device_of nl path w) data)) w"

definition link_read :: "native \<Rightarrow> string \<Rightarrow> nat \<Rightarrow> (u8 \<times> u8) option \<Rightarrow> bytes link_op" where
  "link_read nl path attempts ch w = on_world (on_io (thp_read_response (device_of nl path w) attempts ch)) w"

definition exchange :: "native \<Rightarrow> primitives \<Rightarrow> string \<Rightarrow> u8 \<times> u8 \<Rightarrow> u16 \<Rightarrow> bytes \<Rightarrow> (u16 \<times> bytes) link_op" where
  "exchange nl prim path ch message_type data w =
     on_world (send_encrypted_message prim (device_of nl path w) path ch message_type data) w"

text \<open>\<^verbatim>\<open>if let Some(state) = states.get_mut(path)\<close>\<close>

definition update_device :: "string \<Rightarrow> (BleDeviceState \<Rightarrow> BleDeviceState) \<Rightarrow> link \<Rightarrow> link" where
  "update_device path f w =
     w\<lparr>states := (case states w path of None \<Rightarrow> states w | Some st \<Rightarrow> (states w)(path \<mapsto> f st))\<rparr>"

definition update_thp :: "string \<Rightarrow> (ThpState \<Rightarrow> ThpState) \<Rightarrow> link \<Rightarrow> link" where
  "update_thp path f = update_device path (with_protocol_state f)"

definition credentials_of :: "string \<Rightarrow> link \<Rightarrow> ThpHandshakeCredentials option" where
  "credentials_of path w = Option.bind (states w path) (\<lambda>st. handshake_credentials (protocol_state st))"

definition draw :: "native \<Rightarrow> nat \<Rightarrow> link \<Rightarrow> bytes \<times> link" where
  "draw nl n w = (nl_random nl n (draws w), w\<lparr>draws := draws w + 1\<rparr>)"

subsection \<open>Pairing\<close>

definition wrong_answer :: "string \<Rightarrow> u16 \<Rightarrow> 'a result" where
  "wrong_answer what resp_type = thp_err (PairingFailed (what @ show_nat (unat resp_type)))"

text \<open>An exchange whose answer may first be a button request, acknowledged once.\<close>

definition exchange_button :: "native \<Rightarrow> primitives \<Rightarrow> string \<Rightarrow> u8 \<times> u8 \<Rightarrow> u16 \<Rightarrow> bytes \<Rightarrow> (u16 \<times> bytes) link_op" where
  "exchange_button nl prim path ch message_type data w =
     bind_op (exchange nl prim path ch message_type data w) (\<lambda>resp w.
       if fst resp = BUTTON_REQUEST then exchange nl prim path ch BUTTON_ACK [] w
       else Some (Inr resp, w))"

definition get_commitment :: "native \<Rightarrow> primitives \<Rightarrow> string \<Rightarrow> u8 \<times> u8 \<Rightarrow> bytes \<Rightarrow> u16 \<times> bytes \<Rightarrow> bytes link_op" where
  "get_commitment nl prim path ch challenge_payload resp w =
     (if fst resp = THP_PAIRING_PREPARATIONS_FINISHED
      then bind_op (exchange nl prim path ch THP_CODE_ENTRY_CHALLENGE challenge_payload w) (\<lambda>resp w.
             if fst resp \<noteq> THP_CODE_ENTRY_COMMITMENT
             then Some (thp_err (PairingFailed ''Expected commitment''), w)
             else Some (Inr (snd resp), w))
      else if fst resp = THP_CODE_ENTRY_COMMITMENT then Some (Inr (snd resp), w)
      else Some (wrong_answer ''Unexpected response: '' (fst resp), w))"

text \<open>Steps 1 to 3: from the pairing request to the device's CPACE key. The commitment and the
  challenge are stored for the check of the code.\<close>

definition start_code_entry :: "native \<Rightarrow> primitives \<Rightarrow> identity \<Rightarrow> string \<Rightarrow> u8 \<times> u8 \<Rightarrow> bytes link_op" where
  "start_code_entry nl prim me path ch w =
     (let w = update_thp path (\<lambda>s. s\<lparr>is_paired := True\<rparr>) w in
      bind_op (exchange_button nl prim path ch THP_PAIRING_REQUEST
        (encode_pairing_request (host_name me) (app_name me)) w) (\<lambda>resp w.
      if fst resp \<noteq> THP_PAIRING_REQUEST_APPROVED
      then Some (wrong_answer ''Expected ThpPairingRequestApproved, got '' (fst resp), w)
      else
      bind_op (exchange nl prim path ch THP_SELECT_METHOD (encode_select_method CODE_ENTRY) w) (\<lambda>resp w.
      let (challenge, w) = draw nl 32 w;
          challenge_payload = encode_code_entry_challenge challenge
      in
      bind_op (get_commitment nl prim path ch challenge_payload resp w) (\<lambda>commitment_data w.
      bind_op (Some (decode_code_entry_commitment commitment_data, w)) (\<lambda>commitment w.
      let w = update_thp path (\<lambda>s. s\<lparr>handshake_credentials :=
            map_option (\<lambda>creds. creds\<lparr>hc_handshake_commitment := commitment,
              hc_code_entry_challenge := challenge\<rparr>) (handshake_credentials s)\<rparr>) w
      in
      bind_op (exchange nl prim path ch THP_CODE_ENTRY_CHALLENGE challenge_payload w) (\<lambda>resp w.
      if fst resp \<noteq> THP_CODE_ENTRY_CPACE_TREZOR
      then Some (thp_err (PairingFailed ''Expected CPACE Trezor''), w)
      else Some (decode_cpace_trezor (snd resp), w)))))))"

text \<open>Steps 4 to 6: the user's code, the exchange of tags and the check of the secret.\<close>

definition check_secret :: "primitives \<Rightarrow> string \<Rightarrow> string \<Rightarrow> bytes \<Rightarrow> unit link_op" where
  "check_secret prim path code secret w =
     Some (case states w path of
             None \<Rightarrow> transport_err DeviceNotFound
           | Some st \<Rightarrow>
               (case handshake_credentials (protocol_state st) of
                  Some creds \<Rightarrow> validate_code_entry_tag prim creds code secret
                | None \<Rightarrow> thp_err StateMissing), w)"

definition verify_code :: "native \<Rightarrow> primitives \<Rightarrow> string \<Rightarrow> u8 \<times> u8 \<Rightarrow> bytes \<Rightarrow> unit link_op" where
  "verify_code nl prim path ch trezor_cpace_pubkey w =
     (let code = nl_pairing_code nl w in
      if code = [] then Some (thp_err (PairingFailed ''Pairing cancelled by user''), w)
      else
      let handshake_hash = (case credentials_of path w of Some c \<Rightarrow> hc_handshake_hash c | None \<Rightarrow> []);
          (private_key, w) = draw nl 32 w;
          cpace_keys = get_cpace_host_keys prim private_key (as_bytes code) handshake_hash;
          tag = get_shared_secret prim trezor_cpace_pubkey (ck_private_key cpace_keys);
          cpace_host_tag = encode_cpace_host_tag (ck_public_key cpace_keys) tag
      in
      bind_op (exchange nl prim path ch THP_CODE_ENTRY_CPACE_HOST_TAG cpace_host_tag w) (\<lambda>resp w.
      if fst resp = FAILURE then Some (thp_err (PairingFailed ''Code verification failed''), w)
      else if fst resp \<noteq> THP_CODE_ENTRY_SECRET then Some (wrong_answer ''Expected secret, got '' (fst resp), w)
      else
      bind_op (Some (decode_code_entry_secret (snd resp), w)) (\<lambda>secret w.
      check_secret prim path code secret w)))"

text \<open>Step 7: the credential, saved when both keys have the right length. A response that does
  not decode is not an error.\<close>

definition save_credential :: "codecs \<Rightarrow> string \<Rightarrow> bytes \<Rightarrow> unit link_op" where
  "save_credential cx path credential_data w =
     (case decode_credential_response credential_data of
        None \<Rightarrow> None
      | Some (Inl Panic) \<Rightarrow> Some (Inl Panic, w)
      | Some (Inl (Err e)) \<Rightarrow> Some (Inr (), w)
      | Some (Inr (trezor_static_pubkey, credential)) \<Rightarrow>
          let host_static_key = (case credentials_of path w of Some c \<Rightarrow> hc_static_key c | None \<Rightarrow> []) in
          if length host_static_key = 32 \<and> length trezor_static_pubkey = 32
          then case json_encode cx (json_of_credential cx
                 \<lparr>sc_host_static_key = host_static_key, sc_trezor_static_public_key = trezor_static_pubkey,
                  sc_credential = credential\<rparr>) of
                 Some json_str \<Rightarrow> Some (Inr (), w\<lparr>events := events w @ [Saved path json_str]\<rparr>)
               | None \<Rightarrow> Some (Inr (), w)
          else Some (Inr (), w))"

definition request_credential :: "native \<Rightarrow> primitives \<Rightarrow> codecs \<Rightarrow> string \<Rightarrow> u8 \<times> u8 \<Rightarrow> unit link_op" where
  "request_credential nl prim cx path ch w =
     (let host_static_pubkey = (case credentials_of path w of Some c \<Rightarrow> hc_host_static_public_key c | None \<Rightarrow> []) in
      bind_op (exchange_button nl prim path ch THP_CREDENTIAL_REQUEST
        (encode_credential_request host_static_pubkey False None) w) (\<lambda>resp w.
      if fst resp \<noteq> THP_CREDENTIAL_RESPONSE
      then Some (wrong_answer ''Expected credential response, got '' (fst resp), w)
      else save_credential cx path (snd resp) w))"

definition end_pairing :: "native \<Rightarrow> primitives \<Rightarrow> string \<Rightarrow> u8 \<times> u8 \<Rightarrow> unit link_op" where
  "end_pairing nl prim path ch w =
     bind_op (exchange nl prim path ch THP_END_REQUEST [] w) (\<lambda>resp w.
       if fst resp \<noteq> THP_END_RESPONSE then Some (thp_err (PairingFailed ''Expected ThpEndResponse''), w)
       else Some (Inr (), w))"

definition perform_pairing :: "native \<Rightarrow> primitives \<Rightarrow> codecs \<Rightarrow> identity \<Rightarrow> string \<Rightarrow> u8 \<times> u8 \<Rightarrow> unit link_op" where
  "perform_pairing nl prim cx me path ch w =
     bind_op (start_code_entry nl prim me path ch w) (\<lambda>trezor_cpace_pubkey w.
     bind_op (verify_code nl prim path ch trezor_cpace_pubkey w) (\<lambda>_ w.
     bind_op (request_credential nl prim cx path ch w) (\<lambda>_ w.
     end_pairing nl prim path ch w)))"

subsection \<open>Session creation\<close>

partial_function (option) ack_buttons ::
    "native \<Rightarrow> primitives \<Rightarrow> string \<Rightarrow> u8 \<times> u8 \<Rightarrow> u16 \<times> bytes \<Rightarrow> (u16 \<times> bytes) link_op" where
  "ack_buttons nl prim path ch resp w =
     (if fst resp = BUTTON_REQUEST
      then case exchange nl prim path ch BUTTON_ACK [] w of
             None \<Rightarrow> None
           | Some (Inl e, w) \<Rightarrow> Some (Inl e, w)
           | Some (Inr next, w) \<Rightarrow> ack_buttons nl prim path ch next w
      else Some (Inr resp, w))"

definition create_thp_session ::
    "native \<Rightarrow> primitives \<Rightarrow> codecs \<Rightarrow> string \<Rightarrow> u8 \<times> u8 \<Rightarrow> string option \<Rightarrow> bool \<Rightarrow> unit link_op" where
  "create_thp_session nl prim cx path ch passphrase on_device w =
     (let w = update_thp path (\<lambda>s. snd (create_new_session_id s)) w;
          normalized = map_option (normalize_passphrase cx) passphrase;
          passphrase_opt = (if on_device then None else normalized);
          session_payload = encode_create_new_session passphrase_opt on_device
      in
      bind_op (exchange nl prim path ch THP_CREATE_NEW_SESSION session_payload w) (\<lambda>resp w.
      bind_op (ack_buttons nl prim path ch resp w) (\<lambda>resp w.
      if fst resp = SUCCESS then Some (Inr (), w)
      else if fst resp = FAILURE
      then Some (thp_err (ThpSessionError (''ThpCreateNewSession rejected ('' @ decode_failure_detail cx (snd resp) @ '')'')), w)
      else Some (thp_err (ThpSessionError (''Unexpected response: '' @ show_nat (unat (fst resp)))), w))))"

section \<open>Outcomes\<close>

lemma ends_on_io: "ends (on_io m w) (\<lambda>r w'. fst w' = fst w)"
  by (auto simp: ends_def on_io_def)

lemma ends_on_world: "ends (m (states w, link_io w)) (\<lambda>r w'. P (fst w')) \<Longrightarrow> ends (on_world m w) (\<lambda>r w'. P (states w'))"
  by (auto simp: ends_def on_world_def)

section \<open>What an exchange keeps\<close>

text \<open>
  \<open>same_channel p m m'\<close>: only the entry of \<open>p\<close> may differ; it exists in both or in neither, and
  keeps its channel id, its completion flag and, once set, its pairing flag.
\<close>

definition same_channel :: "string \<Rightarrow> ble_states \<Rightarrow> ble_states \<Rightarrow> bool" where
  "same_channel p m m' \<longleftrightarrow>
     (\<forall>q. q \<noteq> p \<longrightarrow> m' q = m q)
     \<and> (case m p of
          None \<Rightarrow> m' p = None
        | Some st \<Rightarrow> \<exists>st'. m' p = Some st' \<and> channel (protocol_state st') = channel (protocol_state st)
            \<and> handshake_complete st' = handshake_complete st
            \<and> (is_paired (protocol_state st) \<longrightarrow> is_paired (protocol_state st')))"

lemma same_channel_refl [simp]: "same_channel p m m"
  by (simp add: same_channel_def split: option.split)

lemma same_channel_trans: "same_channel p m m' \<Longrightarrow> same_channel p m' m'' \<Longrightarrow> same_channel p m m''"
  by (fastforce simp: same_channel_def split: option.splits)

lemma same_channel_update:
  assumes "\<And>st. m p = Some st \<Longrightarrow> channel (protocol_state (f st)) = channel (protocol_state st)
      \<and> handshake_complete (f st) = handshake_complete st
      \<and> (is_paired (protocol_state st) \<longrightarrow> is_paired (protocol_state (f st)))"
  shows "same_channel p m (case m p of None \<Rightarrow> m | Some st \<Rightarrow> m(p \<mapsto> f st))"
  using assms by (simp add: same_channel_def split: option.split)

lemma protocol_state_with [simp]: "protocol_state (with_protocol_state f st) = f (protocol_state st)"
  by (simp add: with_protocol_state_def protocol_state_def)

lemma complete_with [simp]: "handshake_complete (with_protocol_state f st) = handshake_complete st"
  by (simp add: with_protocol_state_def)

lemma update_sync_bit_keeps [simp]:
  "channel (update_sync_bit b s) = channel s" "is_paired (update_sync_bit b s) = is_paired s"
  by (simp_all add: update_sync_bit_def)

lemma update_nonce_keeps:
  "update_nonce b s = Inr s' \<Longrightarrow> channel s' = channel s \<and> is_paired s' = is_paired s"
  by (auto simp: update_nonce_def split: if_splits)

lemma advance_same_channel: "same_channel p m (snd (advance b mk p m))"
proof (cases "m p")
  case (Some st)
  then show ?thesis
    using update_nonce_keeps [of b "update_sync_bit b (protocol_state st)"]
    by (auto simp: advance_def same_channel_def Let_def split: sum.split)
qed (simp add: advance_def)

lemma ends_on_states: "ends (on_states m w) (\<lambda>r w'. fst w' = snd (m (fst w)))"
  by (auto simp: ends_def on_states_def split: prod.splits)

lemma send_same_channel:
  "ends (send_encrypted_message prim dev p ch t d w) (\<lambda>r w'. same_channel p (fst w) (fst w'))"
proof -
  let ?P = "\<lambda>w'. same_channel p (fst w) (fst w')"
  have io: "ends (on_io m s) (\<lambda>r. ?P)" if "?P s" for s and m :: "io \<Rightarrow> ('x result \<times> io) option"
    using that ends_on_io [of m s] by (force simp: ends_def)
  have st: "ends (on_states (advance b mk p) s) (\<lambda>r. ?P)" if "?P s" for s b mk
    using that ends_on_states [of "advance b mk p" s] same_channel_trans advance_same_channel
    by (fastforce simp: ends_def)
  show ?thesis
    unfolding send_encrypted_message_def Let_def
    by (intro ends_keep_bind io st) (auto intro!: ends_keep_bind io st)
qed

named_theorems keeps \<open>operations that keep the channel\<close>

lemma exchange_keeps [keeps]:
  "same_channel p m (states w) \<Longrightarrow> ends (exchange nl prim p ch t d w) (\<lambda>r w'. same_channel p m (states w'))"
  unfolding exchange_def
  by (rule ends_on_world)
    (use send_same_channel [of prim _ p ch t d "(states w, link_io w)"] same_channel_trans in \<open>force simp: ends_def\<close>)

lemma link_io_keeps [keeps]:
  "P (states w) \<Longrightarrow> ends (link_write nl p data w) (\<lambda>r w'. P (states w'))"
  "P (states w) \<Longrightarrow> ends (link_read nl p n ch w) (\<lambda>r w'. P (states w'))"
  unfolding link_write_def link_read_def
  by (rule ends_on_world, use ends_on_io [of _ "(states w, link_io w)"] in \<open>force simp: ends_def\<close>)+

lemma update_thp_keeps [keeps]:
  assumes "same_channel p m (states w)"
    and "\<And>s. channel (f s) = channel s" "\<And>s. is_paired s \<Longrightarrow> is_paired (f s)"
  shows "same_channel p m (states (update_thp p f w))"
  by (rule same_channel_trans [OF assms(1)])
    (simp add: update_thp_def update_device_def same_channel_update assms(2,3))

lemma draw_fields [simp]:
  "states (snd (draw nl n w)) = states w" "events (snd (draw nl n w)) = events w"
  "link_io (snd (draw nl n w)) = link_io w" "draws (snd (draw nl n w)) = Suc (draws w)"
  "fst (draw nl n w) = nl_random nl n (draws w)"
  by (simp_all add: draw_def)

lemma exchange_button_keeps [keeps]:
  "same_channel p m (states w) \<Longrightarrow> ends (exchange_button nl prim p ch t d w) (\<lambda>r w'. same_channel p m (states w'))"
  unfolding exchange_button_def by (intro ends_keep_bind keeps) (auto intro: keeps)

lemma get_commitment_keeps [keeps]:
  "same_channel p m (states w) \<Longrightarrow> ends (get_commitment nl prim p ch c resp w) (\<lambda>r w'. same_channel p m (states w'))"
  unfolding get_commitment_def by (auto intro!: ends_keep_bind intro: keeps)

lemma start_code_entry_keeps [keeps]:
  "same_channel p m (states w) \<Longrightarrow> ends (start_code_entry nl prim me p ch w) (\<lambda>r w'. same_channel p m (states w'))"
  unfolding start_code_entry_def Let_def case_prod_beta
  by (auto intro!: ends_keep_bind keeps)

lemma verify_code_keeps [keeps]:
  "same_channel p m (states w) \<Longrightarrow> ends (verify_code nl prim p ch k w) (\<lambda>r w'. same_channel p m (states w'))"
  unfolding verify_code_def check_secret_def Let_def case_prod_beta
  by (auto intro!: ends_keep_bind keeps)

lemma save_credential_states [keeps]:
  "P (states w) \<Longrightarrow> ends (save_credential cx p d w) (\<lambda>r w'. P (states w'))"
  unfolding save_credential_def
  by (auto simp: Let_def split: option.split sum.split fault.split)

lemma request_credential_keeps [keeps]:
  "same_channel p m (states w) \<Longrightarrow> ends (request_credential nl prim cx p ch w) (\<lambda>r w'. same_channel p m (states w'))"
  unfolding request_credential_def Let_def by (auto intro!: ends_keep_bind keeps)

lemma end_pairing_keeps [keeps]:
  "same_channel p m (states w) \<Longrightarrow> ends (end_pairing nl prim p ch w) (\<lambda>r w'. same_channel p m (states w'))"
  unfolding end_pairing_def by (auto intro!: ends_keep_bind keeps)

lemma perform_pairing_keeps [keeps]:
  "same_channel p m (states w) \<Longrightarrow> ends (perform_pairing nl prim cx me p ch w) (\<lambda>r w'. same_channel p m (states w'))"
  unfolding perform_pairing_def by (intro ends_keep_bind keeps)

section \<open>Pairing checks the code\<close>

lemma advance_credentials:
  "map_option (\<lambda>st. handshake_credentials (protocol_state st)) (snd (advance b mk p m) q)
   = map_option (\<lambda>st. handshake_credentials (protocol_state st)) (m q)"
proof (cases "m p")
  case (Some st)
  then show ?thesis
    by (auto simp: advance_def Let_def update_sync_bit_def update_nonce_def split: sum.split if_splits)
qed (simp add: advance_def)

definition creds_of :: "string \<Rightarrow> ble_states \<Rightarrow> ThpHandshakeCredentials option" where
  "creds_of q m = Option.bind (m q) (\<lambda>st. handshake_credentials (protocol_state st))"

lemma credentials_of_states: "credentials_of q w = creds_of q (states w)"
  by (simp add: credentials_of_def creds_of_def)

lemma creds_of_advance [simp]: "creds_of q (snd (advance b mk p m)) = creds_of q m"
  using advance_credentials [of b mk p m q]
  by (cases "m q"; cases "snd (advance b mk p m) q") (auto simp: creds_of_def)

lemma send_credentials:
  "ends (send_encrypted_message prim dev p ch t d w) (\<lambda>r w'. creds_of q (fst w') = creds_of q (fst w))"
proof -
  let ?P = "\<lambda>w'. creds_of q (fst w') = creds_of q (fst w)"
  have io: "ends (on_io m s) (\<lambda>r. ?P)" if "?P s" for s and m :: "io \<Rightarrow> ('x result \<times> io) option"
    using that ends_on_io [of m s] by (force simp: ends_def)
  have st: "ends (on_states (advance b mk p) s) (\<lambda>r. ?P)" if "?P s" for s b mk
    using that ends_on_states [of "advance b mk p" s] by (force simp: ends_def)
  show ?thesis
    unfolding send_encrypted_message_def Let_def
    by (intro ends_keep_bind io st) (auto intro!: ends_keep_bind io st)
qed

text \<open>An exchange keeps the credentials, the supply of random values and the log of native calls.\<close>

lemma exchange_fixed:
  assumes "exchange nl prim p ch t d w = Some (r, w')"
  shows "credentials_of q w' = credentials_of q w" "draws w' = draws w" "events w' = events w"
  using assms send_credentials [of prim "device_of nl p w" p ch t d "(states w, link_io w)" q]
  by (auto simp: exchange_def on_world_def ends_def credentials_of_states)

definition holds :: "string \<Rightarrow> ThpHandshakeCredentials option \<Rightarrow> nat \<Rightarrow> link \<Rightarrow> bool" where
  "holds p c n w \<longleftrightarrow> credentials_of p w = c \<and> draws w = n"

lemma exchange_holds: "holds p c n w \<Longrightarrow> ends (exchange nl prim p' ch t d w) (\<lambda>r. holds p c n)"
  by (auto simp: ends_def holds_def dest: exchange_fixed)

lemma exchange_button_holds: "holds p c n w \<Longrightarrow> ends (exchange_button nl prim p' ch t d w) (\<lambda>r. holds p c n)"
  unfolding exchange_button_def by (auto intro!: ends_keep_bind intro: exchange_holds)

lemma get_commitment_holds: "holds p c n w \<Longrightarrow> ends (get_commitment nl prim p' ch cp resp w) (\<lambda>r. holds p c n)"
  unfolding get_commitment_def by (auto intro!: ends_keep_bind intro: exchange_holds)

lemma credentials_of_update_thp:
  "credentials_of p (update_thp p f w)
   = Option.bind (states w p) (\<lambda>st. handshake_credentials (f (protocol_state st)))"
  by (simp add: credentials_of_def update_thp_def update_device_def split: option.split)

lemma update_thp_draws [simp]: "draws (update_thp p f w) = draws w"
  by (simp add: update_thp_def update_device_def)

lemma credentials_of_Some: "credentials_of p w = Some c \<longleftrightarrow> (\<exists>st. states w p = Some st \<and> handshake_credentials (protocol_state st) = Some c)"
  by (simp add: credentials_of_def bind_eq_Some_conv)

lemma start_code_entry_credentials:
  assumes "credentials_of p w = Some c0"
  shows "ends (start_code_entry nl prim me p ch w) (\<lambda>r w'. \<forall>k. r = Inr k \<longrightarrow>
    (\<exists>commitment. credentials_of p w' = Some (c0\<lparr>hc_handshake_commitment := commitment,
      hc_code_entry_challenge := nl_random nl 32 (draws w)\<rparr>)))"
proof -
  define chal where "chal = nl_random nl 32 (draws w)"
  have h0: "holds p (Some c0) (draws w) (update_thp p (\<lambda>s. s\<lparr>is_paired := True\<rparr>) w)"
    using assms by (auto simp: holds_def credentials_of_update_thp credentials_of_Some)
  have d: "draw nl 32 s = (chal, s\<lparr>draws := Suc (draws w)\<rparr>)" if "holds p (Some c0) (draws w) s" for s
    using that by (simp add: draw_def holds_def chal_def)
  have h1: "holds p (Some c0) (Suc (draws w)) (s\<lparr>draws := Suc (draws w)\<rparr>)" if "holds p (Some c0) (draws w) s" for s
    using that by (simp add: holds_def credentials_of_def)
  let ?store = "\<lambda>commitment s. s\<lparr>handshake_credentials :=
            map_option (\<lambda>creds. creds\<lparr>hc_handshake_commitment := commitment,
              hc_code_entry_challenge := chal\<rparr>) (handshake_credentials s)\<rparr>"
  have h2: "holds p (Some (c0\<lparr>hc_handshake_commitment := commitment, hc_code_entry_challenge := chal\<rparr>))
      (Suc (draws w)) (update_thp p (?store commitment) s)" if "holds p (Some c0) (Suc (draws w)) s" for s commitment
    using that by (auto simp: holds_def credentials_of_update_thp credentials_of_Some)
  define Q :: "bytes result \<Rightarrow> link \<Rightarrow> bool" where "Q r w' \<longleftrightarrow> (\<forall>k. r = Inr k \<longrightarrow>
    (\<exists>commitment. credentials_of p w' = Some (c0\<lparr>hc_handshake_commitment := commitment,
      hc_code_entry_challenge := chal\<rparr>)))" for r w'
  have fail: "Q (Inl e) s" "ends (Some (thp_err x, s)) Q" "ends (Some (wrong_answer t u, s)) Q" for e s x t u
    by (simp_all add: Q_def wrong_answer_def)
  have last: "ends (Some (decode_cpace_trezor d, s)) Q"
    if "holds p (Some (c0\<lparr>hc_handshake_commitment := commitment, hc_code_entry_challenge := chal\<rparr>)) (Suc (draws w)) s"
    for d s commitment
    using that by (auto simp: holds_def Q_def)
  note step = ends_step [where Q = Q, OF _ _ fail(1)]
  have "ends (start_code_entry nl prim me p ch w) Q"
    unfolding start_code_entry_def Let_def
    apply (rule step [OF exchange_button_holds [OF h0]])
    apply (rule ends_if, rule fail)
    apply (rule step [OF exchange_holds], assumption)
    apply (simp only: d prod.case)
    apply (rule step [OF get_commitment_holds [OF h1]], assumption)
    apply (rule step [where P = "holds p (Some c0) (Suc (draws w))"], simp)
    apply (rule step [OF exchange_holds [OF h2]], assumption)
    apply (rule ends_if, rule fail, erule last)
    done
  then show ?thesis unfolding ends_def Q_def chal_def by blast
qed

lemma verify_code_checks:
  assumes "verify_code nl prim p ch k w = Some (Inr (), w')" and c: "credentials_of p w = Some c"
  shows "\<exists>secret. nl_pairing_code nl w \<noteq> [] \<and> validate_code_entry_tag prim c (nl_pairing_code nl w) secret = Inr ()"
proof -
  let ?Q = "\<lambda>r (w' :: link). r = Inr () \<longrightarrow> (\<exists>secret. validate_code_entry_tag prim c (nl_pairing_code nl w) secret = Inr ())"
  have h: "holds p (Some c) (Suc (draws w)) (w\<lparr>draws := Suc (draws w)\<rparr>)"
    using c by (simp add: holds_def credentials_of_def)
  have chk: "ends (check_secret prim p (nl_pairing_code nl w) secret s) ?Q" if "holds p (Some c) (Suc (draws w)) s" for s secret
    using that by (auto simp: check_secret_def holds_def credentials_of_Some)
  have ne: "nl_pairing_code nl w \<noteq> []"
    using assms(1) by (auto simp: verify_code_def)
  have "ends (verify_code nl prim p ch k w) ?Q"
    unfolding verify_code_def Let_def using ne
    apply (simp add: draw_def split del: if_split cong: if_cong)
    apply (rule ends_step [OF exchange_holds [OF h]])
     apply (simp add: wrong_answer_def split: if_split)
     apply (intro impI)
     apply (rule ends_step [where P = "holds p (Some c) (Suc (draws w))"], simp)
      apply (erule chk)
     apply simp_all
    done
  then show ?thesis using assms(1) ne by (auto simp: ends_def)
qed

lemma pairing_checks:
  assumes "perform_pairing nl prim cx me p ch w = Some (Inr (), w')" and "credentials_of p w = Some c0"
  shows "\<exists>code secret. code \<noteq> [] \<and> code \<in> range (nl_pairing_code nl)
    \<and> parse_uint u64_max code = Some (code_value prim (c0\<lparr>hc_handshake_commitment := p_sha256 prim secret,
          hc_code_entry_challenge := nl_random nl 32 (draws w)\<rparr>) secret)"
proof -
  obtain k w1 w2 where s: "start_code_entry nl prim me p ch w = Some (Inr k, w1)"
    and v: "verify_code nl prim p ch k w1 = Some (Inr (), w2)"
    using assms(1) by (auto simp: perform_pairing_def res_simps)
  obtain commitment where c1: "credentials_of p w1 = Some (c0\<lparr>hc_handshake_commitment := commitment,
      hc_code_entry_challenge := nl_random nl 32 (draws w)\<rparr>)" (is "_ = Some ?c")
    using ends_D [OF start_code_entry_credentials [OF assms(2)] s] by blast
  obtain secret where "nl_pairing_code nl w1 \<noteq> []"
      "validate_code_entry_tag prim ?c (nl_pairing_code nl w1) secret = Inr ()"
    using verify_code_checks [OF v c1] by blast
  then show ?thesis
    by (intro exI [of _ "nl_pairing_code nl w1"] exI [of _ secret])
      (auto simp: code_entry_iff)
qed


end
