(* ===== verification/Device_Info.thy ===== *)
theory Device_Info
  imports Bitcoin_Utils
begin

text \<open>
  The device's features (\<^verbatim>\<open>device/features.rs\<close>), converted from the message of the device, and
  its description (\<^verbatim>\<open>device_info.rs\<close>).
\<close>

section \<open>Features\<close>

record ProtoFeatures =
  fp_vendor :: "string option"
  fp_model :: "string option"
  fp_major_version :: u32
  fp_minor_version :: u32
  fp_patch_version :: u32
  fp_bootloader_mode :: "bool option"
  fp_device_id :: "string option"
  fp_pin_protection :: "bool option"
  fp_passphrase_protection :: "bool option"
  fp_language :: "string option"
  fp_label :: "string option"
  fp_initialized :: "bool option"
  fp_revision :: "bytes option"
  fp_bootloader_hash :: "bytes option"
  fp_imported :: "bool option"
  fp_unlocked :: "bool option"
  fp_passphrase_cached :: "bool option"
  fp_firmware_present :: "bool option"
  fp_backup_availability :: "int option"
  fp_flags :: "u32 option"
  fp_fw_vendor :: "string option"
  fp_unfinished_backup :: "bool option"
  fp_no_backup :: "bool option"
  fp_recovery_status :: "int option"
  fp_capabilities :: "int list"
  fp_backup_type :: "int option"
  fp_sd_card_present :: "bool option"
  fp_sd_protection :: "bool option"
  fp_wipe_code_protection :: "bool option"
  fp_session_id :: "bytes option"
  fp_passphrase_always_on_device :: "bool option"
  fp_safety_checks :: "int option"
  fp_auto_lock_delay_ms :: "u32 option"
  fp_display_rotation :: "int option"
  fp_experimental_features :: "bool option"

record Features =
  ft_vendor :: "string option"
  ft_model :: "string option"
  ft_major_version :: "u32 option"
  ft_minor_version :: "u32 option"
  ft_patch_version :: "u32 option"
  ft_bootloader_mode :: "bool option"
  ft_device_id :: "string option"
  ft_pin_protection :: "bool option"
  ft_passphrase_protection :: "bool option"
  ft_language :: "string option"
  ft_label :: "string option"
  ft_initialized :: "bool option"
  ft_revision :: "string option"
  ft_bootloader_hash :: "string option"
  ft_imported :: "bool option"
  ft_unlocked :: "bool option"
  ft_passphrase_cached :: "bool option"
  ft_firmware_present :: "bool option"
  ft_needs_backup :: "bool option"
  ft_flags :: "u32 option"
  ft_fw_vendor :: "string option"
  ft_unfinished_backup :: "bool option"
  ft_no_backup :: "bool option"
  ft_recovery_mode :: "bool option"
  ft_capabilities :: "u32 list"
  ft_backup_type :: "u32 option"
  ft_sd_card_present :: "bool option"
  ft_sd_protection :: "bool option"
  ft_wipe_code_protection :: "bool option"
  ft_session_id :: "bytes option"
  ft_passphrase_always_on_device :: "bool option"
  ft_safety_checks :: "u32 option"
  ft_auto_lock_delay_ms :: "u32 option"
  ft_display_rotation :: "u32 option"
  ft_experimental_features :: "bool option"

definition from_proto :: "hex_crate \<Rightarrow> ProtoFeatures \<Rightarrow> Features" where
  "from_proto hx proto =
     \<lparr>ft_vendor = fp_vendor proto, ft_model = fp_model proto, ft_major_version = Some (fp_major_version proto),
      ft_minor_version = Some (fp_minor_version proto), ft_patch_version = Some (fp_patch_version proto),
      ft_bootloader_mode = fp_bootloader_mode proto, ft_device_id = fp_device_id proto,
      ft_pin_protection = fp_pin_protection proto, ft_passphrase_protection = fp_passphrase_protection proto,
      ft_language = fp_language proto, ft_label = fp_label proto, ft_initialized = fp_initialized proto,
      ft_revision = map_option (hx_encode hx) (fp_revision proto), ft_bootloader_hash = map_option (hx_encode hx) (fp_bootloader_hash proto),
      ft_imported = fp_imported proto, ft_unlocked = fp_unlocked proto, ft_passphrase_cached = fp_passphrase_cached proto,
      ft_firmware_present = fp_firmware_present proto, ft_needs_backup = map_option (\<lambda>b. b = 1) (fp_backup_availability proto),
      ft_flags = fp_flags proto, ft_fw_vendor = fp_fw_vendor proto, ft_unfinished_backup = fp_unfinished_backup proto,
      ft_no_backup = fp_no_backup proto, ft_recovery_mode = map_option (\<lambda>s. s \<noteq> 0) (fp_recovery_status proto),
      ft_capabilities = map of_int (fp_capabilities proto), ft_backup_type = map_option of_int (fp_backup_type proto),
      ft_sd_card_present = fp_sd_card_present proto, ft_sd_protection = fp_sd_protection proto,
      ft_wipe_code_protection = fp_wipe_code_protection proto, ft_session_id = fp_session_id proto,
      ft_passphrase_always_on_device = fp_passphrase_always_on_device proto, ft_safety_checks = map_option of_int (fp_safety_checks proto),
      ft_auto_lock_delay_ms = fp_auto_lock_delay_ms proto, ft_display_rotation = map_option of_int (fp_display_rotation proto),
      ft_experimental_features = fp_experimental_features proto\<rparr>"

definition version_string :: "Features \<Rightarrow> string" where
  "version_string f =
     (let part = (\<lambda>v. show_nat (unat (case v of Some n \<Rightarrow> n | None \<Rightarrow> 0)))
      in part (ft_major_version f) @ ''.'' @ part (ft_minor_version f) @ ''.'' @ part (ft_patch_version f))"

definition is_bootloader :: "Features \<Rightarrow> bool" where
  "is_bootloader f = (ft_bootloader_mode f = Some True)"

definition is_initialized :: "Features \<Rightarrow> bool" where
  "is_initialized f = (ft_initialized f = Some True)"

definition requires_backup :: "Features \<Rightarrow> bool" where
  "requires_backup f = (ft_needs_backup f = Some True)"

section \<open>Device description\<close>

datatype TransportType = UsbType | BluetoothType

record DeviceInfo =
  inf_id :: string
  inf_transport_type :: TransportType
  inf_name :: "string option"
  inf_path :: string
  inf_label :: "string option"
  inf_model :: "string option"
  inf_bootloader :: bool

fun show_transport_type :: "TransportType \<Rightarrow> string" where
  "show_transport_type UsbType = ''USB''"
| "show_transport_type BluetoothType = ''Bluetooth''"

definition model_from_product_id :: "u16 \<Rightarrow> string option" where
  "model_from_product_id product_id =
     (if product_id = 0x53c0 then Some ''Bootloader''
      else if product_id = 0x53c1 then Some ''Trezor''
      else if product_id = 0x0001 then Some ''Trezor One''
      else None)"

definition new_usb :: "string \<Rightarrow> u16 \<Rightarrow> u16 \<Rightarrow> DeviceInfo" where
  "new_usb path vendor_id product_id =
     \<lparr>inf_id = ''usb-'' @ path, inf_transport_type = UsbType, inf_name = None, inf_path = path, inf_label = None,
      inf_model = model_from_product_id product_id, inf_bootloader = (product_id = 0x53c0)\<rparr>"

definition new_bluetooth :: "string \<Rightarrow> string option \<Rightarrow> DeviceInfo" where
  "new_bluetooth i name =
     \<lparr>inf_id = ''ble-'' @ i, inf_transport_type = BluetoothType, inf_name = name, inf_path = i, inf_label = None,
      inf_model = Some ''Safe 7'', inf_bootloader = False\<rparr>"

definition display_name :: "DeviceInfo \<Rightarrow> string" where
  "display_name d =
     (case inf_label d of
        Some label \<Rightarrow> label
      | None \<Rightarrow>
          (case inf_name d of
             Some name \<Rightarrow> name
           | None \<Rightarrow>
               (case inf_model d of
                  Some model \<Rightarrow> model @ '' ('' @ show_transport_type (inf_transport_type d) @ '')''
                | None \<Rightarrow> ''Trezor ('' @ show_transport_type (inf_transport_type d) @ '')'')))"

text \<open>
  A device found over USB is shown as being in bootloader mode exactly when its product id says so,
  and a description never shows an empty name while a label, name or model is known.
\<close>

lemma new_usb_bootloader:
  "inf_bootloader (new_usb path v p) \<longleftrightarrow> inf_model (new_usb path v p) = Some ''Bootloader''"
  by (simp add: new_usb_def model_from_product_id_def)

lemma display_name_label [simp]: "inf_label d = Some l \<Longrightarrow> display_name d = l"
  by (simp add: display_name_def)

end
