(* ===== verification/Device_Messages.thy ===== *)
theory Device_Messages
  imports Bitcoin_Utils Callback_Pairing Device_Info
begin

text \<open>
  Messages between host and device (\<^verbatim>\<open>proto/*.proto\<close>) and the responses of the interface
  (\<^verbatim>\<open>responses.rs\<close>). Message records keep the fields the host ever fills in or reads;
  their wire format is generated code, the argument \<open>protobuf\<close>, whose decoders may fail with a
  message. The crates an operation uses are gathered in \<open>crates\<close>.
\<close>

section \<open>Script type codes\<close>

fun script_type_code :: "ScriptType \<Rightarrow> int" where
  "script_type_code SpendAddress = 0"
| "script_type_code SpendMultisig = 1"
| "script_type_code External = 2"
| "script_type_code SpendWitness = 3"
| "script_type_code SpendP2SHWitness = 4"
| "script_type_code SpendTaproot = 5"

fun output_script_type_code :: "OutputScriptType \<Rightarrow> int" where
  "output_script_type_code PayToAddress = 0"
| "output_script_type_code PayToScriptHash = 1"
| "output_script_type_code PayToMultisig = 2"
| "output_script_type_code PayToOpReturn = 3"
| "output_script_type_code PayToWitness = 4"
| "output_script_type_code PayToP2SHWitness = 5"
| "output_script_type_code PayToTaproot = 6"

fun amount_unit_code :: "AmountUnit \<Rightarrow> int" where
  "amount_unit_code UnitBitcoin = 0"
| "amount_unit_code UnitMilliBitcoin = 1"
| "amount_unit_code UnitMicroBitcoin = 2"
| "amount_unit_code UnitSatoshi = 3"

section \<open>Messages of the host\<close>

record HdNodePathType =
  hn_node :: HDNodeType
  hn_address_n :: "u32 list"

record MultisigRedeemScriptType =
  mrs_pubkeys :: "HdNodePathType list"
  mrs_signatures :: "bytes list"
  mrs_m :: u32

record GetAddress =
  ga_address_n :: "u32 list"
  ga_coin_name :: "string option"
  ga_show_display :: "bool option"
  ga_script_type :: "int option"
  ga_multisig :: "MultisigRedeemScriptType option"
  ga_chunkify :: "bool option"

record GetPublicKey =
  gp_address_n :: "u32 list"
  gp_show_display :: "bool option"
  gp_coin_name :: "string option"
  gp_script_type :: "int option"

record SignMessage =
  sm_address_n :: "u32 list"
  sm_message :: bytes
  sm_coin_name :: "string option"
  sm_script_type :: "int option"
  sm_no_script_type :: "bool option"
  sm_chunkify :: "bool option"

record VerifyMessage =
  vm_address :: string
  vm_signature :: bytes
  vm_message :: bytes
  vm_coin_name :: "string option"
  vm_chunkify :: "bool option"

record SignTx =
  sx_outputs_count :: u32
  sx_inputs_count :: u32
  sx_coin_name :: "string option"
  sx_version :: "u32 option"
  sx_lock_time :: "u32 option"
  sx_amount_unit :: "int option"
  sx_serialize :: "bool option"
  sx_chunkify :: "bool option"

record TxInputType =
  xi_address_n :: "u32 list"
  xi_prev_hash :: bytes
  xi_prev_index :: u32
  xi_script_sig :: "bytes option"
  xi_sequence :: "u32 option"
  xi_script_type :: "int option"
  xi_multisig :: "MultisigRedeemScriptType option"
  xi_amount :: "u64 option"
  xi_witness :: "bytes option"
  xi_ownership_proof :: "bytes option"
  xi_commitment_data :: "bytes option"
  xi_orig_hash :: "bytes option"
  xi_orig_index :: "u32 option"
  xi_script_pubkey :: "bytes option"

record TxOutputType =
  xo_address :: "string option"
  xo_address_n :: "u32 list"
  xo_amount :: u64
  xo_script_type :: "int option"
  xo_multisig :: "MultisigRedeemScriptType option"
  xo_op_return_data :: "bytes option"
  xo_orig_hash :: "bytes option"
  xo_orig_index :: "u32 option"
  xo_payment_req_index :: "u32 option"

record TxOutputBinType =
  xb_amount :: u64
  xb_script_pubkey :: bytes

record TransactionType =
  xt_version :: "u32 option"
  xt_inputs :: "TxInputType list"
  xt_bin_outputs :: "TxOutputBinType list"
  xt_lock_time :: "u32 option"
  xt_outputs :: "TxOutputType list"
  xt_inputs_cnt :: "u32 option"
  xt_outputs_cnt :: "u32 option"
  xt_extra_data :: "bytes option"
  xt_extra_data_len :: "u32 option"

record PbRefundMemo =
  prf_address :: string
  prf_address_n :: "u32 list"
  prf_mac :: bytes

record PbCoinPurchaseMemo =
  pcp_coin_type :: u32
  pcp_amount :: string
  pcp_address :: string
  pcp_address_n :: "u32 list"
  pcp_mac :: bytes

record PbPaymentRequestMemo =
  pmm_text_memo :: "string option"
  pmm_refund_memo :: "PbRefundMemo option"
  pmm_coin_purchase_memo :: "PbCoinPurchaseMemo option"

record PbPaymentRequest =
  pq_nonce :: "bytes option"
  pq_recipient_name :: string
  pq_memos :: "PbPaymentRequestMemo list"
  pq_amount :: "bytes option"
  pq_signature :: bytes

record PbUnlockPath =
  ul_address_n :: "u32 list"
  ul_mac :: "bytes option"

record PassphraseAck =
  ack_passphrase :: "string option"
  ack_on_device :: "bool option"

datatype HostMessage =
    MInitialize
  | MGetFeatures
  | MGetAddress GetAddress
  | MGetPublicKey GetPublicKey
  | MSignMessage SignMessage
  | MVerifyMessage VerifyMessage
  | MSignTx SignTx
  | MTxAck TransactionType
  | MPaymentRequest PbPaymentRequest
  | MUnlockPath PbUnlockPath
  | MApplySettings "bool option"
  | MButtonAck
  | MPinMatrixAck string
  | MPassphraseAck PassphraseAck

fun message_code :: "HostMessage \<Rightarrow> u16" where
  "message_code MInitialize = 0"
| "message_code MGetFeatures = 55"
| "message_code (MGetAddress _) = 29"
| "message_code (MGetPublicKey _) = 11"
| "message_code (MSignMessage _) = 38"
| "message_code (MVerifyMessage _) = 39"
| "message_code (MSignTx _) = 15"
| "message_code (MTxAck _) = 22"
| "message_code (MPaymentRequest _) = 37"
| "message_code (MUnlockPath _) = 93"
| "message_code (MApplySettings _) = 25"
| "message_code MButtonAck = 27"
| "message_code (MPinMatrixAck _) = 19"
| "message_code (MPassphraseAck _) = 42"

definition PIN_MATRIX_REQUEST :: u16 where "PIN_MATRIX_REQUEST = 18"
definition PASSPHRASE_REQUEST :: u16 where "PASSPHRASE_REQUEST = 41"

section \<open>Messages of the device\<close>

datatype RequestType =
    Txinput | Txoutput | Txmeta | Txfinished | Txextradata | Txoriginput | Txorigoutput | Txpaymentreq

definition request_type_of_code :: "int \<Rightarrow> RequestType option" where
  "request_type_of_code t =
     (if t = 0 then Some Txinput else if t = 1 then Some Txoutput else if t = 2 then Some Txmeta
      else if t = 3 then Some Txfinished else if t = 4 then Some Txextradata else if t = 5 then Some Txoriginput
      else if t = 6 then Some Txorigoutput else if t = 7 then Some Txpaymentreq else None)"

record TxRequestDetailsType =
  rd_request_index :: "u32 option"
  rd_tx_hash :: "bytes option"
  rd_extra_data_len :: "u32 option"
  rd_extra_data_offset :: "u32 option"

record TxRequestSerializedType =
  rs_signature_index :: "u32 option"
  rs_signature :: "bytes option"
  rs_serialized_tx :: "bytes option"

record TxRequest =
  rq_request_type :: "int option"
  rq_details :: "TxRequestDetailsType option"
  rq_serialized :: "TxRequestSerializedType option"

record Address =
  ad_address :: string
  ad_mac :: "bytes option"

record PbPublicKey =
  ppk_node :: HDNodeType
  ppk_xpub :: string
  ppk_root_fingerprint :: "u32 option"

record MessageSignature =
  msg_address :: string
  msg_signature :: bytes

section \<open>Responses and crates\<close>

record AddressResponse =
  ar_path :: "u32 list"
  ar_serialized_path :: string
  ar_address :: string
  ar_mac :: "string option"

record PublicKeyResponse =
  pkr_path :: "u32 list"
  pkr_serialized_path :: string
  pkr_xpub :: string
  pkr_chain_code :: string
  pkr_public_key :: string
  pkr_depth :: u32
  pkr_fingerprint :: u32
  pkr_child_num :: u32
  pkr_root_fingerprint :: "u32 option"

record SignedMessageResponse =
  smr_address :: string
  smr_signature :: string

record SignedTxResponse =
  sr_signatures :: "string list"
  sr_serialized_tx :: string
  sr_txid :: "string option"
  sr_witnesses :: "string option list option"

record protobuf =
  pb_encode :: "HostMessage \<Rightarrow> bytes"
  pb_failure :: "bytes \<Rightarrow> string + int option \<times> string option"
  pb_features :: "bytes \<Rightarrow> string + ProtoFeatures"
  pb_address :: "bytes \<Rightarrow> string + Address"
  pb_public_key :: "bytes \<Rightarrow> string + PbPublicKey"
  pb_message_signature :: "bytes \<Rightarrow> string + MessageSignature"
  pb_success :: "bytes \<Rightarrow> string + unit"
  pb_unlocked_path_request :: "bytes \<Rightarrow> string + unit"
  pb_tx_request :: "bytes \<Rightarrow> string + TxRequest"
  pb_passphrase_request :: "bytes \<Rightarrow> string + bool option"

record crates =
  cr_hex :: hex_crate
  cr_btc :: bitcoin_crate
  cr_pb :: protobuf
  cr_codecs :: codecs
  cr_base64_encode :: "bytes \<Rightarrow> string"
  cr_base64_decode :: "string \<Rightarrow> string + bytes"

end
