(* ===== verification/Connected_Device.thy ===== *)
theory Connected_Device
  imports Device_Messages Session_State Effects
begin

text \<open>
  A connected device (\<^verbatim>\<open>connected_device.rs\<close>, first half): the calls for addresses, keys and
  messages, with the dialogue for buttons, PIN and passphrase. The transport is the Rust trait
  object, a record of operations on a state of any type; the user-interface callback acts on the
  same state, so its answers may depend on all that happened before.
\<close>

section \<open>Definitions\<close>

record 's Transport =
  t_call :: "string \<Rightarrow> u16 \<Rightarrow> bytes \<Rightarrow> 's \<Rightarrow> (u16 \<times> bytes, 's) outcome"
  t_create_session :: "string \<Rightarrow> string option \<Rightarrow> bool \<Rightarrow> 's \<Rightarrow> (unit, 's) outcome"
  t_acquire :: "string \<Rightarrow> string option \<Rightarrow> 's \<Rightarrow> (string, 's) outcome"
  t_release :: "string \<Rightarrow> 's \<Rightarrow> (unit, 's) outcome"

datatype PassphraseResponse = Cancel | Standard | Hidden string | OnDevice

record 's TrezorUiCallback =
  on_pin_request :: "'s \<Rightarrow> string option \<times> 's"
  on_passphrase_request :: "bool \<Rightarrow> 's \<Rightarrow> PassphraseResponse \<times> 's"

record 's ConnectedDevice =
  cd_info :: DeviceInfo
  cd_transport :: "'s Transport"
  cd_session :: string
  cd_features :: "Features option"
  cd_ui_callback :: "'s TrezorUiCallback option"
  cd_uses_thp :: bool

definition connected_new :: "DeviceInfo \<Rightarrow> 's Transport \<Rightarrow> string \<Rightarrow> 's ConnectedDevice" where
  "connected_new info transport session =
     \<lparr>cd_info = info, cd_transport = transport, cd_session = session, cd_features = None,
      cd_ui_callback = None, cd_uses_thp = False\<rparr>"

definition set_uses_thp :: "bool \<Rightarrow> 's ConnectedDevice \<Rightarrow> 's ConnectedDevice" where
  "set_uses_thp b d = d\<lparr>cd_uses_thp := b\<rparr>"

definition set_ui_callback :: "'s TrezorUiCallback \<Rightarrow> 's ConnectedDevice \<Rightarrow> 's ConnectedDevice" where
  "set_ui_callback cb d = d\<lparr>cd_ui_callback := Some cb\<rparr>"

definition device_create_session :: "'s ConnectedDevice \<Rightarrow> string option \<Rightarrow> bool \<Rightarrow> 's \<Rightarrow> (unit, 's) outcome" where
  "device_create_session d passphrase on_device s =
     t_create_session (cd_transport d) (cd_session d) passphrase on_device s"

definition disconnect :: "'s ConnectedDevice \<Rightarrow> 's \<Rightarrow> (unit, 's) outcome" where
  "disconnect d s = t_release (cd_transport d) (cd_session d) s"

text \<open>\<^verbatim>\<open>self.transport.call(&self.session, MessageType::M as u16, &m.encode_to_vec())\<close>\<close>

definition send :: "crates \<Rightarrow> 's ConnectedDevice \<Rightarrow> HostMessage \<Rightarrow> 's \<Rightarrow> (u16 \<times> bytes, 's) outcome" where
  "send c d m s = t_call (cd_transport d) (cd_session d) (message_code m) (pb_encode (cr_pb c) m) s"

subsection \<open>The dialogue\<close>

definition failure_result :: "crates \<Rightarrow> bytes \<Rightarrow> 'a result" where
  "failure_result c data =
     (case pb_failure (cr_pb c) data of
        Inl e \<Rightarrow> device_err (DeviceProtobufDecode e)
      | Inr (code, message) \<Rightarrow> device_err (from_failure code (case message of Some m \<Rightarrow> m | None \<Rightarrow> [])))"

definition passphrase_ack :: "crates \<Rightarrow> PassphraseResponse \<Rightarrow> PassphraseAck result" where
  "passphrase_ack c r =
     (case r of
        Cancel \<Rightarrow> device_err PassphraseCancelled
      | Standard \<Rightarrow> Inr \<lparr>ack_passphrase = Some [], ack_on_device = None\<rparr>
      | Hidden value \<Rightarrow>
          Inr \<lparr>ack_passphrase = Some (normalize_passphrase (cr_codecs c) value), ack_on_device = None\<rparr>
      | OnDevice \<Rightarrow> Inr \<lparr>ack_passphrase = None, ack_on_device = Some True\<rparr>)"

definition MAX_BUTTON_REQUESTS :: nat where "MAX_BUTTON_REQUESTS = 64"

fun handle_loop ::
    "nat \<Rightarrow> crates \<Rightarrow> 's ConnectedDevice \<Rightarrow> (bytes \<Rightarrow> string + 'r) \<Rightarrow> u16 \<times> bytes \<Rightarrow> 's \<Rightarrow> ('r, 's) outcome" where
  "handle_loop 0 c d decode resp s =
     Some (device_err (DeviceErrorResponse 0 ''Too many consecutive ButtonRequests from device''), s)"
| "handle_loop (Suc n) c d decode resp s =
     (if fst resp = FAILURE then Some (failure_result c (snd resp), s)
      else if fst resp = BUTTON_REQUEST
      then bind_op (send c d MButtonAck s) (\<lambda>resp s. handle_loop n c d decode resp s)
      else if fst resp = PIN_MATRIX_REQUEST
      then (case cd_ui_callback d of
              None \<Rightarrow> Some (device_err PinRequired, s)
            | Some cb \<Rightarrow>
                (case on_pin_request cb s of
                   (None, s) \<Rightarrow> Some (device_err PinCancelled, s)
                 | (Some pin, s) \<Rightarrow>
                     bind_op (send c d (MPinMatrixAck pin) s) (\<lambda>resp s. handle_loop n c d decode resp s)))
      else if fst resp = PASSPHRASE_REQUEST
      then (case cd_ui_callback d of
              None \<Rightarrow> Some (device_err PassphraseRequired, s)
            | Some cb \<Rightarrow>
                let on_device = (case pb_passphrase_request (cr_pb c) (snd resp) of
                                   Inr (Some b) \<Rightarrow> b
                                 | _ \<Rightarrow> False);
                    (response, s) = on_passphrase_request cb on_device s
                in bind_op (lift_res (passphrase_ack c response) s) (\<lambda>ack s.
                   bind_op (send c d (MPassphraseAck ack) s) (\<lambda>resp s. handle_loop n c d decode resp s)))
      else Some (map_err (\<lambda>e. Device (DeviceProtobufDecode e)) (decode (snd resp)), s))"

definition handle_response ::
    "crates \<Rightarrow> 's ConnectedDevice \<Rightarrow> (bytes \<Rightarrow> string + 'r) \<Rightarrow> u16 \<times> bytes \<Rightarrow> 's \<Rightarrow> ('r, 's) outcome" where
  "handle_response c d decode resp s = handle_loop MAX_BUTTON_REQUESTS c d decode resp s"

text \<open>A request and its final answer.\<close>

definition ask :: "crates \<Rightarrow> 's ConnectedDevice \<Rightarrow> HostMessage \<Rightarrow> (bytes \<Rightarrow> string + 'r) \<Rightarrow> 's \<Rightarrow> ('r, 's) outcome" where
  "ask c d m decode s = bind_op (send c d m s) (\<lambda>resp s. handle_response c d decode resp s)"

subsection \<open>Parameters and conversions\<close>

record GetAddressParams =
  gap_path :: string
  gap_coin :: "Network option"
  gap_show_on_trezor :: bool
  gap_script_type :: "ScriptType option"
  gap_multisig :: "MultisigConfig option"
  gap_chunkify :: "bool option"
  gap_address :: "string option"

record GetPublicKeyParams =
  gpp_path :: string
  gpp_coin :: "Network option"
  gpp_show_on_trezor :: bool
  gpp_script_type :: "ScriptType option"

record SignMessageParams =
  smp_path :: string
  smp_message :: string
  smp_coin :: "Network option"
  smp_no_script_type :: bool
  smp_chunkify :: "bool option"

record VerifyMessageParams =
  vmp_address :: string
  vmp_signature :: string
  vmp_message :: string
  vmp_coin :: "Network option"
  vmp_chunkify :: "bool option"

definition coin_or_default :: "Network option \<Rightarrow> Network" where
  "coin_or_default coin = (case coin of Some n \<Rightarrow> n | None \<Rightarrow> Bitcoin)"

definition infer_script_type :: "u32 list \<Rightarrow> ScriptType" where
  "infer_script_type path =
     (if path = [] then SpendWitness
      else
        let purpose = path ! 0 AND NOT 0x80000000
        in if purpose = 44 then SpendAddress
           else if purpose = 49 then SpendP2SHWitness
           else if purpose = 84 then SpendWitness
           else if purpose = 86 then SpendTaproot
           else SpendWitness)"

definition multisig_node :: "crates \<Rightarrow> MultisigPubkey \<Rightarrow> HdNodePathType result" where
  "multisig_node c pk =
     bind_res
       (case mp_node pk of
          Some node \<Rightarrow> Inr node
        | None \<Rightarrow>
            (case mp_xpub pk of
               Some xpub \<Rightarrow> xpub_to_hd_node_type (cr_btc c) xpub
             | None \<Rightarrow> device_err (InvalidInput ''Multisig pubkey requires either node or xpub'')))
       (\<lambda>node. Inr \<lparr>hn_node = node, hn_address_n = mp_address_n pk\<rparr>)"

definition convert_multisig :: "crates \<Rightarrow> MultisigConfig \<Rightarrow> MultisigRedeemScriptType result" where
  "convert_multisig c config =
     bind_res (traverse_res (multisig_node c) (ms_pubkeys config)) (\<lambda>pubkeys.
     bind_res
       (case ms_signatures config of
          Some sigs \<Rightarrow>
            traverse_res (\<lambda>s. if s = [] then Inr [] else decode_hex (cr_hex c) ''Invalid multisig signature hex'' s) sigs
        | None \<Rightarrow> Inr (replicate (length (ms_pubkeys config)) []))
       (\<lambda>signatures. Inr \<lparr>mrs_pubkeys = pubkeys, mrs_signatures = signatures, mrs_m = ms_m config\<rparr>))"

subsection \<open>Calls\<close>

definition initialize :: "crates \<Rightarrow> 's ConnectedDevice \<Rightarrow> 's \<Rightarrow> (Features \<times> 's ConnectedDevice, 's) outcome" where
  "initialize c d s =
     bind_op (ask c d (if cd_uses_thp d then MGetFeatures else MInitialize) (pb_features (cr_pb c)) s) (\<lambda>proto s.
       let features = from_proto (cr_hex c) proto;
           d = (case ft_label features of
                  Some label \<Rightarrow> d\<lparr>cd_info := (cd_info d)\<lparr>inf_label := Some label\<rparr>\<rparr>
                | None \<Rightarrow> d)
       in Some (Inr (features, d\<lparr>cd_features := Some features\<rparr>), s))"

definition get_address_raw :: "crates \<Rightarrow> 's ConnectedDevice \<Rightarrow> GetAddress \<Rightarrow> 's \<Rightarrow> (Address, 's) outcome" where
  "get_address_raw c d request s = ask c d (MGetAddress request) (pb_address (cr_pb c)) s"

text \<open>The silent derivation before an address is displayed; the value is the address to expect.\<close>

definition expect_address ::
    "crates \<Rightarrow> 's ConnectedDevice \<Rightarrow> GetAddressParams \<Rightarrow> GetAddress \<Rightarrow> 's \<Rightarrow> (string option, 's) outcome" where
  "expect_address c d params request s =
     (if gap_show_on_trezor params
      then bind_op (get_address_raw c d request s) (\<lambda>silent s.
             case gap_address params of
               Some expected \<Rightarrow>
                 if expected \<noteq> ad_address silent
                 then Some (device_err (AddressMismatch expected (ad_address silent)), s)
                 else Some (Inr (Some expected), s)
             | None \<Rightarrow> Some (Inr (Some (ad_address silent)), s))
      else Some (Inr (gap_address params), s))"

definition get_address :: "crates \<Rightarrow> 's ConnectedDevice \<Rightarrow> GetAddressParams \<Rightarrow> 's \<Rightarrow> (AddressResponse, 's) outcome" where
  "get_address c d params s =
     bind_op (lift_res (parse_path (gap_path params)) s) (\<lambda>address_n s.
     let script_type = (case gap_script_type params of Some t \<Rightarrow> t | None \<Rightarrow> infer_script_type address_n)
     in
     bind_op (lift_res (traverse_option (convert_multisig c) (gap_multisig params)) s) (\<lambda>multisig s.
     let build_request = (\<lambda>show_display.
           \<lparr>ga_address_n = address_n, ga_coin_name = Some (coin_name (coin_or_default (gap_coin params))),
            ga_show_display = Some show_display, ga_script_type = Some (script_type_code script_type),
            ga_multisig = multisig, ga_chunkify = gap_chunkify params\<rparr>)
     in
     bind_op (expect_address c d params (build_request False) s) (\<lambda>expected s.
     bind_op (get_address_raw c d (build_request (gap_show_on_trezor params)) s) (\<lambda>response s.
     if expected \<noteq> None \<and> expected \<noteq> Some (ad_address response)
     then Some (device_err (AddressMismatch (the expected) (ad_address response)), s)
     else Some (Inr \<lparr>ar_path = address_n, ar_serialized_path = serialize_path address_n,
                  ar_address = ad_address response, ar_mac = map_option (hx_encode (cr_hex c)) (ad_mac response)\<rparr>, s)))))"

definition get_static_session_id :: "crates \<Rightarrow> 's ConnectedDevice \<Rightarrow> 's \<Rightarrow> (string, 's) outcome" where
  "get_static_session_id c d s =
     (let dev = (case Option.bind (cd_features d) ft_device_id of Some i \<Rightarrow> i | None \<Rightarrow> [])
      in bind_op (get_address c d
           \<lparr>gap_path = ''m/44'' @ [CHR 0x27] @ ''/1'' @ [CHR 0x27] @ ''/0'' @ [CHR 0x27] @ ''/0/0'', gap_coin = Some Testnet,
            gap_show_on_trezor = False, gap_script_type = Some SpendAddress, gap_multisig = None,
            gap_chunkify = None, gap_address = None\<rparr> s) (\<lambda>address s.
         Some (Inr (build_static_session_id (ar_address address) dev 0), s)))"

definition verify_session_state :: "crates \<Rightarrow> 's ConnectedDevice \<Rightarrow> string option \<Rightarrow> 's \<Rightarrow> (string, 's) outcome" where
  "verify_session_state c d expected s =
     bind_op (get_static_session_id c d s) (\<lambda>current s.
       if (case expected of Some e \<Rightarrow> is_unexpected_state e current | None \<Rightarrow> False)
       then Some (device_err InvalidState, s)
       else Some (Inr current, s))"

definition get_public_key ::
    "crates \<Rightarrow> 's ConnectedDevice \<Rightarrow> GetPublicKeyParams \<Rightarrow> 's \<Rightarrow> (PublicKeyResponse, 's) outcome" where
  "get_public_key c d params s =
     bind_op (lift_res (parse_path (gpp_path params)) s) (\<lambda>address_n s.
     let script_type = (case gpp_script_type params of Some t \<Rightarrow> t | None \<Rightarrow> infer_script_type address_n);
         request = \<lparr>gp_address_n = address_n, gp_show_display = Some (gpp_show_on_trezor params),
           gp_coin_name = Some (coin_name (coin_or_default (gpp_coin params))),
           gp_script_type = Some (script_type_code script_type)\<rparr>
     in
     bind_op (ask c d (MGetPublicKey request) (pb_public_key (cr_pb c)) s) (\<lambda>response s.
     let node = ppk_node response
     in Some (Inr \<lparr>pkr_path = address_n, pkr_serialized_path = serialize_path address_n, pkr_xpub = ppk_xpub response,
          pkr_chain_code = hx_encode (cr_hex c) (hd_chain_code node),
          pkr_public_key = hx_encode (cr_hex c) (hd_public_key node), pkr_depth = hd_depth node,
          pkr_fingerprint = hd_fingerprint node, pkr_child_num = hd_child_num node,
          pkr_root_fingerprint = ppk_root_fingerprint response\<rparr>, s)))"

definition sign_message ::
    "crates \<Rightarrow> 's ConnectedDevice \<Rightarrow> SignMessageParams \<Rightarrow> 's \<Rightarrow> (SignedMessageResponse, 's) outcome" where
  "sign_message c d params s =
     bind_op (lift_res (parse_path (smp_path params)) s) (\<lambda>address_n s.
     if Option.bind (cd_features d) ft_major_version = Some 1 \<and> 1024 < length (smp_message params)
     then Some (device_err (NotSupported ''Message exceeds the 1024-byte Trezor Model One limit''), s)
     else
       let request = \<lparr>sm_address_n = address_n, sm_message = as_bytes (smp_message params),
             sm_coin_name = Some (coin_name (coin_or_default (smp_coin params))),
             sm_script_type = Some (script_type_code (infer_script_type address_n)),
             sm_no_script_type = (if smp_no_script_type params then Some True else None),
             sm_chunkify = smp_chunkify params\<rparr>
       in
       bind_op (ask c d (MSignMessage request) (pb_message_signature (cr_pb c)) s) (\<lambda>response s.
       Some (Inr \<lparr>smr_address = msg_address response,
                  smr_signature = cr_base64_encode c (msg_signature response)\<rparr>, s)))"

definition verify_message :: "crates \<Rightarrow> 's ConnectedDevice \<Rightarrow> VerifyMessageParams \<Rightarrow> 's \<Rightarrow> (bool, 's) outcome" where
  "verify_message c d params s =
     bind_op (lift_res (map_err (invalid_input ''Invalid base64 signature'') (cr_base64_decode c (vmp_signature params))) s)
       (\<lambda>signature_bytes s.
     let request = \<lparr>vm_address = vmp_address params, vm_signature = signature_bytes,
           vm_message = as_bytes (vmp_message params),
           vm_coin_name = Some (coin_name (coin_or_default (vmp_coin params))), vm_chunkify = vmp_chunkify params\<rparr>
     in
     bind_op (send c d (MVerifyMessage request) s) (\<lambda>resp s.
     if fst resp = SUCCESS then Some (Inr True, s)
     else if fst resp = FAILURE then Some (Inr False, s)
     else bind_op (handle_response c d (pb_success (cr_pb c)) resp s) (\<lambda>_ s. Some (Inr True, s))))"

definition apply_settings :: "crates \<Rightarrow> 's ConnectedDevice \<Rightarrow> bool option \<Rightarrow> 's \<Rightarrow> (unit, 's) outcome" where
  "apply_settings c d use_passphrase s = ask c d (MApplySettings use_passphrase) (pb_success (cr_pb c)) s"

section \<open>The scripted transport\<close>

text \<open>The transport of the unit tests (\<^verbatim>\<open>transport/mock.rs\<close>), used here for concrete runs.\<close>

record ScriptedExchange =
  ex_expect :: u16
  ex_reply_type :: u16
  ex_reply :: bytes

record MockTransport =
  mock_script :: "ScriptedExchange list"
  mock_calls :: "(u16 \<times> bytes) list"

definition mock_new :: "ScriptedExchange list \<Rightarrow> MockTransport" where
  "mock_new sc = \<lparr>mock_script = sc, mock_calls = []\<rparr>"

definition mock_call :: "string \<Rightarrow> u16 \<Rightarrow> bytes \<Rightarrow> MockTransport \<Rightarrow> (u16 \<times> bytes, MockTransport) outcome" where
  "mock_call session message_type data m =
     (let m = m\<lparr>mock_calls := mock_calls m @ [(message_type, data)]\<rparr>
      in case mock_script m of
           [] \<Rightarrow> Some (device_err (InvalidInput (''MockTransport: unexpected call with message type ''
                   @ show_nat (unat message_type) @ '' (script exhausted)'')), m)
         | ex # rest \<Rightarrow>
             let m = m\<lparr>mock_script := rest\<rparr>
             in if ex_expect ex \<noteq> message_type
                then Some (device_err (InvalidInput (''MockTransport: expected message type ''
                       @ show_nat (unat (ex_expect ex)) @ '', got '' @ show_nat (unat message_type))), m)
                else Some (Inr (ex_reply_type ex, ex_reply ex), m))"

definition mock_transport :: "MockTransport Transport" where
  "mock_transport =
     \<lparr>t_call = mock_call, t_create_session = \<lambda>session p b m. Some (Inr (), m),
      t_acquire = \<lambda>path previous m. Some (Inr ''mock-session'', m), t_release = \<lambda>session m. Some (Inr (), m)\<rparr>"

definition mock_device :: "MockTransport ConnectedDevice" where
  "mock_device = connected_new (new_usb ''mock'' 0x1209 0x53c1) mock_transport ''mock-session''"

section \<open>What the dialogue keeps\<close>

text \<open>
  The contract of a transport: its calls, and all its operations, keep an invariant of its state. Everything a
  connected device does then keeps it too, provided the user interface does.
\<close>

definition ui_keeps :: "('s \<Rightarrow> bool) \<Rightarrow> 's ConnectedDevice \<Rightarrow> bool" where
  "ui_keeps P d \<longleftrightarrow> (\<forall>cb s b. cd_ui_callback d = Some cb \<longrightarrow> P s \<longrightarrow>
     P (snd (on_pin_request cb s)) \<and> P (snd (on_passphrase_request cb b s)))"

named_theorems device_keeps \<open>operations of a connected device that keep the transport's invariant\<close>

locale call_contract =
  fixes tr :: "'s Transport" and inv :: "'s \<Rightarrow> bool"
  assumes call_inv: "inv s \<Longrightarrow> ends (t_call tr session t data s) (\<lambda>r s. inv s)"
begin

definition over :: "'s ConnectedDevice \<Rightarrow> bool" where
  "over d \<longleftrightarrow> cd_transport d = tr \<and> ui_keeps inv d"

lemma send_keeps: "over d \<Longrightarrow> inv s \<Longrightarrow> ends (send c d m s) (\<lambda>r s. inv s)"
  using call_inv by (simp add: over_def send_def)

lemma handle_loop_keeps: "over d \<Longrightarrow> inv s \<Longrightarrow> ends (handle_loop n c d decode resp s) (\<lambda>r s. inv s)"
proof (induction n arbitrary: resp s)
  case (Suc n)
  have step: "ends (bind_op (send c d m s') (\<lambda>resp s. handle_loop n c d decode resp s)) (\<lambda>r s. inv s)" if "inv s'" for m s'
    by (rule ends_keep_bind [OF send_keeps [OF Suc.prems(1) that] Suc.IH [OF Suc.prems(1)]])
  have ui: "inv (snd (on_pin_request cb s)) \<and> inv (snd (on_passphrase_request cb b s))"
    if "cd_ui_callback d = Some cb" for cb b
    using that Suc.prems by (auto simp: over_def ui_keeps_def)
  have pp: "ends (bind_op (lift_res r s') (\<lambda>ack s. bind_op (send c d (MPassphraseAck ack) s)
      (\<lambda>resp s. handle_loop n c d decode resp s))) (\<lambda>r s. inv s)" if "inv s'" for r s'
    using that step by (cases r) (simp_all add: lift_res_def)
  show ?case
    using Suc.prems(2) step [OF Suc.prems(2)] step pp ui
    by (auto simp: Let_def case_prod_beta split: option.split prod.split)
qed simp

lemma ask_keeps: "over d \<Longrightarrow> inv s \<Longrightarrow> ends (ask c d m decode s) (\<lambda>r s. inv s)"
  unfolding ask_def handle_response_def
  by (rule ends_keep_bind [OF send_keeps handle_loop_keeps])

lemma expect_address_keeps: "over d \<Longrightarrow> inv s \<Longrightarrow> ends (expect_address c d params q s) (\<lambda>r s. inv s)"
  unfolding expect_address_def get_address_raw_def
  by (auto intro!: ends_keep_bind ask_keeps split: option.split)

lemma get_address_keeps: "over d \<Longrightarrow> inv s \<Longrightarrow> ends (get_address c d params s) (\<lambda>r s. inv s)"
  unfolding get_address_def Let_def get_address_raw_def
  by (intro ends_keep_bind ask_keeps expect_address_keeps ends_lift) auto

lemma initialize_keeps: "over d \<Longrightarrow> inv s \<Longrightarrow> ends (initialize c d s) (\<lambda>r s. inv s)"
  unfolding initialize_def Let_def by (intro ends_keep_bind [OF ask_keeps]) simp_all

lemma get_public_key_keeps: "over d \<Longrightarrow> inv s \<Longrightarrow> ends (get_public_key c d params s) (\<lambda>r s. inv s)"
  unfolding get_public_key_def Let_def by (intro ends_keep_bind [OF ask_keeps] ends_keep_bind [OF ends_lift]) simp_all

lemma apply_settings_keeps: "over d \<Longrightarrow> inv s \<Longrightarrow> ends (apply_settings c d u s) (\<lambda>r s. inv s)"
  unfolding apply_settings_def by (rule ask_keeps)

end

locale transport_contract = call_contract tr inv for tr :: "'s Transport" and inv :: "'s \<Rightarrow> bool" +
  assumes create_inv: "inv s \<Longrightarrow> ends (t_create_session tr session p b s) (\<lambda>r s. inv s)"
    and release_inv: "inv s \<Longrightarrow> ends (t_release tr session s) (\<lambda>r s. inv s)"
begin

lemma create_session_keeps: "over d \<Longrightarrow> inv s \<Longrightarrow> ends (device_create_session d p b s) (\<lambda>r s. inv s)"
  using create_inv by (simp add: over_def device_create_session_def)

lemma disconnect_keeps: "over d \<Longrightarrow> inv s \<Longrightarrow> ends (disconnect d s) (\<lambda>r s. inv s)"
  using release_inv by (simp add: over_def disconnect_def)

end

section \<open>Properties\<close>

text \<open>
  C39: the dialogue after a request always ends when the transport's calls do, and
  makes at most 64 calls, whatever the device answers.
\<close>

theorem dialogue_bounded:
  fixes count :: "'s \<Rightarrow> nat"
  assumes "\<And>t data s. \<exists>r s'. t_call (cd_transport d) (cd_session d) t data s = Some (r, s') \<and> count s' \<le> Suc (count s)"
    and "\<And>cb s b. cd_ui_callback d = Some cb \<Longrightarrow>
      count (snd (on_pin_request cb s)) \<le> count s \<and> count (snd (on_passphrase_request cb b s)) \<le> count s"
  shows "\<exists>r s'. handle_response c d decode resp s = Some (r, s') \<and> count s' \<le> count s + 64"
proof -
  have "\<exists>r s'. handle_loop n c d decode resp s = Some (r, s') \<and> count s' \<le> count s + n" for n
  proof (induction n arbitrary: resp s)
    case (Suc n)
    have step: "\<exists>r s''. bind_op (send c d m s') (\<lambda>resp s. handle_loop n c d decode resp s) = Some (r, s'')
        \<and> count s'' \<le> count s + Suc n" if le: "count s' \<le> count s" for m s'
    proof -
      obtain r s1 where c1: "send c d m s' = Some (r, s1)" "count s1 \<le> Suc (count s')"
        using assms(1) unfolding send_def by blast
      show ?thesis
      proof (cases r)
        case (Inr v)
        obtain r' s2 where "handle_loop n c d decode v s1 = Some (r', s2)" "count s2 \<le> count s1 + n"
          using Suc.IH by blast
        then show ?thesis using c1 le Inr by simp
      qed (use c1 le in simp)
    qed
    have pp: "\<exists>r' s''. bind_op (lift_res r s') (\<lambda>ack s. bind_op (send c d (MPassphraseAck ack) s)
        (\<lambda>resp s. handle_loop n c d decode resp s)) = Some (r', s'') \<and> count s'' \<le> count s + Suc n"
      if "count s' \<le> count s" for r s'
      using that step by (cases r) (auto simp: lift_res_def)
    show ?case
    proof (cases "cd_ui_callback d")
      case None
      then show ?thesis using step [OF order_refl] by auto
    next
      case (Some cb)
      obtain o1 s1 where pin: "on_pin_request cb s = (o1, s1)" "count s1 \<le> count s"
        using assms(2) [OF Some, of s] by (cases "on_pin_request cb s") simp
      have pass: "count (snd (on_passphrase_request cb b s)) \<le> count s" for b using assms(2) [OF Some] by blast
      consider "fst resp = FAILURE" | "fst resp = BUTTON_REQUEST" | "fst resp = PIN_MATRIX_REQUEST"
        | "fst resp = PASSPHRASE_REQUEST" | "fst resp \<notin> {FAILURE, BUTTON_REQUEST, PIN_MATRIX_REQUEST, PASSPHRASE_REQUEST}"
        by blast
      then show ?thesis
      proof cases
        case 2
        then show ?thesis using step [OF order_refl] by (simp add: BUTTON_REQUEST_def FAILURE_def)
      next
        case 3
        then show ?thesis using Some pin step [OF pin(2)]
          by (cases o1) (simp_all add: BUTTON_REQUEST_def FAILURE_def PIN_MATRIX_REQUEST_def)
      next
        case 4
        then show ?thesis using Some pp [OF pass]
          by (simp add: BUTTON_REQUEST_def FAILURE_def PIN_MATRIX_REQUEST_def PASSPHRASE_REQUEST_def Let_def case_prod_beta)
      qed simp_all
    qed
  qed simp
  then show ?thesis by (simp add: handle_response_def MAX_BUTTON_REQUESTS_def)
qed

text \<open>A small instance of the generated codecs, for concrete runs: the wire form of a text is its
  bytes, that of a transaction request lists its type, index and, when present, three bytes of
  serialized transaction.\<close>

definition run_features :: ProtoFeatures where
  "run_features = \<lparr>fp_vendor = None, fp_model = Some ''T3W1'', fp_major_version = 2, fp_minor_version = 2,
     fp_patch_version = 2, fp_bootloader_mode = None, fp_device_id = None, fp_pin_protection = None,
     fp_passphrase_protection = None, fp_language = None, fp_label = None, fp_initialized = Some True,
     fp_revision = None, fp_bootloader_hash = None, fp_imported = None, fp_unlocked = None,
     fp_passphrase_cached = None, fp_firmware_present = None, fp_backup_availability = None, fp_flags = None,
     fp_fw_vendor = None, fp_unfinished_backup = None, fp_no_backup = None, fp_recovery_status = None,
     fp_capabilities = [17], fp_backup_type = None, fp_sd_card_present = None, fp_sd_protection = None,
     fp_wipe_code_protection = None, fp_session_id = None, fp_passphrase_always_on_device = None,
     fp_safety_checks = None, fp_auto_lock_delay_ms = None, fp_display_rotation = None,
     fp_experimental_features = None\<rparr>"

definition run_pb :: protobuf where
  "run_pb =
     \<lparr>pb_encode = \<lambda>m. [ucast (message_code m)],
      pb_failure = \<lambda>b. Inr (Some 4, None),
      pb_features = \<lambda>b. Inr run_features,
      pb_address = \<lambda>b. Inr \<lparr>ad_address = from_bytes b, ad_mac = None\<rparr>,
      pb_public_key = \<lambda>b. Inr \<lparr>ppk_node = \<lparr>hd_depth = 0, hd_fingerprint = 0, hd_child_num = 0, hd_chain_code = [],
          hd_public_key = b\<rparr>, ppk_xpub = [], ppk_root_fingerprint = None\<rparr>,
      pb_message_signature = \<lambda>b. Inr \<lparr>msg_address = [], msg_signature = b\<rparr>,
      pb_success = \<lambda>b. Inr (), pb_unlocked_path_request = \<lambda>b. Inr (),
      pb_tx_request = \<lambda>b. case b of
          [] \<Rightarrow> Inr \<lparr>rq_request_type = None, rq_details = None, rq_serialized = None\<rparr>
        | t # i # part \<Rightarrow> Inr \<lparr>rq_request_type = Some (uint t),
            rq_details = Some \<lparr>rd_request_index = Some (ucast i), rd_tx_hash = None, rd_extra_data_len = None,
              rd_extra_data_offset = None\<rparr>,
            rq_serialized = (if part = [] then None
              else Some \<lparr>rs_signature_index = Some (ucast i), rs_signature = Some part, rs_serialized_tx = Some part\<rparr>)\<rparr>
        | _ \<Rightarrow> Inl ''malformed'',
      pb_passphrase_request = \<lambda>b. Inr None\<rparr>"

definition run_crates :: crates where
  "run_crates = \<lparr>cr_hex = run_hex, cr_btc = run_crate, cr_pb = run_pb,
     cr_codecs = \<lparr>hex_encode = \<lambda>b. [], hex_decode = \<lambda>s. None, json_encode = \<lambda>j. None, json_decode = \<lambda>s. None,
       failure_decode = \<lambda>b. None, nfkd = \<lambda>s. s\<rparr>,
     cr_base64_encode = from_bytes, cr_base64_decode = \<lambda>s. Inr (as_bytes s)\<rparr>"

lemma mock_calls_grow: "\<exists>r s'. mock_call session t data s = Some (r, s') \<and> length (mock_calls s') \<le> Suc (length (mock_calls s))"
  by (auto simp: mock_call_def Let_def split: list.split)

lemma max_buttons: "MAX_BUTTON_REQUESTS = Suc 63"
  by (simp add: MAX_BUTTON_REQUESTS_def)

lemma mock_send:
  "send c mock_device m \<lparr>mock_script = \<lparr>ex_expect = message_code m, ex_reply_type = t, ex_reply = b\<rparr> # rest, mock_calls = cs\<rparr>
     = Some (Inr (t, b), \<lparr>mock_script = rest, mock_calls = cs @ [(message_code m, pb_encode (cr_pb c) m)]\<rparr>)"
  by (simp add: send_def mock_device_def connected_new_def mock_transport_def mock_call_def Let_def)

lemma handle_response_final:
  "t \<notin> {FAILURE, BUTTON_REQUEST, PIN_MATRIX_REQUEST, PASSPHRASE_REQUEST} \<Longrightarrow>
   handle_response c d decode (t, b) s = Some (map_err (\<lambda>e. Device (DeviceProtobufDecode e)) (decode b), s)"
  unfolding handle_response_def max_buttons handle_loop.simps by simp

lemma mock_ask:
  "t \<notin> {FAILURE, BUTTON_REQUEST, PIN_MATRIX_REQUEST, PASSPHRASE_REQUEST} \<Longrightarrow>
   ask c mock_device m decode \<lparr>mock_script = \<lparr>ex_expect = message_code m, ex_reply_type = t, ex_reply = b\<rparr> # rest, mock_calls = cs\<rparr>
     = Some (map_err (\<lambda>e. Device (DeviceProtobufDecode e)) (decode b),
         \<lparr>mock_script = rest, mock_calls = cs @ [(message_code m, pb_encode (cr_pb c) m)]\<rparr>)"
  unfolding ask_def mock_send bind_op.simps by (rule handle_response_final)

lemma run_fields [simp]:
  "pb_address (cr_pb run_crates) b = Inr \<lparr>ad_address = from_bytes b, ad_mac = None\<rparr>"
  "pb_tx_request (cr_pb run_crates) = pb_tx_request run_pb" "cr_btc run_crates = run_crate" "cr_hex run_crates = run_hex"
  by (simp_all add: run_crates_def run_pb_def)

theorem dialogue_bounded_witness:
  "\<exists>r s'. handle_response run_crates mock_device (pb_success run_pb) (26, [])
       (mock_new [\<lparr>ex_expect = 27, ex_reply_type = 26, ex_reply = []\<rparr>, \<lparr>ex_expect = 27, ex_reply_type = 2, ex_reply = []\<rparr>])
     = Some (r, s') \<and> length (mock_calls s') \<le> 64"
proof -
  have d: "t_call (cd_transport mock_device) = mock_call" "cd_ui_callback mock_device = None"
    by (simp_all add: mock_device_def connected_new_def mock_transport_def)
  show ?thesis
    using dialogue_bounded [of mock_device "\<lambda>s. length (mock_calls s)" run_crates "pb_success run_pb" "(26, [])"
        "mock_new [\<lparr>ex_expect = 27, ex_reply_type = 26, ex_reply = []\<rparr>, \<lparr>ex_expect = 27, ex_reply_type = 2, ex_reply = []\<rparr>]"]
      mock_calls_grow by (simp add: d) (simp add: mock_new_def)
qed

text \<open>
  C37: when an address is confirmed on the display, the address returned is the
  one the device derived silently before and the one it displayed, and the one the caller expected,
  if any.
\<close>

theorem shown_address_agrees:
  assumes "get_address c d params s = Some (Inr r, s')" "gap_show_on_trezor params"
  shows "\<exists>q silent s1 shown.
      get_address_raw c d (q\<lparr>ga_show_display := Some False\<rparr>) s = Some (Inr silent, s1)
    \<and> get_address_raw c d (q\<lparr>ga_show_display := Some True\<rparr>) s1 = Some (Inr shown, s')
    \<and> ar_address r = ad_address silent \<and> ar_address r = ad_address shown
    \<and> parse_path (gap_path params) = Inr (ar_path r) \<and> ga_address_n q = ar_path r
    \<and> gap_address params \<in> {None, Some (ar_address r)}"
proof -
  let ?q = "\<lambda>address_n multisig show. \<lparr>ga_address_n = address_n, ga_coin_name = Some (coin_name (coin_or_default (gap_coin params))),
            ga_show_display = Some show,
            ga_script_type = Some (script_type_code (case gap_script_type params of Some t \<Rightarrow> t | None \<Rightarrow> infer_script_type address_n)),
            ga_multisig = multisig, ga_chunkify = gap_chunkify params\<rparr>"
  obtain address_n multisig expected s1 shown where
    steps: "parse_path (gap_path params) = Inr address_n"
    "expect_address c d params (?q address_n multisig False) s = Some (Inr expected, s1)"
    "get_address_raw c d (?q address_n multisig True) s1 = Some (Inr shown, s')"
    and last: "\<not> (expected \<noteq> None \<and> expected \<noteq> Some (ad_address shown))" "ar_path r = address_n" "ar_address r = ad_address shown"
    using assms by (auto simp: get_address_def res_simps Let_def split: if_splits)
  obtain silent where silent: "get_address_raw c d (?q address_n multisig False) s = Some (Inr silent, s1)"
    and e: "expected = Some (ad_address silent)" "gap_address params \<in> {None, Some (ad_address silent)}"
    using steps(2) assms(2) by (cases "gap_address params") (auto simp: expect_address_def res_simps split: if_splits)
  show ?thesis
    by (rule exI [of _ "?q address_n multisig True"], rule exI [of _ silent], rule exI [of _ s1], rule exI [of _ shown])
      (use steps silent e last in auto)
qed

definition shown_params :: GetAddressParams where
  "shown_params = \<lparr>gap_path = ''m/0'', gap_coin = None, gap_show_on_trezor = True, gap_script_type = None,
     gap_multisig = None, gap_chunkify = None, gap_address = None\<rparr>"

theorem shown_address_agrees_witness:
  "\<exists>r s'. get_address run_crates mock_device shown_params
       (mock_new [\<lparr>ex_expect = 29, ex_reply_type = 30, ex_reply = [65]\<rparr>, \<lparr>ex_expect = 29, ex_reply_type = 30, ex_reply = [65]\<rparr>])
     = Some (Inr r, s') \<and> ar_address r = from_bytes [65] \<and> parse_path ''m/0'' = Inr (ar_path r)"
proof -
  let ?m = "mock_new [\<lparr>ex_expect = 29, ex_reply_type = 30, ex_reply = [65]\<rparr>, \<lparr>ex_expect = 29, ex_reply_type = 30, ex_reply = [65]\<rparr>]"
  have p: "parse_path ''m/0'' = Inr [0]"
    using parse_serialize_path [of "[0]"] by (simp add: serialize_path_def serialize_component_def show_nat.simps digit_char_def
        char_of_def bit_iff_odd HARDENED_OFFSET_def is_hardened_def)
  have ask: "ask run_crates mock_device (MGetAddress q) decode
      \<lparr>mock_script = \<lparr>ex_expect = 29, ex_reply_type = 30, ex_reply = [65]\<rparr> # rest, mock_calls = cs\<rparr>
    = Some (map_err (\<lambda>e. Device (DeviceProtobufDecode e)) (decode [65]),
        \<lparr>mock_script = rest, mock_calls = cs @ [(29, pb_encode (cr_pb run_crates) (MGetAddress q))]\<rparr>)" for q rest cs and decode :: "bytes \<Rightarrow> string + 'x"
    using mock_ask [of 30 run_crates "MGetAddress q" decode]
    by (simp add: FAILURE_def BUTTON_REQUEST_def PIN_MATRIX_REQUEST_def PASSPHRASE_REQUEST_def)
  have g: "\<exists>r s'. get_address run_crates mock_device shown_params ?m = Some (Inr r, s') \<and> ar_address r = from_bytes [65]"
    by (simp add: get_address_def shown_params_def p expect_address_def get_address_raw_def mock_new_def Let_def ask map_err_def)
  then obtain r s' where g: "get_address run_crates mock_device shown_params ?m = Some (Inr r, s')" "ar_address r = from_bytes [65]"
    by blast
  show ?thesis using shown_address_agrees [OF g(1)] g by (auto simp: shown_params_def)
qed

end
