(* ===== verification/Sign_Transaction.thy ===== *)
theory Sign_Transaction
  imports Connected_Device
begin

text \<open>
  Signing a transaction (\<^verbatim>\<open>ConnectedDevice::sign_transaction\<close>): the checks before anything is
  sent, the scripts the outputs must have, the dialogue in which the device asks for parts of the
  transaction, and the verification of what it returns. The dialogue is driven by the device and
  may go on for ever, so its loop is a partial function.
\<close>

section \<open>Definitions\<close>

subsection \<open>Checks before signing\<close>

fun check_output_fields :: "nat \<Rightarrow> SignTxOutput list \<Rightarrow> unit result" where
  "check_output_fields i [] = Inr ()"
| "check_output_fields i (output # outputs) =
     (let field_count = of_bool (sto_address output \<noteq> None) + of_bool (sto_path output \<noteq> None)
            + of_bool (sto_op_return_data output \<noteq> None) :: nat
      in if field_count \<noteq> 1
         then device_err (InvalidInput (''Output '' @ show_nat i
           @ '': exactly one of address, path, or op_return_data must be set (got '' @ show_nat field_count @ '')''))
         else if sto_op_return_data output \<noteq> None \<and> sto_amount output \<noteq> 0
         then device_err (InvalidInput (''Output '' @ show_nat i @ '': OP_RETURN output must have amount 0, got ''
           @ show_nat (unat (sto_amount output))))
         else check_output_fields (Suc i) outputs)"

definition DUST_LIMIT_SATOSHIS :: u64 where "DUST_LIMIT_SATOSHIS = 546"

definition check_dust :: "SignTxOutput list \<Rightarrow> unit result" where
  "check_dust outputs =
     (let spendable = map sto_amount (filter (\<lambda>o'. sto_op_return_data o' = None) outputs)
      in if spendable \<noteq> [] \<and> sum_list spendable < DUST_LIMIT_SATOSHIS
         then device_err (InvalidInput ''Total amount is below dust limit'')
         else Inr ())"

fun check_external_inputs :: "nat \<Rightarrow> SignTxInput list \<Rightarrow> unit result" where
  "check_external_inputs i [] = Inr ()"
| "check_external_inputs i (input # inputs) =
     (if sti_script_type input = External \<and> sti_script_pubkey input = None
      then device_err (InvalidInput (''Input '' @ show_nat i @ '': EXTERNAL input requires script_pubkey''))
      else check_external_inputs (Suc i) inputs)"

fun check_addresses :: "crates \<Rightarrow> Network \<Rightarrow> nat \<Rightarrow> SignTxOutput list \<Rightarrow> unit result" where
  "check_addresses c coin i [] = Inr ()"
| "check_addresses c coin i (output # outputs) =
     (case sto_address output of
        None \<Rightarrow> check_addresses c coin (Suc i) outputs
      | Some address \<Rightarrow>
          (case address_to_script (cr_btc c) address coin of
             Inl Panic \<Rightarrow> Inl Panic
           | Inl (Err e) \<Rightarrow> device_err (InvalidInput (''Output '' @ show_nat i @ '': '' @ error_text e))
           | Inr _ \<Rightarrow> check_addresses c coin (Suc i) outputs))"

definition missing_prev_txs :: "SignTxParams \<Rightarrow> string list" where
  "missing_prev_txs params =
     foldl (\<lambda>missing input.
        if sti_script_type input \<in> {SpendTaproot, External} then missing
        else
          let hash = to_lowercase (sti_prev_hash input);
              provided = list_ex (\<lambda>tx. eq_ignore_ascii_case (ptx_hash tx) hash) (stp_prev_txs params)
          in if \<not> provided \<and> hash \<notin> set missing then missing @ [hash] else missing)
       [] (stp_inputs params)"

fun check_prev_hashes :: "crates \<Rightarrow> SignTxPrevTx list \<Rightarrow> unit result" where
  "check_prev_hashes c [] = Inr ()"
| "check_prev_hashes c (prev # prevs) =
     bind_res (compute_prev_txid (cr_btc c) (cr_hex c) prev) (\<lambda>computed.
       case computed of
         Some txid \<Rightarrow>
           if \<not> eq_ignore_ascii_case txid (ptx_hash prev)
           then bitcoin_err (InvalidTransaction (''prev tx '' @ ptx_hash prev @ '': provided contents hash to '' @ txid))
           else check_prev_hashes c prevs
       | None \<Rightarrow> check_prev_hashes c prevs)"

definition validate_sign_tx_params :: "crates \<Rightarrow> SignTxParams \<Rightarrow> unit result" where
  "validate_sign_tx_params c params =
     bind_res (check_dust (stp_outputs params)) (\<lambda>_.
     bind_res (check_external_inputs 0 (stp_inputs params)) (\<lambda>_.
     bind_res (check_addresses c (coin_or_default (stp_coin params)) 0 (stp_outputs params)) (\<lambda>_.
     let missing = missing_prev_txs params
     in if missing \<noteq> []
        then device_err (InvalidInput (''Missing previous transactions for inputs: '' @ join '', '' missing))
        else check_prev_hashes c (stp_prev_txs params))))"

definition parse_input_path :: "SignTxInput \<Rightarrow> (u32 list \<times> ScriptType) result" where
  "parse_input_path input =
     (if sti_script_type input = External \<and> sti_path input = [] then Inr ([], sti_script_type input)
      else bind_res (parse_path (sti_path input)) (\<lambda>path. Inr (path, sti_script_type input)))"

definition parse_output_path :: "SignTxOutput \<Rightarrow> (u32 list \<times> ScriptType) option result" where
  "parse_output_path output =
     (case sto_path output of
        Some path_str \<Rightarrow>
          bind_res (parse_path path_str) (\<lambda>path.
            Inr (Some (path, case sto_script_type output of Some t \<Rightarrow> t | None \<Rightarrow> infer_script_type path)))
      | None \<Rightarrow> Inr None)"

subsection \<open>Expected scripts\<close>

definition send_unlock_path :: "crates \<Rightarrow> 's ConnectedDevice \<Rightarrow> UnlockPath \<Rightarrow> 's \<Rightarrow> (unit, 's) outcome" where
  "send_unlock_path c d unlock s =
     bind_op (lift_res (traverse_option (decode_hex (cr_hex c) ''Invalid unlock_path mac hex'') (up_mac unlock)) s)
       (\<lambda>mac s. ask c d (MUnlockPath \<lparr>ul_address_n = up_address_n unlock, ul_mac = mac\<rparr>)
          (pb_unlocked_path_request (cr_pb c)) s)"

definition get_node_public_key ::
    "crates \<Rightarrow> 's ConnectedDevice \<Rightarrow> u32 list \<Rightarrow> Network \<Rightarrow> UnlockPath option \<Rightarrow> 's \<Rightarrow> (bytes, 's) outcome" where
  "get_node_public_key c d address_n coin unlock_path s =
     bind_op (case unlock_path of Some unlock \<Rightarrow> send_unlock_path c d unlock s | None \<Rightarrow> Some (Inr (), s)) (\<lambda>_ s.
     bind_op (ask c d (MGetPublicKey \<lparr>gp_address_n = address_n, gp_show_display = Some False,
        gp_coin_name = Some (coin_name coin), gp_script_type = None\<rparr>) (pb_public_key (cr_pb c)) s) (\<lambda>response s.
     Some (Inr (hd_public_key (ppk_node response)), s)))"

definition output_script ::
    "crates \<Rightarrow> 's ConnectedDevice \<Rightarrow> SignTxParams \<Rightarrow> SignTxOutput \<Rightarrow> (u32 list \<times> ScriptType) option \<Rightarrow> 's
     \<Rightarrow> (bytes option, 's) outcome" where
  "output_script c d params output parsed s =
     (let coin = coin_or_default (stp_coin params) in
      case sto_op_return_data output of
        Some data \<Rightarrow>
          lift_res (bind_res (decode_hex (cr_hex c) ''Invalid op_return_data hex'' data) (\<lambda>bytes.
            map_res Some (op_return_script (cr_btc c) bytes))) s
      | None \<Rightarrow>
          if sto_multisig output \<noteq> None then Some (Inr None, s)
          else case parsed of
            Some (path, script_type) \<Rightarrow>
              bind_op (get_node_public_key c d path coin (stp_unlock_path params) s) (\<lambda>public_key s.
                lift_res (script_for_pubkey (cr_btc c) public_key script_type) s)
          | None \<Rightarrow>
              (case sto_address output of
                 Some address \<Rightarrow> lift_res (map_res Some (address_to_script (cr_btc c) address coin)) s
               | None \<Rightarrow> Some (Inr None, s)))"

fun derive_output_scripts ::
    "crates \<Rightarrow> 's ConnectedDevice \<Rightarrow> SignTxParams \<Rightarrow> (SignTxOutput \<times> (u32 list \<times> ScriptType) option) list \<Rightarrow> 's
     \<Rightarrow> (bytes option list, 's) outcome" where
  "derive_output_scripts c d params [] s = Some (Inr [], s)"
| "derive_output_scripts c d params ((output, parsed) # rest) s =
     bind_op (output_script c d params output parsed s) (\<lambda>script s.
     bind_op (derive_output_scripts c d params rest s) (\<lambda>scripts s.
     Some (Inr (script # scripts), s)))"

subsection \<open>Answers to the device\<close>

definition empty_tx :: TransactionType where
  "empty_tx = \<lparr>xt_version = None, xt_inputs = [], xt_bin_outputs = [], xt_lock_time = None, xt_outputs = [],
     xt_inputs_cnt = None, xt_outputs_cnt = None, xt_extra_data = None, xt_extra_data_len = None\<rparr>"

definition build_input_ack :: "crates \<Rightarrow> SignTxInput \<Rightarrow> u32 list \<times> ScriptType \<Rightarrow> TransactionType result" where
  "build_input_ack c input parsed =
     (let hx = cr_hex c;
          external = (\<lambda>what v. if sti_script_type input = External then traverse_option (decode_hex hx what) v else Inr None)
      in
      bind_res (decode_hex hx ''Invalid prev_hash hex'' (sti_prev_hash input)) (\<lambda>prev_hash.
      bind_res (traverse_option (convert_multisig c) (sti_multisig input)) (\<lambda>multisig.
      bind_res (external ''Invalid script_sig hex'' (sti_script_sig input)) (\<lambda>script_sig.
      bind_res (external ''Invalid witness hex'' (sti_witness input)) (\<lambda>witness.
      bind_res (external ''Invalid ownership_proof hex'' (sti_ownership_proof input)) (\<lambda>ownership_proof.
      bind_res (external ''Invalid commitment_data hex'' (sti_commitment_data input)) (\<lambda>commitment_data.
      bind_res (external ''Invalid script_pubkey hex'' (sti_script_pubkey input)) (\<lambda>script_pubkey.
      bind_res (traverse_option (decode_hex hx ''Invalid orig_hash hex'') (sti_orig_hash input)) (\<lambda>orig_hash.
      Inr (empty_tx\<lparr>xt_inputs := [\<lparr>xi_address_n = fst parsed, xi_prev_hash = prev_hash,
        xi_prev_index = sti_prev_index input, xi_script_sig = script_sig, xi_sequence = sti_sequence input,
        xi_script_type = Some (script_type_code (snd parsed)), xi_multisig = multisig,
        xi_amount = Some (sti_amount input), xi_witness = witness, xi_ownership_proof = ownership_proof,
        xi_commitment_data = commitment_data, xi_orig_hash = orig_hash, xi_orig_index = sti_orig_index input,
        xi_script_pubkey = script_pubkey\<rparr>]\<rparr>))))))))))"

fun change_script_type :: "ScriptType \<Rightarrow> OutputScriptType" where
  "change_script_type SpendAddress = PayToAddress"
| "change_script_type SpendP2SHWitness = PayToP2SHWitness"
| "change_script_type SpendWitness = PayToWitness"
| "change_script_type SpendTaproot = PayToTaproot"
| "change_script_type _ = PayToAddress"

definition build_output_ack ::
    "crates \<Rightarrow> SignTxOutput \<Rightarrow> (u32 list \<times> ScriptType) option \<Rightarrow> bool \<Rightarrow> TransactionType result" where
  "build_output_ack c output parsed auto_payment_req =
     bind_res (traverse_option (decode_hex (cr_hex c) ''Invalid orig_hash hex'') (sto_orig_hash output)) (\<lambda>orig_hash.
     let payment_req_index = (case sto_payment_req_index output of
           Some i \<Rightarrow> Some i
         | None \<Rightarrow> if auto_payment_req then Some 0 else None);
         base = \<lparr>xo_address = None, xo_address_n = [], xo_amount = 0, xo_script_type = None, xo_multisig = None,
           xo_op_return_data = None, xo_orig_hash = orig_hash, xo_orig_index = sto_orig_index output,
           xo_payment_req_index = payment_req_index\<rparr>
     in
     bind_res
       (case sto_op_return_data output of
          Some op_return_data \<Rightarrow>
            bind_res (decode_hex (cr_hex c) ''Invalid op_return_data hex'' op_return_data) (\<lambda>data.
              Inr (base\<lparr>xo_script_type := Some (output_script_type_code PayToOpReturn), xo_op_return_data := Some data\<rparr>))
        | None \<Rightarrow>
            (case parsed of
               Some (path, script_type) \<Rightarrow>
                 bind_res (traverse_option (convert_multisig c) (sto_multisig output)) (\<lambda>multisig.
                   Inr (base\<lparr>xo_address_n := path, xo_amount := sto_amount output, xo_multisig := multisig,
                     xo_script_type := Some (output_script_type_code
                       (if multisig \<noteq> None then PayToMultisig else change_script_type script_type))\<rparr>))
             | None \<Rightarrow>
                 (case sto_address output of
                    Some address \<Rightarrow>
                      Inr (base\<lparr>xo_address := Some address, xo_amount := sto_amount output,
                        xo_script_type := Some (output_script_type_code PayToAddress)\<rparr>)
                  | None \<Rightarrow> device_err (InvalidInput ''Output must have either address, path, or op_return_data''))))
       (\<lambda>tx_output. Inr (empty_tx\<lparr>xt_outputs := [tx_output]\<rparr>)))"

definition build_prev_tx_meta_ack :: "crates \<Rightarrow> SignTxPrevTx \<Rightarrow> TransactionType result" where
  "build_prev_tx_meta_ack c prev_tx =
     bind_res (traverse_option (decode_hex (cr_hex c) ''Invalid extra_data hex'') (ptx_extra_data prev_tx)) (\<lambda>extra.
     Inr (empty_tx\<lparr>xt_version := Some (ptx_version prev_tx), xt_lock_time := Some (ptx_lock_time prev_tx),
       xt_inputs_cnt := Some (of_nat (length (ptx_inputs prev_tx))),
       xt_outputs_cnt := Some (of_nat (length (ptx_outputs prev_tx))),
       xt_extra_data_len := Some (case extra of Some b \<Rightarrow> of_nat (length b) | None \<Rightarrow> 0)\<rparr>))"

definition build_prev_tx_input_ack :: "crates \<Rightarrow> SignTxPrevTxInput \<Rightarrow> TransactionType result" where
  "build_prev_tx_input_ack c input =
     bind_res (decode_hex (cr_hex c) ''Invalid prev tx input prev_hash hex'' (pti_prev_hash input)) (\<lambda>prev_hash.
     bind_res (decode_hex (cr_hex c) ''Invalid prev tx input script_sig hex'' (pti_script_sig input)) (\<lambda>script_sig.
     Inr (empty_tx\<lparr>xt_inputs := [\<lparr>xi_address_n = [], xi_prev_hash = prev_hash, xi_prev_index = pti_prev_index input,
       xi_script_sig = Some script_sig, xi_sequence = Some (pti_sequence input),
       xi_script_type = Some (script_type_code SpendAddress), xi_multisig = None, xi_amount = Some 0,
       xi_witness = None, xi_ownership_proof = None, xi_commitment_data = None, xi_orig_hash = None,
       xi_orig_index = None, xi_script_pubkey = None\<rparr>]\<rparr>)))"

definition build_prev_tx_output_ack :: "crates \<Rightarrow> SignTxPrevTxOutput \<Rightarrow> TransactionType result" where
  "build_prev_tx_output_ack c output =
     bind_res (decode_hex (cr_hex c) ''Invalid prev tx output script_pubkey hex'' (pto_script_pubkey output)) (\<lambda>script_pubkey.
     Inr (empty_tx\<lparr>xt_bin_outputs := [\<lparr>xb_amount = pto_amount output, xb_script_pubkey = script_pubkey\<rparr>]\<rparr>))"

definition find_prev_tx :: "crates \<Rightarrow> SignTxPrevTx list \<Rightarrow> bytes \<Rightarrow> SignTxPrevTx result" where
  "find_prev_tx c prev_txs tx_hash_bytes =
     (let tx_hash_hex = hx_encode (cr_hex c) tx_hash_bytes
      in case find (\<lambda>tx. eq_ignore_ascii_case (ptx_hash tx) tx_hash_hex) prev_txs of
           Some tx \<Rightarrow> Inr tx
         | None \<Rightarrow> device_err (InvalidInput (''Previous transaction '' @ tx_hash_hex @ '' not found in prev_txs'')))"

definition le64 :: "u64 \<Rightarrow> bytes" where
  "le64 a = map (\<lambda>k. ucast (drop_bit (8 * k) a)) [0..<8]"

definition hex_or_empty :: "crates \<Rightarrow> string \<Rightarrow> bytes" where
  "hex_or_empty c s = (case hx_decode (cr_hex c) s of Inr b \<Rightarrow> b | Inl _ \<Rightarrow> [])"

definition convert_payment_request :: "crates \<Rightarrow> PaymentRequest \<Rightarrow> PbPaymentRequest result" where
  "convert_payment_request c pr =
     bind_res (traverse_option (decode_hex (cr_hex c) ''Invalid payment_request nonce hex'') (pr_nonce pr)) (\<lambda>nonce.
     bind_res (decode_hex (cr_hex c) ''Invalid payment_request signature hex'' (pr_signature pr)) (\<lambda>signature.
     Inr \<lparr>pq_nonce = nonce, pq_recipient_name = pr_recipient_name pr,
       pq_memos = map (\<lambda>m. \<lparr>pmm_text_memo = prm_text_memo m,
         pmm_refund_memo = map_option (\<lambda>r. \<lparr>prf_address = rm_address r, prf_address_n = rm_address_n r,
           prf_mac = hex_or_empty c (rm_mac r)\<rparr>) (prm_refund_memo m),
         pmm_coin_purchase_memo = map_option (\<lambda>p. \<lparr>pcp_coin_type = cpm_coin_type p, pcp_amount = cpm_amount p,
           pcp_address = cpm_address p, pcp_address_n = cpm_address_n p, pcp_mac = hex_or_empty c (cpm_mac p)\<rparr>)
           (prm_coin_purchase_memo m)\<rparr>) (pr_memos pr),
       pq_amount = map_option le64 (pr_amount pr), pq_signature = signature\<rparr>))"

subsection \<open>The dialogue\<close>

record sign_job =
  job_params :: SignTxParams
  job_inputs :: "(u32 list \<times> ScriptType) list"
  job_outputs :: "(u32 list \<times> ScriptType) option list"

definition missing_details :: "string \<Rightarrow> 'a option \<Rightarrow> 'a result" where
  "missing_details what v = (case v of Some x \<Rightarrow> Inr x | None \<Rightarrow> device_err (DeviceProtobufDecode what))"

definition required_hash :: "string \<Rightarrow> TxRequestDetailsType \<Rightarrow> bytes result" where
  "required_hash what details =
     (case rd_tx_hash details of Some h \<Rightarrow> Inr h | None \<Rightarrow> device_err (InvalidInput (what @ '' missing tx_hash'')))"

definition out_of_bounds :: "string \<Rightarrow> nat \<Rightarrow> string \<Rightarrow> nat \<Rightarrow> 'a result" where
  "out_of_bounds what idx for len =
     device_err (InvalidInput (what @ show_nat idx @ '' out of bounds '' @ for @ ''(len '' @ show_nat len @ '')''))"

definition answer_input :: "crates \<Rightarrow> sign_job \<Rightarrow> TxRequestDetailsType \<Rightarrow> TransactionType result" where
  "answer_input c job details =
     (let params = job_params job;
          idx = unat (case rd_request_index details of Some i \<Rightarrow> i | None \<Rightarrow> 0)
      in case rd_tx_hash details of
           Some tx_hash \<Rightarrow>
             bind_res (find_prev_tx c (stp_prev_txs params) tx_hash) (\<lambda>prev_tx.
               if length (ptx_inputs prev_tx) \<le> idx
               then out_of_bounds ''prev tx input index '' idx [] (length (ptx_inputs prev_tx))
               else build_prev_tx_input_ack c (ptx_inputs prev_tx ! idx))
         | None \<Rightarrow>
             if length (stp_inputs params) \<le> idx
             then out_of_bounds ''request_index '' idx ''for inputs '' (length (stp_inputs params))
             else build_input_ack c (stp_inputs params ! idx) (job_inputs job ! idx))"

definition answer_output :: "crates \<Rightarrow> sign_job \<Rightarrow> TxRequestDetailsType \<Rightarrow> TransactionType result" where
  "answer_output c job details =
     (let params = job_params job;
          idx = unat (case rd_request_index details of Some i \<Rightarrow> i | None \<Rightarrow> 0)
      in case rd_tx_hash details of
           Some tx_hash \<Rightarrow>
             bind_res (find_prev_tx c (stp_prev_txs params) tx_hash) (\<lambda>prev_tx.
               if length (ptx_outputs prev_tx) \<le> idx
               then out_of_bounds ''prev tx output index '' idx [] (length (ptx_outputs prev_tx))
               else build_prev_tx_output_ack c (ptx_outputs prev_tx ! idx))
         | None \<Rightarrow>
             if length (stp_outputs params) \<le> idx
             then out_of_bounds ''request_index '' idx ''for outputs '' (length (stp_outputs params))
             else build_output_ack c (stp_outputs params ! idx) (job_outputs job ! idx) (stp_payment_requests params \<noteq> []))"

definition find_index :: "('a \<Rightarrow> bool) \<Rightarrow> 'a list \<Rightarrow> nat option" where
  "find_index P xs = find (\<lambda>i. P (xs ! i)) [0..<length xs]"

definition no_orig :: "crates \<Rightarrow> string \<Rightarrow> bytes \<Rightarrow> u32 \<Rightarrow> 'a result" where
  "no_orig c what tx_hash idx =
     device_err (InvalidInput (''No current '' @ what @ '' references orig tx '' @ hx_encode (cr_hex c) tx_hash
       @ '' at index '' @ show_nat (unat idx)))"

definition answer_orig_input :: "crates \<Rightarrow> sign_job \<Rightarrow> TxRequestDetailsType \<Rightarrow> TransactionType result" where
  "answer_orig_input c job details =
     bind_res (required_hash ''TXORIGINPUT'' details) (\<lambda>tx_hash.
     let inputs = stp_inputs (job_params job);
         idx = (case rd_request_index details of Some i \<Rightarrow> i | None \<Rightarrow> 0)
     in case find_index (\<lambda>input. sti_orig_hash input = Some (hx_encode (cr_hex c) tx_hash)
               \<and> sti_orig_index input = Some idx) inputs of
          Some i \<Rightarrow> build_input_ack c (inputs ! i) (job_inputs job ! i)
        | None \<Rightarrow> no_orig c ''input'' tx_hash idx)"

definition answer_orig_output :: "crates \<Rightarrow> sign_job \<Rightarrow> TxRequestDetailsType \<Rightarrow> TransactionType result" where
  "answer_orig_output c job details =
     bind_res (required_hash ''TXORIGOUTPUT'' details) (\<lambda>tx_hash.
     let outputs = stp_outputs (job_params job);
         idx = (case rd_request_index details of Some i \<Rightarrow> i | None \<Rightarrow> 0)
     in case find_index (\<lambda>output. sto_orig_hash output = Some (hx_encode (cr_hex c) tx_hash)
               \<and> sto_orig_index output = Some idx) outputs of
          Some i \<Rightarrow> build_output_ack c (outputs ! i) (job_outputs job ! i) (stp_payment_requests (job_params job) \<noteq> [])
        | None \<Rightarrow> no_orig c ''output'' tx_hash idx)"

definition answer_extra_data :: "crates \<Rightarrow> sign_job \<Rightarrow> TxRequestDetailsType \<Rightarrow> TransactionType result" where
  "answer_extra_data c job details =
     bind_res (required_hash ''TXEXTRADATA'' details) (\<lambda>tx_hash.
     bind_res (find_prev_tx c (stp_prev_txs (job_params job)) tx_hash) (\<lambda>prev_tx.
     bind_res (traverse_option (decode_hex (cr_hex c) ''Invalid extra_data hex'') (ptx_extra_data prev_tx)) (\<lambda>extra.
     let bytes = (case extra of Some b \<Rightarrow> b | None \<Rightarrow> []);
         offset = unat (case rd_extra_data_offset details of Some n \<Rightarrow> n | None \<Rightarrow> 0);
         len = unat (case rd_extra_data_len details of Some n \<Rightarrow> n | None \<Rightarrow> 0);
         end = min (offset + len) (length bytes);
         chunk = (if offset < length bytes then take (end - offset) (drop offset bytes) else [])
     in Inr (empty_tx\<lparr>xt_extra_data := Some chunk\<rparr>))))"

definition answer_payment_request :: "crates \<Rightarrow> sign_job \<Rightarrow> TxRequestDetailsType \<Rightarrow> PbPaymentRequest result" where
  "answer_payment_request c job details =
     (let requests = stp_payment_requests (job_params job);
          idx = unat (case rd_request_index details of Some i \<Rightarrow> i | None \<Rightarrow> 0)
      in if length requests \<le> idx then out_of_bounds ''payment_req_index '' idx [] (length requests)
         else convert_payment_request c (requests ! idx))"

definition answer :: "crates \<Rightarrow> sign_job \<Rightarrow> RequestType \<Rightarrow> TxRequestDetailsType option \<Rightarrow> HostMessage result" where
  "answer c job request_type details =
     (case request_type of
        Txinput \<Rightarrow> bind_res (missing_details ''Missing details'' details) (\<lambda>dt. map_res MTxAck (answer_input c job dt))
      | Txoutput \<Rightarrow> bind_res (missing_details ''Missing details'' details) (\<lambda>dt. map_res MTxAck (answer_output c job dt))
      | Txmeta \<Rightarrow> bind_res (missing_details ''Missing details'' details) (\<lambda>dt.
          bind_res (required_hash ''TXMETA'' dt) (\<lambda>tx_hash.
          bind_res (find_prev_tx c (stp_prev_txs (job_params job)) tx_hash) (\<lambda>prev_tx.
          map_res MTxAck (build_prev_tx_meta_ack c prev_tx))))
      | Txoriginput \<Rightarrow> bind_res (missing_details ''Missing details'' details) (\<lambda>dt. map_res MTxAck (answer_orig_input c job dt))
      | Txorigoutput \<Rightarrow> bind_res (missing_details ''Missing details'' details) (\<lambda>dt. map_res MTxAck (answer_orig_output c job dt))
      | Txextradata \<Rightarrow> bind_res (missing_details ''Missing details for TXEXTRADATA'' details) (\<lambda>dt.
          map_res MTxAck (answer_extra_data c job dt))
      | Txpaymentreq \<Rightarrow> bind_res (missing_details ''Missing details for TXPAYMENTREQ'' details) (\<lambda>dt.
          map_res MPaymentRequest (answer_payment_request c job dt))
      | Txfinished \<Rightarrow> device_err (InvalidInput ''finished''))"

type_synonym collected = "string list \<times> bytes"

definition collect :: "crates \<Rightarrow> TxRequest \<Rightarrow> collected \<Rightarrow> collected result" where
  "collect c req acc =
     (case rq_serialized req of
        None \<Rightarrow> Inr acc
      | Some ser \<Rightarrow>
          bind_res
            (case (rs_signature ser, rs_signature_index ser) of
               (Some sig, Some sig_idx) \<Rightarrow>
                 if unat sig_idx < length (fst acc) then Inr ((fst acc)[unat sig_idx := hx_encode (cr_hex c) sig])
                 else device_err (InvalidInput (''signature_index '' @ show_nat (unat sig_idx) @ '' out of bounds (max ''
                        @ show_nat (usize_sub (length (fst acc)) 1) @ '')''))
             | _ \<Rightarrow> Inr (fst acc))
            (\<lambda>signatures. Inr (signatures, snd acc @ (case rs_serialized_tx ser of Some part \<Rightarrow> part | None \<Rightarrow> []))))"

definition request_type_of :: "TxRequest \<Rightarrow> RequestType" where
  "request_type_of req =
     (case Option.bind (rq_request_type req) request_type_of_code of Some t \<Rightarrow> t | None \<Rightarrow> Txfinished)"

partial_function (option) sign_loop ::
    "crates \<Rightarrow> 's ConnectedDevice \<Rightarrow> sign_job \<Rightarrow> u16 \<times> bytes \<Rightarrow> collected \<Rightarrow> 's \<Rightarrow> (collected result \<times> 's) option" where
  "sign_loop c d job resp acc s =
     (if fst resp = BUTTON_REQUEST
      then (case send c d MButtonAck s of
              None \<Rightarrow> None
            | Some (Inl e, s) \<Rightarrow> Some (Inl e, s)
            | Some (Inr resp, s) \<Rightarrow> sign_loop c d job resp acc s)
      else if fst resp = FAILURE then Some (failure_result c (snd resp), s)
      else
        (case pb_tx_request (cr_pb c) (snd resp) of
           Inl e \<Rightarrow> Some (device_err (DeviceProtobufDecode e), s)
         | Inr req \<Rightarrow>
             (case collect c req acc of
                Inl e \<Rightarrow> Some (Inl e, s)
              | Inr acc \<Rightarrow>
                  if request_type_of req = Txfinished then Some (Inr acc, s)
                  else
                    (case answer c job (request_type_of req) (rq_details req) of
                       Inl e \<Rightarrow> Some (Inl e, s)
                     | Inr m \<Rightarrow>
                         (case send c d m s of
                            None \<Rightarrow> None
                          | Some (Inl e, s) \<Rightarrow> Some (Inl e, s)
                          | Some (Inr resp, s) \<Rightarrow> sign_loop c d job resp acc s)))))"

definition sign_tx_message :: "SignTxParams \<Rightarrow> SignTx" where
  "sign_tx_message params =
     \<lparr>sx_outputs_count = of_nat (length (stp_outputs params)), sx_inputs_count = of_nat (length (stp_inputs params)),
      sx_coin_name = Some (coin_name (coin_or_default (stp_coin params))),
      sx_version = Some (case stp_version params of Some v \<Rightarrow> v | None \<Rightarrow> 2),
      sx_lock_time = Some (case stp_lock_time params of Some t \<Rightarrow> t | None \<Rightarrow> 0),
      sx_amount_unit = map_option amount_unit_code (stp_amount_unit params),
      sx_serialize = stp_serialize params, sx_chunkify = stp_chunkify params\<rparr>"

definition witness_hex :: "crates \<Rightarrow> TxIn \<Rightarrow> string option" where
  "witness_hex c input =
     (if ti_witness input = [] then None
      else Some (hx_encode (cr_hex c) (bc_serialize_witness (cr_btc c) (ti_witness input))))"

definition check_signed :: "crates \<Rightarrow> SignTxParams \<Rightarrow> bytes option list option \<Rightarrow> collected \<Rightarrow> SignedTxResponse result" where
  "check_signed c params expected_scripts acc =
     (let response = (\<lambda>txid witnesses. \<lparr>sr_signatures = fst acc, sr_serialized_tx = hx_encode (cr_hex c) (snd acc),
            sr_txid = txid, sr_witnesses = witnesses\<rparr>)
      in case expected_scripts of
           None \<Rightarrow> Inr (response None None)
         | Some expected \<Rightarrow>
             if snd acc = [] then Inr (response None None)
             else bind_res (verify_signed_tx (cr_btc c) (snd acc) (length (stp_inputs params)) (stp_outputs params) expected) (\<lambda>tx.
                    Inr (response (Some (bc_txid_to_string (cr_btc c) (bc_compute_txid (cr_btc c) tx)))
                      (Some (map (witness_hex c) (tx_input tx))))))"

definition sign_transaction ::
    "crates \<Rightarrow> 's ConnectedDevice \<Rightarrow> SignTxParams \<Rightarrow> 's \<Rightarrow> (SignedTxResponse, 's) outcome" where
  "sign_transaction c d params s =
     bind_op (lift_res (check_output_fields 0 (stp_outputs params)) s) (\<lambda>_ s.
     bind_op (lift_res (validate_sign_tx_params c params) s) (\<lambda>_ s.
     bind_op (lift_res (traverse_res parse_input_path (stp_inputs params)) s) (\<lambda>parsed_inputs s.
     bind_op (lift_res (traverse_res parse_output_path (stp_outputs params)) s) (\<lambda>parsed_outputs s.
     bind_op
       (if stp_serialize params \<noteq> Some False
        then bind_op (derive_output_scripts c d params (zip (stp_outputs params) parsed_outputs) s) (\<lambda>scripts s.
               Some (Inr (Some scripts), s))
        else Some (Inr None, s)) (\<lambda>expected_scripts s.
     bind_op (case stp_unlock_path params of Some unlock \<Rightarrow> send_unlock_path c d unlock s | None \<Rightarrow> Some (Inr (), s)) (\<lambda>_ s.
     bind_op (send c d (MSignTx (sign_tx_message params)) s) (\<lambda>resp s.
     bind_op (sign_loop c d \<lparr>job_params = params, job_inputs = parsed_inputs, job_outputs = parsed_outputs\<rparr> resp
         (replicate (length (stp_inputs params)) [], []) s) (\<lambda>acc s.
     lift_res (check_signed c params expected_scripts acc) s))))))))"

end
