(* ===== verification/Sign_Verified.thy ===== *)
theory Sign_Verified
  imports Sign_Transaction
begin

text \<open>
  What signing guarantees: which requests reach the device, what a transaction that is reported as
  signed pays, that the dialogue completes when the device asks sensible questions, and what
  happens when it answers with a message of another kind.
\<close>

section \<open>What the checks before signing establish\<close>

definition valid_output :: "crates \<Rightarrow> Network \<Rightarrow> SignTxOutput \<Rightarrow> bool" where
  "valid_output c coin o' \<longleftrightarrow>
     (case (sto_address o', sto_path o', sto_op_return_data o') of
        (Some a, None, None) \<Rightarrow> \<exists>script. address_to_script (cr_btc c) a coin = Inr script
      | (None, Some p, None) \<Rightarrow> True
      | (None, None, Some data) \<Rightarrow> sto_amount o' = 0
      | _ \<Rightarrow> False)"

definition valid_input :: "SignTxPrevTx list \<Rightarrow> SignTxInput \<Rightarrow> bool" where
  "valid_input prevs i \<longleftrightarrow>
     (case sti_script_type i of
        External \<Rightarrow> sti_script_pubkey i \<noteq> None
      | SpendTaproot \<Rightarrow> True
      | _ \<Rightarrow> \<exists>tx \<in> set prevs. eq_ignore_ascii_case (ptx_hash tx) (sti_prev_hash i))"

definition valid_prev_tx :: "crates \<Rightarrow> SignTxPrevTx \<Rightarrow> bool" where
  "valid_prev_tx c tx \<longleftrightarrow>
     (ptx_extra_data tx = None \<longrightarrow>
        (\<exists>txid. compute_prev_txid (cr_btc c) (cr_hex c) tx = Inr (Some txid) \<and> eq_ignore_ascii_case txid (ptx_hash tx)))"

definition valid_request :: "crates \<Rightarrow> SignTxParams \<Rightarrow> bool" where
  "valid_request c params \<longleftrightarrow>
     (\<forall>o' \<in> set (stp_outputs params). valid_output c (coin_or_default (stp_coin params)) o')
     \<and> (\<forall>i \<in> set (stp_inputs params). valid_input (stp_prev_txs params) i)
     \<and> (\<forall>tx \<in> set (stp_prev_txs params). valid_prev_tx c tx)"

lemma check_output_fields_ok:
  "check_output_fields i outputs = Inr () \<Longrightarrow> o' \<in> set outputs \<Longrightarrow>
     (sto_address o' \<noteq> None \<and> sto_path o' = None \<and> sto_op_return_data o' = None)
   \<or> (sto_address o' = None \<and> sto_path o' \<noteq> None \<and> sto_op_return_data o' = None)
   \<or> (sto_address o' = None \<and> sto_path o' = None \<and> sto_op_return_data o' \<noteq> None \<and> sto_amount o' = 0)"
  by (induction i outputs rule: check_output_fields.induct) (auto simp: Let_def of_bool_def split: if_splits)

lemma check_addresses_ok:
  "check_addresses c coin i outputs = Inr () \<Longrightarrow> o' \<in> set outputs \<Longrightarrow> sto_address o' = Some a \<Longrightarrow>
   \<exists>script. address_to_script (cr_btc c) a coin = Inr script"
  by (induction c coin i outputs rule: check_addresses.induct) (auto split: option.splits sum.splits fault.splits)

lemma check_external_inputs_ok:
  "check_external_inputs i inputs = Inr () \<Longrightarrow> input \<in> set inputs \<Longrightarrow> sti_script_type input = External \<Longrightarrow>
   sti_script_pubkey input \<noteq> None"
  by (induction i inputs rule: check_external_inputs.induct) (auto split: if_splits)

lemma check_prev_hashes_ok: "check_prev_hashes c prevs = Inr () \<Longrightarrow> tx \<in> set prevs \<Longrightarrow> valid_prev_tx c tx"
proof (induction c prevs rule: check_prev_hashes.induct)
  case (2 c prev prevs)
  then obtain computed where comp: "compute_prev_txid (cr_btc c) (cr_hex c) prev = Inr computed"
    by (auto simp: res_simps)
  have "computed = None \<longleftrightarrow> ptx_extra_data prev \<noteq> None"
    using comp by (auto simp: compute_prev_txid_def res_simps split: if_splits)
  then show ?case
    using 2 comp by (cases computed) (auto simp: valid_prev_tx_def split: if_splits)
qed simp

lemma to_lower_idem [simp]: "to_lowercase (to_lowercase s) = to_lowercase s"
proof -
  have "to_lower (to_lower ch) = to_lower ch" for ch
  proof (cases "65 \<le> (of_char ch :: nat) \<and> of_char ch \<le> (90 :: nat)")
    case True
    then have "(of_char (char_of (of_char ch + 32 :: nat)) :: nat) = of_char ch + 32" by (simp only: of_char_of) simp
    then show ?thesis using True by (simp only: to_lower_def Let_def) simp
  next
    case False
    then have "to_lower ch = ch" by (simp only: to_lower_def Let_def if_False)
    then show ?thesis by simp
  qed
  then show ?thesis by (simp add: to_lowercase_def comp_def)
qed

lemma no_missing_prev_txs:
  assumes "missing_prev_txs params = []" "input \<in> set (stp_inputs params)"
    "sti_script_type input \<notin> {SpendTaproot, External}"
  shows "\<exists>tx \<in> set (stp_prev_txs params). eq_ignore_ascii_case (ptx_hash tx) (sti_prev_hash input)"
proof -
  let ?prov = "\<lambda>i. list_ex (\<lambda>tx. eq_ignore_ascii_case (ptx_hash tx) (to_lowercase (sti_prev_hash i))) (stp_prev_txs params)"
  let ?f = "\<lambda>missing i. if sti_script_type i \<in> {SpendTaproot, External} then missing
        else let hash = to_lowercase (sti_prev_hash i);
                 provided = list_ex (\<lambda>tx. eq_ignore_ascii_case (ptx_hash tx) hash) (stp_prev_txs params)
             in if \<not> provided \<and> hash \<notin> set missing then missing @ [hash] else missing"
  have grow: "foldl ?f m is = [] \<Longrightarrow> m = [] \<and> (\<forall>i \<in> set is. sti_script_type i \<in> {SpendTaproot, External} \<or> ?prov i)" for m "is"
  proof (induction "is" arbitrary: m)
    case (Cons i "is")
    then have "?f m i = [] \<and> (\<forall>i \<in> set is. sti_script_type i \<in> {SpendTaproot, External} \<or> ?prov i)"
      unfolding foldl_Cons by blast
    then show ?case by (auto simp: Let_def split: if_splits)
  qed simp
  have "?prov input"
    using grow [OF assms(1) [unfolded missing_prev_txs_def]] assms(2,3) by blast
  then show ?thesis by (auto simp: list_ex_iff eq_ignore_ascii_case_def)
qed

lemma checks_valid:
  assumes "check_output_fields 0 (stp_outputs params) = Inr ()" "validate_sign_tx_params c params = Inr ()"
  shows "valid_request c params"
proof -
  have v: "check_external_inputs 0 (stp_inputs params) = Inr ()" "missing_prev_txs params = []"
    "check_addresses c (coin_or_default (stp_coin params)) 0 (stp_outputs params) = Inr ()"
    "check_prev_hashes c (stp_prev_txs params) = Inr ()"
    using assms(2) by (auto simp: validate_sign_tx_params_def res_simps Let_def split: if_splits)
  have "valid_output c (coin_or_default (stp_coin params)) o'" if "o' \<in> set (stp_outputs params)" for o'
    using check_output_fields_ok [OF assms(1) that] check_addresses_ok [OF v(3) that]
    by (auto simp: valid_output_def)
  moreover have "valid_input (stp_prev_txs params) i" if "i \<in> set (stp_inputs params)" for i
    using check_external_inputs_ok [OF v(1) that] no_missing_prev_txs [OF v(2) that]
    by (auto simp: valid_input_def split: ScriptType.split)
  ultimately show ?thesis using check_prev_hashes_ok [OF v(4)] by (simp add: valid_request_def)
qed

section \<open>What the returned transaction is\<close>

lemma derive_output_scripts_nth:
  "derive_output_scripts c d params ps s = Some (Inr scripts, s') \<Longrightarrow>
   length scripts = length ps \<and>
   (\<forall>k<length ps. \<exists>s1 s2. output_script c d params (fst (ps ! k)) (snd (ps ! k)) s1 = Some (Inr (scripts ! k), s2))"
proof (induction c d params ps s arbitrary: scripts rule: derive_output_scripts.induct)
  case (2 c d params out parsed rest s)
  obtain script s1 scripts' where
    head: "output_script c d params out parsed s = Some (Inr script, s1)"
    and tail: "derive_output_scripts c d params rest s1 = Some (Inr scripts', s')" and eq: "scripts = script # scripts'"
    using "2.prems" by (auto simp: res_simps)
  have IH: "length scripts' = length rest \<and>
     (\<forall>k<length rest. \<exists>s1 s2. output_script c d params (fst (rest ! k)) (snd (rest ! k)) s1 = Some (Inr (scripts' ! k), s2))"
    using "2.IH" tail by blast
  show ?case
  proof (intro conjI allI impI)
    fix k assume "k < length ((out, parsed) # rest)"
    then show "\<exists>s1 s2. output_script c d params (fst (((out, parsed) # rest) ! k)) (snd (((out, parsed) # rest) ! k)) s1
        = Some (Inr (scripts ! k), s2)"
      using head IH eq by (cases k) auto
  qed (use IH eq in simp)
qed simp

text \<open>The steps of a successful call.\<close>

lemma sign_transaction_steps:
  assumes "sign_transaction c d params s = Some (Inr r, s')"
  obtains parsed_outputs expected acc where
    "check_output_fields 0 (stp_outputs params) = Inr ()" "validate_sign_tx_params c params = Inr ()"
    "traverse_res parse_output_path (stp_outputs params) = Inr parsed_outputs"
    "stp_serialize params = Some False \<longleftrightarrow> expected = None"
    "\<And>scripts. expected = Some scripts \<Longrightarrow>
       \<exists>s1. derive_output_scripts c d params (zip (stp_outputs params) parsed_outputs) s = Some (Inr scripts, s1)"
    "check_signed c params expected acc = Inr r"
proof -
  obtain parsed_inputs parsed_outputs expected s1 acc where
    pre: "check_output_fields 0 (stp_outputs params) = Inr ()" "validate_sign_tx_params c params = Inr ()"
      "traverse_res parse_output_path (stp_outputs params) = Inr parsed_outputs"
    and expected: "(if stp_serialize params \<noteq> Some False
        then bind_op (derive_output_scripts c d params (zip (stp_outputs params) parsed_outputs) s) (\<lambda>scripts s.
               Some (Inr (Some scripts), s))
        else Some (Inr None, s)) = Some (Inr expected, s1)"
    and last: "check_signed c params expected acc = Inr r"
    using assms unfolding sign_transaction_def bind_op_Inr lift_res_Inr
    by (elim exE conjE, hypsubst) (rule that, simp, simp, assumption+)
  show ?thesis
    by (rule that [OF pre _ _ last]) (use expected in \<open>auto simp: res_simps split: if_splits\<close>)
qed

lemma output_script_address:
  assumes "output_script c d params output parsed s = Some (Inr script, s')"
    and "sto_address output = Some a" "sto_path output = None" "sto_op_return_data output = None" "sto_multisig output = None"
    and "parse_output_path output = Inr parsed"
  shows "\<exists>b. script = Some b \<and> address_to_script (cr_btc c) a (coin_or_default (stp_coin params)) = Inr b"
  using assms by (auto simp: output_script_def parse_output_path_def res_simps Let_def)

lemma output_script_data:
  assumes "output_script c d params output parsed s = Some (Inr script, s')" "sto_op_return_data output = Some data"
  shows "\<exists>b sc. hx_decode (cr_hex c) data = Inr b \<and> op_return_script (cr_btc c) b = Inr sc \<and> script = Some sc"
  using assms by (auto simp: output_script_def res_simps decode_hex_def)

lemma signed_tx_facts:
  assumes "sign_transaction c d params s = Some (Inr r, s')" "sr_txid r = Some txid"
  shows "\<exists>raw tx. sr_serialized_tx r = hx_encode (cr_hex c) raw \<and> bc_deserialize (cr_btc c) raw = Inr tx
    \<and> txid = bc_txid_to_string (cr_btc c) (bc_compute_txid (cr_btc c) tx)
    \<and> length (tx_input tx) = length (stp_inputs params) \<and> length (tx_output tx) = length (stp_outputs params)
    \<and> (\<forall>k<length (stp_outputs params).
         let requested = stp_outputs params ! k; actual = tx_output tx ! k
         in tx_value actual = sto_amount requested
          \<and> (\<forall>a. sto_address requested = Some a \<longrightarrow> sto_multisig requested = None \<longrightarrow>
               address_to_script (cr_btc c) a (coin_or_default (stp_coin params)) = Inr (tx_script_pubkey actual))
          \<and> (\<forall>data. sto_op_return_data requested = Some data \<longrightarrow>
               (\<exists>b. hx_decode (cr_hex c) data = Inr b \<and> op_return_script (cr_btc c) b = Inr (tx_script_pubkey actual))))"
proof -
  obtain parsed expected acc where
    fields: "check_output_fields 0 (stp_outputs params) = Inr ()"
    and parsed: "traverse_res parse_output_path (stp_outputs params) = Inr parsed"
    and derived: "\<And>scripts. expected = Some scripts \<Longrightarrow>
       \<exists>s1. derive_output_scripts c d params (zip (stp_outputs params) parsed) s = Some (Inr scripts, s1)"
    and last: "check_signed c params expected acc = Inr r"
    using sign_transaction_steps [OF assms(1)] by metis
  obtain scripts tx where scripts: "expected = Some scripts"
    and v: "verify_signed_tx (cr_btc c) (snd acc) (length (stp_inputs params)) (stp_outputs params) scripts = Inr tx"
    and r: "sr_serialized_tx r = hx_encode (cr_hex c) (snd acc)"
      "txid = bc_txid_to_string (cr_btc c) (bc_compute_txid (cr_btc c) tx)"
    using last assms(2) by (auto simp: check_signed_def res_simps Let_def split: option.splits if_splits)
  obtain s1 where d: "derive_output_scripts c d params (zip (stp_outputs params) parsed) s = Some (Inr scripts, s1)"
    using derived [OF scripts] by blast
  have len: "length parsed = length (stp_outputs params)" by (rule traverse_res_length [OF parsed])
  note nth = derive_output_scripts_nth [OF d]
  note ver = v [unfolded verify_signed_tx_Inr]
  have "let requested = stp_outputs params ! k; actual = tx_output tx ! k
      in tx_value actual = sto_amount requested
       \<and> (\<forall>a. sto_address requested = Some a \<longrightarrow> sto_multisig requested = None \<longrightarrow>
            address_to_script (cr_btc c) a (coin_or_default (stp_coin params)) = Inr (tx_script_pubkey actual))
       \<and> (\<forall>data. sto_op_return_data requested = Some data \<longrightarrow>
            (\<exists>b. hx_decode (cr_hex c) data = Inr b \<and> op_return_script (cr_btc c) b = Inr (tx_script_pubkey actual)))"
    if k: "k < length (stp_outputs params)" for k
  proof -
    let ?o = "stp_outputs params ! k" and ?a = "tx_output tx ! k"
    have mem: "?o \<in> set (stp_outputs params)" using k by simp
    note f = check_output_fields_ok [OF fields mem]
    obtain s2 s3 where sc: "output_script c d params ?o (parsed ! k) s2 = Some (Inr (scripts ! k), s3)"
      using nth k len by auto
    have ok: "output_ok ?o (Some (scripts ! k)) ?a" using ver k nth len by (auto simp: get_def)
    have "tx_value ?a = sto_amount ?o" using ok f by (auto simp: output_ok_def expected_amount_def)
    moreover have "address_to_script (cr_btc c) a (coin_or_default (stp_coin params)) = Inr (tx_script_pubkey ?a)"
      if "sto_address ?o = Some a" "sto_multisig ?o = None" for a
      using output_script_address [OF sc that(1) _ _ that(2) traverse_res_nth [OF parsed k]] that f ok
      by (auto simp: output_ok_def)
    moreover have "\<exists>b. hx_decode (cr_hex c) data = Inr b \<and> op_return_script (cr_btc c) b = Inr (tx_script_pubkey ?a)"
      if "sto_op_return_data ?o = Some data" for data
      using output_script_data [OF sc that] ok by (auto simp: output_ok_def)
    ultimately show ?thesis by (simp add: Let_def)
  qed
  then show ?thesis using ver r by blast
qed

section \<open>Properties\<close>

text \<open>
  C2: whatever the device does, when signing succeeds and reports a
  transaction id, the returned bytes deserialize to a transaction with that id, with as many inputs
  as requested and exactly the requested outputs in order: each has the requested amount, an output
  for an address has the script of that address on the requested network (multisig outputs apart),
  and a data output carries the requested data.
\<close>

theorem signed_tx_as_requested:
  assumes "sign_transaction c d params s = Some (Inr r, s')" "sr_txid r = Some txid"
  shows "\<exists>raw tx. sr_serialized_tx r = hx_encode (cr_hex c) raw \<and> bc_deserialize (cr_btc c) raw = Inr tx
    \<and> txid = bc_txid_to_string (cr_btc c) (bc_compute_txid (cr_btc c) tx)
    \<and> length (tx_input tx) = length (stp_inputs params) \<and> length (tx_output tx) = length (stp_outputs params)
    \<and> (\<forall>k<length (stp_outputs params).
         let requested = stp_outputs params ! k; actual = tx_output tx ! k
         in tx_value actual = sto_amount requested
          \<and> (\<forall>a. sto_address requested = Some a \<longrightarrow> sto_multisig requested = None \<longrightarrow>
               address_to_script (cr_btc c) a (coin_or_default (stp_coin params)) = Inr (tx_script_pubkey actual))
          \<and> (\<forall>data. sto_op_return_data requested = Some data \<longrightarrow>
               (\<exists>b. hx_decode (cr_hex c) data = Inr b \<and> op_return_script (cr_btc c) b = Inr (tx_script_pubkey actual))))"
  by (rule signed_tx_facts [OF assms])

text \<open>
  C11: the device is contacted only for a valid request: every output
  has exactly one destination, addresses belong to the coin's network, data outputs carry no value,
  external inputs come with their script, every other input but taproot ones has its previous
  transaction in the request, and the declared hashes of previous transactions match their contents.
\<close>

theorem device_sees_valid_requests_only:
  assumes "sign_transaction c d params s = Some (r, s')" "s' \<noteq> s"
  shows "valid_request c params"
proof (cases "check_output_fields 0 (stp_outputs params)")
  case (Inl e)
  then show ?thesis using assms by (simp add: sign_transaction_def lift_res_def)
next
  case (Inr u)
  show ?thesis
  proof (cases "validate_sign_tx_params c params")
    case (Inl e)
    then show ?thesis using assms Inr by (simp add: sign_transaction_def lift_res_def)
  next
    case (Inr v)
    then show ?thesis using checks_valid \<open>check_output_fields 0 (stp_outputs params) = Inr u\<close> by simp
  qed
qed

text \<open>A request with one taproot coin and one payment of 5000 satoshi to the address \<open>A\<close>.\<close>

definition run_input :: SignTxInput where
  "run_input = \<lparr>sti_prev_hash = ''aa'', sti_prev_index = 0, sti_path = ''m/0'', sti_amount = 6000,
     sti_script_type = SpendTaproot, sti_sequence = Some 0, sti_orig_hash = None, sti_orig_index = None,
     sti_multisig = None, sti_script_pubkey = None, sti_script_sig = None, sti_witness = None,
     sti_ownership_proof = None, sti_commitment_data = None\<rparr>"

definition run_output :: SignTxOutput where
  "run_output = \<lparr>sto_address = Some ''A'', sto_path = None, sto_amount = 5000, sto_script_type = None,
     sto_op_return_data = None, sto_orig_hash = None, sto_orig_index = None, sto_multisig = None,
     sto_payment_req_index = None\<rparr>"

definition run_params :: SignTxParams where
  "run_params = \<lparr>stp_inputs = [run_input], stp_outputs = [run_output], stp_coin = Some Bitcoin, stp_lock_time = Some 0,
     stp_version = Some 2, stp_prev_txs = [], stp_push = None, stp_amount_unit = None, stp_serialize = None,
     stp_chunkify = None, stp_unlock_path = None, stp_payment_requests = []\<rparr>"

definition run_job :: sign_job where
  "run_job = \<lparr>job_params = run_params, job_inputs = [([0], SpendTaproot)], job_outputs = [None]\<rparr>"

lemma run_path: "parse_path ''m/0'' = Inr [0]"
  using parse_serialize_path [of "[0]"]
  by (simp add: serialize_path_def serialize_component_def show_nat.simps digit_char_def char_of_def bit_iff_odd
      HARDENED_OFFSET_def is_hardened_def)

lemma run_start_on:
  assumes "send run_crates d (MSignTx (sign_tx_message run_params)) s = Some (Inr (t, b), s1)"
  shows "sign_transaction run_crates d run_params s
   = bind_op (sign_loop run_crates d run_job (t, b) ([[]], []) s1) (\<lambda>acc s.
       lift_res (check_signed run_crates run_params (Some [Some [65]]) acc) s)"
proof -
  have checks: "check_output_fields 0 (stp_outputs run_params) = Inr ()" "validate_sign_tx_params run_crates run_params = Inr ()"
    by (simp_all add: run_params_def run_output_def run_input_def validate_sign_tx_params_def check_dust_def DUST_LIMIT_SATOSHIS_def
        address_to_script_def map_err_def run_crate_def coin_or_default_def missing_prev_txs_def)
  have paths: "traverse_res parse_input_path (stp_inputs run_params) = Inr [([0], SpendTaproot)]"
      "traverse_res parse_output_path (stp_outputs run_params) = Inr [None]"
    by (simp_all add: run_params_def run_input_def run_output_def parse_input_path_def parse_output_path_def run_path)
  have scripts: "derive_output_scripts run_crates d run_params (zip (stp_outputs run_params) [None]) s = Some (Inr [Some [65]], s)" for s
    by (simp add: run_params_def run_output_def output_script_def address_to_script_def map_err_def run_crate_def
        coin_or_default_def as_bytes_def)
  have len: "length (stp_inputs run_params) = 1" "stp_serialize run_params \<noteq> Some False" "stp_unlock_path run_params = None"
    by (simp_all add: run_params_def)
  show ?thesis
    unfolding sign_transaction_def
    using assms by (simp add: checks paths scripts len run_job_def del: derive_output_scripts.simps)
qed

lemma run_start:
  "sign_transaction run_crates mock_device run_params (mock_new (\<lparr>ex_expect = 15, ex_reply_type = t, ex_reply = b\<rparr> # rest))
   = bind_op (sign_loop run_crates mock_device run_job (t, b) ([[]], [])
        \<lparr>mock_script = rest, mock_calls = [(15, [15])]\<rparr>) (\<lambda>acc s.
       lift_res (check_signed run_crates run_params (Some [Some [65]]) acc) s)"
proof (rule run_start_on)
  have "pb_encode (cr_pb run_crates) (MSignTx m) = [15]" for m by (simp add: run_crates_def run_pb_def)
  then show "send run_crates mock_device (MSignTx (sign_tx_message run_params))
      (mock_new (\<lparr>ex_expect = 15, ex_reply_type = t, ex_reply = b\<rparr> # rest))
    = Some (Inr (t, b), \<lparr>mock_script = rest, mock_calls = [(15, [15])]\<rparr>)"
    using mock_send [of run_crates "MSignTx (sign_tx_message run_params)" t b rest "[]"] by (simp add: mock_new_def)
qed

text \<open>
  The host's side of a whole dialogue: the answers to a given sequence of device messages and what
  is collected, when every message is a button request or an answerable request and the last one
  ends the dialogue. \<open>plays\<close> says that the device sends these messages when it gets these answers.
\<close>

fun dialogue :: "crates \<Rightarrow> sign_job \<Rightarrow> collected \<Rightarrow> (u16 \<times> bytes) list \<Rightarrow> (HostMessage list \<times> collected) option" where
  "dialogue c job acc [] = None"
| "dialogue c job acc (r # rs) =
     (if fst r = BUTTON_REQUEST then map_option (\<lambda>(ms, a). (MButtonAck # ms, a)) (dialogue c job acc rs)
      else if fst r = FAILURE then None
      else
        (case pb_tx_request (cr_pb c) (snd r) of
           Inl e \<Rightarrow> None
         | Inr req \<Rightarrow>
             (case collect c req acc of
                Inl e \<Rightarrow> None
              | Inr acc \<Rightarrow>
                  if request_type_of req = Txfinished then (if rs = [] then Some ([], acc) else None)
                  else
                    (case answer c job (request_type_of req) (rq_details req) of
                       Inl e \<Rightarrow> None
                     | Inr m \<Rightarrow> map_option (\<lambda>(ms, a). (m # ms, a)) (dialogue c job acc rs)))))"

fun plays :: "crates \<Rightarrow> 's ConnectedDevice \<Rightarrow> HostMessage list \<Rightarrow> (u16 \<times> bytes) list \<Rightarrow> 's \<Rightarrow> 's option" where
  "plays c d [] [] s = Some s"
| "plays c d (m # ms) (r # rs) s =
     (case send c d m s of
        Some (Inr r', s') \<Rightarrow> if r' = r then plays c d ms rs s' else None
      | _ \<Rightarrow> None)"
| "plays c d _ _ s = None"

lemma plays_Cons:
  "plays c d (m # ms) rs s = Some s' \<Longrightarrow> \<exists>r rs' s1. rs = r # rs' \<and> send c d m s = Some (Inr r, s1) \<and> plays c d ms rs' s1 = Some s'"
  by (cases rs) (auto split: option.splits prod.splits sum.splits if_splits)

lemma dialogue_run:
  "dialogue c job acc (r # rs) = Some (ms, acc') \<Longrightarrow> plays c d ms rs s = Some s' \<Longrightarrow>
   sign_loop c d job r acc s = Some (Inr acc', s')"
proof (induction rs arbitrary: r acc ms s)
  case Nil
  then show ?case
    by (subst sign_loop.simps) (auto split: if_splits sum.splits)
next
  case (Cons r' rs)
  have step: "sign_loop c d job r1 acc1 s1 = Some (Inr acc', s')"
    if "plays c d (m # ms1) (r' # rs) s = Some s'" "dialogue c job acc1 (r' # rs) = Some (ms1, acc')"
      "send c d m s = Some (Inr r1, s1)" for m ms1 r1 s1 acc1
  proof -
    have "r1 = r'" "plays c d ms1 rs s1 = Some s'" using plays_Cons [OF that(1)] that(3) by auto
    then show ?thesis using Cons.IH [OF that(2)] by simp
  qed
  consider (button) ms1 where "fst r = BUTTON_REQUEST" "dialogue c job acc (r' # rs) = Some (ms1, acc')" "ms = MButtonAck # ms1"
    | (request) req acc1 m ms1 where "fst r \<noteq> BUTTON_REQUEST" "fst r \<noteq> FAILURE" "pb_tx_request (cr_pb c) (snd r) = Inr req"
        "collect c req acc = Inr acc1" "request_type_of req \<noteq> Txfinished"
        "answer c job (request_type_of req) (rq_details req) = Inr m"
        "dialogue c job acc1 (r' # rs) = Some (ms1, acc')" "ms = m # ms1"
    using Cons.prems(1)
    by (subst (asm) dialogue.simps)
      (auto split: if_splits sum.splits simp del: dialogue.simps)
  then show ?case
  proof cases
    case button
    obtain r1 s1 where "send c d MButtonAck s = Some (Inr r1, s1)"
      using plays_Cons [OF Cons.prems(2) [unfolded button(3)]] by blast
    then show ?thesis
      using step [OF Cons.prems(2) [unfolded button(3)] button(2)] button(1) by (subst sign_loop.simps) simp
  next
    case request
    obtain r1 s1 where "send c d m s = Some (Inr r1, s1)"
      using plays_Cons [OF Cons.prems(2) [unfolded request(8)]] by blast
    then show ?thesis
      using step [OF Cons.prems(2) [unfolded request(8)] request(7)] request(1-6) by (subst sign_loop.simps) simp
  qed
qed


definition run_replies :: "(u16 \<times> bytes) list" where
  "run_replies = [(21, [0, 0]), (26, []), (21, [1, 0]), (21, [3, 0, 1, 5, 65])]"

definition run_mock :: MockTransport where
  "run_mock = \<lparr>mock_script = [\<lparr>ex_expect = 22, ex_reply_type = 26, ex_reply = []\<rparr>,
     \<lparr>ex_expect = 27, ex_reply_type = 21, ex_reply = [1, 0]\<rparr>,
     \<lparr>ex_expect = 22, ex_reply_type = 21, ex_reply = [3, 0, 1, 5, 65]\<rparr>], mock_calls = [(15, [15])]\<rparr>"

lemma run_requests:
  "pb_tx_request run_pb [0, 0] = Inr \<lparr>rq_request_type = Some 0, rq_details = Some \<lparr>rd_request_index = Some 0,
     rd_tx_hash = None, rd_extra_data_len = None, rd_extra_data_offset = None\<rparr>, rq_serialized = None\<rparr>"
  "pb_tx_request run_pb [1, 0] = Inr \<lparr>rq_request_type = Some 1, rq_details = Some \<lparr>rd_request_index = Some 0,
     rd_tx_hash = None, rd_extra_data_len = None, rd_extra_data_offset = None\<rparr>, rq_serialized = None\<rparr>"
  "pb_tx_request run_pb [3, 0, 1, 5, 65] = Inr \<lparr>rq_request_type = Some 3, rq_details = Some \<lparr>rd_request_index = Some 0,
     rd_tx_hash = None, rd_extra_data_len = None, rd_extra_data_offset = None\<rparr>,
     rq_serialized = Some \<lparr>rs_signature_index = Some 0, rs_signature = Some [1, 5, 65], rs_serialized_tx = Some [1, 5, 65]\<rparr>\<rparr>"
  by (simp_all add: run_pb_def)

lemma run_dialogue:
  "\<exists>a b. dialogue run_crates run_job ([[]], []) run_replies
    = Some ([MTxAck a, MButtonAck, MTxAck b], ([from_bytes [1, 5, 65]], [1, 5, 65]))"
  by (simp add: run_replies_def run_requests BUTTON_REQUEST_def FAILURE_def collect_def request_type_of_def request_type_of_code_def
      answer_def missing_details_def answer_input_def answer_output_def run_job_def run_params_def run_input_def run_output_def
      build_input_ack_def build_output_ack_def decode_hex_def map_err_def run_hex_def Let_def)

lemma run_plays: "\<exists>s'. plays run_crates mock_device [MTxAck a, MButtonAck, MTxAck b] (tl run_replies) run_mock = Some s'"
  using mock_send [of run_crates "MTxAck _"] mock_send [of run_crates MButtonAck]
  by (simp add: run_replies_def run_mock_def)

lemma signing_run:
  "\<exists>s'. sign_loop run_crates mock_device run_job (21, [0, 0]) ([[]], []) run_mock
     = Some (Inr ([from_bytes [1, 5, 65]], [1, 5, 65]), s')"
  using run_dialogue run_plays dialogue_run [of run_crates run_job "([[]], [])" "(21, [0, 0])" "tl run_replies"]
  by (fastforce simp: run_replies_def simp del: dialogue.simps)


text \<open>The whole dialogue with any device that gives the sample's replies.\<close>

lemma run_signs_on:
  assumes "send run_crates d (MSignTx (sign_tx_message run_params)) s = Some (Inr (21, [0, 0]), s1)"
    and "\<And>a b. \<exists>s'. plays run_crates d [MTxAck a, MButtonAck, MTxAck b] (tl run_replies) s1 = Some s'"
  shows "\<exists>r s'. sign_transaction run_crates d run_params s = Some (Inr r, s') \<and> sr_txid r = Some (from_bytes [65])
     \<and> sr_signatures r = [from_bytes [1, 5, 65]]"
proof -
  obtain s' where l: "sign_loop run_crates d run_job (21, [0, 0]) ([[]], []) s1 = Some (Inr ([from_bytes [1, 5, 65]], [1, 5, 65]), s')"
    using run_dialogue assms(2) dialogue_run [of run_crates run_job "([[]], [])" "(21, [0, 0])" "tl run_replies"]
    by (fastforce simp: run_replies_def simp del: dialogue.simps plays.simps)
  have "verify_signed_tx run_crate [1, 5, 65] (Suc 0) [run_output] [Some [65]]
      = Inr \<lparr>tx_version = 2, tx_lock_time = 0,
            tx_input = [\<lparr>ti_txid = [], ti_vout = 0, ti_script_sig = [], ti_sequence = 0, ti_witness = []\<rparr>],
            tx_output = [\<lparr>tx_value = 5000, tx_script_pubkey = [65]\<rparr>]\<rparr>"
    by (simp add: verify_signed_tx_def run_crate_def map_err_def run_output_def expected_amount_def get_def)
  moreover have "length (stp_inputs run_params) = Suc 0" "stp_outputs run_params = [run_output]" by (simp_all add: run_params_def)
  ultimately have c: "check_signed run_crates run_params (Some [Some [65]]) ([from_bytes [1, 5, 65]], [1, 5, 65])
      = Inr \<lparr>sr_signatures = [from_bytes [1, 5, 65]], sr_serialized_tx = from_bytes [1, 5, 65],
          sr_txid = Some (from_bytes [65]), sr_witnesses = Some [None]\<rparr>"
    by (simp add: check_signed_def witness_hex_def) (simp add: run_crate_def run_hex_def)
  show ?thesis by (simp only: run_start_on [OF assms(1)] l bind_op.simps c lift_res_def) simp
qed

lemma run_signs:
  "\<exists>r s'. sign_transaction run_crates mock_device run_params
       (mock_new (\<lparr>ex_expect = 15, ex_reply_type = 21, ex_reply = [0, 0]\<rparr> # mock_script run_mock)) = Some (Inr r, s')
     \<and> sr_txid r = Some (from_bytes [65])"
proof -
  have "pb_encode (cr_pb run_crates) (MSignTx m) = [15]" for m by (simp add: run_crates_def run_pb_def)
  then have "send run_crates mock_device (MSignTx (sign_tx_message run_params))
      (mock_new (\<lparr>ex_expect = 15, ex_reply_type = 21, ex_reply = [0, 0]\<rparr> # mock_script run_mock)) = Some (Inr (21, [0, 0]), run_mock)"
    using mock_send [of run_crates "MSignTx (sign_tx_message run_params)" 21 "[0, 0]" "mock_script run_mock" "[]"]
    by (simp add: mock_new_def run_mock_def)
  from run_signs_on [OF this run_plays] show ?thesis by blast
qed

theorem signed_tx_as_requested_witness:
  "\<exists>r s' raw tx. sign_transaction run_crates mock_device run_params
       (mock_new (\<lparr>ex_expect = 15, ex_reply_type = 21, ex_reply = [0, 0]\<rparr> # mock_script run_mock)) = Some (Inr r, s')
     \<and> bc_deserialize run_crate raw = Inr tx \<and> length (tx_output tx) = 1 \<and> tx_value (tx_output tx ! 0) = 5000
     \<and> address_to_script run_crate ''A'' Bitcoin = Inr (tx_script_pubkey (tx_output tx ! 0))"
proof -
  obtain r s' where r: "sign_transaction run_crates mock_device run_params
       (mock_new (\<lparr>ex_expect = 15, ex_reply_type = 21, ex_reply = [0, 0]\<rparr> # mock_script run_mock)) = Some (Inr r, s')"
      "sr_txid r = Some (from_bytes [65])"
    using run_signs by blast
  show ?thesis
    using signed_tx_as_requested [OF r] r(1)
    by (auto simp: run_params_def run_output_def Let_def coin_or_default_def)
qed

theorem device_sees_valid_requests_only_witness:
  "\<exists>r s'. sign_transaction run_crates mock_device run_params
       (mock_new [\<lparr>ex_expect = 15, ex_reply_type = 3, ex_reply = []\<rparr>]) = Some (r, s')
     \<and> s' \<noteq> mock_new [\<lparr>ex_expect = 15, ex_reply_type = 3, ex_reply = []\<rparr>] \<and> valid_request run_crates run_params"
proof -
  have "sign_transaction run_crates mock_device run_params (mock_new [\<lparr>ex_expect = 15, ex_reply_type = 3, ex_reply = []\<rparr>])
      = Some (failure_result run_crates [], \<lparr>mock_script = [], mock_calls = [(15, [15])]\<rparr>)"
    unfolding run_start
    by (subst sign_loop.simps) (simp add: BUTTON_REQUEST_def FAILURE_def failure_result_def run_crates_def run_pb_def)
  moreover have "\<lparr>mock_script = [], mock_calls = [(15, [15])]\<rparr> \<noteq> mock_new [\<lparr>ex_expect = 15, ex_reply_type = 3, ex_reply = []\<rparr>]"
    by (simp add: mock_new_def)
  ultimately show ?thesis using device_sees_valid_requests_only [of run_crates mock_device run_params] by metis
qed

text \<open>
  The signing loop does not look at the type of a message that is
  neither a button request nor a failure. When the device answers the first message by asking for
  a passphrase, the empty body reads as a request without a type, the loop ends, and signing
  reports success with no signature and no transaction.
\<close>

theorem passphrase_request_taken_as_end:
  "\<exists>s'. sign_transaction run_crates mock_device run_params
       (mock_new [\<lparr>ex_expect = 15, ex_reply_type = PASSPHRASE_REQUEST, ex_reply = []\<rparr>])
     = Some (Inr \<lparr>sr_signatures = [[]], sr_serialized_tx = [], sr_txid = None, sr_witnesses = None\<rparr>, s')"
proof -
  have "pb_tx_request run_pb [] = Inr \<lparr>rq_request_type = None, rq_details = None, rq_serialized = None\<rparr>"
    by (simp add: run_pb_def)
  then have "sign_loop run_crates mock_device run_job (PASSPHRASE_REQUEST, []) ([[]], []) s = Some (Inr ([[]], []), s)" for s
    by (subst sign_loop.simps) (simp add: BUTTON_REQUEST_def FAILURE_def PASSPHRASE_REQUEST_def collect_def request_type_of_def)
  then show ?thesis
    by (simp add: run_start check_signed_def lift_res_def) (simp add: run_hex_def from_bytes_def)
qed

section \<open>Signing keeps the transport's invariant\<close>

context call_contract
begin

lemma sign_loop_keeps:
  assumes "over d" "inv s"
  shows "ends (sign_loop c d job resp acc s) (\<lambda>r s. inv s)"
proof -
  have "inv s \<longrightarrow> inv (snd y)" if "sign_loop c d job resp acc s = Some y" for y
  proof (rule sign_loop.raw_induct [of "\<lambda>c e job resp acc s y. e = d \<longrightarrow> inv s \<longrightarrow> inv (snd y)",
        OF _ that, simplified], goal_cases)
    case (1 loop c e job resp acc s y)
    have step: "inv (snd y)" if "e = d" "inv s" "(case send c d m s of None \<Rightarrow> None | Some (Inl e, s) \<Rightarrow> Some (Inl e, s)
        | Some (Inr resp, s) \<Rightarrow> loop c d job resp acc' s) = Some y" for m acc'
    proof (cases "send c d m s")
      case (Some o')
      obtain r s1 where o': "o' = (r, s1)" by force
      have "inv s1" using ends_D [OF send_keeps [OF assms(1) that(2)] Some [unfolded o']] .
      then show ?thesis using that(3) Some o' 1(1) by (cases r) auto
    qed (use that in simp)
    show ?case
      using 1(2) step by (cases acc) (auto split: if_splits sum.splits)
  qed
  then show ?thesis using assms(2) by (auto simp: ends_def)
qed

lemma send_unlock_path_keeps: "over d \<Longrightarrow> inv s \<Longrightarrow> ends (send_unlock_path c d u s) (\<lambda>r s. inv s)"
  unfolding send_unlock_path_def by (intro ends_keep_bind ends_lift ask_keeps)

lemma get_node_public_key_keeps: "over d \<Longrightarrow> inv s \<Longrightarrow> ends (get_node_public_key c d p coin u s) (\<lambda>r s. inv s)"
  unfolding get_node_public_key_def
  by (intro ends_keep_bind ask_keeps) (auto intro: send_unlock_path_keeps split: option.split)

lemma output_script_keeps: "over d \<Longrightarrow> inv s \<Longrightarrow> ends (output_script c d params output parsed s) (\<lambda>r s. inv s)"
  unfolding output_script_def Let_def
  by (auto intro!: ends_lift ends_keep_bind [OF get_node_public_key_keeps] split: option.split)

lemma derive_output_scripts_keeps: "over d \<Longrightarrow> inv s \<Longrightarrow> ends (derive_output_scripts c d params ps s) (\<lambda>r s. inv s)"
proof (induction ps arbitrary: s)
  case (Cons p ps)
  then show ?case
    by (cases p) (auto intro!: ends_keep_bind [OF output_script_keeps] ends_keep_bind [OF Cons.IH])
qed simp

lemma sign_transaction_keeps: "over d \<Longrightarrow> inv s \<Longrightarrow> ends (sign_transaction c d params s) (\<lambda>r s. inv s)"
  unfolding sign_transaction_def
  by (intro ends_keep_bind ends_lift sign_loop_keeps send_keeps)
    (auto intro!: ends_keep_bind [OF derive_output_scripts_keeps] send_unlock_path_keeps split: option.split)

end

end
