(* ===== verification/Callback_Handshake.thy ===== *)
theory Callback_Handshake
  imports Callback_Pairing
begin

text \<open>
  The handshake of the callback transport (\<^verbatim>\<open>perform_thp_handshake_inner\<close>) and the retries
  around it (\<^verbatim>\<open>perform_thp_handshake\<close> of \<^verbatim>\<open>transport/callback.rs\<close>). Delays and log lines
  have no effect on the state and are left out; the operations run without interleaving.
\<close>

section \<open>Definitions\<close>

definition handshake_err :: "string \<Rightarrow> 'a result" where
  "handshake_err m = thp_err (HandshakeFailed m)"

definition show_byte :: "u8 \<Rightarrow> string" where
  "show_byte b = show_hex2 (CHR ''a'') (unat b)"

definition load_credential :: "native \<Rightarrow> codecs \<Rightarrow> string \<Rightarrow> bool \<Rightarrow> link \<Rightarrow> StoredCredential option" where
  "load_credential nl cx path skip_stored_credentials w =
     (if skip_stored_credentials then None
      else Option.bind (nl_load nl path w) (\<lambda>json. map_option (credential_of_json cx) (json_decode cx json)))"

text \<open>Step 1: the channel id, the device's properties, and the entry of the channel.\<close>

definition parse_allocation :: "bytes \<Rightarrow> ((u8 \<times> u8) \<times> bytes) result" where
  "parse_allocation channel_resp =
     (if channel_resp = [] \<or> channel_resp ! 0 \<noteq> CHANNEL_ALLOCATION_RES
      then handshake_err (''Expected channel allocation response, got: '' @ show_byte (get_or channel_resp 0 0))
      else if length channel_resp < 15
      then handshake_err (''Channel allocation response too short: '' @ show_nat (length channel_resp) @ '' bytes'')
      else
        let ch = (channel_resp ! 13, channel_resp ! 14);
            payload_len = unat (from_be16 (channel_resp ! 3) (channel_resp ! 4));
            props_start = 5 + 8 + 2;
            props_end = 5 + payload_len - 4
        in if props_end \<le> length channel_resp
           then bind_res (slice channel_resp props_start props_end) (\<lambda>device_properties.
                  Inr (ch, device_properties))
           else Inr (ch, []))"

definition enter_channel :: "string \<Rightarrow> u8 \<times> u8 \<Rightarrow> link \<Rightarrow> link" where
  "enter_channel path ch w =
     (let st = (case states w path of
                  Some st \<Rightarrow> st
                | None \<Rightarrow> \<lparr>ble_protocol = protocol_thp_new, handshake_complete = False\<rparr>)
      in w\<lparr>states := (states w)(path \<mapsto> with_protocol_state (\<lambda>s. s\<lparr>channel := ch\<rparr>) st)\<rparr>)"

definition allocate_channel :: "native \<Rightarrow> string \<Rightarrow> ((u8 \<times> u8) \<times> bytes) link_op" where
  "allocate_channel nl path w =
     (let (nonce, w) = draw nl 8 w in
      bind_op (link_write nl path (encode_channel_allocation_request nonce) w) (\<lambda>_ w.
      bind_op (link_read nl path 100 None w) (\<lambda>channel_resp w.
      bind_op (Some (parse_allocation channel_resp, w)) (\<lambda>alloc w.
      Some (Inr alloc, enter_channel path (fst alloc) w)))))"

text \<open>Step 2: the host's ephemeral key, and the device's answer.\<close>

definition send_bit_of :: "string \<Rightarrow> link \<Rightarrow> u8" where
  "send_bit_of path w = (case states w path of Some st \<Rightarrow> send_bit (protocol_state st) | None \<Rightarrow> 0)"

definition parse_init :: "bytes \<Rightarrow> HandshakeInitResponse result" where
  "parse_init init_resp =
     (if length init_resp < 5 + 32 + 48 + 16
      then handshake_err (''Handshake init response too short: '' @ show_nat (length init_resp) @ '' bytes'')
      else
        let payload = drop 5 init_resp
        in Inr \<lparr>ir_trezor_ephemeral_pubkey = take 32 payload,
                ir_trezor_encrypted_static_pubkey = take 48 (drop 32 payload),
                ir_tag = take 16 (drop 80 payload)\<rparr>)"

definition handshake_init :: "native \<Rightarrow> primitives \<Rightarrow> string \<Rightarrow> u8 \<times> u8 \<Rightarrow> bool \<Rightarrow> (bytes \<times> HandshakeInitResponse) link_op" where
  "handshake_init nl prim path ch try_to_unlock w =
     (let (ephemeral_secret, w) = draw nl 32 w;
          (_, host_ephemeral_pubkey) = keypair_from_secret prim ephemeral_secret;
          init_req = encode_handshake_init_request ch host_ephemeral_pubkey try_to_unlock (send_bit_of path w)
      in
      bind_op (link_write nl path init_req w) (\<lambda>_ w.
      let w = update_thp path (update_sync_bit True) w;
          init_read_attempts = (if try_to_unlock then 600 else 100)
      in
      bind_op (link_read nl path init_read_attempts (Some ch) w) (\<lambda>init_resp w.
      if init_resp = [] \<or> init_resp ! 0 AND 0xe7 \<noteq> HANDSHAKE_INIT_RES
      then Some (handshake_err (''Expected handshake init response, got: '' @ show_byte (get_or init_resp 0 0)), w)
      else
      bind_op (link_write nl path (encode_ack ch (drop_bit 4 (init_resp ! 0) AND 1)) w) (\<lambda>_ w.
      bind_op (Some (parse_init init_resp, w)) (\<lambda>init_response w.
      Some (Inr (ephemeral_secret, init_response), w))))))"

text \<open>Step 3: the keys are derived, the completion request is sent and its answer is read.\<close>

definition derive_keys ::
    "native \<Rightarrow> primitives \<Rightarrow> string \<Rightarrow> bytes \<Rightarrow> bytes \<Rightarrow> HandshakeInitResponse \<Rightarrow> bool \<Rightarrow> StoredCredential option
      \<Rightarrow> HandshakeCompletionRequest link_op" where
  "derive_keys nl prim path device_properties ephemeral_secret init_response try_to_unlock stored_credential w =
     (let w = update_thp path (\<lambda>s. s\<lparr>handshake_credentials :=
            Some (default_credentials\<lparr>hc_handshake_hash := get_handshake_hash prim device_properties\<rparr>)\<rparr>) w;
          (static_key, w) = draw nl 32 w
      in case states w path of
           None \<Rightarrow> Some (transport_err DeviceNotFound, w)
         | Some st \<Rightarrow>
             (case handle_handshake_init prim static_key init_response ephemeral_secret try_to_unlock
                     stored_credential (protocol_state st) of
                Inl e \<Rightarrow> Some (Inl e, w)
              | Inr (completion_req, s) \<Rightarrow> Some (Inr completion_req, update_thp path (\<lambda>_. s) w)))"

definition completion_payload :: "bytes \<Rightarrow> bytes result" where
  "completion_payload comp_resp =
     (if comp_resp ! 0 AND 0xe7 \<noteq> HANDSHAKE_COMP_RES
      then handshake_err (''Expected handshake completion response (0x'' @ show_byte HANDSHAKE_COMP_RES
             @ ''), got: 0x'' @ show_byte (get_or comp_resp 0 0))
      else if length comp_resp < 5
      then handshake_err (''Handshake completion response too short: '' @ show_nat (length comp_resp) @ '' bytes'')
      else
        let payload_len = unat (from_be16 (comp_resp ! 3) (comp_resp ! 4));
            crc_len = 4
        in if length comp_resp < 5 + payload_len \<or> payload_len \<le> crc_len
           then handshake_err (''Handshake completion response length mismatch: response_len=''
                  @ show_nat (length comp_resp) @ '', payload_len='' @ show_nat payload_len)
           else slice comp_resp 5 (5 + payload_len - crc_len))"

definition handshake_completion ::
    "native \<Rightarrow> primitives \<Rightarrow> string \<Rightarrow> u8 \<times> u8 \<Rightarrow> HandshakeCompletionRequest \<Rightarrow> HandshakeCompletionResponse link_op" where
  "handshake_completion nl prim path ch completion_req w =
     (let comp_req = encode_handshake_completion_request ch (hq_encrypted_host_static_pubkey completion_req)
            (hq_encrypted_payload completion_req) (send_bit_of path w)
      in
      bind_op (link_write nl path comp_req w) (\<lambda>_ w.
      let w = update_thp path (update_sync_bit True) w in
      bind_op (link_read nl path 600 (Some ch) w) (\<lambda>comp_resp w.
      if comp_resp = [] then Some (Inl Panic, w)
      else
      bind_op (link_write nl path (encode_ack ch (drop_bit 4 (comp_resp ! 0) AND 1)) w) (\<lambda>_ w.
      bind_op (Some (completion_payload comp_resp, w)) (\<lambda>encrypted_payload w.
      bind_op (Some (case states w path of
                       None \<Rightarrow> transport_err DeviceNotFound
                     | Some st \<Rightarrow> parse_handshake_completion_response prim (protocol_state st) encrypted_payload, w))
        (\<lambda>completion w.
      if 2 < hp_trezor_state completion
      then Some (handshake_err (''Invalid trezor_state in completion response: ''
             @ show_nat (unat (hp_trezor_state completion))), w)
      else Some (Inr completion, w)))))))"

text \<open>A device that knows the host ends the handshake, perhaps after a confirmation.\<close>

definition finalize_connection :: "native \<Rightarrow> primitives \<Rightarrow> string \<Rightarrow> u8 \<times> u8 \<Rightarrow> unit link_op" where
  "finalize_connection nl prim path ch w =
     (let w = update_thp path (\<lambda>s. s\<lparr>is_paired := True\<rparr>) w in
      bind_op (exchange nl prim path ch THP_END_REQUEST [] w) (\<lambda>end_resp w.
      if fst end_resp = BUTTON_REQUEST
      then bind_op (exchange nl prim path ch BUTTON_ACK [] w) (\<lambda>ack_resp w.
             if fst ack_resp \<noteq> THP_END_RESPONSE
             then Some (handshake_err (''Expected ThpEndResponse after ButtonACK, got: ''
                    @ show_nat (unat (fst ack_resp))), w)
             else Some (Inr (), w))
      else if fst end_resp \<noteq> THP_END_RESPONSE
      then Some (handshake_err (''Expected ThpEndResponse, got: '' @ show_nat (unat (fst end_resp))), w)
      else Some (Inr (), w)))"

definition authenticate ::
    "native \<Rightarrow> primitives \<Rightarrow> codecs \<Rightarrow> identity \<Rightarrow> string \<Rightarrow> u8 \<times> u8 \<Rightarrow> bool \<Rightarrow> HandshakeCompletionResponse \<Rightarrow> unit link_op" where
  "authenticate nl prim cx me path ch credential_was_sent completion w =
     (if hp_trezor_state completion = 0
      then
        if credential_was_sent
        then Some (handshake_err ''CredentialRejected: device returned state=0 despite credential'', w)
        else perform_pairing nl prim cx me path ch w
      else finalize_connection nl prim path ch w)"

definition paired_on :: "string \<Rightarrow> u8 \<times> u8 \<Rightarrow> link \<Rightarrow> bool" where
  "paired_on path ch w =
     (case states w path of
        Some st \<Rightarrow> is_paired (protocol_state st) \<and> channel (protocol_state st) = ch
      | None \<Rightarrow> False)"

definition mark_complete :: "string \<Rightarrow> u8 \<times> u8 \<Rightarrow> unit link_op" where
  "mark_complete path ch w =
     (if \<not> paired_on path ch w
      then Some (handshake_err ''Handshake finished but device is not paired for this channel'', w)
      else Some (Inr (), update_device path (\<lambda>st. st\<lparr>handshake_complete := True\<rparr>) w))"

definition perform_thp_handshake_inner ::
    "native \<Rightarrow> primitives \<Rightarrow> codecs \<Rightarrow> identity \<Rightarrow> string \<Rightarrow> bool \<Rightarrow> bool \<Rightarrow> unit link_op" where
  "perform_thp_handshake_inner nl prim cx me path skip_stored_credentials try_to_unlock w =
     (let stored_credential = load_credential nl cx path skip_stored_credentials w in
      bind_op (allocate_channel nl path w) (\<lambda>(ch, device_properties) w.
      bind_op (handshake_init nl prim path ch try_to_unlock w) (\<lambda>(ephemeral_secret, init_response) w.
      bind_op (derive_keys nl prim path device_properties ephemeral_secret init_response try_to_unlock
                 stored_credential w) (\<lambda>completion_req w.
      let credential_was_sent = 16 < length (hq_encrypted_payload completion_req) in
      bind_op (handshake_completion nl prim path ch completion_req w) (\<lambda>completion w.
      bind_op (authenticate nl prim cx me path ch credential_was_sent completion w) (\<lambda>_ w.
      mark_complete path ch w))))))"

subsection \<open>Retries\<close>

definition forget :: "string \<Rightarrow> link \<Rightarrow> link" where
  "forget path w = w\<lparr>states := (states w)(path := None)\<rparr>"

definition log_event :: "event \<Rightarrow> link \<Rightarrow> link" where
  "log_event e w = w\<lparr>events := events w @ [e]\<rparr>"

definition open_device :: "native \<Rightarrow> string \<Rightarrow> link \<Rightarrow> write_result \<times> link" where
  "open_device nl path w = (nl_open nl path w, log_event (Opened path) w)"

definition reopen :: "native \<Rightarrow> string \<Rightarrow> unit link_op" where
  "reopen nl path w =
     (let w = log_event (Closed path) w;
          w = forget path w;
          (result, w) = open_device nl path w
      in if \<not> wr_success result then Some (transport_err DeviceNotFound, w) else Some (Inr (), w))"

text \<open>
  The attempts with stored credentials: \<open>Inr True\<close> when one succeeded, \<open>Inr False\<close> when the loop
  is left for a fresh pairing.
\<close>

fun handshake_attempts ::
    "native \<Rightarrow> primitives \<Rightarrow> codecs \<Rightarrow> identity \<Rightarrow> string \<Rightarrow> nat list \<Rightarrow> bool link_op" where
  "handshake_attempts nl prim cx me path [] w = Some (Inr False, w)"
| "handshake_attempts nl prim cx me path (attempt # attempts) w =
     bind_op (if 0 < attempt then reopen nl path w else Some (Inr (), w)) (\<lambda>_ w.
     case perform_thp_handshake_inner nl prim cx me path False False w of
       None \<Rightarrow> None
     | Some (Inr _, w) \<Rightarrow> Some (Inr True, w)
     | Some (Inl Panic, w) \<Rightarrow> Some (Inl Panic, w)
     | Some (Inl (Err e), w) \<Rightarrow>
         if e = Thp DeviceLocked
         then bind_op (reopen nl path w) (\<lambda>_ w.
              bind_op (perform_thp_handshake_inner nl prim cx me path False True w) (\<lambda>_ w.
              Some (Inr True, w)))
         else if contains ''CredentialRejected'' (error_text e) then Some (Inr False, w)
         else
           let w = forget path w in
           if \<not> is_retryable (error_text e) then Some (Inl (Err e), w)
           else handshake_attempts nl prim cx me path attempts w)"

definition MAX_RETRIES :: nat where "MAX_RETRIES = 3"

definition perform_thp_handshake :: "native \<Rightarrow> primitives \<Rightarrow> codecs \<Rightarrow> identity \<Rightarrow> string \<Rightarrow> unit link_op" where
  "perform_thp_handshake nl prim cx me path w =
     bind_op (handshake_attempts nl prim cx me path [0..<MAX_RETRIES] w) (\<lambda>finished w.
       if finished then Some (Inr (), w)
       else
         let w = log_event (Cleared path) w in
         bind_op (reopen nl path w) (\<lambda>_ w.
         perform_thp_handshake_inner nl prim cx me path True False w))"

section \<open>What the steps keep\<close>

text \<open>
  \<open>on_channel p ch m m'\<close>: relative to the entries \<open>m\<close>, only that of \<open>p\<close> has changed, and it is
  on channel \<open>ch\<close>.
\<close>

definition on_channel :: "string \<Rightarrow> u8 \<times> u8 \<Rightarrow> ble_states \<Rightarrow> ble_states \<Rightarrow> bool" where
  "on_channel p ch m m' \<longleftrightarrow> (\<forall>q. q \<noteq> p \<longrightarrow> m' q = m q)
     \<and> (\<exists>st. m' p = Some st \<and> channel (protocol_state st) = ch)"

lemma on_channel_same: "on_channel p ch m m' \<Longrightarrow> same_channel p m' m'' \<Longrightarrow> on_channel p ch m m''"
  by (auto simp: on_channel_def same_channel_def)

lemma enter_channel_on: "on_channel p ch (states w) (states (enter_channel p ch w))"
  by (simp add: on_channel_def enter_channel_def Let_def)

lemma allocate_channel_on:
  "ends (allocate_channel nl p w) (\<lambda>r w'. case r of
      Inl e \<Rightarrow> states w' = states w
    | Inr alloc \<Rightarrow> on_channel p (fst alloc) (states w) (states w'))"
proof -
  let ?Q = "\<lambda>r w'. case r of Inl e \<Rightarrow> states w' = states w
    | Inr alloc \<Rightarrow> on_channel p (fst alloc) (states w) (states (w' :: link))"
  have last: "ends (bind_op (Some (parse_allocation d, s)) (\<lambda>alloc w. Some (Inr alloc, enter_channel p (fst alloc) w))) ?Q"
    if "states s = states w" for d s
    using that enter_channel_on [of p _ s] by (cases "parse_allocation d") auto
  have start: "states (snd (draw nl 8 w)) = states w" by (rule draw_fields)
  note io = link_io_keeps [where P = "\<lambda>m. m = states w"]
  note step = ends_step [where P = "\<lambda>s. states s = states w" and Q = ?Q]
  show ?thesis
    unfolding allocate_channel_def Let_def case_prod_beta
    by (rule step [OF io(1) [OF start]], rule step [OF io(2)], assumption, rule last) simp_all
qed

text \<open>The steps after the allocation keep the channel.\<close>

lemma handshake_init_keeps [keeps]:
  "same_channel p m (states w) \<Longrightarrow> ends (handshake_init nl prim p ch u w) (\<lambda>r w'. same_channel p m (states w'))"
  unfolding handshake_init_def Let_def case_prod_beta
  by (auto intro!: ends_keep_bind keeps simp: draw_fields)

lemma handle_init_channel:
  "handle_handshake_init prim k resp eh u stored s = Inr (req, s') \<Longrightarrow> channel s' = channel s \<and> is_paired s' = is_paired s"
  using handle_handshake_init_state by fastforce

lemma derive_keys_keeps [keeps]:
  assumes "same_channel p m (states w)"
  shows "ends (derive_keys nl prim p props eh resp u stored w) (\<lambda>r w'. same_channel p m (states w'))"
proof -
  define w1 where "w1 = snd (draw nl 32 (update_thp p (\<lambda>s. s\<lparr>handshake_credentials :=
    Some (default_credentials\<lparr>hc_handshake_hash := get_handshake_hash prim props\<rparr>)\<rparr>) w))"
  have 1: "same_channel p m (states w1)"
    unfolding w1_def draw_fields by (rule update_thp_keeps [OF assms]) simp_all
  have "same_channel p m (states (update_thp p (\<lambda>_. s) w1))"
    if "states w1 p = Some st" "handle_handshake_init prim k resp eh u stored (protocol_state st) = Inr (req, s)"
    for st s k req
  proof (rule same_channel_trans [OF 1])
    show "same_channel p (states w1) (states (update_thp p (\<lambda>_. s) w1))"
      using that(1) handle_init_channel [OF that(2)]
      by (simp add: update_thp_def update_device_def same_channel_def)
  qed
  then show ?thesis
    using 1 unfolding derive_keys_def Let_def case_prod_beta w1_def [symmetric]
    by (auto split: option.split sum.split)
qed

lemma handshake_completion_keeps [keeps]:
  "same_channel p m (states w) \<Longrightarrow> ends (handshake_completion nl prim p ch req w) (\<lambda>r w'. same_channel p m (states w'))"
  unfolding handshake_completion_def Let_def
  by (auto intro!: ends_keep_bind keeps)

lemma finalize_connection_keeps [keeps]:
  "same_channel p m (states w) \<Longrightarrow> ends (finalize_connection nl prim p ch w) (\<lambda>r w'. same_channel p m (states w'))"
  unfolding finalize_connection_def Let_def by (auto intro!: ends_keep_bind keeps)

lemma authenticate_keeps [keeps]:
  "same_channel p m (states w) \<Longrightarrow> ends (authenticate nl prim cx me p ch sent c w) (\<lambda>r w'. same_channel p m (states w'))"
  unfolding authenticate_def by (auto intro!: keeps)

section \<open>Completion means authentication\<close>

abbreviation set_paired :: "ThpState \<Rightarrow> ThpState" where
  "set_paired s \<equiv> s\<lparr>is_paired := True\<rparr>"

lemma start_code_entry_paired:
  assumes "same_channel p m (states (update_thp p set_paired w))"
  shows "ends (start_code_entry nl prim me p ch w) (\<lambda>r w'. same_channel p m (states w'))"
proof -
  define w0 where "w0 = update_thp p set_paired w"
  have "same_channel p m (states w0)" using assms by (simp add: w0_def)
  then show ?thesis
    unfolding start_code_entry_def Let_def case_prod_beta w0_def [symmetric] by (auto intro!: ends_keep_bind keeps)
qed

lemma perform_pairing_paired:
  "same_channel p m (states (update_thp p set_paired w)) \<Longrightarrow>
   ends (perform_pairing nl prim cx me p ch w) (\<lambda>r w'. same_channel p m (states w'))"
  unfolding perform_pairing_def
  by (rule ends_keep_bind [OF start_code_entry_paired], assumption) (intro ends_keep_bind keeps)

lemma finalize_connection_paired:
  assumes "same_channel p m (states (update_thp p set_paired w))"
  shows "ends (finalize_connection nl prim p ch w) (\<lambda>r w'. same_channel p m (states w'))"
proof -
  define w0 where "w0 = update_thp p set_paired w"
  have "same_channel p m (states w0)" using assms by (simp add: w0_def)
  then show ?thesis
    unfolding finalize_connection_def Let_def w0_def [symmetric] by (auto intro!: ends_keep_bind keeps)
qed

lemma authenticate_paired:
  assumes "authenticate nl prim cx me p ch sent c w = Some (Inr (), w')"
    and "on_channel p ch' m (states w)"
  shows "paired_on p ch' w'" "on_channel p ch' m (states w')"
proof -
  let ?m = "states (update_thp p set_paired w)"
  have "same_channel p ?m (states w')"
    using assms(1) ends_D [OF perform_pairing_paired [OF same_channel_refl]]
      ends_D [OF finalize_connection_paired [OF same_channel_refl]]
    by (auto simp: authenticate_def handshake_err_def split: if_splits)
  moreover obtain st where "?m p = Some (with_protocol_state set_paired st)" "states w p = Some st"
    using assms(2) by (auto simp: on_channel_def update_thp_def update_device_def)
  ultimately show "paired_on p ch' w'"
    using assms(2) by (auto simp: same_channel_def on_channel_def paired_on_def)
  show "on_channel p ch' m (states w')"
    using ends_D [OF authenticate_keeps [OF same_channel_refl] assms(1)] assms(2) by (rule on_channel_same [rotated])
qed

text \<open>The steps of a handshake that went through.\<close>

lemma handshake_inner_steps:
  assumes "perform_thp_handshake_inner nl prim cx me p skip unlock w = Some (Inr (), w')"
  obtains ch props w1 eh resp w2 req w3 c w4 w5 where
    "allocate_channel nl p w = Some (Inr (ch, props), w1)"
    "handshake_init nl prim p ch unlock w1 = Some (Inr (eh, resp), w2)"
    "derive_keys nl prim p props eh resp unlock (load_credential nl cx p skip w) w2 = Some (Inr req, w3)"
    "handshake_completion nl prim p ch req w3 = Some (Inr c, w4)"
    "authenticate nl prim cx me p ch (16 < length (hq_encrypted_payload req)) c w4 = Some (Inr (), w5)"
    "mark_complete p ch w5 = Some (Inr (), w')"
proof -
  obtain a w1 b w2 req w3 c w4 w5 where
    "allocate_channel nl p w = Some (Inr a, w1)"
    "handshake_init nl prim p (fst a) unlock w1 = Some (Inr b, w2)"
    "derive_keys nl prim p (snd a) (fst b) (snd b) unlock (load_credential nl cx p skip w) w2 = Some (Inr req, w3)"
    "handshake_completion nl prim p (fst a) req w3 = Some (Inr c, w4)"
    "authenticate nl prim cx me p (fst a) (16 < length (hq_encrypted_payload req)) c w4 = Some (Inr (), w5)"
    "mark_complete p (fst a) w5 = Some (Inr (), w')"
    using assms unfolding perform_thp_handshake_inner_def Let_def case_prod_beta
    by (auto simp only: bind_op_Inr)
  then show thesis using that [of "fst a" "snd a" w1 "fst b" "snd b"] by simp
qed

lemma completion_state:
  assumes "handshake_completion nl prim p ch req w = Some (Inr c, w')"
  shows "hp_trezor_state c \<le> 2" "\<exists>c0. credentials_of p w' = Some c0"
proof -
  obtain s enc where "(case states s p of None \<Rightarrow> transport_err DeviceNotFound
      | Some st \<Rightarrow> parse_handshake_completion_response prim (protocol_state st) enc) = Inr c"
    and c: "\<not> 2 < hp_trezor_state c" "w' = s"
    using assms unfolding handshake_completion_def Let_def
    by (auto simp: bind_op_Inr handshake_err_def split: if_splits)
  then obtain st where "states s p = Some st" "parse_handshake_completion_response prim (protocol_state st) enc = Inr c"
    by (auto split: option.splits)
  then show "\<exists>c0. credentials_of p w' = Some c0"
    using c(2) by (auto simp: parse_handshake_completion_response_def credentials_of_Some split: option.splits)
  show "hp_trezor_state c \<le> 2" using c(1) by simp
qed

section \<open>Retries are bounded\<close>

text \<open>\<open>opens p w\<close>: how often the device at \<open>p\<close> has been opened.\<close>

definition opens :: "string \<Rightarrow> link \<Rightarrow> nat" where
  "opens p w = length (filter (\<lambda>e. e = Opened p) (events w))"

named_theorems opened \<open>operations that do not open the device\<close>

lemma exchange_opens [opened]: "opens q w = n \<Longrightarrow> ends (exchange nl prim p ch t d w) (\<lambda>r w'. opens q w' = n)"
  by (auto simp: ends_def opens_def dest: exchange_fixed)

lemma link_io_opens [opened]:
  "opens q w = n \<Longrightarrow> ends (link_write nl p d w) (\<lambda>r w'. opens q w' = n)"
  "opens q w = n \<Longrightarrow> ends (link_read nl p k ch w) (\<lambda>r w'. opens q w' = n)"
  by (auto simp: ends_def opens_def link_write_def link_read_def on_world_def)

lemma update_opens [simp]:
  "opens q (update_thp p f w) = opens q w" "opens q (snd (draw nl n w)) = opens q w"
  "opens q (update_device p g w) = opens q w" "opens q (enter_channel p ch w) = opens q w"
  by (simp_all add: opens_def update_thp_def update_device_def enter_channel_def Let_def)

lemma exchange_button_opens [opened]:
  "opens q w = n \<Longrightarrow> ends (exchange_button nl prim p ch t d w) (\<lambda>r w'. opens q w' = n)"
  unfolding exchange_button_def by (auto intro!: ends_keep_bind opened)

lemma get_commitment_opens [opened]:
  "opens q w = n \<Longrightarrow> ends (get_commitment nl prim p ch c resp w) (\<lambda>r w'. opens q w' = n)"
  unfolding get_commitment_def by (auto intro!: ends_keep_bind opened)

lemma save_credential_opens [opened]:
  "opens q w = n \<Longrightarrow> ends (save_credential cx p d w) (\<lambda>r w'. opens q w' = n)"
  unfolding save_credential_def
  by (auto simp: Let_def opens_def split: option.split sum.split fault.split)

lemma pairing_opens [opened]:
  "opens q w = n \<Longrightarrow> ends (perform_pairing nl prim cx me p ch w) (\<lambda>r w'. opens q w' = n)"
  unfolding perform_pairing_def start_code_entry_def verify_code_def check_secret_def request_credential_def
    end_pairing_def Let_def case_prod_beta
  by (intro ends_keep_bind) (auto intro!: ends_keep_bind opened)

lemma handshake_steps_opens [opened]:
  "opens q w = n \<Longrightarrow> ends (allocate_channel nl p w) (\<lambda>r w'. opens q w' = n)"
  "opens q w = n \<Longrightarrow> ends (handshake_init nl prim p ch u w) (\<lambda>r w'. opens q w' = n)"
  "opens q w = n \<Longrightarrow> ends (handshake_completion nl prim p ch req w) (\<lambda>r w'. opens q w' = n)"
  "opens q w = n \<Longrightarrow> ends (finalize_connection nl prim p ch w) (\<lambda>r w'. opens q w' = n)"
  unfolding allocate_channel_def handshake_init_def handshake_completion_def finalize_connection_def Let_def case_prod_beta
  by (auto intro!: ends_keep_bind opened)

lemma derive_keys_opens [opened]:
  "opens q w = n \<Longrightarrow> ends (derive_keys nl prim p props eh resp u stored w) (\<lambda>r w'. opens q w' = n)"
  unfolding derive_keys_def Let_def case_prod_beta by (auto split: option.split sum.split)

lemma inner_opens [opened]:
  "opens q w = n \<Longrightarrow> ends (perform_thp_handshake_inner nl prim cx me p skip u w) (\<lambda>r w'. opens q w' = n)"
  unfolding perform_thp_handshake_inner_def authenticate_def mark_complete_def Let_def case_prod_beta
  by (auto intro!: ends_keep_bind opened)

lemma reopen_opens: "ends (reopen nl p w) (\<lambda>r w'. opens q w' = opens q w + (if q = p then 1 else 0))"
  by (simp add: reopen_def open_device_def log_event_def forget_def opens_def Let_def)

lemma reopen_if_opens:
  "opens p w = n \<Longrightarrow> ends (if b then reopen nl p w else Some (Inr (), w)) (\<lambda>r w'. opens p w' = n + (if b then 1 else 0))"
  using reopen_opens [of nl p w p] by auto

lemma forget_opens [simp]: "opens q (forget p w) = opens q w" "opens q (log_event (Cleared p) w) = opens q w"
  by (simp_all add: opens_def forget_def log_event_def)

definition spare :: "bool result \<Rightarrow> nat" where
  "spare r = (case r of Inr False \<Rightarrow> 0 | _ \<Rightarrow> 1)"

lemma handshake_attempts_opens:
  "ends (handshake_attempts nl prim cx me p as w)
     (\<lambda>r w'. opens p w' \<le> opens p w + length (filter (\<lambda>a. 0 < a) as) + spare r)"
proof (induction as arbitrary: w)
  case (Cons a as)
  let ?b = "opens p w + (if 0 < a then 1 else 0)"
  let ?Q = "\<lambda>r w'. opens p w' \<le> opens p w + length (filter (\<lambda>a. 0 < a) (a # as)) + spare r"
  have locked: "ends (bind_op (reopen nl p s) (\<lambda>_ w. bind_op (perform_thp_handshake_inner nl prim cx me p False True w)
      (\<lambda>_ w. Some (Inr True, w)))) ?Q" if "opens p s = ?b" for s
    by (rule ends_step [OF reopen_opens [where q = p]], rule ends_step [OF inner_opens], assumption)
      (use that in \<open>auto simp: spare_def\<close>)
  have again: "ends (handshake_attempts nl prim cx me p as (forget p s)) ?Q" if "opens p s = ?b" for s
    using Cons.IH [of "forget p s"] that by (fastforce simp: ends_def)
  have body: "ends (case perform_thp_handshake_inner nl prim cx me p False False s of
       None \<Rightarrow> None
     | Some (Inr _, w) \<Rightarrow> Some (Inr True, w)
     | Some (Inl Panic, w) \<Rightarrow> Some (Inl Panic, w)
     | Some (Inl (Err e), w) \<Rightarrow>
         if e = Thp DeviceLocked
         then bind_op (reopen nl p w) (\<lambda>_ w.
              bind_op (perform_thp_handshake_inner nl prim cx me p False True w) (\<lambda>_ w.
              Some (Inr True, w)))
         else if contains ''CredentialRejected'' (error_text e) then Some (Inr False, w)
         else
           let w = forget p w in
           if \<not> is_retryable (error_text e) then Some (Inl (Err e), w)
           else handshake_attempts nl prim cx me p as w) ?Q" if s: "opens p s = ?b" for s
  proof (cases "perform_thp_handshake_inner nl prim cx me p False False s")
    case (Some o')
    obtain r s' where o': "o' = (r, s')" by force
    have "opens p s' = ?b" using ends_D [OF inner_opens [OF s] Some [unfolded o']] .
    then show ?thesis
      using locked [of s'] again [of s'] unfolding Some o'
      by (auto simp: spare_def Let_def split: sum.split fault.split)
  qed simp
  show ?case
    unfolding handshake_attempts.simps
    by (rule ends_step [OF reopen_if_opens [OF refl]], rule body) (auto simp: spare_def)
qed (simp add: spare_def)

text \<open>
  Whatever the device does, one handshake opens it at most three more
  times: twice between the attempts with stored credentials, and once for the unlock attempt or
  the fresh pairing.
\<close>

theorem handshake_retries_bounded:
  "ends (perform_thp_handshake nl prim cx me p w) (\<lambda>r w'. opens p w' \<le> opens p w + 3)"
proof -
  let ?Q = "\<lambda>(r :: unit result) w'. opens p w' \<le> opens p w + 3"
  have att: "ends (handshake_attempts nl prim cx me p [0..<MAX_RETRIES] w) (\<lambda>r w'. opens p w' \<le> opens p w + 2 + spare r)"
    using handshake_attempts_opens [of nl prim cx me p "[0..<MAX_RETRIES]" w] by (simp add: MAX_RETRIES_def upt_rec)
  have fresh: "ends (bind_op (reopen nl p (log_event (Cleared p) s)) (\<lambda>_ w.
      perform_thp_handshake_inner nl prim cx me p True False w)) ?Q" if "opens p s \<le> opens p w + 2" for s
  proof (rule ends_step [OF reopen_opens [where q = p]])
    show "ends (perform_thp_handshake_inner nl prim cx me p True False s') ?Q"
      if "opens p s' = opens p (log_event (Cleared p) s) + (if p = p then 1 else 0)" for s'
      using inner_opens [OF that] \<open>opens p s \<le> opens p w + 2\<close> by (simp add: ends_def)
  qed (use that in auto)
  show ?thesis
    unfolding perform_thp_handshake_def
    by (rule ends_bind, use att fresh in \<open>auto simp: ends_def spare_def Let_def split: sum.split bool.splits\<close>)
qed

end
