(* ===== verification/Handshake_Run.thy ===== *)
theory Handshake_Run
  imports Callback_Handshake
begin

text \<open>
  A run of the callback handshake against a scripted device, with primitives that do not hide
  anything. It shows that the hypotheses of the handshake's properties can hold, and what a device
  that merely claims to know the host achieves.
\<close>

section \<open>A scripted device\<close>

definition run_device :: "bytes list \<Rightarrow> device" where
  "run_device rs =
     \<lparr>dev_write = \<lambda>io c. \<lparr>wr_success = True, wr_error = []\<rparr>,
      dev_read = \<lambda>io. if reads io < length rs then \<lparr>rr_success = True, rr_data = rs ! reads io, rr_error = []\<rparr>
        else \<lparr>rr_success = False, rr_data = [], rr_error = ''BLE read timeout''\<rparr>,
      dev_chunk_size = 244\<rparr>"

definition run_native :: "(string \<Rightarrow> link \<Rightarrow> string option) \<Rightarrow> bytes list \<Rightarrow> string \<Rightarrow> native" where
  "run_native ld rs code =
     \<lparr>nl_device = \<lambda>path es. run_device rs,
      nl_open = \<lambda>path w. \<lparr>wr_success = True, wr_error = []\<rparr>,
      nl_load = ld,
      nl_pairing_code = \<lambda>w. code,
      nl_random = \<lambda>n i. replicate n 5\<rparr>"

definition run_link :: "ble_states \<Rightarrow> bytes list \<Rightarrow> nat \<Rightarrow> event list \<Rightarrow> nat \<Rightarrow> link" where
  "run_link m W k E n = \<lparr>states = m, link_io = \<lparr>written = W, reads = k\<rparr>, events = E, draws = n\<rparr>"

lemma run_device_facts:
  "accepts_writes (run_device rs)" "dev_chunk_size (run_device rs) = 244"
  "device_of (run_native ld rs code) q w = run_device rs"
  by (simp_all add: accepts_writes_def run_device_def device_of_def run_native_def)

lemma run_link_fields [simp]:
  "states (run_link m W k E n) = m" "draws (run_link m W k E n) = n" "events (run_link m W k E n) = E"
  "link_io (run_link m W k E n) = \<lparr>written = W, reads = k\<rparr>"
  "run_link m W k E n\<lparr>states := m', link_io := \<lparr>written = W', reads = k'\<rparr>\<rparr> = run_link m' W' k' E n"
  "run_link m W k E n\<lparr>link_io := \<lparr>written = W', reads = k'\<rparr>\<rparr> = run_link m W' k' E n"
  "run_link m W k E n\<lparr>states := m'\<rparr> = run_link m' W k E n"
  by (simp_all add: run_link_def)

lemma run_draw: "draw (run_native ld rs code) j (run_link m W k E n) = (replicate j 5, run_link m W k E (Suc n))"
  by (simp add: draw_def run_link_def run_native_def)

lemma run_write:
  "length d \<le> 244 \<Longrightarrow> link_write (run_native ld rs code) q d (run_link m W k E n)
     = Some (Inr (), run_link m (W @ [pad_to 244 d]) k E n)"
  by (simp add: link_write_def run_device_facts write_raw_small on_world_def on_io_def)

lemma run_delivers: "k < length rs \<Longrightarrow> delivers (run_device rs) k [rs ! k]"
  by (simp add: delivers_def run_device_def)

lemma small_frame_chunks:
  "length payload \<le> 235 \<Longrightarrow> create_chunks (thp_frame ctrl ch payload) (cont_header ch) 244
     = Some [pad_to 244 (thp_frame ctrl ch payload)]"
  using create_chunks_closed [of "cont_header ch" 244 "thp_frame ctrl ch payload"] by (simp add: thp_frame_def)

lemma run_read:
  assumes "k < length rs" "rs ! k = pad_to 244 (thp_frame ctrl ch payload)" "length payload \<le> 235"
    and "ctrl AND 0xf7 \<noteq> ACK_MESSAGE" "ctrl AND 0xe7 \<noteq> ERROR" "0 < attempts"
  shows "\<exists>z. link_read (run_native ld rs code) q attempts (Some ch) (run_link m W k E n)
    = Some (Inr (thp_frame ctrl ch payload @ replicate z 0), run_link m W (Suc k) E n)"
proof -
  let ?io = "\<lparr>written = W, reads = k\<rparr> :: io"
  have del: "delivers (run_device rs) (reads ?io) [pad_to 244 (thp_frame ctrl ch payload)]"
    using run_delivers [OF assms(1)] assms(2) by simp
  obtain z where "thp_read_response (run_device rs) attempts (Some ch) ?io
      = Some (Inr (thp_frame ctrl ch payload @ replicate z 0), ?io\<lparr>reads := reads ?io + 1\<rparr>)"
    using read_response_frame [OF _ run_device_facts(2) _ _ assms(4,5) small_frame_chunks [OF assms(3)] del assms(6)]
      assms(3) by auto
  then show ?thesis
    by (simp add: link_read_def run_device_facts on_world_def on_io_def)
qed

definition run_reply :: "u8 \<times> u8 \<Rightarrow> u16 \<Rightarrow> bytes \<Rightarrow> bytes" where
  "run_reply ch t reply = pad_to 244 (thp_frame ENCRYPTED ch ([0] @ be16 t @ reply @ replicate 16 0))"

lemma run_exchange:
  assumes "k < length rs" "rs ! k = run_reply (channel (protocol_state st)) t' reply" "length reply \<le> 100" "length d \<le> 100"
    and "m q = Some st" "handshake_credentials (protocol_state st) = Some cs"
      "length (hc_host_key cs) = 32" "length (hc_trezor_key cs) = 32"
    and "send_nonce (protocol_state st) < u32_MAX - 1" "recv_nonce (protocol_state st) < u32_MAX - 1"
  shows "\<exists>W'. exchange (run_native ld rs code) plain_prim q (channel (protocol_state st)) t d (run_link m W k E n)
    = Some (Inr (t', reply), run_link (m(q \<mapsto> with_protocol_state exchanged st)) W' (Suc k) E n)"
proof -
  let ?s = "protocol_state st" and ?io = "\<lparr>written = W, reads = k\<rparr> :: io"
  let ?cr = "cs\<lparr>hc_host_key := hc_trezor_key cs\<rparr>"
  let ?r = "?s\<lparr>send_nonce := recv_nonce ?s, send_bit := 0, session_id := 0, handshake_credentials := Some ?cr\<rparr>"
  let ?f = "thp_frame ENCRYPTED (channel ?s) ([0] @ be16 t' @ reply @ replicate 16 0)"
  have enc: "encode_encrypted_message plain_prim ?r t' reply = Inr ?f"
    using assms(8) by (simp add: encode_encrypted_frame encrypt_payload_def aes_gcm_encrypt_def plain_prim_def)
  have ch: "create_chunks ?f (cont_header (channel ?s)) 244 = Some [pad_to 244 ?f]"
    using assms(3) by (intro small_frame_chunks) simp
  have del: "delivers (run_device rs) (reads ?io) (map (\<lambda>b. pad_to 244 (encode_ack (channel ?s) b)) [] @ [pad_to 244 ?f])"
    using run_delivers [OF assms(1)] assms(2) by (simp add: run_reply_def)
  have "\<exists>W'. send_encrypted_message plain_prim (run_device rs) q (channel ?s) t d (m, ?io)
      = Some (Inr (t', reply), m(q \<mapsto> with_protocol_state exchanged st), \<lparr>written = W', reads = Suc k\<rparr>)"
    using exchange_delivers [where states = m and path = q and t = t and data = d, OF aead_ok_plain assms(5) refl assms(6-10) run_device_facts(1,2) _ _ _ _ _ _ _ _ _ enc ch _ _ del]
    assms(3,4) by auto
  then show ?thesis
    by (auto simp: exchange_def run_device_facts on_world_def)
qed

section \<open>A device that claims to know the host\<close>

definition claim_channel :: "u8 \<times> u8" where
  "claim_channel = (0x12, 0x34)"

text \<open>
  Channel allocation, the device's part of the key exchange, a completion response with state 1,
  the end of the handshake, and an answer to a first call.
\<close>

definition claim_script :: "bytes list" where
  "claim_script =
     [[0x41, 0xff, 0xff, 0, 32, 5, 5, 5, 5, 5, 5, 5, 5, 0x12, 0x34],
      pad_to 244 (thp_frame HANDSHAKE_INIT_RES claim_channel (replicate 96 9)),
      pad_to 244 (thp_frame HANDSHAKE_COMP_RES claim_channel ([1] @ replicate 16 0)),
      run_reply claim_channel THP_END_RESPONSE [], run_reply claim_channel 17 []]"

definition claim_native :: "(string \<Rightarrow> link \<Rightarrow> string option) \<Rightarrow> native" where
  "claim_native ld = run_native ld claim_script []"

definition no_credential :: "string \<Rightarrow> link \<Rightarrow> string option" where
  "no_credential p w = None"

lemma claim_script_facts:
  "length claim_script = 5"
  "claim_script ! 0 = [0x41, 0xff, 0xff, 0, 32, 5, 5, 5, 5, 5, 5, 5, 5, 0x12, 0x34]"
  "claim_script ! 1 = pad_to 244 (thp_frame HANDSHAKE_INIT_RES claim_channel (replicate 96 9))"
  "claim_script ! 2 = pad_to 244 (thp_frame HANDSHAKE_COMP_RES claim_channel ([1] @ replicate 16 0))"
  "claim_script ! 3 = run_reply claim_channel THP_END_RESPONSE []"
  "claim_script ! 4 = run_reply claim_channel 17 []"
  by (simp_all add: claim_script_def eval_nat_numeral)

lemma claim_controls:
  "HANDSHAKE_INIT_RES AND 0xf7 \<noteq> ACK_MESSAGE" "HANDSHAKE_INIT_RES AND 0xe7 \<noteq> ERROR"
  "HANDSHAKE_COMP_RES AND 0xf7 \<noteq> ACK_MESSAGE" "HANDSHAKE_COMP_RES AND 0xe7 \<noteq> ERROR"
  by (simp_all add: HANDSHAKE_INIT_RES_def HANDSHAKE_COMP_RES_def ACK_MESSAGE_def ERROR_def)

definition claim_st1 :: BleDeviceState where
  "claim_st1 = \<lparr>ble_protocol = protocol_thp_new\<lparr>thp_protocol_state := thp_new\<lparr>channel := claim_channel\<rparr>\<rparr>,
     handshake_complete = False\<rparr>"

lemma run_read_allocation:
  assumes "k < length rs" "rs ! k = claim_script ! 0"
  shows "link_read (run_native ld rs code) q 100 None (run_link m W k E n)
     = Some (Inr (claim_script ! 0), run_link m W (Suc k) E n)"
proof -
  let ?io = "\<lparr>written = W, reads = k\<rparr> :: io" and ?c = "claim_script ! 0"
  have "read_with_timeout (run_device rs) 50 ?io = (Inr ?c, ?io\<lparr>reads := Suc (reads ?io)\<rparr>)"
    using run_delivers [OF assms(1)] by (intro read_delivered [where cs = "[]"]) (simp_all add: assms(2) claim_script_facts)
  moreover have "validate_crc ?c = Inr ()" "\<not> is_ack ?c" "get_or ?c 0 0 AND 0xe7 \<noteq> ERROR"
      "\<not> 244 < 5 + unat (from_be16 (?c ! 3) (?c ! 4))" "5 \<le> length ?c"
    by (simp_all add: claim_script_facts validate_crc_def is_ack_def get_or_def from_be16_def ACK_MESSAGE_def ERROR_def)
  ultimately have "thp_read_response (run_device rs) (Suc a) None ?io
      = Some (Inr ?c, \<lparr>written = W, reads = Suc k\<rparr>)" for a
    by (simp add: run_device_facts Let_def)
  from this [of 99] have "thp_read_response (run_device rs) 100 None ?io
      = Some (Inr ?c, \<lparr>written = W, reads = Suc k\<rparr>)" by simp
  then show ?thesis
    by (simp add: link_read_def run_device_facts on_world_def on_io_def)
qed

lemma run_allocate:
  assumes "k < length rs" "rs ! k = claim_script ! 0" "m q = None"
  shows "\<exists>W'. allocate_channel (run_native ld rs code) q (run_link m W k E n)
     = Some (Inr (claim_channel, []), run_link (m(q \<mapsto> claim_st1)) W' (Suc k) E (Suc n))"
proof -
  have "parse_allocation (claim_script ! 0) = Inr (claim_channel, [])"
    by (simp add: claim_script_facts parse_allocation_def Let_def from_be16_def CHANNEL_ALLOCATION_RES_def claim_channel_def)
  moreover have "enter_channel q claim_channel (run_link m W' (Suc k) E (Suc n)) = run_link (m(q \<mapsto> claim_st1)) W' (Suc k) E (Suc n)" for W'
    using assms(3)
    by (simp add: enter_channel_def claim_st1_def with_protocol_state_def protocol_state_def protocol_thp_new_def)
  moreover have "length (encode_channel_allocation_request (replicate 8 5)) \<le> 244"
    by (simp add: encode_channel_allocation_request_def Let_def)
  ultimately show ?thesis
    using run_read_allocation [OF assms(1,2)]
    by (simp add: allocate_channel_def run_draw run_write) blast
qed

lemma claim_allocate:
  "\<exists>W. allocate_channel (claim_native ld) q (run_link Map.empty [] 0 E 0)
     = Some (Inr (claim_channel, []), run_link [q \<mapsto> claim_st1] W 1 E 1)"
  using run_allocate [of 0 claim_script Map.empty q ld "[]" "[]" E 0] by (simp add: claim_native_def claim_script_facts(1))

lemma run_update_thp:
  "m q = Some st \<Longrightarrow> update_thp q f (run_link m W k E n) = run_link (m(q \<mapsto> with_protocol_state f st)) W k E n"
  by (simp add: update_thp_def update_device_def)

definition claim_response :: HandshakeInitResponse where
  "claim_response = \<lparr>ir_trezor_ephemeral_pubkey = replicate 32 9,
     ir_trezor_encrypted_static_pubkey = replicate 48 9, ir_tag = replicate 16 9\<rparr>"

lemma claim_parse_init:
  "parse_init (thp_frame HANDSHAKE_INIT_RES claim_channel (replicate 96 9) @ replicate z 0) = Inr claim_response"
  by (simp add: parse_init_def thp_frame_def frame_body_def be16_def claim_response_def Let_def)

lemma claim_init:
  "\<exists>W'. handshake_init (claim_native ld) plain_prim q claim_channel unlock (run_link [q \<mapsto> claim_st1] W 1 E 1)
     = Some (Inr (replicate 32 5, claim_response),
         run_link [q \<mapsto> with_protocol_state (update_sync_bit True) claim_st1] W' 2 E 2)"
proof -
  let ?w = "run_link [q \<mapsto> with_protocol_state (update_sync_bit True) claim_st1]"
  have small: "length (encode_handshake_init_request claim_channel k u b) \<le> 244" if "length k = 32" for k u b
    using that by (simp add: encode_handshake_init_request_def Let_def)
  have ack: "length (encode_ack claim_channel b) \<le> 244" for b
    by (simp add: encode_ack_def Let_def)
  define W1 where "W1 = W @ [pad_to 244 (encode_handshake_init_request claim_channel (replicate 32 5) unlock 0)]"
  have "\<exists>z. link_read (claim_native ld) q (if unlock then 600 else 100) (Some claim_channel) (?w W1 1 E 2)
      = Some (Inr (thp_frame HANDSHAKE_INIT_RES claim_channel (replicate 96 9) @ replicate z 0), ?w W1 (Suc 1) E 2)"
    unfolding claim_native_def
    by (rule run_read) (simp_all add: claim_script_facts(1) claim_script_facts(3) [unfolded One_nat_def] claim_controls)
  then obtain z where z: "link_read (claim_native ld) q (if unlock then 600 else 100) (Some claim_channel) (?w W1 1 E 2)
      = Some (Inr (thp_frame HANDSHAKE_INIT_RES claim_channel (replicate 96 9) @ replicate z 0), ?w W1 2 E 2)"
    by (auto simp: numeral_2_eq_2)
  have head: "(thp_frame HANDSHAKE_INIT_RES claim_channel (replicate 96 9) @ replicate z 0) ! 0 = HANDSHAKE_INIT_RES"
      "HANDSHAKE_INIT_RES AND 0xe7 = HANDSHAKE_INIT_RES" "thp_frame HANDSHAKE_INIT_RES claim_channel (replicate 96 9) \<noteq> []"
    by (simp_all add: thp_frame_def frame_body_def HANDSHAKE_INIT_RES_def)
  have kp: "keypair_from_secret plain_prim k = (k, k)" for k
    by (simp add: keypair_from_secret_def plain_prim_def)
  have sb: "send_bit_of q (run_link [q \<mapsto> claim_st1] W 1 E 2) = 0"
    by (simp add: send_bit_of_def claim_st1_def protocol_state_def thp_new_def)
  show ?thesis
    unfolding handshake_init_def
    using small [of "replicate 32 5" unlock 0] ack z head
    by (simp add: claim_native_def run_draw kp sb run_write run_update_thp W1_def [symmetric] claim_parse_init
        numeral_2_eq_2 [symmetric] del: One_nat_def) blast
qed

definition claim_creds :: ThpHandshakeCredentials where
  "claim_creds = default_credentials\<lparr>hc_handshake_hash := replicate 32 0,
     hc_trezor_encrypted_static_pubkey := replicate 48 9,
     hc_host_encrypted_static_pubkey := replicate 32 5 @ replicate 16 0, hc_static_key := replicate 32 5,
     hc_host_static_public_key := replicate 32 5, hc_host_key := replicate 32 0, hc_trezor_key := replicate 32 0\<rparr>"

definition claim_request :: HandshakeCompletionRequest where
  "claim_request = \<lparr>hq_encrypted_host_static_pubkey = replicate 32 5 @ replicate 16 0,
     hq_encrypted_payload = replicate 16 0\<rparr>"

lemma claim_handle:
  assumes "handshake_credentials s = Some c" "send_nonce s = 0" "recv_nonce s = 1"
  shows "handle_handshake_init plain_prim (replicate 32 5) claim_response (replicate 32 5) unlock None s
     = Inr (claim_request, s\<lparr>handshake_credentials := Some claim_creds\<rparr>)"
  unfolding handle_handshake_init_def keypair_from_secret_def x25519_dh_def hash_of_two_def hkdf_derive_def
    aes_gcm_encrypt_def aes_gcm_decrypt_def to_array32_def
  by (simp add: assms plain_prim_def claim_response_def slice_def claim_request_def claim_creds_def
      verified_credential_def credential_payload_def Let_def)

definition claim_st2 :: BleDeviceState where
  "claim_st2 = with_protocol_state (\<lambda>s. s\<lparr>send_bit := 1, handshake_credentials := Some claim_creds\<rparr>) claim_st1"

lemma claim_derive:
  "derive_keys (claim_native ld) plain_prim q [] (replicate 32 5) claim_response unlock None
     (run_link [q \<mapsto> with_protocol_state (update_sync_bit True) claim_st1] W 2 E 2)
   = Some (Inr claim_request, run_link [q \<mapsto> claim_st2] W 2 E 3)"
proof -
  let ?c = "default_credentials\<lparr>hc_handshake_hash := get_handshake_hash plain_prim []\<rparr>"
  let ?st = "with_protocol_state (\<lambda>s. s\<lparr>handshake_credentials := Some ?c\<rparr>)
    (with_protocol_state (update_sync_bit True) claim_st1)"
  have "handle_handshake_init plain_prim (replicate 32 5) claim_response (replicate 32 5) unlock None (protocol_state ?st)
      = Inr (claim_request, (protocol_state ?st)\<lparr>handshake_credentials := Some claim_creds\<rparr>)"
    by (rule claim_handle [where c = ?c])
      (simp_all add: claim_st1_def protocol_state_def with_protocol_state_def update_sync_bit_def thp_new_def)
  moreover have "with_protocol_state (\<lambda>_. (protocol_state ?st)\<lparr>handshake_credentials := Some claim_creds\<rparr>) ?st = claim_st2"
    by (simp add: claim_st2_def claim_st1_def with_protocol_state_def protocol_state_def update_sync_bit_def flip_def thp_new_def)
  ultimately show ?thesis
    by (simp add: derive_keys_def claim_native_def run_update_thp run_draw numeral_3_eq_3 numeral_2_eq_2 del: protocol_state_with)
qed

definition claim_st3 :: BleDeviceState where
  "claim_st3 = with_protocol_state (update_sync_bit True) claim_st2"

definition claim_completion :: HandshakeCompletionResponse where
  "claim_completion = \<lparr>hp_trezor_state = 1, hp_pairing_methods = []\<rparr>"

lemma claim_payload:
  "completion_payload (thp_frame HANDSHAKE_COMP_RES claim_channel ([1] @ replicate 16 0) @ replicate z 0)
     = Inr ([1] @ replicate 16 0)"
proof -
  let ?c = "[1] @ replicate 16 0 :: bytes"
  let ?f = "thp_frame HANDSHAKE_COMP_RES claim_channel ?c"
  have f: "?f = [HANDSHAKE_COMP_RES, 0x12, 0x34, 0, 21] @ ?c @ crc32 (frame_body HANDSHAKE_COMP_RES claim_channel ?c)"
    by (simp add: thp_frame_def frame_body_def be16_def claim_channel_def)
  have "HANDSHAKE_COMP_RES AND 0xe7 = HANDSHAKE_COMP_RES" by (simp add: HANDSHAKE_COMP_RES_def)
  then show ?thesis
    unfolding f by (simp add: completion_payload_def from_be16_def slice_def Let_def crc32_def)
qed

lemma claim_finish:
  "\<exists>W'. handshake_completion (claim_native ld) plain_prim q claim_channel claim_request (run_link [q \<mapsto> claim_st2] W 2 E 3)
     = Some (Inr claim_completion, run_link [q \<mapsto> claim_st3] W' 3 E 3)"
proof -
  let ?w = "run_link [q \<mapsto> claim_st3]" and ?p = "[1] @ replicate 16 0 :: bytes"
  let ?req = "encode_handshake_completion_request claim_channel (hq_encrypted_host_static_pubkey claim_request)
    (hq_encrypted_payload claim_request) 1"
  have small: "length ?req \<le> 244"
    by (simp add: encode_handshake_completion_request_def claim_request_def Let_def)
  have ack: "length (encode_ack claim_channel b) \<le> 244" for b
    by (simp add: encode_ack_def Let_def)
  have "\<exists>z. link_read (claim_native ld) q 600 (Some claim_channel) (?w (W @ [pad_to 244 ?req]) 2 E 3)
      = Some (Inr (thp_frame HANDSHAKE_COMP_RES claim_channel ?p @ replicate z 0), ?w (W @ [pad_to 244 ?req]) (Suc 2) E 3)"
    unfolding claim_native_def
    by (rule run_read) (simp_all add: claim_script_facts(1) claim_script_facts(4) claim_controls)
  then obtain z where z: "link_read (claim_native ld) q 600 (Some claim_channel) (?w (W @ [pad_to 244 ?req]) 2 E 3)
      = Some (Inr (thp_frame HANDSHAKE_COMP_RES claim_channel ?p @ replicate z 0), ?w (W @ [pad_to 244 ?req]) 3 E 3)"
    by auto
  have ne: "thp_frame HANDSHAKE_COMP_RES claim_channel ?p \<noteq> []" by (simp add: thp_frame_def frame_body_def)
  have sb: "send_bit_of q (run_link [q \<mapsto> claim_st2] W 2 E 3) = 1"
    by (simp add: send_bit_of_def claim_st2_def)
  have parse: "parse_handshake_completion_response plain_prim (protocol_state claim_st3) ?p = Inr claim_completion"
    by (simp add: parse_handshake_completion_response_def claim_st3_def claim_st2_def update_sync_bit_def claim_creds_def
        default_credentials_def to_array32_def aes_gcm_decrypt_def plain_prim_def claim_completion_def)
  have "\<not> 2 < hp_trezor_state claim_completion" by (simp add: claim_completion_def)
  then show ?thesis
    unfolding handshake_completion_def using z ne parse claim_payload [of z]
    by (simp add: claim_native_def sb run_write small ack run_update_thp claim_st3_def [symmetric] Let_def
        del: append.simps append_Cons) blast
qed

definition claim_result :: BleDeviceState where
  "claim_result = (with_protocol_state exchanged (with_protocol_state set_paired claim_st3))\<lparr>handshake_complete := True\<rparr>"

lemma claim_finalize:
  "\<exists>W'. finalize_connection (claim_native ld) plain_prim q claim_channel (run_link [q \<mapsto> claim_st3] W 3 E 3)
     = Some (Inr (), run_link [q \<mapsto> with_protocol_state exchanged (with_protocol_state set_paired claim_st3)] W' 4 E 3)"
proof -
  let ?st = "with_protocol_state set_paired claim_st3"
  have ch: "channel (protocol_state ?st) = claim_channel"
    by (simp add: claim_st3_def claim_st2_def) (simp add: claim_st1_def protocol_state_def)
  have n: "send_nonce (protocol_state ?st) = 0" "recv_nonce (protocol_state ?st) = 1"
      "handshake_credentials (protocol_state ?st) = Some claim_creds"
    by (simp_all add: claim_st3_def claim_st2_def update_sync_bit_def)
      (simp_all add: claim_st1_def protocol_state_def thp_new_def)
  have keys: "length (hc_host_key claim_creds) = 32" "length (hc_trezor_key claim_creds) = 32"
    by (simp_all add: claim_creds_def)
  have "\<exists>W'. exchange (claim_native ld) plain_prim q (channel (protocol_state ?st)) THP_END_REQUEST []
      (run_link [q \<mapsto> ?st] W 3 E 3)
    = Some (Inr (THP_END_RESPONSE, []), run_link ([q \<mapsto> ?st](q \<mapsto> with_protocol_state exchanged ?st)) W' (Suc 3) E 3)"
    unfolding claim_native_def
    by (rule run_exchange [where cs = claim_creds])
      (simp_all only: n ch keys, simp_all add: u32_MAX_def claim_script_facts(1,5))
  then show ?thesis
    by (auto simp: finalize_connection_def run_update_thp ch [simplified] THP_END_RESPONSE_def BUTTON_REQUEST_def)
qed

lemma claim_run:
  assumes "ld q (run_link Map.empty [] 0 E 0) = None"
  shows "\<exists>W. perform_thp_handshake_inner (claim_native ld) plain_prim cx me q skip unlock (run_link Map.empty [] 0 E 0)
      = Some (Inr (), run_link [q \<mapsto> claim_result] W 4 E 3)"
    "handshake_complete claim_result" "is_paired (protocol_state claim_result)"
    "load_credential (claim_native ld) cx q skip (run_link Map.empty [] 0 E 0) = None" "range (nl_pairing_code (claim_native ld)) = {[]}"
proof -
  have load: "load_credential (claim_native ld) cx q skip (run_link Map.empty [] 0 E 0) = None"
    using assms by (simp add: load_credential_def claim_native_def run_native_def)
  obtain W1 where a: "allocate_channel (claim_native ld) q (run_link Map.empty [] 0 E 0)
     = Some (Inr (claim_channel, []), run_link [q \<mapsto> claim_st1] W1 1 E 1)"
    using claim_allocate by blast
  obtain W2 where b: "handshake_init (claim_native ld) plain_prim q claim_channel unlock (run_link [q \<mapsto> claim_st1] W1 1 E 1)
     = Some (Inr (replicate 32 5, claim_response),
         run_link [q \<mapsto> with_protocol_state (update_sync_bit True) claim_st1] W2 2 E 2)"
    using claim_init by blast
  obtain W3 where c: "handshake_completion (claim_native ld) plain_prim q claim_channel claim_request (run_link [q \<mapsto> claim_st2] W2 2 E 3)
     = Some (Inr claim_completion, run_link [q \<mapsto> claim_st3] W3 3 E 3)"
    using claim_finish by blast
  let ?st = "with_protocol_state exchanged (with_protocol_state set_paired claim_st3)"
  obtain W4 where d: "finalize_connection (claim_native ld) plain_prim q claim_channel (run_link [q \<mapsto> claim_st3] W3 3 E 3)
     = Some (Inr (), run_link [q \<mapsto> ?st] W4 4 E 3)"
    using claim_finalize by blast
  have auth: "authenticate (claim_native ld) plain_prim cx me q claim_channel sent claim_completion (run_link [q \<mapsto> claim_st3] W3 3 E 3)
     = Some (Inr (), run_link [q \<mapsto> ?st] W4 4 E 3)" for sent
    by (simp add: authenticate_def d) (simp add: claim_completion_def)
  have paired: "is_paired (protocol_state ?st)" "channel (protocol_state ?st) = claim_channel"
    by (simp_all add: exchanged_def claim_st3_def claim_st2_def) (simp add: claim_st1_def protocol_state_def)
  have "mark_complete q claim_channel (run_link [q \<mapsto> ?st] W4 4 E 3) = Some (Inr (), run_link [q \<mapsto> claim_result] W4 4 E 3)"
    using paired by (simp add: mark_complete_def paired_on_def update_device_def claim_result_def)
  then show "\<exists>W. perform_thp_handshake_inner (claim_native ld) plain_prim cx me q skip unlock (run_link Map.empty [] 0 E 0)
      = Some (Inr (), run_link [q \<mapsto> claim_result] W 4 E 3)"
    by (intro exI [of _ W4]) (simp add: perform_thp_handshake_inner_def load a b claim_derive c auth del: One_nat_def)
  show "is_paired (protocol_state claim_result)" "handshake_complete claim_result"
    using paired(1) by (simp_all add: claim_result_def protocol_state_def)
  show "load_credential (claim_native ld) cx q skip (run_link Map.empty [] 0 E 0) = None" by (rule load)
  show "range (nl_pairing_code (claim_native ld)) = {[]}" by (auto simp: claim_native_def run_native_def)
qed



definition run_codecs :: codecs where
  "run_codecs = \<lparr>hex_encode = \<lambda>b. [], hex_decode = \<lambda>s. None, json_encode = \<lambda>j. None, json_decode = \<lambda>s. None,
     failure_decode = \<lambda>b. None, nfkd = \<lambda>s. s\<rparr>"

definition run_identity :: identity where
  "run_identity = \<lparr>host_name = ''host'', app_name = ''app''\<rparr>"


section \<open>A locked device\<close>

definition locked_script :: "bytes list" where
  "locked_script = [claim_script ! 0, [0x42, 0x12, 0x34, 0, 9, 5], claim_script ! 0, [0x42, 0x12, 0x34, 0, 9, 5]]"

definition locked_native :: native where
  "locked_native = run_native no_credential locked_script []"

lemma locked_script_facts:
  "length locked_script = 4" "locked_script ! 0 = claim_script ! 0" "locked_script ! 2 = claim_script ! 0"
  "locked_script ! 1 = [0x42, 0x12, 0x34, 0, 9, 5]" "locked_script ! 3 = [0x42, 0x12, 0x34, 0, 9, 5]"
  by (simp_all add: locked_script_def eval_nat_numeral)

lemma run_read_locked:
  assumes "k < length rs" "rs ! k = [0x42, 0x12, 0x34, 0, 9, 5]"
  shows "link_read (run_native ld rs code) q (Suc a) (Some claim_channel) (run_link m W k E n)
     = Some (thp_err DeviceLocked, run_link m W (Suc k) E n)"
proof -
  let ?io = "\<lparr>written = W, reads = k\<rparr> :: io" and ?c = "[0x42, 0x12, 0x34, 0, 9, 5] :: bytes"
  have "read_with_timeout (run_device rs) 50 ?io = (Inr ?c, ?io\<lparr>reads := Suc (reads ?io)\<rparr>)"
    using run_delivers [OF assms(1)] by (intro read_delivered [where cs = "[]"]) (simp_all add: assms(2))
  moreover have "validate_crc ?c = Inr ()" "\<not> is_ack ?c" "get_or ?c 0 0 AND 0xe7 = ERROR" "get_or ?c 5 0 = 5"
      "validate_channel ?c claim_channel = Inr ()"
    by (simp_all add: validate_crc_def is_ack_def get_or_def ACK_MESSAGE_def ERROR_def validate_channel_def claim_channel_def
        CHANNEL_ALLOCATION_RES_def)
  ultimately have "thp_read_response (run_device rs) (Suc a) (Some claim_channel) ?io
      = Some (thp_err DeviceLocked, \<lparr>written = W, reads = Suc k\<rparr>)"
    by (simp add: run_device_facts Let_def)
  then show ?thesis
    by (simp add: link_read_def run_device_facts on_world_def on_io_def)
qed

lemma locked_init:
  assumes "k < length rs" "rs ! k = [0x42, 0x12, 0x34, 0, 9, 5]" "m q = Some claim_st1"
  shows "\<exists>W'. handshake_init (run_native ld rs code) plain_prim q claim_channel unlock (run_link m W k E n)
     = Some (thp_err DeviceLocked, run_link (m(q \<mapsto> with_protocol_state (update_sync_bit True) claim_st1)) W' (Suc k) E (Suc n))"
proof -
  obtain a where a: "(if unlock then 600 else 100 :: nat) = Suc a" by (cases unlock) (auto simp: eval_nat_numeral)
  have small: "length (encode_handshake_init_request claim_channel (replicate 32 5) u b) \<le> 244" for u b
    by (simp add: encode_handshake_init_request_def Let_def)
  have kp: "keypair_from_secret plain_prim k = (k, k)" for k
    by (simp add: keypair_from_secret_def plain_prim_def)
  show ?thesis
    unfolding handshake_init_def Let_def a
    using assms by (simp add: run_draw kp run_write small run_update_thp run_read_locked) blast
qed

lemma locked_inner:
  assumes "Suc k < length rs" "rs ! k = claim_script ! 0" "rs ! Suc k = [0x42, 0x12, 0x34, 0, 9, 5]" "m q = None"
  shows "\<exists>W'. perform_thp_handshake_inner (run_native ld rs code) plain_prim cx me q skip unlock (run_link m W k E n)
     = Some (thp_err DeviceLocked,
         run_link (m(q \<mapsto> with_protocol_state (update_sync_bit True) claim_st1)) W' (Suc (Suc k)) E (Suc (Suc n)))"
proof -
  obtain W1 where a: "allocate_channel (run_native ld rs code) q (run_link m W k E n)
     = Some (Inr (claim_channel, []), run_link (m(q \<mapsto> claim_st1)) W1 (Suc k) E (Suc n))"
    using run_allocate [of k rs m q] assms by force
  obtain W2 where b: "handshake_init (run_native ld rs code) plain_prim q claim_channel unlock
      (run_link (m(q \<mapsto> claim_st1)) W1 (Suc k) E (Suc n))
     = Some (thp_err DeviceLocked, run_link (m(q \<mapsto> claim_st1, q \<mapsto> with_protocol_state (update_sync_bit True) claim_st1))
         W2 (Suc (Suc k)) E (Suc (Suc n)))"
    using locked_init [of "Suc k" rs "m(q \<mapsto> claim_st1)" q] assms by force
  show ?thesis by (simp add: perform_thp_handshake_inner_def a b) blast
qed

text \<open>
  When the device stays locked through the unlock attempt, the handshake
  fails but the entry of the path remains, with its sync bit advanced. The next handshake on the
  path starts from that entry, although a comment says that a failure always drops it.
\<close>

theorem locked_state_lingers:
  "\<exists>w'. perform_thp_handshake locked_native plain_prim cx me q (run_link Map.empty [] 0 [] 0)
      = Some (thp_err DeviceLocked, w')
    \<and> states w' q = Some (with_protocol_state (update_sync_bit True) claim_st1)"
proof -
  let ?st = "with_protocol_state (update_sync_bit True) claim_st1"
  obtain W1 where a: "perform_thp_handshake_inner locked_native plain_prim cx me q False False (run_link Map.empty [] 0 [] 0)
      = Some (thp_err DeviceLocked, run_link [q \<mapsto> ?st] W1 2 [] 2)"
    using locked_inner [of 0 locked_script Map.empty q no_credential "[]" cx me False False "[]" "[]" 0]
    by (auto simp: locked_native_def locked_script_facts(1,2) locked_script_facts(4) [unfolded One_nat_def] numeral_2_eq_2)
  have r: "reopen locked_native q (run_link [q \<mapsto> ?st] W1 2 [] 2)
      = Some (Inr (), run_link Map.empty W1 2 [Closed q, Opened q] 2)"
    by (simp add: reopen_def log_event_def forget_def open_device_def locked_native_def run_native_def run_link_def)
  obtain W2 where b: "perform_thp_handshake_inner locked_native plain_prim cx me q False True
      (run_link Map.empty W1 2 [Closed q, Opened q] 2)
      = Some (thp_err DeviceLocked, run_link [q \<mapsto> ?st] W2 4 [Closed q, Opened q] 4)"
    using locked_inner [of 2 locked_script Map.empty q no_credential "[]" cx me False True W1 "[Closed q, Opened q]" 2]
    by (auto simp: locked_native_def locked_script_facts(1,3,5))
  have "[0..<MAX_RETRIES] = [0, 1, 2]" by (simp add: MAX_RETRIES_def upt_rec)
  then show ?thesis
    by (simp add: perform_thp_handshake_def a r b)
qed

end
