(* ===== verification/Session_Manager.thy ===== *)
theory Session_Manager
  imports Prelude
begin

text \<open>
  The session manager (\<^verbatim>\<open>transport/session.rs\<close>): which session owns which device. The hash map
  is an association list with distinct keys; its order stands for the unspecified iteration order,
  on which no result depends, because session ids are unique. The locks are those of a single
  caller at a time and are never poisoned. What a transport relies on is the locale
  \<open>session_provider\<close>.
\<close>

section \<open>Definitions\<close>

record SessionManager =
  sessions :: "(string \<times> string) list"
  counter :: u64

definition manager_new :: SessionManager where
  "manager_new = \<lparr>sessions = [], counter = 0\<rparr>"

fun insert_entry :: "string \<Rightarrow> string \<Rightarrow> (string \<times> string) list \<Rightarrow> (string \<times> string) list" where
  "insert_entry p s [] = [(p, s)]"
| "insert_entry p s ((p', s') # m) = (if p' = p then (p, s) # m else (p', s') # insert_entry p s m)"

definition acquire :: "string \<Rightarrow> string option \<Rightarrow> SessionManager \<Rightarrow> (string + string) \<times> SessionManager" where
  "acquire path previous m =
     (let grant =
        (let counter = counter m + 1;
             session_id = show_nat (unat counter)
         in (Inr session_id, m\<lparr>sessions := insert_entry path session_id (sessions m), counter := counter\<rparr>))
      in case map_of (sessions m) path of
           Some current \<Rightarrow>
             (case previous of
                Some prev \<Rightarrow> if current \<noteq> prev then (Inl ''Wrong previous session'', m) else grant
              | None \<Rightarrow> (Inl ''Session already acquired'', m))
         | None \<Rightarrow> grant)"

fun find_session :: "string \<Rightarrow> (string \<times> string) list \<Rightarrow> string option" where
  "find_session session [] = None"
| "find_session session ((p, s) # m) = (if s = session then Some p else find_session session m)"

definition release :: "string \<Rightarrow> SessionManager \<Rightarrow> (string + unit) \<times> SessionManager" where
  "release session m =
     (case find_session session (sessions m) of
        Some path \<Rightarrow> (Inr (), m\<lparr>sessions := filter (\<lambda>(p, s). p \<noteq> path) (sessions m)\<rparr>)
      | None \<Rightarrow> (Inl ''Session not found'', m))"

definition get_path :: "string \<Rightarrow> SessionManager \<Rightarrow> string option" where
  "get_path session m = find_session session (sessions m)"

definition get_session :: "string \<Rightarrow> SessionManager \<Rightarrow> string option" where
  "get_session path m = map_of (sessions m) path"

section \<open>Invariant\<close>

text \<open>Paths and ids are unique, and the ids are the printed values of the counter so far. The
  counter may be advanced \<open>k\<close> more times before it wraps.\<close>

definition manager_inv :: "SessionManager \<Rightarrow> bool" where
  "manager_inv m \<longleftrightarrow>
     distinct (map fst (sessions m)) \<and> distinct (map snd (sessions m))
     \<and> snd ` set (sessions m) \<subseteq> (\<lambda>n. show_nat n) ` {1..unat (counter m)}"

definition can_issue :: "SessionManager \<Rightarrow> bool" where
  "can_issue m \<longleftrightarrow> unat (counter m) + 1 < 2 ^ 64"

lemma manager_inv_new: "manager_inv manager_new"
  by (simp add: manager_inv_def manager_new_def)

lemma insert_entry_fst: "set (map fst (insert_entry p s m)) = insert p (set (map fst m))"
  by (induction p s m rule: insert_entry.induct) (auto simp: insert_commute)

lemma insert_entry_distinct_fst: "distinct (map fst m) \<Longrightarrow> distinct (map fst (insert_entry p s m))"
proof (induction m)
  case (Cons a m)
  then show ?case using insert_entry_fst [of p s m] by (cases a) auto
qed simp

lemma insert_entry_snd: "snd ` set (insert_entry p s m) \<subseteq> insert s (snd ` set m)"
  by (induction p s m rule: insert_entry.induct) auto

lemma insert_entry_distinct_snd:
  "distinct (map snd m) \<Longrightarrow> s \<notin> snd ` set m \<Longrightarrow> distinct (map snd (insert_entry p s m))"
proof (induction m)
  case (Cons a m)
  then show ?case using insert_entry_snd [of p s m] by (cases a) auto
qed simp

lemma map_of_insert_entry: "map_of (insert_entry p s m) = (map_of m)(p \<mapsto> s)"
  by (induction m) (auto simp: fun_eq_iff)

lemma find_session_iff:
  assumes "distinct (map snd m)"
  shows "find_session s m = Some p \<longleftrightarrow> (p, s) \<in> set m"
  using assms by (induction m) (auto simp: rev_image_eqI split: if_splits)

lemma find_session_order:
  assumes "distinct (map snd m)" and "mset m = mset m'"
  shows "find_session s m = find_session s m'"
proof -
  have "set m = set m'" "distinct (map snd m')"
    using assms by (auto dest: mset_eq_setD) (metis mset_eq_imp_distinct_iff mset_map)
  then have "find_session s m = Some p \<longleftrightarrow> find_session s m' = Some p" for p
    using find_session_iff assms(1) by metis
  then show ?thesis by (metis not_None_eq)
qed

lemma counter_next: "can_issue m \<Longrightarrow> unat (counter m + 1) = unat (counter m) + 1"
  by (simp add: can_issue_def unat_word_ariths)

lemma fresh_session:
  assumes "manager_inv m" "can_issue m"
  shows "show_nat (unat (counter m + 1)) \<notin> snd ` set (sessions m)"
  using assms counter_next [OF assms(2)] by (auto simp: manager_inv_def dest!: show_nat_inj)

section \<open>The interface of a session provider\<close>

text \<open>
  What a transport relies on. \<open>path_of\<close> and \<open>session_of\<close> are inverse on a manager in good state;
  a granted session is new and owns its path; a refused request changes nothing; a device in use
  is given away only to a caller that names its current session.
\<close>

locale session_provider =
  fixes inv :: "'m \<Rightarrow> bool"
    and issuable :: "'m \<Rightarrow> bool"
    and acq :: "string \<Rightarrow> string option \<Rightarrow> 'm \<Rightarrow> (string + string) \<times> 'm"
    and rel :: "string \<Rightarrow> 'm \<Rightarrow> (string + unit) \<times> 'm"
    and path_of :: "string \<Rightarrow> 'm \<Rightarrow> string option"
    and session_of :: "string \<Rightarrow> 'm \<Rightarrow> string option"
  assumes link: "inv m \<Longrightarrow> path_of s m = Some p \<longleftrightarrow> session_of p m = Some s"
    and acq_granted: "inv m \<Longrightarrow> issuable m \<Longrightarrow> acq p prev m = (Inr s, m') \<Longrightarrow>
      inv m' \<and> path_of s m = None \<and> session_of p m' = Some s \<and> (\<forall>q. q \<noteq> p \<longrightarrow> session_of q m' = session_of q m)"
    and acq_refused: "acq p prev m = (Inl e, m') \<Longrightarrow> m' = m"
    and acq_iff: "(\<exists>s m'. acq p prev m = (Inr s, m')) \<longleftrightarrow> session_of p m \<in> {None, prev}"
    and rel_spec: "inv m \<Longrightarrow> rel s m = (case path_of s m of None \<Rightarrow> (Inl ''Session not found'', m)
      | Some p \<Rightarrow> (Inr (), snd (rel s m)))"
    and rel_state: "inv m \<Longrightarrow> path_of s m = Some p \<Longrightarrow>
      inv (snd (rel s m)) \<and> (\<forall>q. session_of q (snd (rel s m)) = (if q = p then None else session_of q m))"
begin

lemma path_injective: "inv m \<Longrightarrow> path_of s m = Some p \<Longrightarrow> path_of s' m = Some p \<Longrightarrow> s = s'"
  using link by fastforce

lemma granted_owns: "inv m \<Longrightarrow> issuable m \<Longrightarrow> acq p prev m = (Inr s, m') \<Longrightarrow> path_of s m' = Some p"
  using acq_granted link by metis

lemma takeover_revokes:
  assumes "inv m" "issuable m" "path_of old m = Some p" "acq p prev m = (Inr s, m')"
  shows "prev = Some old \<and> s \<noteq> old \<and> path_of old m' = None"
proof -
  have cur: "session_of p m = Some old" using assms(1,3) link by simp
  then have "prev = Some old" using acq_iff [of p prev m] assms(4) by auto
  moreover have g: "inv m'" "path_of s m = None" "session_of p m' = Some s"
    "\<forall>q. q \<noteq> p \<longrightarrow> session_of q m' = session_of q m"
    using acq_granted [OF assms(1,2,4)] by auto
  then have "s \<noteq> old" using assms(3) by auto
  moreover have "path_of old m' \<noteq> Some q" for q
  proof
    assume "path_of old m' = Some q"
    then have q: "session_of q m' = Some old" using link g(1) by simp
    with g(3) \<open>s \<noteq> old\<close> have "q \<noteq> p" by auto
    with q g(4) have "session_of q m = Some old" by simp
    then have "path_of old m = Some q" using link assms(1) by simp
    with assms(3) \<open>q \<noteq> p\<close> show False by simp
  qed
  ultimately show ?thesis by (metis not_None_eq)
qed

lemma released_unknown:
  assumes "inv m" "path_of s m = Some p"
  shows "rel s m = (Inr (), snd (rel s m))" "path_of s (snd (rel s m)) = None"
    "\<exists>t m'. acq p None (snd (rel s m)) = (Inr t, m')"
proof -
  let ?m = "snd (rel s m)"
  have st: "inv ?m" "\<And>q. session_of q ?m = (if q = p then None else session_of q m)"
    using rel_state [OF assms] by auto
  show "rel s m = (Inr (), ?m)" using rel_spec [OF assms(1), of s] assms(2) by simp
  show "\<exists>t m'. acq p None ?m = (Inr t, m')" using acq_iff [of p None ?m] st(2) by simp
  have "path_of s ?m \<noteq> Some q" for q
  proof
    assume "path_of s ?m = Some q"
    then have "session_of q ?m = Some s" using link st(1) by simp
    then have "q \<noteq> p" "session_of q m = Some s" using st(2) by (auto split: if_splits)
    then have "path_of s m = Some q" using link [OF assms(1)] by simp
    with assms(2) \<open>q \<noteq> p\<close> show False by simp
  qed
  then show "path_of s ?m = None" by (metis not_None_eq)
qed

end

lemma link_sessions:
  assumes "manager_inv m"
  shows "get_path s m = Some p \<longleftrightarrow> get_session p m = Some s"
  using assms by (simp add: manager_inv_def get_path_def get_session_def find_session_iff)

lemma acquire_granted:
  assumes "acquire p prev m = (Inr s, m')"
  shows "s = show_nat (unat (counter m + 1))"
    "m' = m\<lparr>sessions := insert_entry p s (sessions m), counter := counter m + 1\<rparr>"
  using assms by (auto simp: acquire_def Let_def split: option.splits if_splits)

lemma manager_inv_acquire:
  assumes "manager_inv m" "can_issue m" "acquire p prev m = (Inr s, m')"
  shows "manager_inv m'"
proof -
  note g = acquire_granted [OF assms(3)]
  have n: "unat (counter m + 1) = unat (counter m) + 1" using assms(2) by (rule counter_next)
  have "s \<notin> snd ` set (sessions m)" using fresh_session [OF assms(1,2)] g(1) by simp
  moreover have "snd ` set (insert_entry p s (sessions m)) \<subseteq> show_nat ` {1..unat (counter m + 1)}"
  proof -
    have "snd ` set (sessions m) \<subseteq> show_nat ` {1..unat (counter m) + 1}"
      using assms(1) by (auto simp: manager_inv_def dest!: subsetD)
    moreover have "s \<in> show_nat ` {1..unat (counter m) + 1}" using g(1) n by simp
    ultimately show ?thesis unfolding n
      by (intro subset_trans [OF insert_entry_snd]) (simp only: insert_subset simp_thms)
  qed
  ultimately show ?thesis
    using assms(1) g(2) insert_entry_distinct_fst insert_entry_distinct_snd by (simp add: manager_inv_def)
qed

lemma distinct_map_filter_snd: "distinct (map f xs) \<Longrightarrow> distinct (map f (filter P xs))"
  by (simp add: distinct_map_filter)

lemma map_of_filter_key: "map_of (filter (\<lambda>(p, s). p \<noteq> path) m) q = (if q = path then None else map_of m q)"
  by (induction m) auto

lemma manager_inv_filter: "manager_inv m \<Longrightarrow> manager_inv (m\<lparr>sessions := filter P (sessions m)\<rparr>)"
  by (auto simp: manager_inv_def distinct_map_filter)

interpretation callback_sessions: session_provider manager_inv can_issue acquire release get_path get_session
proof
  show "get_path s m = Some p \<longleftrightarrow> get_session p m = Some s" if "manager_inv m" for m s p
    using that by (rule link_sessions)
  show "manager_inv m' \<and> get_path s m = None \<and> get_session p m' = Some s
      \<and> (\<forall>q. q \<noteq> p \<longrightarrow> get_session q m' = get_session q m)"
    if "manager_inv m" "can_issue m" "acquire p prev m = (Inr s, m')" for m p prev s m'
  proof -
    have "get_path s m \<noteq> Some q" for q
      using fresh_session [OF that(1,2)] acquire_granted(1) [OF that(3)] that(1)
      by (auto simp: get_path_def manager_inv_def find_session_iff image_iff)
    then have "get_path s m = None" by (metis not_None_eq)
    then show ?thesis
      using manager_inv_acquire [OF that] acquire_granted [OF that(3)]
      by (simp add: get_session_def map_of_insert_entry)
  qed
  show "m' = m" if "acquire p prev m = (Inl e, m')" for p prev m e m'
    using that by (auto simp: acquire_def Let_def split: option.splits if_splits)
  show "(\<exists>s m'. acquire p prev m = (Inr s, m')) \<longleftrightarrow> get_session p m \<in> {None, prev}" for p prev m
    by (auto simp: acquire_def Let_def get_session_def split: option.splits)
  show "release s m = (case get_path s m of None \<Rightarrow> (Inl ''Session not found'', m) | Some p \<Rightarrow> (Inr (), snd (release s m)))"
    for m s
    by (auto simp: release_def get_path_def split: option.splits)
  show "manager_inv (snd (release s m)) \<and> (\<forall>q. get_session q (snd (release s m)) = (if q = p then None else get_session q m))"
    if "manager_inv m" "get_path s m = Some p" for m s p
    using that by (simp add: release_def get_path_def get_session_def manager_inv_filter map_of_filter_key)
qed

section \<open>Reachable managers\<close>

inductive manager_step :: "SessionManager \<Rightarrow> SessionManager \<Rightarrow> bool" where
  acquire: "can_issue m \<Longrightarrow> manager_step m (snd (acquire p prev m))"
| release: "manager_step m (snd (release s m))"

lemma manager_step_inv: "manager_step m m' \<Longrightarrow> manager_inv m \<Longrightarrow> manager_inv m'"
proof (induction rule: manager_step.induct)
  case (acquire m p prev)
  obtain r m' where "acquire p prev m = (r, m')" by fastforce
  with acquire show ?case
  proof (cases r)
    case (Inl e)
    with \<open>acquire p prev m = (r, m')\<close> have "m' = m" using callback_sessions.acq_refused by blast
    with acquire \<open>acquire p prev m = (r, m')\<close> show ?thesis by simp
  next
    case (Inr s)
    with acquire \<open>acquire p prev m = (r, m')\<close> show ?thesis using manager_inv_acquire by simp
  qed
next
  case (release m s)
  then show ?case
    by (cases "get_path s m") (auto simp: release_def get_path_def dest: manager_inv_filter)
qed

lemma manager_reachable_inv: "manager_step\<^sup>*\<^sup>* manager_new m \<Longrightarrow> manager_inv m"
  by (induction rule: rtranclp_induct) (auto intro: manager_inv_new manager_step_inv)

section \<open>Properties\<close>

text \<open>
  In every manager that acquiring and releasing can produce before the 64-bit counter
  is used up, each session names one device and each device has at most one session, whatever the
  order in which the hash map is searched.
\<close>

theorem sessions_exclusive:
  assumes "manager_step\<^sup>*\<^sup>* manager_new m"
  shows "(get_path s m = Some p \<longleftrightarrow> get_session p m = Some s)
    \<and> (mset entries = mset (sessions m) \<longrightarrow> find_session s entries = get_path s m)"
proof -
  have inv: "manager_inv m" using assms by (rule manager_reachable_inv)
  then have "distinct (map snd (sessions m))" by (simp add: manager_inv_def)
  then have "mset entries = mset (sessions m) \<Longrightarrow> find_session s entries = get_path s m"
    unfolding get_path_def by (metis find_session_order)
  with link_sessions [OF inv] show ?thesis by blast
qed

theorem sessions_exclusive_witness:
  "manager_step\<^sup>*\<^sup>* manager_new (snd (acquire ''usb'' None manager_new))
   \<and> (get_path ''1'' (snd (acquire ''usb'' None manager_new)) = Some ''usb'')
   = (get_session ''usb'' (snd (acquire ''usb'' None manager_new)) = Some ''1'')"
proof -
  have "manager_step\<^sup>*\<^sup>* manager_new (snd (acquire ''usb'' None manager_new))"
    by (intro r_into_rtranclp manager_step.acquire) (simp add: can_issue_def manager_new_def)
  with sessions_exclusive [OF this, of "''1''" "''usb''" "[]"] show ?thesis by blast
qed

text \<open>
  A device in use is handed over only to a caller that names its current session; the new
  session is then the only one that reaches the device, and the old one is unknown.
\<close>

theorem session_takeover:
  assumes "manager_step\<^sup>*\<^sup>* manager_new m" and "can_issue m"
    and "get_path old m = Some p" and "acquire p prev m = (Inr s, m')"
  shows "prev = Some old \<and> get_path s m' = Some p \<and> get_path old m' = None"
  using callback_sessions.takeover_revokes [OF manager_reachable_inv assms(2-4)]
    callback_sessions.granted_owns [OF manager_reachable_inv assms(2,4)] assms(1) by blast

theorem session_takeover_witness:
  "\<exists>m'. acquire ''usb'' (Some ''1'') (snd (acquire ''usb'' None manager_new)) = (Inr ''2'', m')
     \<and> get_path ''2'' m' = Some ''usb'' \<and> get_path ''1'' m' = None"
proof -
  let ?m = "snd (acquire ''usb'' None manager_new)"
  have reach: "manager_step\<^sup>*\<^sup>* manager_new ?m"
    by (intro r_into_rtranclp manager_step.acquire) (simp add: can_issue_def manager_new_def)
  have m: "?m = \<lparr>sessions = [(''usb'', ''1'')], counter = 1\<rparr>"
    by (simp add: acquire_def manager_new_def show_nat.simps digit_char_def char_of_eq_iff Let_def)
  have acq: "acquire ''usb'' (Some ''1'') ?m = (Inr ''2'', \<lparr>sessions = [(''usb'', ''2'')], counter = 2\<rparr>)"
    unfolding m by (simp add: acquire_def show_nat.simps digit_char_def char_of_eq_iff Let_def)
  have "get_path ''1'' ?m = Some ''usb''" "can_issue ?m" unfolding m by (simp_all add: get_path_def can_issue_def)
  with session_takeover [OF reach _ _ acq] acq show ?thesis by blast
qed

end
