(* ===== verification/Callback_Transport.thy ===== *)
theory Callback_Transport
  imports Handshake_Run Session_Manager
begin

text \<open>
  The transport the mobile apps use (\<^verbatim>\<open>impl Transport for CallbackTransport\<close> in
  \<^verbatim>\<open>transport/callback.rs\<close>): enumeration, acquiring and releasing a session, calls over the
  encrypted protocol or protocol v1, and session creation. The locks that serialize calls make
  each operation a step; the set of existing locks is kept.
\<close>

section \<open>Definitions\<close>

record CallbackDeviceInfo =
  di_path :: string
  di_transport_type :: string
  di_name :: "string option"
  di_vendor_id :: "u16 option"
  di_product_id :: "u16 option"

record CallbackMessageResult =
  mr_success :: bool
  mr_message_type :: u16
  mr_data :: bytes
  mr_error :: string

record DeviceDescriptor =
  dd_path :: string
  dd_vendor_id :: u16
  dd_product_id :: u16
  dd_serial_number :: "string option"
  dd_session :: "string option"

record platform =
  pf_native :: native
  pf_enumerate :: "link \<Rightarrow> CallbackDeviceInfo list"
  pf_call_message :: "string \<Rightarrow> link \<Rightarrow> u16 \<Rightarrow> bytes \<Rightarrow> CallbackMessageResult option"

record CallbackTransport =
  ct_sessions :: SessionManager
  ct_link :: link
  ct_cache :: "string \<rightharpoonup> bool"
  ct_locks :: "string set"
  ct_identity :: identity
  ct_session_passphrase :: string
  ct_session_on_device :: bool

type_synonym 'a transport_op = "CallbackTransport \<Rightarrow> ('a result \<times> CallbackTransport) option"

definition transport_new :: "io \<Rightarrow> CallbackTransport" where
  "transport_new io =
     \<lparr>ct_sessions = manager_new,
      ct_link = \<lparr>states = Map.empty, link_io = io, events = [], draws = 0\<rparr>,
      ct_cache = Map.empty, ct_locks = {},
      ct_identity = \<lparr>host_name = ''trezor-connect-rs'', app_name = ''trezor-connect-rs''\<rparr>,
      ct_session_passphrase = [], ct_session_on_device = False\<rparr>"

definition with_session_passphrase :: "codecs \<Rightarrow> string \<Rightarrow> bool \<Rightarrow> CallbackTransport \<Rightarrow> CallbackTransport" where
  "with_session_passphrase cx passphrase on_device s =
     s\<lparr>ct_session_passphrase := normalize_passphrase cx passphrase, ct_session_on_device := on_device\<rparr>"

definition with_app_identity :: "string \<Rightarrow> string \<Rightarrow> CallbackTransport \<Rightarrow> CallbackTransport" where
  "with_app_identity host app s = s\<lparr>ct_identity := \<lparr>host_name = host, app_name = app\<rparr>\<rparr>"

definition get_call_lock :: "string \<Rightarrow> CallbackTransport \<Rightarrow> CallbackTransport" where
  "get_call_lock path s = s\<lparr>ct_locks := insert path (ct_locks s)\<rparr>"

definition on_link :: "'a link_op \<Rightarrow> 'a transport_op" where
  "on_link m s = map_option (\<lambda>(r, l). (r, s\<lparr>ct_link := l\<rparr>)) (m (ct_link s))"

definition ble_states_of :: "CallbackTransport \<Rightarrow> ble_states" where
  "ble_states_of s = states (ct_link s)"

definition has_thp :: "string \<Rightarrow> CallbackTransport \<Rightarrow> bool" where
  "has_thp path s = (case ble_states_of s path of Some st \<Rightarrow> handshake_complete st | None \<Rightarrow> False)"

definition is_ble_device_heuristic :: "string \<Rightarrow> bool" where
  "is_ble_device_heuristic path \<longleftrightarrow> take 4 path = ''ble:'' \<or> contains ''bluetooth'' path"

definition is_ble_device :: "string \<Rightarrow> CallbackTransport \<Rightarrow> bool" where
  "is_ble_device path s = (case ct_cache s path of Some is_ble \<Rightarrow> is_ble | None \<Rightarrow> is_ble_device_heuristic path)"

definition needs_thp :: "string \<Rightarrow> CallbackTransport \<Rightarrow> bool" where
  "needs_thp path s \<longleftrightarrow> ble_states_of s path \<noteq> None \<or> is_ble_device path s"

subsection \<open>Protocol detection\<close>

fun write_all :: "device \<Rightarrow> bytes list \<Rightarrow> io \<Rightarrow> unit result \<times> io" where
  "write_all dev [] io = (Inr (), io)"
| "write_all dev (c # chunks) io =
     (case write_chunk dev c io of
        (Inl e, io) \<Rightarrow> (Inl e, io)
      | (Inr _, io) \<Rightarrow> write_all dev chunks io)"

text \<open>\<^verbatim>\<open>iter().rposition(|&b| b != 0).map_or(0, |i| i + 1)\<close> as a prefix.\<close>

definition trim_zeros :: "bytes \<Rightarrow> bytes" where
  "trim_zeros xs = rev (dropWhile (\<lambda>b. b = 0) (rev xs))"

definition failure_is_invalid_protocol :: "codecs \<Rightarrow> bytes \<Rightarrow> DecodedMessage \<Rightarrow> bool result" where
  "failure_is_invalid_protocol cx chunk decoded =
     (if dm_message_type decoded \<noteq> 3 then Inr False
      else
        let header_size = PROTOCOL_V1_HEADER_SIZE;
            available = length chunk - header_size;
            payload_len = min (unat (dm_length decoded)) available
        in bind_res (slice chunk header_size (header_size + payload_len)) (\<lambda>raw_payload.
             case failure_decode cx (trim_zeros raw_payload) of
               Some (code, _) \<Rightarrow> Inr (code = Some 17)
             | None \<Rightarrow> Inr False))"

fun detect_loop :: "codecs \<Rightarrow> device \<Rightarrow> nat \<Rightarrow> io \<Rightarrow> bool result \<times> io" where
  "detect_loop cx dev 0 io = (Inr False, io)"
| "detect_loop cx dev (Suc attempts) io =
     (let read_result = dev_read dev io;
          io = io\<lparr>reads := reads io + 1\<rparr>
      in if \<not> rr_success read_result \<or> rr_data read_result = [] then detect_loop cx dev attempts io
         else
           let chunk = rr_data read_result in
           if starts_message chunk
           then (case v1_decode (with_chunk_size (dev_chunk_size dev)) chunk of
                   Inr decoded \<Rightarrow> failure_is_invalid_protocol cx chunk decoded
                 | Inl Panic \<Rightarrow> Inl Panic
                 | Inl (Err e) \<Rightarrow> Inr False, io)
           else
             let ctrl = chunk ! 0 AND 0xe7 in
             if ctrl = CHANNEL_ALLOCATION_RES \<or> ctrl = ERROR \<or> ctrl = HANDSHAKE_INIT_RES then (Inr True, io)
             else detect_loop cx dev attempts io)"

definition detect_thp_protocol :: "platform \<Rightarrow> codecs \<Rightarrow> string \<Rightarrow> bool link_op" where
  "detect_thp_protocol pf cx path w =
     (let dev = device_of (pf_native pf) path w;
          chunk_size = dev_chunk_size dev;
          protocol = with_chunk_size chunk_size;
          cancel_type = 20
      in case v1_encode protocol cancel_type [] of
           Inl e \<Rightarrow> Some (Inl e, w)
         | Inr encoded \<Rightarrow>
             (case create_chunks encoded (snd (get_headers protocol encoded)) chunk_size of
                None \<Rightarrow> None
              | Some chunks \<Rightarrow>
                  (case write_all dev chunks (link_io w) of
                     (Inl e, io) \<Rightarrow> Some (Inl e, w\<lparr>link_io := io\<rparr>)
                   | (Inr _, io) \<Rightarrow>
                       (case detect_loop cx dev 3 io of (r, io) \<Rightarrow> Some (r, w\<lparr>link_io := io\<rparr>)))))"

subsection \<open>Protocol v1 calls\<close>

fun find_first_io :: "device \<Rightarrow> nat \<Rightarrow> io \<Rightarrow> bytes option \<times> io" where
  "find_first_io dev 0 io = (None, io)"
| "find_first_io dev (Suc attempts) io =
     (let r = dev_read dev io;
          io = io\<lparr>reads := reads io + 1\<rparr>
      in if \<not> rr_success r \<or> rr_data r = [] then find_first_io dev attempts io
         else if starts_message (rr_data r) then (Some (rr_data r), io)
         else find_first_io dev attempts io)"

fun read_rest_io :: "device \<Rightarrow> nat \<Rightarrow> io \<Rightarrow> bytes list result \<times> io" where
  "read_rest_io dev 0 io = (Inr [], io)"
| "read_rest_io dev (Suc k) io =
     (let r = dev_read dev io;
          io = io\<lparr>reads := reads io + 1\<rparr>
      in if \<not> rr_success r then (transport_err (DataTransfer (rr_error r)), io)
         else case read_rest_io dev k io of
                (Inl e, io) \<Rightarrow> (Inl e, io)
              | (Inr cs, io) \<Rightarrow> (Inr (rr_data r # cs), io))"

definition read_reply_io :: "device \<Rightarrow> io \<Rightarrow> (u16 \<times> bytes) result \<times> io" where
  "read_reply_io dev io =
     (let chunk_size = dev_chunk_size dev in
      case find_first_io dev 20 io of
        (None, io) \<Rightarrow> (transport_err (DataTransfer ''No Protocol v1 header found''), io)
      | (Some first_chunk, io) \<Rightarrow>
          (case v1_decode (with_chunk_size chunk_size) first_chunk of
             Inl e \<Rightarrow> (Inl e, io)
           | Inr decoded \<Rightarrow>
               let header_size = PROTOCOL_V1_HEADER_SIZE;
                   first_payload_size = usize_sub chunk_size header_size;
                   len = unat (dm_length decoded);
                   remaining = (if first_payload_size < len then len - first_payload_size else 0);
                   num_chunks =
                     (if 0 < remaining
                      then let continuation_payload = usize_sub chunk_size 1
                           in (remaining + continuation_payload - 1) div continuation_payload
                      else 0)
               in case read_rest_io dev num_chunks io of
                    (Inl e, io) \<Rightarrow> (Inl e, io)
                  | (Inr rest, io) \<Rightarrow>
                      (bind_res (reassemble_chunks (first_chunk # rest) header_size 1 len) (\<lambda>payload.
                         Inr (dm_message_type decoded, payload)), io)))"

definition call_v1 :: "platform \<Rightarrow> string \<Rightarrow> u16 \<Rightarrow> bytes \<Rightarrow> (u16 \<times> bytes) link_op" where
  "call_v1 pf path message_type data w =
     (let dev = device_of (pf_native pf) path w;
          protocol = with_chunk_size (dev_chunk_size dev)
      in case v1_encode protocol message_type data of
           Inl e \<Rightarrow> Some (Inl e, w)
         | Inr encoded \<Rightarrow>
             (case create_chunks encoded (snd (get_headers protocol encoded)) (dev_chunk_size dev) of
                None \<Rightarrow> None
              | Some chunks \<Rightarrow>
                  (case write_all dev chunks (link_io w) of
                     (Inl e, io) \<Rightarrow> Some (Inl e, w\<lparr>link_io := io\<rparr>)
                   | (Inr _, io) \<Rightarrow>
                       (case read_reply_io dev io of (r, io) \<Rightarrow> Some (r, w\<lparr>link_io := io\<rparr>)))))"

subsection \<open>The operations of the transport\<close>

definition enumerate :: "platform \<Rightarrow> CallbackTransport \<Rightarrow> DeviceDescriptor list \<times> CallbackTransport" where
  "enumerate pf s =
     (let devices = pf_enumerate pf (ct_link s)
      in (map (\<lambda>d. \<lparr>dd_path = di_path d,
             dd_vendor_id = (case di_vendor_id d of Some v \<Rightarrow> v | None \<Rightarrow> 0x1209),
             dd_product_id = (case di_product_id d of Some v \<Rightarrow> v | None \<Rightarrow> 0x53c1),
             dd_serial_number = None, dd_session = None\<rparr>) devices,
          s\<lparr>ct_cache := foldl (\<lambda>cache d. cache(di_path d \<mapsto> (di_transport_type d = ''bluetooth''))) (ct_cache s) devices\<rparr>))"

definition open_failed :: "string \<Rightarrow> string \<Rightarrow> 'a result" where
  "open_failed path error =
     transport_err (UnableToOpen (if error = [] then ''Failed to open device: '' @ path else error))"

definition prepare :: "platform \<Rightarrow> primitives \<Rightarrow> codecs \<Rightarrow> string \<Rightarrow> unit transport_op" where
  "prepare pf prim cx path s =
     (let handshake = on_link (perform_thp_handshake (pf_native pf) prim cx (ct_identity s) path) in
      if is_ble_device path s
      then if \<not> has_thp path s then handshake s else Some (Inr (), s)
      else
        let devices = pf_enumerate pf (ct_link s);
            is_model_one = list_ex (\<lambda>d. di_path d = path \<and> di_vendor_id d = Some 0x534c
              \<and> di_product_id d = Some 0x0001) devices
        in if \<not> has_thp path s \<and> \<not> is_model_one
           then case on_link (detect_thp_protocol pf cx path) s of
                  None \<Rightarrow> None
                | Some (Inr needed, s) \<Rightarrow> if needed then handshake s else Some (Inr (), s)
                | Some (Inl Panic, s) \<Rightarrow> Some (Inl Panic, s)
                | Some (Inl (Err e), s) \<Rightarrow> Some (Inr (), s)
           else Some (Inr (), s))"

definition transport_acquire ::
    "platform \<Rightarrow> primitives \<Rightarrow> codecs \<Rightarrow> string \<Rightarrow> string option \<Rightarrow> string transport_op" where
  "transport_acquire pf prim cx path previous s =
     (let (result, l) = open_device (pf_native pf) path (ct_link s);
          s = s\<lparr>ct_link := l\<rparr>
      in if \<not> wr_success result then Some (open_failed path (wr_error result), s)
         else
         bind_op (prepare pf prim cx path s) (\<lambda>_ s.
         case acquire path previous (ct_sessions s) of
           (Inl e, m) \<Rightarrow> Some (transport_err (DataTransfer e), s\<lparr>ct_sessions := m\<rparr>)
         | (Inr session, m) \<Rightarrow> Some (Inr session, s\<lparr>ct_sessions := m\<rparr>)))"

definition transport_release :: "string \<Rightarrow> unit transport_op" where
  "transport_release session s =
     (let s = (case get_path session (ct_sessions s) of
                 Some path \<Rightarrow>
                   s\<lparr>ct_link := forget path (log_event (Closed path) (ct_link s)), ct_locks := ct_locks s - {path}\<rparr>
               | None \<Rightarrow> s)
      in case release session (ct_sessions s) of
           (Inl e, m) \<Rightarrow> Some (transport_err (DataTransfer e), s\<lparr>ct_sessions := m\<rparr>)
         | (Inr _, m) \<Rightarrow> Some (Inr (), s\<lparr>ct_sessions := m\<rparr>))"

definition thp_link_call :: "platform \<Rightarrow> primitives \<Rightarrow> string \<Rightarrow> u16 \<Rightarrow> bytes \<Rightarrow> (u16 \<times> bytes) link_op" where
  "thp_link_call pf prim path message_type data w =
     on_world (thp_call prim (device_of (pf_native pf) path w) path message_type data) w"

definition transport_call ::
    "platform \<Rightarrow> primitives \<Rightarrow> string \<Rightarrow> u16 \<Rightarrow> bytes \<Rightarrow> (u16 \<times> bytes) transport_op" where
  "transport_call pf prim session message_type data s =
     (case get_path session (ct_sessions s) of
        None \<Rightarrow> Some (transport_err DeviceNotFound, s)
      | Some path \<Rightarrow>
          let s = get_call_lock path s in
          if needs_thp path s
          then
            let is_paired = (case ble_states_of s path of Some st \<Rightarrow> is_paired (protocol_state st) | None \<Rightarrow> False)
            in if is_paired then on_link (thp_link_call pf prim path message_type data) s
               else Some (transport_err (DataTransfer ''THP device not paired - handshake required''), s)
          else
            (case pf_call_message pf path (ct_link s) message_type data of
               Some result \<Rightarrow>
                 if mr_success result then Some (Inr (mr_message_type result, mr_data result), s)
                 else Some (transport_err (DataTransfer (mr_error result)), s)
             | None \<Rightarrow> on_link (call_v1 pf path message_type data) s))"

definition transport_stop :: "CallbackTransport \<Rightarrow> CallbackTransport" where
  "transport_stop s = s\<lparr>ct_locks := {}\<rparr>"

definition create_session ::
    "platform \<Rightarrow> primitives \<Rightarrow> codecs \<Rightarrow> string \<Rightarrow> string option \<Rightarrow> bool \<Rightarrow> unit transport_op" where
  "create_session pf prim cx session passphrase on_device s =
     (case get_path session (ct_sessions s) of
        None \<Rightarrow> Some (transport_err DeviceNotFound, s)
      | Some path \<Rightarrow>
          if \<not> needs_thp path s then Some (Inr (), s)
          else
            (case ble_states_of s path of
               None \<Rightarrow> Some (transport_err DeviceNotFound, s)
             | Some st \<Rightarrow>
                 on_link (create_thp_session (pf_native pf) prim cx path (channel (protocol_state st)) passphrase on_device) s))"

section \<open>Completed channels are paired\<close>

definition complete_paired :: "ble_states \<Rightarrow> bool" where
  "complete_paired m \<longleftrightarrow> (\<forall>p st. m p = Some st \<longrightarrow> handshake_complete st \<longrightarrow> is_paired (protocol_state st))"

lemma complete_paired_same:
  assumes "complete_paired m" "same_channel p m m'"
  shows "complete_paired m'"
  unfolding complete_paired_def
proof (intro allI impI)
  fix q st assume q: "m' q = Some st" and c: "handshake_complete st"
  show "is_paired (protocol_state st)"
  proof (cases "q = p")
    case True
    then show ?thesis using assms q c by (cases "m p") (auto simp: same_channel_def complete_paired_def)
  next
    case False
    then show ?thesis using assms q c by (auto simp: same_channel_def complete_paired_def)
  qed
qed

named_theorems complete \<open>operations that keep completed channels paired\<close>

lemma complete_keeps:
  assumes "\<And>m. same_channel p m (states w) \<Longrightarrow> ends x (\<lambda>r w'. same_channel p m (states w'))"
    and "complete_paired (states w)"
  shows "ends x (\<lambda>r w'. complete_paired (states w'))"
  using assms(1) [OF same_channel_refl] assms(2) by (auto simp: ends_def intro: complete_paired_same)

lemma complete_steps [complete]:
  "complete_paired (states w) \<Longrightarrow> ends (handshake_init nl prim p ch u w) (\<lambda>r w'. complete_paired (states w'))"
  "complete_paired (states w) \<Longrightarrow> ends (derive_keys nl prim p props eh resp u stored w) (\<lambda>r w'. complete_paired (states w'))"
  "complete_paired (states w) \<Longrightarrow> ends (handshake_completion nl prim p ch req w) (\<lambda>r w'. complete_paired (states w'))"
  "complete_paired (states w) \<Longrightarrow> ends (authenticate nl prim cx me p ch sent c w) (\<lambda>r w'. complete_paired (states w'))"
  "complete_paired (states w) \<Longrightarrow> ends (exchange nl prim p ch t d w) (\<lambda>r w'. complete_paired (states w'))"
  by (erule complete_keeps [rotated], erule keeps)+

lemma enter_channel_complete: "complete_paired (states w) \<Longrightarrow> complete_paired (states (enter_channel p ch w))"
  by (simp add: complete_paired_def enter_channel_def Let_def split: option.split)

lemma allocate_channel_complete [complete]:
  "complete_paired (states w) \<Longrightarrow> ends (allocate_channel nl p w) (\<lambda>r w'. complete_paired (states w'))"
  unfolding allocate_channel_def Let_def case_prod_beta
  by (intro ends_keep_bind link_io_keeps [where P = complete_paired]) (simp_all add: enter_channel_complete)

lemma mark_complete_complete [complete]:
  "complete_paired (states w) \<Longrightarrow> ends (mark_complete p ch w) (\<lambda>r w'. complete_paired (states w'))"
  by (auto simp: mark_complete_def paired_on_def update_device_def complete_paired_def protocol_state_def
      split: option.splits)

lemma inner_complete [complete]:
  "complete_paired (states w) \<Longrightarrow>
   ends (perform_thp_handshake_inner nl prim cx me p skip u w) (\<lambda>r w'. complete_paired (states w'))"
  unfolding perform_thp_handshake_inner_def Let_def case_prod_beta
  by (intro ends_keep_bind complete)

lemma forget_complete: "complete_paired (states w) \<Longrightarrow> complete_paired (states (forget p w))"
  by (simp add: complete_paired_def forget_def)

lemma log_states [simp]: "states (log_event e w) = states w"
  by (simp add: log_event_def)

lemma reopen_complete [complete]:
  "complete_paired (states w) \<Longrightarrow> ends (reopen nl p w) (\<lambda>r w'. complete_paired (states w'))"
  by (simp add: reopen_def open_device_def Let_def forget_complete)

lemma handshake_attempts_complete [complete]:
  "complete_paired (states w) \<Longrightarrow> ends (handshake_attempts nl prim cx me p as w) (\<lambda>r w'. complete_paired (states w'))"
proof (induction as arbitrary: w)
  case (Cons a as)
  have body: "ends (case perform_thp_handshake_inner nl prim cx me p False False s of
       None \<Rightarrow> None
     | Some (Inr _, w) \<Rightarrow> Some (Inr True, w)
     | Some (Inl Panic, w) \<Rightarrow> Some (Inl Panic, w)
     | Some (Inl (Err e), w) \<Rightarrow>
         if e = Thp DeviceLocked
         then bind_op (reopen nl p w) (\<lambda>_ w.
              bind_op (perform_thp_handshake_inner nl prim cx me p False True w) (\<lambda>_ w.
              Some (Inr True, w)))
         else if contains ''CredentialRejected'' (error_text e) then Some (Inr False, w)
         else
           let w = forget p w in
           if \<not> is_retryable (error_text e) then Some (Inl (Err e), w)
           else handshake_attempts nl prim cx me p as w) (\<lambda>r w'. complete_paired (states w'))"
    if s: "complete_paired (states s)" for s
  proof (cases "perform_thp_handshake_inner nl prim cx me p False False s")
    case (Some o')
    obtain r s' where o': "o' = (r, s')" by force
    have c: "complete_paired (states s')" using ends_D [OF inner_complete [OF s] Some [unfolded o']] .
    have "ends (bind_op (reopen nl p s') (\<lambda>_ w. bind_op (perform_thp_handshake_inner nl prim cx me p False True w) (\<lambda>_ w.
              Some (Inr True, w)))) (\<lambda>r w'. complete_paired (states w'))"
      using c by (intro ends_keep_bind complete) auto
    then show ?thesis
      using c forget_complete [OF c] Cons.IH [OF forget_complete [OF c]] unfolding Some o'
      by (auto simp: Let_def split: sum.split fault.split)
  qed simp
  show ?case
    unfolding handshake_attempts.simps using Cons.prems
    by (intro ends_keep_bind body) (auto intro: complete)
qed simp

lemma handshake_complete_paired [complete]:
  "complete_paired (states w) \<Longrightarrow> ends (perform_thp_handshake nl prim cx me p w) (\<lambda>r w'. complete_paired (states w'))"
  unfolding perform_thp_handshake_def Let_def
  by (auto intro!: ends_keep_bind complete)

lemma ack_buttons_keeps [keeps]:
  assumes "same_channel p m (states w)"
  shows "ends (ack_buttons nl prim p ch resp w) (\<lambda>r w'. same_channel p m (states w'))"
proof -
  have "same_channel p m (states w) \<longrightarrow> same_channel p m (states (snd y))"
    if "ack_buttons nl prim p ch resp w = Some y" for y
  proof (rule ack_buttons.raw_induct [of "\<lambda>nl prim q ch resp w y. q = p \<longrightarrow> same_channel p m (states w) \<longrightarrow> same_channel p m (states (snd y))",
        OF _ that, simplified], goal_cases)
    case (1 loop nl prim q ch resp w y)
    show ?case
    proof (intro impI)
      assume q: "q = p" and w: "same_channel p m (states w)"
      show "same_channel p m (states (snd y))"
      proof (cases "fst resp = BUTTON_REQUEST")
        case True
        then obtain r w1 where e: "exchange nl prim p ch BUTTON_ACK [] w = Some (r, w1)"
          using 1(2) q by (auto split: option.splits)
        have w1: "same_channel p m (states w1)" using ends_D [OF exchange_keeps [OF w] e] .
        show ?thesis
        proof (cases r)
          case (Inr next_resp)
          then have "loop nl prim p ch next_resp w1 = Some y" using 1(2) True q e by simp
          then show ?thesis using 1(1) w1 by blast
        qed (use 1(2) True q e w1 in auto)
      qed (use 1(2) w in auto)
    qed
  qed
  then show ?thesis using assms by (auto simp: ends_def)
qed

lemma create_thp_session_keeps [keeps]:
  "same_channel p m (states w) \<Longrightarrow>
   ends (create_thp_session nl prim cx p ch passphrase on_device w) (\<lambda>r w'. same_channel p m (states w'))"
  unfolding create_thp_session_def Let_def
  by (auto intro!: ends_keep_bind keeps simp: create_new_session_id_def Let_def)

section \<open>The invariant of the transport\<close>

definition transport_inv :: "CallbackTransport \<Rightarrow> bool" where
  "transport_inv s \<longleftrightarrow> complete_paired (ble_states_of s) \<and> manager_inv (ct_sessions s)"

inductive transport_step :: "platform \<Rightarrow> primitives \<Rightarrow> codecs \<Rightarrow> CallbackTransport \<Rightarrow> CallbackTransport \<Rightarrow> bool"
  for pf prim cx where
  step_enumerate: "transport_step pf prim cx s (snd (enumerate pf s))"
| step_acquire: "can_issue (ct_sessions s) \<Longrightarrow> transport_acquire pf prim cx path previous s = Some (r, s') \<Longrightarrow>
    transport_step pf prim cx s s'"
| step_release: "transport_release session s = Some (r, s') \<Longrightarrow> transport_step pf prim cx s s'"
| step_call: "transport_call pf prim session message_type data s = Some (r, s') \<Longrightarrow> transport_step pf prim cx s s'"
| step_create: "create_session pf prim cx session passphrase on_device s = Some (r, s') \<Longrightarrow> transport_step pf prim cx s s'"
| step_passphrase: "transport_step pf prim cx s (with_session_passphrase cx passphrase on_device s)"
| step_identity: "transport_step pf prim cx s (with_app_identity host app s)"
| step_stop: "transport_step pf prim cx s (transport_stop s)"

lemma on_link_outcome:
  "ends (m (ct_link s)) (\<lambda>r w. complete_paired (states w)) \<Longrightarrow>
   ends (on_link m s) (\<lambda>r s'. complete_paired (ble_states_of s') \<and> ct_sessions s' = ct_sessions s)"
  by (auto simp: ends_def on_link_def ble_states_of_def)

lemma detect_states: "ends (detect_thp_protocol pf cx p w) (\<lambda>r w'. states w' = states w)"
  by (auto simp: ends_def detect_thp_protocol_def Let_def split: sum.splits option.splits prod.splits)

lemma call_v1_states: "ends (call_v1 pf p t d w) (\<lambda>r w'. states w' = states w)"
  by (auto simp: ends_def call_v1_def Let_def split: sum.splits option.splits prod.splits)

lemma thp_link_call_keeps:
  assumes "same_channel p m (states w)"
  shows "ends (thp_link_call pf prim p t d w) (\<lambda>r w'. same_channel p m (states w'))"
proof -
  let ?dev = "device_of (pf_native pf) p w" and ?w = "(states w, link_io w)"
  have "ends (thp_call prim ?dev p t d ?w) (\<lambda>r w'. same_channel p m (fst w'))"
  proof (cases "states w p")
    case (Some st)
    then have "thp_call prim ?dev p t d ?w = send_encrypted_message prim ?dev p (channel (protocol_state st)) t d ?w"
      by (simp add: thp_call_def)
    then show ?thesis
      using send_same_channel [of prim ?dev p "channel (protocol_state st)" t d ?w] same_channel_trans [OF assms]
      by (simp add: ends_def)
  qed (use assms in \<open>simp add: thp_call_def\<close>)
  then show ?thesis unfolding thp_link_call_def by (rule ends_on_world)
qed

lemma prepare_inv:
  assumes "complete_paired (ble_states_of s)"
  shows "ends (prepare pf prim cx p s) (\<lambda>r s'. complete_paired (ble_states_of s') \<and> ct_sessions s' = ct_sessions s)"
proof -
  let ?Q = "\<lambda>s'. complete_paired (ble_states_of s') \<and> ct_sessions s' = ct_sessions s"
  have hs: "ends (on_link (perform_thp_handshake nl prim cx me p) s') (\<lambda>r. ?Q)" if "?Q s'" for nl me s'
    using that
    by (intro ends_weaken [OF on_link_outcome [of "perform_thp_handshake nl prim cx me p" s', OF handshake_complete_paired]]) (simp_all add: ble_states_of_def)
  have det: "?Q s'" if d: "on_link (detect_thp_protocol pf cx p) s = Some (r, s')" for r s'
  proof -
    obtain l where l: "detect_thp_protocol pf cx p (ct_link s) = Some (r, l)" "s' = s\<lparr>ct_link := l\<rparr>"
      using d by (auto simp: on_link_def)
    then show ?thesis using ends_D [OF detect_states l(1)] assms by (simp add: ble_states_of_def)
  qed
  have s0: "?Q s" using assms by simp
  show ?thesis
  proof (cases "on_link (detect_thp_protocol pf cx p) s")
    case None
    then show ?thesis using hs [OF s0] s0 by (simp add: prepare_def Let_def)
  next
    case (Some o')
    obtain r s' where o': "o' = (r, s')" by force
    have q: "?Q s'" using det Some o' by blast
    show ?thesis
      using Some o' hs [OF s0] hs [OF q] s0 q
      by (cases r) (simp_all add: prepare_def Let_def split: fault.split)
  qed
qed

lemma acquire_sessions:
  assumes "manager_inv m" "can_issue m" "acquire p prev m = (r, m')"
  shows "manager_inv m'"
  using assms callback_sessions.acq_granted callback_sessions.acq_refused by (cases r) blast+

lemma transport_acquire_inv:
  assumes "transport_inv s" "can_issue (ct_sessions s)"
  shows "ends (transport_acquire pf prim cx p prev s) (\<lambda>r s'. transport_inv s')"
proof -
  let ?s = "s\<lparr>ct_link := log_event (Opened p) (ct_link s)\<rparr>"
  have c: "complete_paired (ble_states_of ?s)" using assms(1) by (simp add: transport_inv_def ble_states_of_def)
  have "ends (bind_op (prepare pf prim cx p ?s) (\<lambda>_ s.
         case acquire p prev (ct_sessions s) of
           (Inl e, m) \<Rightarrow> Some (transport_err (DataTransfer e), s\<lparr>ct_sessions := m\<rparr>)
         | (Inr session, m) \<Rightarrow> Some (Inr session, s\<lparr>ct_sessions := m\<rparr>))) (\<lambda>r s'. transport_inv s')"
    by (rule ends_step [OF prepare_inv [OF c]])
      (use assms acquire_sessions in \<open>auto simp: transport_inv_def ble_states_of_def split: prod.split sum.split\<close>)
  then show ?thesis
    using c assms by (simp add: transport_acquire_def open_device_def Let_def transport_inv_def ble_states_of_def)
qed

lemma transport_release_inv:
  assumes "transport_inv s"
  shows "ends (transport_release session s) (\<lambda>r s'. transport_inv s')"
proof -
  have "manager_inv (snd (release session (ct_sessions s)))"
    using assms callback_sessions.rel_spec [of "ct_sessions s" session] callback_sessions.rel_state [of "ct_sessions s" session]
    by (cases "get_path session (ct_sessions s)") (auto simp: transport_inv_def)
  then show ?thesis
    using assms forget_complete [of "log_event (Closed _) (ct_link s)"]
    by (auto simp: transport_release_def transport_inv_def ble_states_of_def Let_def ends_def
        split: option.splits prod.splits sum.splits)
qed

lemma transport_call_inv:
  assumes "transport_inv s"
  shows "ends (transport_call pf prim session t d s) (\<lambda>r s'. transport_inv s')"
proof (cases "get_path session (ct_sessions s)")
  case (Some p)
  let ?s = "get_call_lock p s"
  have s: "complete_paired (states (ct_link ?s))" "ct_sessions ?s = ct_sessions s" "transport_inv ?s"
    using assms by (simp_all add: get_call_lock_def transport_inv_def ble_states_of_def)
  have "ends (on_link (thp_link_call pf prim p t d) ?s) (\<lambda>r s'. transport_inv s')"
    using assms s(2)
    by (intro ends_weaken [OF on_link_outcome [of "thp_link_call pf prim p t d" ?s, OF complete_keeps [OF thp_link_call_keeps s(1)]]]) (simp_all add: transport_inv_def)
  moreover have "ends (on_link (call_v1 pf p t d) ?s) (\<lambda>r s'. transport_inv s')"
    using assms s
    by (intro ends_weaken [OF on_link_outcome [of "call_v1 pf p t d" ?s, OF ends_weaken [OF call_v1_states]]]) (simp_all add: transport_inv_def)
  ultimately show ?thesis
    using Some s(3) by (auto simp: transport_call_def Let_def split: option.split)
qed (use assms in \<open>simp add: transport_call_def\<close>)

lemma create_session_inv:
  assumes "transport_inv s"
  shows "ends (create_session pf prim cx session passphrase on_device s) (\<lambda>r s'. transport_inv s')"
proof -
  have c: "complete_paired (states (ct_link s))" using assms by (simp add: transport_inv_def ble_states_of_def)
  have "ends (on_link (create_thp_session nl prim cx p ch passphrase on_device) s) (\<lambda>r s'. transport_inv s')" for nl p ch
    using assms
    by (intro ends_weaken [OF on_link_outcome [of "create_thp_session nl prim cx p ch passphrase on_device" s,
        OF complete_keeps [OF create_thp_session_keeps c]]])
      (simp_all add: transport_inv_def ble_states_of_def)
  then show ?thesis
    using assms by (auto simp: create_session_def split: option.split)
qed

text \<open>\<open>link_frame s s'\<close>: the session table is the same and completed channels are still there.\<close>

definition link_frame :: "CallbackTransport \<Rightarrow> CallbackTransport \<Rightarrow> bool" where
  "link_frame s s' \<longleftrightarrow> ct_sessions s' = ct_sessions s \<and> (\<forall>q. has_thp q s \<longrightarrow> has_thp q s')"

lemma same_channel_has_thp:
  "same_channel p (ble_states_of s) (ble_states_of s') \<Longrightarrow> has_thp q s \<Longrightarrow> has_thp q s'"
  by (cases "q = p") (auto simp: same_channel_def has_thp_def split: option.splits)

lemma on_link_frame:
  assumes "ends (m (ct_link s)) (\<lambda>r w. same_channel p (states (ct_link s)) (states w))"
  shows "ends (on_link m s) (\<lambda>r s'. link_frame s s')"
  using assms same_channel_has_thp [of p s]
  by (auto simp: ends_def on_link_def link_frame_def ble_states_of_def)

lemma transport_call_frame: "ends (transport_call pf prim session t d s) (\<lambda>r s'. link_frame s s')"
proof (cases "get_path session (ct_sessions s)")
  case (Some p)
  let ?s = "get_call_lock p s"
  have s: "link_frame s s'" if "link_frame ?s s'" for s'
    using that by (simp add: link_frame_def has_thp_def ble_states_of_def get_call_lock_def)
  have "ends (on_link (thp_link_call pf prim p t d) ?s) (\<lambda>r s'. link_frame s s')"
    by (rule ends_weaken [OF on_link_frame [of "thp_link_call pf prim p t d" ?s, OF thp_link_call_keeps [OF same_channel_refl]] s])
  moreover have "ends (call_v1 pf p t d (ct_link ?s)) (\<lambda>r w. same_channel p (states (ct_link ?s)) (states w))"
    by (rule ends_weaken [OF call_v1_states]) simp
  then have "ends (on_link (call_v1 pf p t d) ?s) (\<lambda>r s'. link_frame s s')"
    by (rule ends_weaken [OF on_link_frame [of "call_v1 pf p t d" ?s] s])
  ultimately show ?thesis
    using Some s [of ?s] by (auto simp: transport_call_def Let_def link_frame_def split: option.split)
qed (simp add: transport_call_def link_frame_def)

lemma create_session_frame: "ends (create_session pf prim cx session passphrase on_device s) (\<lambda>r s'. link_frame s s')"
proof -
  have "ends (on_link (create_thp_session nl prim cx p ch passphrase on_device) s) (\<lambda>r s'. link_frame s s')" for nl p ch
    by (rule on_link_frame [of "create_thp_session nl prim cx p ch passphrase on_device" s, OF create_thp_session_keeps [OF same_channel_refl]])
  then show ?thesis by (auto simp: create_session_def link_frame_def split: option.split)
qed

lemma transport_step_inv: "transport_step pf prim cx s s' \<Longrightarrow> transport_inv s \<Longrightarrow> transport_inv s'"
proof (induction rule: transport_step.induct)
  case (step_acquire s path previous r s')
  then show ?case using ends_D [OF transport_acquire_inv] by blast
next
  case (step_release session s r s')
  then show ?case using ends_D [OF transport_release_inv] by blast
next
  case (step_call session message_type data s r s')
  then show ?case using ends_D [OF transport_call_inv] by blast
next
  case (step_create session passphrase on_device s r s')
  then show ?case using ends_D [OF create_session_inv] by blast
qed (simp_all add: transport_inv_def ble_states_of_def enumerate_def with_session_passphrase_def with_app_identity_def
    transport_stop_def Let_def)

lemma transport_inv_new: "transport_inv (transport_new io)"
  by (simp add: transport_inv_def transport_new_def ble_states_of_def complete_paired_def manager_inv_new)

lemma transport_reachable_inv: "(transport_step pf prim cx)\<^sup>*\<^sup>* (transport_new io) s \<Longrightarrow> transport_inv s"
  by (induction rule: rtranclp_induct) (auto intro: transport_inv_new transport_step_inv)

lemma transport_inv_facts:
  assumes "transport_inv s"
  shows "(has_thp p s \<longrightarrow> (\<exists>st. ble_states_of s p = Some st \<and> is_paired (protocol_state st)))
    \<and> (get_path x (ct_sessions s) = Some p \<longleftrightarrow> get_session p (ct_sessions s) = Some x)"
  using assms callback_sessions.link [of "ct_sessions s" x p]
  by (auto simp: has_thp_def transport_inv_def complete_paired_def split: option.splits)

section \<open>Properties\<close>

text \<open>
  C14: in every state the transport reaches from its creation, whatever the
  device, the native layer and the caller do, a channel marked complete is paired, each path has at
  most one session, and a session id belongs to one path.
\<close>

theorem transport_sessions_paired:
  assumes "(transport_step pf prim cx)\<^sup>*\<^sup>* (transport_new io) s"
  shows "(has_thp p s \<longrightarrow> (\<exists>st. ble_states_of s p = Some st \<and> is_paired (protocol_state st)))
    \<and> (get_path x (ct_sessions s) = Some p \<longleftrightarrow> get_session p (ct_sessions s) = Some x)"
  by (rule transport_inv_facts [OF transport_reachable_inv [OF assms]])

text \<open>A run: the scripted Bluetooth device is acquired on a new transport.\<close>

definition run_platform :: platform where
  "run_platform = \<lparr>pf_native = claim_native no_credential, pf_enumerate = \<lambda>l. [], pf_call_message = \<lambda>p l t d. None\<rparr>"

definition run_transport :: CallbackTransport where
  "run_transport = transport_new \<lparr>written = [], reads = 0\<rparr>"

lemma run_handshake:
  "\<exists>l. perform_thp_handshake (claim_native no_credential) plain_prim cx me q (run_link Map.empty [] 0 E 0) = Some (Inr (), l)
     \<and> states l q = Some claim_result"
proof -
  obtain l where "perform_thp_handshake_inner (claim_native no_credential) plain_prim cx me q False False (run_link Map.empty [] 0 E 0)
      = Some (Inr (), l)" "states l q = Some claim_result"
    using claim_run(1) [of no_credential q E cx me False False] by (auto simp: no_credential_def)
  then show ?thesis by (simp add: perform_thp_handshake_def MAX_RETRIES_def upt_rec)
qed

lemma run_acquire:
  "\<exists>s'. transport_acquire run_platform plain_prim run_codecs ''ble:1'' None run_transport = Some (Inr ''1'', s')
     \<and> get_path ''1'' (ct_sessions s') = Some ''ble:1'' \<and> has_thp ''ble:1'' s'
     \<and> ct_sessions s' = \<lparr>sessions = [(''ble:1'', ''1'')], counter = 1\<rparr>"
proof -
  let ?s = "run_transport\<lparr>ct_link := log_event (Opened ''ble:1'') (ct_link run_transport)\<rparr>"
  have l: "ct_link ?s = run_link Map.empty [] 0 [Opened ''ble:1''] 0"
    by (simp add: run_transport_def transport_new_def log_event_def run_link_def)
  obtain w where w: "perform_thp_handshake (claim_native no_credential) plain_prim run_codecs (ct_identity ?s) ''ble:1'' (ct_link ?s) = Some (Inr (), w)"
      "states w ''ble:1'' = Some claim_result"
    using run_handshake unfolding l by blast
  have ble: "is_ble_device ''ble:1'' ?s" "\<not> has_thp ''ble:1'' ?s"
    by (simp_all add: is_ble_device_def has_thp_def ble_states_of_def run_transport_def transport_new_def
        is_ble_device_heuristic_def log_event_def)
  then have "prepare run_platform plain_prim run_codecs ''ble:1'' ?s = Some (Inr (), ?s\<lparr>ct_link := w\<rparr>)"
    using w by (simp add: prepare_def on_link_def run_platform_def Let_def)
  moreover have "nl_open (claim_native no_credential) p l = \<lparr>wr_success = True, wr_error = []\<rparr>" for p l
    by (simp add: claim_native_def run_native_def)
  moreover have "acquire ''ble:1'' None (ct_sessions run_transport)
      = (Inr ''1'', \<lparr>sessions = [(''ble:1'', ''1'')], counter = 1\<rparr>)"
    by (simp add: acquire_def run_transport_def transport_new_def manager_new_def show_nat.simps digit_char_def Let_def
        char_of_def bit_iff_odd)
  ultimately show ?thesis
    using w(2)
    by (auto simp: transport_acquire_def open_device_def run_platform_def get_path_def has_thp_def ble_states_of_def claim_result_def)
qed

theorem transport_sessions_paired_witness:
  "\<exists>s' st. (transport_step run_platform plain_prim run_codecs)\<^sup>*\<^sup>* run_transport s' \<and> has_thp ''ble:1'' s'
     \<and> ble_states_of s' ''ble:1'' = Some st \<and> is_paired (protocol_state st)
     \<and> get_session ''ble:1'' (ct_sessions s') = Some ''1''"
proof -
  obtain s' where s': "transport_acquire run_platform plain_prim run_codecs ''ble:1'' None run_transport = Some (Inr ''1'', s')"
      "get_path ''1'' (ct_sessions s') = Some ''ble:1''" "has_thp ''ble:1'' s'"
    using run_acquire by blast
  have "(transport_step run_platform plain_prim run_codecs)\<^sup>*\<^sup>* run_transport s'"
    using s'(1) by (intro r_into_rtranclp step_acquire) (simp_all add: can_issue_def run_transport_def transport_new_def manager_new_def)
  then show ?thesis
    using transport_sessions_paired [of run_platform plain_prim run_codecs "\<lparr>written = [], reads = 0\<rparr>" s' "''ble:1''" "''1''"] s'(2,3)
    by (auto simp: run_transport_def)
qed

text \<open>A successful handshake leaves a complete, paired entry.\<close>

definition ready :: "string \<Rightarrow> ble_states \<Rightarrow> bool" where
  "ready p m \<longleftrightarrow> (\<exists>st. m p = Some st \<and> handshake_complete st \<and> is_paired (protocol_state st))"

lemma mark_complete_ready: "mark_complete p ch w = Some (Inr (), w') \<Longrightarrow> ready p (states w')"
  by (auto simp: mark_complete_def paired_on_def update_device_def ready_def protocol_state_def handshake_err_def
      split: if_splits option.splits)

lemma inner_ready:
  "perform_thp_handshake_inner nl prim cx me p skip u w = Some (Inr (), w') \<Longrightarrow> ready p (states w')"
  by (elim handshake_inner_steps mark_complete_ready)

lemma attempts_ready:
  "handshake_attempts nl prim cx me p as w = Some (Inr True, w') \<Longrightarrow> ready p (states w')"
proof (induction as arbitrary: w)
  case (Cons a as)
  obtain s where s: "(case perform_thp_handshake_inner nl prim cx me p False False s of
       None \<Rightarrow> None
     | Some (Inr _, w) \<Rightarrow> Some (Inr True, w)
     | Some (Inl Panic, w) \<Rightarrow> Some (Inl Panic, w)
     | Some (Inl (Err e), w) \<Rightarrow>
         if e = Thp DeviceLocked
         then bind_op (reopen nl p w) (\<lambda>_ w.
              bind_op (perform_thp_handshake_inner nl prim cx me p False True w) (\<lambda>_ w.
              Some (Inr True, w)))
         else if contains ''CredentialRejected'' (error_text e) then Some (Inr False, w)
         else
           let w = forget p w in
           if \<not> is_retryable (error_text e) then Some (Inl (Err e), w)
           else handshake_attempts nl prim cx me p as w) = Some (Inr True, w')"
    using Cons.prems unfolding handshake_attempts.simps bind_op_Inr by blast
  then obtain r s' where i: "perform_thp_handshake_inner nl prim cx me p False False s = Some (r, s')"
    by (cases "perform_thp_handshake_inner nl prim cx me p False False s") auto
  show ?case
  proof (cases r)
    case (Inr u)
    then show ?thesis using s i inner_ready by auto
  next
    case (Inl e)
    then show ?thesis
      using s i Cons.IH [of "forget p s'"] inner_ready [of nl prim cx me p False True]
      by (cases e) (auto simp: bind_op_Inr Let_def split: if_splits)
  qed
qed simp

lemma handshake_ready: "perform_thp_handshake nl prim cx me p w = Some (Inr (), w') \<Longrightarrow> ready p (states w')"
  by (auto simp: perform_thp_handshake_def bind_op_Inr Let_def split: if_splits intro: attempts_ready inner_ready)

lemma prepare_ready:
  assumes "complete_paired (ble_states_of s)" "is_ble_device p s" "prepare pf prim cx p s = Some (Inr (), s')"
  shows "ready p (ble_states_of s')"
proof (cases "has_thp p s")
  case True
  then show ?thesis
    using assms by (auto simp: prepare_def has_thp_def ready_def complete_paired_def split: option.splits)
next
  case False
  then show ?thesis
    using assms(2,3) handshake_ready by (auto simp: prepare_def on_link_def ble_states_of_def Let_def)
qed

lemma session_granted:
  assumes "transport_inv s" "can_issue (ct_sessions s)" "transport_acquire pf prim cx p prev s = Some (Inr session, s')"
  shows "get_path session (ct_sessions s') = Some p" "is_ble_device p s \<Longrightarrow> ready p (ble_states_of s')"
proof -
  let ?s = "s\<lparr>ct_link := log_event (Opened p) (ct_link s)\<rparr>"
  have c: "complete_paired (ble_states_of ?s)" "is_ble_device p s \<Longrightarrow> is_ble_device p ?s"
    using assms(1) by (simp_all add: transport_inv_def ble_states_of_def is_ble_device_def)
  obtain s1 where p: "prepare pf prim cx p ?s = Some (Inr (), s1)"
    and g: "(case acquire p prev (ct_sessions s1) of
           (Inl e, m) \<Rightarrow> Some (transport_err (DataTransfer e), s1\<lparr>ct_sessions := m\<rparr>)
         | (Inr session, m) \<Rightarrow> Some (Inr session, s1\<lparr>ct_sessions := m\<rparr>)) = Some (Inr session, s')"
    using assms(3) unfolding transport_acquire_def open_device_def open_failed_def Let_def prod.case
    by (auto simp: bind_op_Inr split: if_splits simp del: sum.case prod.case)
  obtain m where a: "acquire p prev (ct_sessions s1) = (Inr session, m)" "s' = s1\<lparr>ct_sessions := m\<rparr>"
  proof (cases "acquire p prev (ct_sessions s1)")
    case (Pair r m)
    then show thesis using g that by (cases r) auto
  qed
  have s1: "ct_sessions s1 = ct_sessions s" using ends_D [OF prepare_inv [OF c(1)] p] by simp
  show "is_ble_device p s \<Longrightarrow> ready p (ble_states_of s')" using prepare_ready [OF c p] a(2) by (simp add: ble_states_of_def)
  show "get_path session (ct_sessions s') = Some p"
    using callback_sessions.granted_owns [of "ct_sessions s" p prev session m] assms(1,2) a s1 by (simp add: transport_inv_def)
qed

text \<open>
  When a session for a Bluetooth device is granted, the session belongs to that
  path and its channel is complete and paired, so a call on the session is sent encrypted on the
  channel and is not refused.
\<close>

theorem acquire_ready:
  assumes "transport_inv s" "can_issue (ct_sessions s)" "is_ble_device p s"
    and "transport_acquire pf prim cx p prev s = Some (Inr session, s')"
  shows "get_path session (ct_sessions s') = Some p \<and> ready p (ble_states_of s')
    \<and> transport_call pf prim session t d s' = on_link (thp_link_call pf prim p t d) (get_call_lock p s')"
  using session_granted [OF assms(1,2,4)] assms(3)
  by (auto simp: transport_call_def Let_def ready_def get_call_lock_def needs_thp_def ble_states_of_def)

theorem acquire_ready_witness:
  "\<exists>s'. transport_acquire run_platform plain_prim run_codecs ''ble:1'' None run_transport = Some (Inr ''1'', s')
     \<and> ready ''ble:1'' (ble_states_of s')
     \<and> transport_call run_platform plain_prim ''1'' 55 [] s'
         = on_link (thp_link_call run_platform plain_prim ''ble:1'' 55 []) (get_call_lock ''ble:1'' s')"
proof -
  obtain s' where s': "transport_acquire run_platform plain_prim run_codecs ''ble:1'' None run_transport = Some (Inr ''1'', s')"
    using run_acquire by blast
  have "is_ble_device ''ble:1'' run_transport" "can_issue (ct_sessions run_transport)" "transport_inv run_transport"
    using transport_inv_new by (simp_all add: is_ble_device_def run_transport_def is_ble_device_heuristic_def transport_new_def
        can_issue_def manager_new_def)
  then show ?thesis using acquire_ready [OF _ _ _ s'] s' by blast
qed

text \<open>
  A call on a session whose path speaks the encrypted protocol but has no
  paired channel is refused with an error, and neither the device nor the session table sees it:
  nothing is written in clear.
\<close>

theorem unpaired_call_refused:
  assumes "get_path session (ct_sessions s) = Some p" "needs_thp p s"
    and "\<And>st. ble_states_of s p = Some st \<Longrightarrow> \<not> is_paired (protocol_state st)"
  shows "\<exists>s'. transport_call pf prim session t d s
      = Some (transport_err (DataTransfer ''THP device not paired - handshake required''), s')
    \<and> ct_link s' = ct_link s \<and> ct_sessions s' = ct_sessions s"
  using assms
  by (auto simp: transport_call_def Let_def get_call_lock_def needs_thp_def is_ble_device_def ble_states_of_def split: option.split)

theorem unpaired_call_refused_witness:
  "\<exists>s'. transport_call run_platform plain_prim ''1'' 55 [1] (run_transport\<lparr>ct_sessions := \<lparr>sessions = [(''ble:1'', ''1'')], counter = 1\<rparr>\<rparr>)
      = Some (transport_err (DataTransfer ''THP device not paired - handshake required''), s')
    \<and> ct_link s' = ct_link run_transport"
  using unpaired_call_refused [of "''1''" "run_transport\<lparr>ct_sessions := \<lparr>sessions = [(''ble:1'', ''1'')], counter = 1\<rparr>\<rparr>" "''ble:1''"
      run_platform plain_prim 55 "[1]"]
  by (auto simp: get_path_def needs_thp_def is_ble_device_def is_ble_device_heuristic_def run_transport_def transport_new_def
      ble_states_of_def)

end
