(* ===== verification/Wallet_Session.thy ===== *)
theory Wallet_Session
  imports Sign_Verified Callback_Transport
begin

text \<open>
  A connected device over the transport of the mobile apps: the composition of
  \<^verbatim>\<open>connected_device.rs\<close> with \<^verbatim>\<open>transport/callback.rs\<close>. The contract of a transport is
  interpreted on the callback transport, so everything a connected device does keeps the
  transport's invariant; and a device without a paired channel is never asked to sign.
\<close>

definition callback_transport :: "platform \<Rightarrow> primitives \<Rightarrow> codecs \<Rightarrow> CallbackTransport Transport" where
  "callback_transport pf prim cx =
     \<lparr>t_call = transport_call pf prim, t_create_session = create_session pf prim cx,
      t_acquire = transport_acquire pf prim cx, t_release = transport_release\<rparr>"

interpretation callback: transport_contract "callback_transport pf prim cx" transport_inv
  by unfold_locales
    (auto simp: callback_transport_def intro: transport_call_inv create_session_inv transport_release_inv)

section \<open>Refused calls\<close>

text \<open>\<open>refuses P d\<close>: in every state of \<open>P\<close> a call fails and leads back into \<open>P\<close>.\<close>

definition refuses :: "('s \<Rightarrow> bool) \<Rightarrow> 's ConnectedDevice \<Rightarrow> bool" where
  "refuses P d \<longleftrightarrow> (\<forall>s t data. P s \<longrightarrow>
     (\<exists>e s'. t_call (cd_transport d) (cd_session d) t data s = Some (Inl e, s') \<and> P s'))"

lemma send_refused: "refuses P d \<Longrightarrow> P s \<Longrightarrow> \<exists>e s'. send c d m s = Some (Inl e, s') \<and> P s'"
  by (simp add: refuses_def send_def)

lemma ask_refused: "refuses P d \<Longrightarrow> P s \<Longrightarrow> \<exists>e s'. ask c d m decode s = Some (Inl e, s') \<and> P s'"
  using send_refused [of P d s c m] by (auto simp: ask_def)

lemma unlock_refused: "refuses P d \<Longrightarrow> P s \<Longrightarrow> \<exists>e s'. send_unlock_path c d u s = Some (Inl e, s') \<and> P s'"
  unfolding send_unlock_path_def
  by (cases "traverse_option (decode_hex (cr_hex c) ''Invalid unlock_path mac hex'') (up_mac u)")
    (auto intro: ask_refused)

lemma key_refused: "refuses P d \<Longrightarrow> P s \<Longrightarrow> \<exists>e s'. get_node_public_key c d p coin u s = Some (Inl e, s') \<and> P s'"
proof (cases u)
  case (Some unlock)
  moreover assume "refuses P d" "P s"
  ultimately show ?thesis using unlock_refused [of P d s c unlock] by (auto simp: get_node_public_key_def)
next
  case None
  moreover assume "refuses P d" "P s"
  ultimately show ?thesis
    using ask_refused [of P d s c "MGetPublicKey \<lparr>gp_address_n = p, gp_show_display = Some False,
        gp_coin_name = Some (coin_name coin), gp_script_type = None\<rparr>" "pb_public_key (cr_pb c)"]
    by (auto simp: get_node_public_key_def)
qed

lemma script_refused:
  assumes "refuses P d" "P s"
  shows "\<exists>r s'. output_script c d params output parsed s = Some (r, s') \<and> P s'"
proof -
  have "\<exists>r s'. bind_op (get_node_public_key c d p coin u s) k = Some (r, s') \<and> P s'"
    for p coin u and k :: "bytes \<Rightarrow> 'a \<Rightarrow> (bytes option, 'a) outcome"
    using key_refused [OF assms, of c p coin u] by auto
  then show ?thesis
    using assms(2) by (auto simp: output_script_def Let_def lift_res_def split: option.split)
qed

lemma scripts_refused:
  "refuses P d \<Longrightarrow> P s \<Longrightarrow> \<exists>r s'. derive_output_scripts c d params ps s = Some (r, s') \<and> P s'"
proof (induction ps arbitrary: s)
  case (Cons p ps)
  obtain out parsed where p: "p = (out, parsed)" by force
  obtain r s1 where h: "output_script c d params out parsed s = Some (r, s1)" "P s1"
    using script_refused [OF Cons.prems] by blast
  show ?case
  proof (cases r)
    case (Inr v)
    obtain r' s2 where "derive_output_scripts c d params ps s1 = Some (r', s2)" "P s2"
      using Cons.IH [OF Cons.prems(1) h(2)] by blast
    then show ?thesis using h Inr p by (cases r') auto
  qed (use h p in auto)
qed simp

lemma bind_lift_refused:
  assumes "P s" "\<And>v. \<exists>e s'. k v s = Some (Inl e, s') \<and> P s'"
  shows "\<exists>e s'. bind_op (lift_res r s) k = Some (Inl e, s') \<and> P s'"
  using assms by (cases r) (auto simp: lift_res_def)

lemma bind_refused:
  assumes "\<exists>r s'. m = Some (r, s') \<and> P s'" "\<And>v s. P s \<Longrightarrow> \<exists>e s'. k v s = Some (Inl e, s') \<and> P s'"
  shows "\<exists>e s'. bind_op m k = Some (Inl e, s') \<and> P s'"
proof -
  obtain r s' where m: "m = Some (r, s')" "P s'" using assms(1) by blast
  then show ?thesis using assms(2) by (cases r) auto
qed

lemma sign_refused:
  assumes "refuses P d" "P s"
  shows "\<exists>e s'. sign_transaction c d params s = Some (Inl e, s') \<and> P s'"
proof -
  have unlock: "\<exists>r s'. (case stp_unlock_path params of Some unlock \<Rightarrow> send_unlock_path c d unlock s | None \<Rightarrow> Some (Inr (), s))
      = Some (r, s') \<and> P s'" if "P s" for s
  proof (cases "stp_unlock_path params")
    case (Some u)
    then show ?thesis using unlock_refused [OF assms(1) that, of c u] by auto
  qed (use that in simp)
  have scripts: "\<exists>r s'. (if stp_serialize params \<noteq> Some False
        then bind_op (derive_output_scripts c d params ps s) (\<lambda>scripts s. Some (Inr (Some scripts), s))
        else Some (Inr None, s)) = Some (r, s') \<and> P s'" if s: "P s" for s ps
  proof -
    obtain r s1 where "derive_output_scripts c d params ps s = Some (r, s1)" "P s1"
      using scripts_refused [OF assms(1) s] by blast
    then show ?thesis using s by (cases r) auto
  qed
  have send: "\<exists>r s'. send c d m s = Some (r, s') \<and> P s'" "\<exists>e s'. bind_op (send c d m s) k = Some (Inl e, s') \<and> P s'"
    if "P s" for s m and k :: "u16 \<times> bytes \<Rightarrow> 'a \<Rightarrow> (SignedTxResponse, 'a) outcome"
    using send_refused [OF assms(1) that, of c m] by auto
  show ?thesis
    unfolding sign_transaction_def
    by (intro bind_lift_refused [where P = P and s = s, OF assms(2)] bind_refused [where P = P, OF scripts [OF assms(2)]]
        bind_refused [where P = P, OF unlock] send(2))
qed

section \<open>Properties\<close>

text \<open>
  C10: on a session whose path speaks the encrypted protocol but has no paired
  channel, signing fails whatever is requested, nothing is written to the device, and the session
  table and the channels are unchanged.
\<close>

theorem sign_needs_pairing:
  assumes "cd_transport d = callback_transport pf prim cx"
    and "get_path (cd_session d) (ct_sessions s) = Some p" "needs_thp p s"
    and "\<And>st. ble_states_of s p = Some st \<Longrightarrow> \<not> is_paired (protocol_state st)"
  shows "\<exists>e s'. sign_transaction c d params s = Some (Inl e, s') \<and> ct_link s' = ct_link s \<and> ct_sessions s' = ct_sessions s"
proof -
  let ?P = "\<lambda>s'. ct_link s' = ct_link s \<and> ct_sessions s' = ct_sessions s \<and> ct_cache s' = ct_cache s"
  have "\<exists>e s'. transport_call pf prim (cd_session d) t data s1 = Some (Inl e, s') \<and> ?P s'" if "?P s1" for s1 t data
    using that assms(2-4)
    by (auto simp: transport_call_def Let_def get_call_lock_def needs_thp_def is_ble_device_def ble_states_of_def split: option.split)
  then have "refuses ?P d" using assms(1) by (simp add: refuses_def callback_transport_def)
  then show ?thesis using sign_refused [of ?P d s] by blast
qed

definition run_device_over :: "string \<Rightarrow> CallbackTransport ConnectedDevice" where
  "run_device_over session =
     connected_new (new_bluetooth ''ble:1'' None) (callback_transport run_platform plain_prim run_codecs) session"

lemma run_device_over_fields [simp]:
  "cd_transport (run_device_over x) = callback_transport run_platform plain_prim run_codecs"
  "cd_session (run_device_over x) = x" "cd_ui_callback (run_device_over x) = None"
  by (simp_all add: run_device_over_def connected_new_def)

theorem sign_needs_pairing_witness:
  "\<exists>e s'. sign_transaction run_crates (run_device_over ''1'') run_params
       (run_transport\<lparr>ct_sessions := \<lparr>sessions = [(''ble:1'', ''1'')], counter = 1\<rparr>\<rparr>) = Some (Inl e, s')
     \<and> ct_link s' = ct_link run_transport"
  using sign_needs_pairing [of "run_device_over ''1''" run_platform plain_prim run_codecs
      "run_transport\<lparr>ct_sessions := \<lparr>sessions = [(''ble:1'', ''1'')], counter = 1\<rparr>\<rparr>" "''ble:1''" run_crates run_params]
  by (auto simp: get_path_def needs_thp_def is_ble_device_def is_ble_device_heuristic_def run_transport_def transport_new_def
      ble_states_of_def)

text \<open>
  Signing over the callback transport keeps its invariant, whatever the
  device, the native layer and the user interface answer: channels marked complete stay paired, and
  sessions and paths stay in one-to-one correspondence.
\<close>

theorem signing_keeps_transport:
  assumes "cd_transport d = callback_transport pf prim cx" "cd_ui_callback d = None"
    and "(transport_step pf prim cx)\<^sup>*\<^sup>* (transport_new io) s"
    and "sign_transaction c d params s = Some (r, s')"
  shows "(has_thp p s' \<longrightarrow> (\<exists>st. ble_states_of s' p = Some st \<and> is_paired (protocol_state st)))
    \<and> (get_path x (ct_sessions s') = Some p \<longleftrightarrow> get_session p (ct_sessions s') = Some x)"
proof -
  have "transport_inv s" by (rule transport_reachable_inv [OF assms(3)])
  moreover have "callback.over pf prim cx d" using assms(1,2) by (simp add: callback.over_def ui_keeps_def)
  ultimately have "transport_inv s'" using ends_D [OF callback.sign_transaction_keeps assms(4)] by blast
  then show ?thesis by (rule transport_inv_facts)
qed

theorem signing_keeps_transport_witness:
  "\<exists>s r s' st. (transport_step run_platform plain_prim run_codecs)\<^sup>*\<^sup>* run_transport s
     \<and> sign_transaction run_crates (run_device_over ''7'') run_params s = Some (r, s')
     \<and> has_thp ''ble:1'' s' \<and> ble_states_of s' ''ble:1'' = Some st \<and> is_paired (protocol_state st)"
proof -
  obtain s where s: "transport_acquire run_platform plain_prim run_codecs ''ble:1'' None run_transport = Some (Inr ''1'', s)"
      "get_path ''1'' (ct_sessions s) = Some ''ble:1''" "has_thp ''ble:1'' s"
      "ct_sessions s = \<lparr>sessions = [(''ble:1'', ''1'')], counter = 1\<rparr>"
    using run_acquire by blast
  have reach: "(transport_step run_platform plain_prim run_codecs)\<^sup>*\<^sup>* run_transport s"
    using s(1) by (intro r_into_rtranclp step_acquire) (simp_all add: can_issue_def run_transport_def transport_new_def manager_new_def)
  have none: "get_path ''7'' (ct_sessions s) = None" using s(4) by (simp add: get_path_def)
  let ?P = "\<lambda>s'. s' = s"
  have "refuses ?P (run_device_over ''7'')"
    using none by (simp add: refuses_def callback_transport_def transport_call_def)
  then obtain e where e: "sign_transaction run_crates (run_device_over ''7'') run_params s = Some (Inl e, s)"
    using sign_refused [of ?P "run_device_over ''7''" s] by blast
  then show ?thesis
    using signing_keeps_transport [OF _ _ reach [unfolded run_transport_def] e] s(3) reach by auto
qed

end
