(* ===== verification/Bridge_Adapter.thy ===== *)
theory Bridge_Adapter
  imports Wallet_Session
begin

text \<open>
  The adapters of the mobile bridge (\<^verbatim>\<open>trezor-bridge/src/lib.rs\<close>): the callbacks of the native
  application become the native layer of the callback transport, pairing credentials are kept in a
  JSON file or in memory, and the answers of the user interface are read. Callbacks may answer
  anything, depending on all that happened; files may be unreadable or only partly written; both,
  with the JSON codec, are arguments.
\<close>

section \<open>Definitions\<close>

subsection \<open>Errors\<close>

datatype BridgeError =
    Connect string | PairingError string | XPub string | Fingerprint string | Sign string | Disconnect string
  | InvalidArg string | Internal string

type_synonym 'a bridge_result = "BridgeError fault + 'a"

text \<open>\<^verbatim>\<open>map_err(|e| TrezorError::C(e.to_string()))\<close>\<close>

definition bridge_err :: "(string \<Rightarrow> BridgeError) \<Rightarrow> 'a result \<Rightarrow> 'a bridge_result" where
  "bridge_err f r = (case r of Inl (Err e) \<Rightarrow> Inl (Err (f (error_text e))) | Inl Panic \<Rightarrow> Inl Panic | Inr v \<Rightarrow> Inr v)"

definition wrap :: "(string \<Rightarrow> BridgeError) \<Rightarrow> ('a, 's) outcome \<Rightarrow> (BridgeError fault, 'a, 's) outcome_with" where
  "wrap f m = map_option (\<lambda>(r, s). (bridge_err f r, s)) m"

subsection \<open>Stored credentials\<close>

record TrezorBleCallbacks =
  cb_write :: "event list \<Rightarrow> io \<Rightarrow> bytes \<Rightarrow> bool"
  cb_read :: "event list \<Rightarrow> io \<Rightarrow> bytes option"
  cb_get_pin :: "CallbackTransport \<Rightarrow> string"
  cb_get_passphrase :: "bool \<Rightarrow> CallbackTransport \<Rightarrow> string"
  cb_get_pairing_code :: "link \<Rightarrow> string"

type_synonym TrezorUsbCallbacks = TrezorBleCallbacks

record thp_creds =
  tc_memory :: "string \<rightharpoonup> string"
  tc_files :: "string \<rightharpoonup> string"

record native_env =
  ne_random :: "nat \<Rightarrow> nat \<Rightarrow> bytes"
  ne_to_json :: "(string \<rightharpoonup> string) \<Rightarrow> string option"
  ne_of_json :: "string \<Rightarrow> (string \<rightharpoonup> string) option"
  ne_value :: "string \<Rightarrow> (string \<Rightarrow> string option) option"
  ne_readable :: "string \<Rightarrow> thp_creds \<Rightarrow> bool"
  ne_writable :: "string \<Rightarrow> thp_creds \<Rightarrow> bool"
  ne_torn :: "string \<Rightarrow> string \<Rightarrow> thp_creds \<Rightarrow> string option"

definition load_creds_file :: "native_env \<Rightarrow> string option \<Rightarrow> thp_creds \<Rightarrow> (string \<rightharpoonup> string)" where
  "load_creds_file env credential_path cs =
     (case credential_path of
        None \<Rightarrow> Map.empty
      | Some path \<Rightarrow>
          if ne_readable env path cs
          then (case Option.bind (tc_files cs path) (ne_of_json env) of Some creds \<Rightarrow> creds | None \<Rightarrow> Map.empty)
          else Map.empty)"

text \<open>The file is truncated when it is opened; a write that fails leaves what \<open>ne_torn\<close> says.\<close>

definition save_creds_file :: "native_env \<Rightarrow> string option \<Rightarrow> (string \<rightharpoonup> string) \<Rightarrow> thp_creds \<Rightarrow> bool \<times> thp_creds" where
  "save_creds_file env credential_path creds cs =
     (case credential_path of
        None \<Rightarrow> (False, cs)
      | Some path \<Rightarrow>
          (case ne_to_json env creds of
             None \<Rightarrow> (False, cs)
           | Some json \<Rightarrow>
               if \<not> ne_writable env path cs then (False, cs)
               else
                 (case ne_torn env path json cs of
                    None \<Rightarrow> (True, cs\<lparr>tc_files := (tc_files cs)(path \<mapsto> json)\<rparr>)
                  | Some torn \<Rightarrow> (False, cs\<lparr>tc_files := (tc_files cs)(path \<mapsto> torn)\<rparr>))))"

definition save_thp_credential :: "native_env \<Rightarrow> string option \<Rightarrow> string \<Rightarrow> string \<Rightarrow> thp_creds \<Rightarrow> bool \<times> thp_creds" where
  "save_thp_credential env credential_path dev_id credential_json cs =
     (let change = (\<lambda>creds :: string \<rightharpoonup> string.
            if credential_json = [] then creds(dev_id := None) else creds(dev_id \<mapsto> credential_json))
      in if credential_path \<noteq> None
         then save_creds_file env credential_path (change (load_creds_file env credential_path cs)) cs
         else (True, cs\<lparr>tc_memory := change (tc_memory cs)\<rparr>))"

definition load_thp_credential :: "native_env \<Rightarrow> string option \<Rightarrow> string \<Rightarrow> thp_creds \<Rightarrow> string option" where
  "load_thp_credential env credential_path dev_id cs =
     (if credential_path \<noteq> None then load_creds_file env credential_path cs dev_id else tc_memory cs dev_id)"

definition clear_thp_credential :: "native_env \<Rightarrow> string option \<Rightarrow> string \<Rightarrow> thp_creds \<Rightarrow> thp_creds" where
  "clear_thp_credential env credential_path dev_id cs =
     (if credential_path \<noteq> None
      then snd (save_creds_file env credential_path ((load_creds_file env credential_path cs)(dev_id := None)) cs)
      else cs\<lparr>tc_memory := (tc_memory cs)(dev_id := None)\<rparr>)"

text \<open>The stored credentials after the calls a transport has logged.\<close>

fun replay :: "native_env \<Rightarrow> string option \<Rightarrow> event list \<Rightarrow> thp_creds \<Rightarrow> thp_creds" where
  "replay env credential_path [] cs = cs"
| "replay env credential_path (Saved dev_id json # es) cs =
     replay env credential_path es (snd (save_thp_credential env credential_path dev_id json cs))"
| "replay env credential_path (Cleared dev_id # es) cs =
     replay env credential_path es (clear_thp_credential env credential_path dev_id cs)"
| "replay env credential_path (Opened _ # es) cs = replay env credential_path es cs"
| "replay env credential_path (Closed _ # es) cs = replay env credential_path es cs"

subsection \<open>The native layer of a connection\<close>

definition ok_result :: write_result where
  "ok_result = \<lparr>wr_success = True, wr_error = []\<rparr>"

definition adapter_write :: "string \<Rightarrow> bool \<Rightarrow> write_result" where
  "adapter_write failed success = \<lparr>wr_success = success, wr_error = (if success then [] else failed)\<rparr>"

definition adapter_read :: "string \<Rightarrow> bytes option \<Rightarrow> read_result" where
  "adapter_read timeout data =
     (case data of
        Some data \<Rightarrow> \<lparr>rr_success = True, rr_data = data, rr_error = []\<rparr>
      | None \<Rightarrow> \<lparr>rr_success = False, rr_data = [], rr_error = timeout\<rparr>)"

definition adapter_native :: "string \<Rightarrow> string \<Rightarrow> nat \<Rightarrow> native_env \<Rightarrow> TrezorBleCallbacks \<Rightarrow> string option \<Rightarrow> thp_creds \<Rightarrow> native" where
  "adapter_native failed timeout chunk_size env cbs credential_path cs =
     \<lparr>nl_device = \<lambda>path es. \<lparr>dev_write = \<lambda>io data. adapter_write failed (cb_write cbs es io data),
        dev_read = \<lambda>io. adapter_read timeout (cb_read cbs es io), dev_chunk_size = chunk_size\<rparr>,
      nl_open = \<lambda>path l. ok_result,
      nl_load = \<lambda>dev_id l. load_thp_credential env credential_path dev_id (replay env credential_path (events l) cs),
      nl_pairing_code = cb_get_pairing_code cbs,
      nl_random = ne_random env\<rparr>"

definition ble_adapter :: "native_env \<Rightarrow> TrezorBleCallbacks \<Rightarrow> string \<Rightarrow> string option \<Rightarrow> thp_creds \<Rightarrow> platform" where
  "ble_adapter env cbs device_uuid credential_path cs =
     \<lparr>pf_native = adapter_native ''BLE write failed'' ''BLE read timeout'' 244 env cbs credential_path cs,
      pf_enumerate = \<lambda>l. [\<lparr>di_path = ''ble:'' @ device_uuid, di_transport_type = ''bluetooth'', di_name = Some ''Trezor Safe 7'',
        di_vendor_id = None, di_product_id = None\<rparr>],
      pf_call_message = \<lambda>path l t d. None\<rparr>"

definition usb_adapter :: "native_env \<Rightarrow> TrezorUsbCallbacks \<Rightarrow> string \<Rightarrow> u16 \<Rightarrow> u16 \<Rightarrow> string option \<Rightarrow> thp_creds \<Rightarrow> platform" where
  "usb_adapter env cbs device_path vendor_id product_id credential_path cs =
     \<lparr>pf_native = adapter_native ''USB write failed'' ''USB read timeout'' 64 env cbs credential_path cs,
      pf_enumerate = \<lambda>l. [\<lparr>di_path = device_path, di_transport_type = ''usb'', di_name = Some ''Trezor'',
        di_vendor_id = Some vendor_id, di_product_id = Some product_id\<rparr>],
      pf_call_message = \<lambda>path l t d. None\<rparr>"

subsection \<open>The user interface\<close>

definition parse_passphrase_response :: "native_env \<Rightarrow> string \<Rightarrow> PassphraseResponse" where
  "parse_passphrase_response env response =
     (case ne_value env response of
        None \<Rightarrow> Cancel
      | Some value \<Rightarrow>
          (case value ''type'' of
             None \<Rightarrow> Cancel
           | Some t \<Rightarrow>
               if t = ''standard'' then Standard
               else if t = ''hidden'' then Hidden (case value ''value'' of Some v \<Rightarrow> v | None \<Rightarrow> [])
               else if t = ''on_device'' then OnDevice
               else Cancel))"

definition ui_adapter :: "native_env \<Rightarrow> TrezorBleCallbacks \<Rightarrow> CallbackTransport TrezorUiCallback" where
  "ui_adapter env cbs =
     \<lparr>on_pin_request = \<lambda>s. (let pin = cb_get_pin cbs s in if pin = [] then None else Some pin, s),
      on_passphrase_request = \<lambda>on_device s. (parse_passphrase_response env (cb_get_passphrase cbs on_device s), s)\<rparr>"

section \<open>Credentials survive\<close>

lemma replay_append: "replay env p (xs @ ys) cs = replay env p ys (replay env p xs cs)"
  by (induction env p xs cs rule: replay.induct) simp_all

text \<open>\<open>touches k e\<close>: the call changes the entry of \<open>k\<close>.\<close>

fun touches :: "string \<Rightarrow> event \<Rightarrow> bool" where
  "touches k (Saved d json) = (d = k)"
| "touches k (Cleared d) = (d = k)"
| "touches k _ = False"

lemma memory_load: "load_thp_credential env None k cs = tc_memory cs k"
  by (simp add: load_thp_credential_def)

lemma memory_replay_other:
  "list_all (\<lambda>e. \<not> touches k e) es \<Longrightarrow> tc_memory (replay env None es cs) k = tc_memory cs k"
  by (induction env "None :: string option" es cs rule: replay.induct)
    (auto simp: save_thp_credential_def clear_thp_credential_def Let_def)

lemma memory_save: "json \<noteq> [] \<Longrightarrow> tc_memory (snd (save_thp_credential env None k json cs)) k = Some json"
  by (simp add: save_thp_credential_def Let_def)

lemma file_save:
  assumes "save_thp_credential env (Some p) k json cs = (True, cs')" "json \<noteq> []"
    and "\<And>m t. ne_to_json env m = Some t \<Longrightarrow> ne_of_json env t = Some m" "ne_readable env p cs'"
  shows "load_thp_credential env (Some p) k cs' = Some json"
    "k' \<noteq> k \<Longrightarrow> load_thp_credential env (Some p) k' cs' = load_thp_credential env (Some p) k' cs"
  using assms
  by (auto simp: save_thp_credential_def load_thp_credential_def save_creds_file_def load_creds_file_def Let_def
      split: option.splits if_splits)

text \<open>The keys a credential is saved with come back through hex and JSON.\<close>

lemma credential_json_back:
  assumes "\<And>b. hex_decode cx (hex_encode cx b) = Some b"
    and "length (sc_host_static_key cred) = 32" "length (sc_trezor_static_public_key cred) = 32"
  shows "credential_of_json cx (json_of_credential cx cred) = cred"
  using assms by (simp add: credential_of_json_def json_of_credential_def array32_or_zero_def)

lemma saved_event:
  assumes "save_credential cx p data w = Some (Inr (), w')" "decode_credential_response data = Some (Inr (pk, token))"
    and "credentials_of p w = Some c" "length (hc_static_key c) = 32" "length pk = 32"
    and "json_encode cx (json_of_credential cx \<lparr>sc_host_static_key = hc_static_key c, sc_trezor_static_public_key = pk,
      sc_credential = token\<rparr>) = Some json"
  shows "events w' = events w @ [Saved p json]"
  using assms by (auto simp: save_credential_def Let_def)

section \<open>Properties\<close>

text \<open>
  C26: the credential a device issues at the end of pairing, saved
  through the adapter, is the one the next handshake with that device starts from: within the same
  connection, and in a later one that begins with the credentials the first has left, whatever other
  devices did in between. Credentials are in memory here; the codecs print what they can parse.
\<close>

theorem paired_credential_reloaded:
  assumes "save_credential cx p data w = Some (Inr (), w')" "decode_credential_response data = Some (Inr (pk, token))"
    and "credentials_of p w = Some c" "length (hc_static_key c) = 32" "length pk = 32"
    and "\<And>b. hex_decode cx (hex_encode cx b) = Some b"
    and "json_encode cx (json_of_credential cx \<lparr>sc_host_static_key = hc_static_key c, sc_trezor_static_public_key = pk,
      sc_credential = token\<rparr>) = Some json"
    and "json \<noteq> []" "json_decode cx json = Some (json_of_credential cx \<lparr>sc_host_static_key = hc_static_key c,
      sc_trezor_static_public_key = pk, sc_credential = token\<rparr>)"
    and "list_all (\<lambda>e. \<not> touches p e) (events w2)"
  shows "load_credential (pf_native (ble_adapter env cbs uuid None cs)) cx p False w'
      = Some \<lparr>sc_host_static_key = hc_static_key c, sc_trezor_static_public_key = pk, sc_credential = token\<rparr>
    \<and> load_credential (pf_native (ble_adapter env2 cbs2 uuid2 None (replay env None (events w') cs))) cx p False w2
      = Some \<lparr>sc_host_static_key = hc_static_key c, sc_trezor_static_public_key = pk, sc_credential = token\<rparr>"
proof -
  have e: "events w' = events w @ [Saved p json]" by (rule saved_event [OF assms(1-5,7)])
  then have "tc_memory (replay env None (events w') cs) p = Some json"
    using memory_save [OF assms(8)] by (simp add: replay_append)
  then show ?thesis
    using assms(4,5,6,9) memory_replay_other [OF assms(10), of env2]
    by (simp add: load_credential_def ble_adapter_def adapter_native_def memory_load credential_json_back)
qed

definition kept_codecs :: codecs where
  "kept_codecs = \<lparr>hex_encode = from_bytes, hex_decode = \<lambda>s. Some (as_bytes s), json_encode = \<lambda>j. Some ''J'',
     json_decode = \<lambda>s. Some \<lparr>js_host_static_key = from_bytes (replicate 32 7), js_trezor_static_public_key = from_bytes (replicate 32 1),
       js_credential = from_bytes [3]\<rparr>,
     failure_decode = \<lambda>b. None, nfkd = \<lambda>s. s\<rparr>"

definition kept_state :: BleDeviceState where
  "kept_state = with_protocol_state (\<lambda>s. s\<lparr>handshake_credentials := Some \<lparr>hc_pairing_methods = [], hc_handshake_hash = [],
       hc_handshake_commitment = [], hc_code_entry_challenge = [], hc_trezor_encrypted_static_pubkey = [],
       hc_host_encrypted_static_pubkey = [], hc_static_key = replicate 32 7, hc_host_static_public_key = [], hc_host_key = [],
       hc_trezor_key = [], hc_trezor_cpace_public_key = []\<rparr>\<rparr>)
     \<lparr>ble_protocol = protocol_thp_new, handshake_complete = False\<rparr>"

definition kept_env :: native_env where
  "kept_env = \<lparr>ne_random = \<lambda>n k. [], ne_to_json = \<lambda>m. None, ne_of_json = \<lambda>t. None, ne_value = \<lambda>t. None,
     ne_readable = \<lambda>p cs. True, ne_writable = \<lambda>p cs. True, ne_torn = \<lambda>p t cs. None\<rparr>"

definition kept_callbacks :: TrezorBleCallbacks where
  "kept_callbacks = \<lparr>cb_write = \<lambda>es io d. True, cb_read = \<lambda>es io. None, cb_get_pin = \<lambda>s. [], cb_get_passphrase = \<lambda>b s. [],
     cb_get_pairing_code = \<lambda>l. []\<rparr>"

theorem paired_credential_reloaded_witness:
  "\<exists>w'. save_credential kept_codecs ''ble:1'' (encode_cpace_host_tag (replicate 32 1) [3])
        (run_link [''ble:1'' \<mapsto> kept_state] [] 0 [] 0) = Some (Inr (), w')
     \<and> load_credential (pf_native (ble_adapter kept_env kept_callbacks ''1'' None
          (replay kept_env None (events w') \<lparr>tc_memory = Map.empty, tc_files = Map.empty\<rparr>))) kept_codecs ''ble:1'' False
        (run_link Map.empty [] 0 [Saved ''ble:2'' ''other''] 0)
       = Some \<lparr>sc_host_static_key = replicate 32 7, sc_trezor_static_public_key = replicate 32 1, sc_credential = [3]\<rparr>"
proof -
  let ?w = "run_link [''ble:1'' \<mapsto> kept_state] [] 0 [] 0" and ?d = "encode_cpace_host_tag (replicate 32 1) [3]"
  have d: "decode_credential_response ?d = Some (Inr (replicate 32 1, [3]))"
    by (rule credential_response_back) simp_all
  obtain c where c: "credentials_of ''ble:1'' ?w = Some c" "hc_static_key c = replicate 32 7"
    by (simp add: credentials_of_def run_link_def kept_state_def with_protocol_state_def protocol_state_def)
  obtain w' where w': "save_credential kept_codecs ''ble:1'' ?d ?w = Some (Inr (), w')"
    using d c by (simp add: save_credential_def Let_def kept_codecs_def)
  have j: "json_of_credential kept_codecs \<lparr>sc_host_static_key = hc_static_key c, sc_trezor_static_public_key = replicate 32 1, sc_credential = [3]\<rparr>
      = \<lparr>js_host_static_key = from_bytes (replicate 32 7), js_trezor_static_public_key = from_bytes (replicate 32 1), js_credential = from_bytes [3]\<rparr>"
    by (simp add: json_of_credential_def kept_codecs_def c)
  have "hex_decode kept_codecs (hex_encode kept_codecs b) = Some b" for b by (simp add: kept_codecs_def)
  moreover have "json_encode kept_codecs x = Some ''J''" "json_decode kept_codecs ''J'' = Some \<lparr>js_host_static_key = from_bytes (replicate 32 7),
      js_trezor_static_public_key = from_bytes (replicate 32 1), js_credential = from_bytes [3]\<rparr>" for x
    by (simp_all add: kept_codecs_def)
  ultimately show ?thesis
    using paired_credential_reloaded [OF w' d c(1), of "''J''" "run_link Map.empty [] 0 [Saved ''ble:2'' ''other''] 0"
        kept_env kept_callbacks "''1''" "\<lparr>tc_memory = Map.empty, tc_files = Map.empty\<rparr>" kept_env kept_callbacks "''1''"] w' c(2) j
    by (simp add: run_link_def)
qed

end
