(* ===== verification/Psbt.thy ===== *)
theory Psbt
  imports Sign_Verified
begin

text \<open>
  PSBT conversion (\<^verbatim>\<open>psbt.rs\<close>): a partially signed transaction becomes a signing request, and
  the signatures of the response go back into it. Reading and printing PSBTs, keys and signatures
  is the \<^verbatim>\<open>bitcoin\<close> crate's, the record \<open>psbt_crate\<close>. Sorted maps of key origins are their lists of entries;
  the order in which a hash map of previous transactions is listed is unspecified, and that of first
  insertion stands for it.
\<close>

section \<open>Definitions\<close>

record PsbtInput =
  pi_bip32_derivation :: "(bytes \<times> u32 list) list"
  pi_tap_key_origins :: "(bytes \<times> u32 list) list"
  pi_witness_utxo :: "TxOut option"
  pi_non_witness_utxo :: "Transaction option"
  pi_partial_sigs :: "bytes \<rightharpoonup> bytes \<times> u32"
  pi_tap_key_sig :: "bytes option"
  pi_sighash_type :: "u32 option"

record PsbtOutput =
  po_bip32_derivation :: "(bytes \<times> u32 list) list"
  po_tap_key_origins :: "(bytes \<times> u32 list) list"

record PartiallySigned =
  ps_unsigned_tx :: Transaction
  ps_inputs :: "PsbtInput list"
  ps_outputs :: "PsbtOutput list"

record psbt_crate =
  pc_deserialize :: "bytes \<Rightarrow> string + PartiallySigned"
  pc_serialize :: "PartiallySigned \<Rightarrow> bytes"
  pc_address_from_script :: "bytes \<Rightarrow> BtcNetwork \<Rightarrow> string + string"
  pc_is_op_return :: "bytes \<Rightarrow> bool"
  pc_ecdsa_from_slice :: "bytes \<Rightarrow> (bytes \<times> u32) option"
  pc_ecdsa_from_der :: "bytes \<Rightarrow> string + bytes"
  pc_ecdsa_hash_ty :: "PsbtInput \<Rightarrow> string + u32"
  pc_taproot_from_slice :: "bytes \<Rightarrow> string + bytes"

definition HARDENED :: u32 where "HARDENED = 0x80000000"

definition format_child :: "u32 \<Rightarrow> string" where
  "format_child child =
     (if is_hardened child then ''/'' @ show_nat (unat (child AND NOT HARDENED)) @ [CHR 0x27]
      else ''/'' @ show_nat (unat child))"

definition format_derivation_path :: "u32 list \<Rightarrow> string" where
  "format_derivation_path path = ''m'' @ concat (map format_child path)"

definition infer_script_type_from_path :: "u32 list \<Rightarrow> ScriptType" where
  "infer_script_type_from_path path =
     (case path of
        [] \<Rightarrow> SpendWitness
      | child # _ \<Rightarrow>
          let purpose = child AND NOT HARDENED
          in if purpose = 44 then SpendAddress
             else if purpose = 49 then SpendP2SHWitness
             else if purpose = 84 then SpendWitness
             else if purpose = 86 then SpendTaproot
             else SpendWitness)"

text \<open>The path and script type of the first key of an entry, if it has keys.\<close>

definition first_key :: "(bytes \<times> u32 list) list \<Rightarrow> (bytes \<times> u32 list) list \<Rightarrow> (string \<times> ScriptType) option" where
  "first_key bip32 tap =
     (case bip32 of
        (_, path) # _ \<Rightarrow> Some (format_derivation_path path, infer_script_type_from_path path)
      | [] \<Rightarrow>
          (case tap of
             (_, path) # _ \<Rightarrow> Some (format_derivation_path path, SpendTaproot)
           | [] \<Rightarrow> None))"

definition default_key :: "string \<times> ScriptType" where
  "default_key = (''m/84'' @ [CHR 0x27] @ ''/0'' @ [CHR 0x27] @ ''/0'' @ [CHR 0x27] @ ''/0/0'', SpendWitness)"

definition psbt_prev_tx :: "bitcoin_crate \<Rightarrow> hex_crate \<Rightarrow> string \<Rightarrow> Transaction \<Rightarrow> SignTxPrevTx" where
  "psbt_prev_tx bc hx txid prev =
     \<lparr>ptx_hash = txid, ptx_version = tx_version prev, ptx_lock_time = tx_lock_time prev,
      ptx_inputs = map (\<lambda>inp. \<lparr>pti_prev_hash = bc_txid_to_string bc (ti_txid inp), pti_prev_index = ti_vout inp,
        pti_script_sig = hx_encode hx (ti_script_sig inp), pti_sequence = ti_sequence inp\<rparr>) (tx_input prev),
      ptx_outputs = map (\<lambda>out. \<lparr>pto_amount = tx_value out, pto_script_pubkey = hx_encode hx (tx_script_pubkey out)\<rparr>)
        (tx_output prev),
      ptx_extra_data = None\<rparr>"

definition psbt_amount :: "nat \<Rightarrow> u32 \<Rightarrow> PsbtInput \<Rightarrow> u64 result" where
  "psbt_amount i prev_index inp =
     (case pi_witness_utxo inp of
        Some utxo \<Rightarrow> Inr (tx_value utxo)
      | None \<Rightarrow>
          (case pi_non_witness_utxo inp of
             Some prev \<Rightarrow>
               if unat prev_index < length (tx_output prev) then Inr (tx_value (tx_output prev ! unat prev_index))
               else Inl Panic
           | None \<Rightarrow> device_err (InvalidInput (''Input '' @ show_nat i @ '': missing both witness_utxo and non_witness_utxo''))))"

definition psbt_input ::
    "bitcoin_crate \<Rightarrow> nat \<Rightarrow> TxIn \<Rightarrow> PsbtInput \<Rightarrow> SignTxInput result" where
  "psbt_input bc i tx_in inp =
     (let (path, script_type) = (case first_key (pi_bip32_derivation inp) (pi_tap_key_origins inp) of
            Some k \<Rightarrow> k
          | None \<Rightarrow> default_key)
      in bind_res (psbt_amount i (ti_vout tx_in) inp) (\<lambda>amount.
         Inr \<lparr>sti_prev_hash = bc_txid_to_string bc (ti_txid tx_in), sti_prev_index = ti_vout tx_in, sti_path = path,
           sti_amount = amount, sti_script_type = script_type, sti_sequence = Some (ti_sequence tx_in),
           sti_orig_hash = None, sti_orig_index = None, sti_multisig = None, sti_script_pubkey = None,
           sti_script_sig = None, sti_witness = None, sti_ownership_proof = None, sti_commitment_data = None\<rparr>))"

text \<open>The loop over the inputs; \<open>prevs\<close> are the previous transactions so far.\<close>

fun psbt_inputs ::
    "bitcoin_crate \<Rightarrow> hex_crate \<Rightarrow> nat \<Rightarrow> TxIn list \<Rightarrow> PsbtInput list \<Rightarrow> SignTxPrevTx list
     \<Rightarrow> (SignTxInput list \<times> SignTxPrevTx list) result" where
  "psbt_inputs bc hx i [] inps prevs = Inr ([], prevs)"
| "psbt_inputs bc hx i (tx_in # tx_ins) [] prevs =
     device_err (InvalidInput (''PSBT missing input data for index '' @ show_nat i))"
| "psbt_inputs bc hx i (tx_in # tx_ins) (inp # inps) prevs =
     bind_res (psbt_input bc i tx_in inp) (\<lambda>input.
     let txid = bc_txid_to_string bc (ti_txid tx_in);
         prevs = (case pi_non_witness_utxo inp of
                    Some prev \<Rightarrow> if txid \<in> ptx_hash ` set prevs then prevs else prevs @ [psbt_prev_tx bc hx txid prev]
                  | None \<Rightarrow> prevs)
     in bind_res (psbt_inputs bc hx (Suc i) tx_ins inps prevs) (\<lambda>(inputs, prevs).
        Inr (input # inputs, prevs)))"

definition plain_output :: "u64 \<Rightarrow> SignTxOutput" where
  "plain_output amount =
     \<lparr>sto_address = None, sto_path = None, sto_amount = amount, sto_script_type = None, sto_op_return_data = None,
      sto_orig_hash = None, sto_orig_index = None, sto_multisig = None, sto_payment_req_index = None\<rparr>"

definition psbt_output ::
    "psbt_crate \<Rightarrow> hex_crate \<Rightarrow> BtcNetwork \<Rightarrow> nat \<Rightarrow> TxOut \<Rightarrow> PsbtOutput option \<Rightarrow> SignTxOutput result" where
  "psbt_output pc hx network i tx_out psbt_out =
     (case Option.bind psbt_out (\<lambda>o'. first_key (po_bip32_derivation o') (po_tap_key_origins o')) of
        Some (path, script_type) \<Rightarrow>
          Inr ((plain_output (tx_value tx_out))\<lparr>sto_path := Some path, sto_script_type := Some script_type\<rparr>)
      | None \<Rightarrow>
          if pc_is_op_return pc (tx_script_pubkey tx_out)
          then Inr ((plain_output 0)\<lparr>sto_op_return_data :=
                 Some (if 2 < length (tx_script_pubkey tx_out) then hx_encode hx (drop 2 (tx_script_pubkey tx_out)) else [])\<rparr>)
          else
            bind_res (map_err (invalid_input (''Output '' @ show_nat i @ '': cannot derive address''))
              (pc_address_from_script pc (tx_script_pubkey tx_out) network)) (\<lambda>address.
            Inr ((plain_output (tx_value tx_out))\<lparr>sto_address := Some address\<rparr>)))"

fun psbt_outputs ::
    "psbt_crate \<Rightarrow> hex_crate \<Rightarrow> BtcNetwork \<Rightarrow> nat \<Rightarrow> TxOut list \<Rightarrow> PsbtOutput list \<Rightarrow> SignTxOutput list result" where
  "psbt_outputs pc hx network i [] outs = Inr []"
| "psbt_outputs pc hx network i (tx_out # tx_outs) outs =
     bind_res (psbt_output pc hx network i tx_out (get outs i)) (\<lambda>out.
     bind_res (psbt_outputs pc hx network (Suc i) tx_outs outs) (\<lambda>rest. Inr (out # rest)))"

fun from_bitcoin_network :: "BtcNetwork \<Rightarrow> Network" where
  "from_bitcoin_network BtcBitcoin = Bitcoin"
| "from_bitcoin_network BtcTestnet = Testnet"
| "from_bitcoin_network BtcSignet = Testnet"
| "from_bitcoin_network BtcRegtest = Regtest"
| "from_bitcoin_network _ = Bitcoin"

definition psbt_to_sign_tx_params ::
    "psbt_crate \<Rightarrow> bitcoin_crate \<Rightarrow> hex_crate \<Rightarrow> bytes \<Rightarrow> BtcNetwork \<Rightarrow> SignTxParams result" where
  "psbt_to_sign_tx_params pc bc hx psbt_bytes network =
     bind_res (map_err (invalid_input ''Invalid PSBT'') (pc_deserialize pc psbt_bytes)) (\<lambda>psbt.
     let tx = ps_unsigned_tx psbt in
     bind_res (psbt_inputs bc hx 0 (tx_input tx) (ps_inputs psbt) []) (\<lambda>(inputs, prevs).
     bind_res (psbt_outputs pc hx network 0 (tx_output tx) (ps_outputs psbt)) (\<lambda>outputs.
     Inr \<lparr>stp_inputs = inputs, stp_outputs = outputs, stp_coin = Some (from_bitcoin_network network),
       stp_lock_time = Some (tx_lock_time tx), stp_version = Some (tx_version tx), stp_prev_txs = prevs,
       stp_push = None, stp_amount_unit = None, stp_serialize = None, stp_chunkify = None,
       stp_unlock_path = None, stp_payment_requests = []\<rparr>)))"

definition parse_ecdsa_signature :: "psbt_crate \<Rightarrow> bytes \<Rightarrow> PsbtInput \<Rightarrow> (bytes \<times> u32) result" where
  "parse_ecdsa_signature pc sig_bytes inp =
     (case pc_ecdsa_from_slice pc sig_bytes of
        Some signature \<Rightarrow> Inr signature
      | None \<Rightarrow>
          bind_res (map_err (invalid_input ''Invalid ECDSA signature'') (pc_ecdsa_from_der pc sig_bytes)) (\<lambda>signature.
          bind_res (map_err (invalid_input ''Invalid PSBT ECDSA sighash type'') (pc_ecdsa_hash_ty pc inp)) (\<lambda>sighash_type.
          Inr (signature, sighash_type))))"

definition apply_signature :: "psbt_crate \<Rightarrow> hex_crate \<Rightarrow> string \<Rightarrow> PsbtInput \<Rightarrow> PsbtInput result" where
  "apply_signature pc hx sig_hex inp =
     bind_res (decode_hex hx ''Invalid signature hex'' sig_hex) (\<lambda>sig_bytes.
     case pi_bip32_derivation inp of
       (pubkey, _) # _ \<Rightarrow>
         bind_res (parse_ecdsa_signature pc sig_bytes inp) (\<lambda>signature.
           Inr (inp\<lparr>pi_partial_sigs := (pi_partial_sigs inp)(pubkey \<mapsto> signature)\<rparr>))
     | [] \<Rightarrow>
         if pi_tap_key_origins inp \<noteq> []
         then bind_res (map_err (invalid_input ''Invalid Taproot signature'') (pc_taproot_from_slice pc sig_bytes)) (\<lambda>tap_sig.
                Inr (inp\<lparr>pi_tap_key_sig := Some tap_sig\<rparr>))
         else Inr inp)"

text \<open>Empty signatures are skipped, and those beyond the inputs are ignored.\<close>

fun apply_signatures :: "psbt_crate \<Rightarrow> hex_crate \<Rightarrow> string list \<Rightarrow> PsbtInput list \<Rightarrow> PsbtInput list result" where
  "apply_signatures pc hx [] inps = Inr inps"
| "apply_signatures pc hx (sig # sigs) [] = Inr []"
| "apply_signatures pc hx (sig # sigs) (inp # inps) =
     bind_res (if sig = [] then Inr inp else apply_signature pc hx sig inp) (\<lambda>inp.
     bind_res (apply_signatures pc hx sigs inps) (\<lambda>inps. Inr (inp # inps)))"

definition apply_signatures_to_psbt :: "psbt_crate \<Rightarrow> hex_crate \<Rightarrow> bytes \<Rightarrow> SignedTxResponse \<Rightarrow> bytes result" where
  "apply_signatures_to_psbt pc hx psbt_bytes signed_tx =
     bind_res (map_err (invalid_input ''Invalid PSBT'') (pc_deserialize pc psbt_bytes)) (\<lambda>psbt.
     bind_res (apply_signatures pc hx (sr_signatures signed_tx) (ps_inputs psbt)) (\<lambda>inps.
     Inr (pc_serialize pc (psbt\<lparr>ps_inputs := inps\<rparr>))))"

section \<open>Paths\<close>

lemma format_child_serialize: "format_child x = ''/'' @ serialize_component x"
proof (cases "is_hardened x")
  case True
  have "x AND NOT HARDENED = x - HARDENED_OFFSET"
    using unharden_sub [OF True] by (simp add: HARDENED_def HARDENED_OFFSET_def)
  then show ?thesis using True by (simp add: format_child_def serialize_component_def is_hardened_def)
next
  case False
  then show ?thesis by (simp add: format_child_def serialize_component_def is_hardened_def)
qed

lemma join_slash: "xs \<noteq> [] \<Longrightarrow> ''/'' @ join ''/'' xs = concat (map (\<lambda>x. ''/'' @ x) xs)"
  by (induction xs rule: induct_list012) auto

lemma format_is_serialize: "format_derivation_path path = serialize_path path"
proof (cases "path = []")
  case False
  have "concat (map format_child path) = concat (map (\<lambda>x. ''/'' @ x) (map serialize_component path))"
    using ext [of format_child "\<lambda>x. ''/'' @ serialize_component x", OF format_child_serialize] by (simp add: comp_def)
  also have "\<dots> = ''/'' @ join ''/'' (map serialize_component path)" using False join_slash [of "map serialize_component path"] by simp
  finally show ?thesis using False by (simp add: format_derivation_path_def serialize_path_def Let_def)
qed (simp add: format_derivation_path_def serialize_path_def)

lemma infer_agrees: "infer_script_type_from_path path = infer_script_type path"
  by (cases path) (simp_all add: infer_script_type_from_path_def infer_script_type_def HARDENED_def Let_def)

section \<open>What the request says\<close>

lemma psbt_inputs_nth:
  "psbt_inputs bc hx i tx_ins inps prevs = Inr (inputs, prevs') \<Longrightarrow>
   length inputs = length tx_ins \<and> length tx_ins \<le> length inps
   \<and> (\<forall>k<length tx_ins. psbt_input bc (i + k) (tx_ins ! k) (inps ! k) = Inr (inputs ! k))"
proof (induction bc hx i tx_ins inps prevs arbitrary: inputs rule: psbt_inputs.induct)
  case (3 bc hx i tx_in tx_ins inp inps prevs)
  obtain input inputs' where h: "psbt_input bc i tx_in inp = Inr input" "inputs = input # inputs'"
    and t: "length inputs' = length tx_ins \<and> length tx_ins \<le> length inps
      \<and> (\<forall>k<length tx_ins. psbt_input bc (Suc i + k) (tx_ins ! k) (inps ! k) = Inr (inputs' ! k))"
    using "3.prems" "3.IH" by (auto simp: res_simps Let_def split: option.splits if_splits)
  then show ?case by (auto simp: less_Suc_eq_0_disj)
qed auto

lemma psbt_outputs_nth:
  "psbt_outputs pc hx n i tx_outs outs = Inr outputs \<Longrightarrow>
   length outputs = length tx_outs
   \<and> (\<forall>k<length tx_outs. psbt_output pc hx n (i + k) (tx_outs ! k) (get outs (i + k)) = Inr (outputs ! k))"
proof (induction pc hx n i tx_outs outs arbitrary: outputs rule: psbt_outputs.induct)
  case (2 pc hx n i tx_out tx_outs outs)
  then obtain out rest where h: "psbt_output pc hx n i tx_out (get outs i) = Inr out" "outputs = out # rest"
    and t: "length rest = length tx_outs
      \<and> (\<forall>k<length tx_outs. psbt_output pc hx n (Suc i + k) (tx_outs ! k) (get outs (Suc i + k)) = Inr (rest ! k))"
    by (auto simp: res_simps)
  then show ?case by (auto simp: less_Suc_eq_0_disj)
qed simp

lemma psbt_params_fields:
  assumes "psbt_to_sign_tx_params pc bc hx b n = Inr params" "pc_deserialize pc b = Inr psbt"
  shows "psbt_inputs bc hx 0 (tx_input (ps_unsigned_tx psbt)) (ps_inputs psbt) [] = Inr (stp_inputs params, stp_prev_txs params)"
    "psbt_outputs pc hx n 0 (tx_output (ps_unsigned_tx psbt)) (ps_outputs psbt) = Inr (stp_outputs params)"
    "stp_coin params = Some (from_bitcoin_network n)" "stp_lock_time params = Some (tx_lock_time (ps_unsigned_tx psbt))"
    "stp_version params = Some (tx_version (ps_unsigned_tx psbt))"
  using assms by (auto simp: psbt_to_sign_tx_params_def res_simps Let_def)

text \<open>An output that names a key of the wallet is change.\<close>

definition is_change :: "PsbtOutput option \<Rightarrow> bool" where
  "is_change o' \<longleftrightarrow> (\<exists>out. o' = Some out \<and> (po_bip32_derivation out \<noteq> [] \<or> po_tap_key_origins out \<noteq> []))"

lemma first_key_None: "first_key a b = None \<longleftrightarrow> a = [] \<and> b = []"
  by (auto simp: first_key_def split: list.splits)

lemma psbt_output_cases:
  assumes "psbt_output pc hx n i tx_out o' = Inr out"
  shows "sto_multisig out = None"
    "is_change o' \<Longrightarrow> sto_amount out = tx_value tx_out \<and> sto_path out \<noteq> None \<and> sto_address out = None \<and> sto_op_return_data out = None"
    "\<not> is_change o' \<Longrightarrow> pc_is_op_return pc (tx_script_pubkey tx_out) \<Longrightarrow>
       sto_amount out = 0 \<and> sto_path out = None \<and> sto_address out = None
       \<and> sto_op_return_data out = Some (if 2 < length (tx_script_pubkey tx_out) then hx_encode hx (drop 2 (tx_script_pubkey tx_out)) else [])"
    "\<not> is_change o' \<Longrightarrow> \<not> pc_is_op_return pc (tx_script_pubkey tx_out) \<Longrightarrow>
       sto_amount out = tx_value tx_out \<and> sto_path out = None \<and> sto_op_return_data out = None
       \<and> (\<exists>a. sto_address out = Some a \<and> pc_address_from_script pc (tx_script_pubkey tx_out) n = Inr a)"
proof -
  let ?k = "Option.bind o' (\<lambda>o'. first_key (po_bip32_derivation o') (po_tap_key_origins o'))"
  have ch: "is_change o' \<longleftrightarrow> ?k \<noteq> None"
    by (cases o') (auto simp: is_change_def first_key_None simp del: not_None_eq)
  show "sto_multisig out = None"
    using assms by (auto simp: psbt_output_def plain_output_def res_simps split: option.splits if_splits)
  show "is_change o' \<Longrightarrow> sto_amount out = tx_value tx_out \<and> sto_path out \<noteq> None \<and> sto_address out = None \<and> sto_op_return_data out = None"
    using assms ch by (auto simp: psbt_output_def plain_output_def)
  have nk: "\<not> is_change o' \<Longrightarrow> ?k = None" using ch by blast
  show "\<not> is_change o' \<Longrightarrow> pc_is_op_return pc (tx_script_pubkey tx_out) \<Longrightarrow>
       sto_amount out = 0 \<and> sto_path out = None \<and> sto_address out = None
       \<and> sto_op_return_data out = Some (if 2 < length (tx_script_pubkey tx_out) then hx_encode hx (drop 2 (tx_script_pubkey tx_out)) else [])"
    using assms nk by (auto simp: psbt_output_def plain_output_def)
  show "\<not> is_change o' \<Longrightarrow> \<not> pc_is_op_return pc (tx_script_pubkey tx_out) \<Longrightarrow>
       sto_amount out = tx_value tx_out \<and> sto_path out = None \<and> sto_op_return_data out = None
       \<and> (\<exists>a. sto_address out = Some a \<and> pc_address_from_script pc (tx_script_pubkey tx_out) n = Inr a)"
    using assms nk by (auto simp: psbt_output_def plain_output_def res_simps)
qed

section \<open>Properties\<close>

text \<open>
  The path printed for a key origin is the one the library prints
  elsewhere, so it parses back to the same indices, and the script type inferred from it is the one
  a connected device would infer.
\<close>

theorem psbt_path_equivalent:
  "format_derivation_path path = serialize_path path \<and> parse_path (format_derivation_path path) = Inr path
   \<and> infer_script_type_from_path path = infer_script_type path"
  by (simp add: format_is_serialize parse_serialize_path infer_agrees)

text \<open>
  A transaction pays what a PSBT asks for: as many inputs and outputs, the amount of every output
  that is change or no data output, the script of every output that is neither.
\<close>

definition pays_psbt :: "psbt_crate \<Rightarrow> PartiallySigned \<Rightarrow> Transaction \<Rightarrow> bool" where
  "pays_psbt pc psbt tx \<longleftrightarrow>
     length (tx_input tx) = length (tx_input (ps_unsigned_tx psbt))
     \<and> length (tx_output tx) = length (tx_output (ps_unsigned_tx psbt))
     \<and> (\<forall>k<length (tx_output tx).
          let wanted = tx_output (ps_unsigned_tx psbt) ! k; actual = tx_output tx ! k;
              change = is_change (get (ps_outputs psbt) k); data = pc_is_op_return pc (tx_script_pubkey wanted)
          in (change \<or> \<not> data \<longrightarrow> tx_value actual = tx_value wanted)
           \<and> (\<not> change \<and> \<not> data \<longrightarrow> tx_script_pubkey actual = tx_script_pubkey wanted))"

lemma psbt_signed_pays:
  assumes "psbt_to_sign_tx_params pc (cr_btc c) (cr_hex c) b n = Inr params" "pc_deserialize pc b = Inr psbt"
    and "sign_transaction c d params s = Some (Inr r, s')" "sr_txid r = Some txid"
    and address: "\<And>script a. pc_address_from_script pc script n = Inr a \<Longrightarrow>
      address_to_script (cr_btc c) a (from_bitcoin_network n) = Inr script"
  shows "\<exists>tx. txid = bc_txid_to_string (cr_btc c) (bc_compute_txid (cr_btc c) tx) \<and> pays_psbt pc psbt tx"
proof -
  note f = psbt_params_fields [OF assms(1,2)]
  note ins = psbt_inputs_nth [OF f(1)] and outs = psbt_outputs_nth [OF f(2)]
  obtain tx where txid: "txid = bc_txid_to_string (cr_btc c) (bc_compute_txid (cr_btc c) tx)"
    and len: "length (tx_input tx) = length (stp_inputs params)" "length (tx_output tx) = length (stp_outputs params)"
    and each: "\<And>k. k < length (stp_outputs params) \<Longrightarrow>
         let requested = stp_outputs params ! k; actual = tx_output tx ! k
         in tx_value actual = sto_amount requested
          \<and> (\<forall>a. sto_address requested = Some a \<longrightarrow> sto_multisig requested = None \<longrightarrow>
               address_to_script (cr_btc c) a (coin_or_default (stp_coin params)) = Inr (tx_script_pubkey actual))"
    using signed_tx_facts [OF assms(3,4)] by (auto simp: Let_def)
  have "let wanted = tx_output (ps_unsigned_tx psbt) ! k; actual = tx_output tx ! k;
             change = is_change (get (ps_outputs psbt) k); data = pc_is_op_return pc (tx_script_pubkey wanted)
         in (change \<or> \<not> data \<longrightarrow> tx_value actual = tx_value wanted)
          \<and> (\<not> change \<and> \<not> data \<longrightarrow> tx_script_pubkey actual = tx_script_pubkey wanted)"
    if k: "k < length (tx_output tx)" for k
  proof -
    have o': "psbt_output pc (cr_hex c) n k (tx_output (ps_unsigned_tx psbt) ! k) (get (ps_outputs psbt) k) = Inr (stp_outputs params ! k)"
      using outs k len by simp
    note cases = psbt_output_cases [OF o']
    have e: "tx_value (tx_output tx ! k) = sto_amount (stp_outputs params ! k)"
      "\<And>a. sto_address (stp_outputs params ! k) = Some a \<Longrightarrow>
         address_to_script (cr_btc c) a (from_bitcoin_network n) = Inr (tx_script_pubkey (tx_output tx ! k))"
      using each [of k] k len cases(1) f(3) by (auto simp: Let_def coin_or_default_def)
    show ?thesis
      using cases(2,4) e address unfolding Let_def by fastforce
  qed
  then show ?thesis using txid len ins outs by (auto simp: pays_psbt_def)
qed

text \<open>A one-input PSBT and a crate that prints a script as the address with its bytes.\<close>

definition run_psbt :: PartiallySigned where
  "run_psbt =
     \<lparr>ps_unsigned_tx = \<lparr>tx_version = 2, tx_lock_time = 0,
        tx_input = [\<lparr>ti_txid = as_bytes ''aa'', ti_vout = 0, ti_script_sig = [], ti_sequence = 0, ti_witness = []\<rparr>],
        tx_output = [\<lparr>tx_value = 5000, tx_script_pubkey = as_bytes ''A''\<rparr>]\<rparr>,
      ps_inputs = [\<lparr>pi_bip32_derivation = [], pi_tap_key_origins = [([1], [0])],
        pi_witness_utxo = Some \<lparr>tx_value = 6000, tx_script_pubkey = []\<rparr>, pi_non_witness_utxo = None,
        pi_partial_sigs = Map.empty, pi_tap_key_sig = None, pi_sighash_type = None\<rparr>],
      ps_outputs = []\<rparr>"

definition run_psbt_crate :: psbt_crate where
  "run_psbt_crate =
     \<lparr>pc_deserialize = \<lambda>b. if b = [1] then Inr run_psbt else Inl ''malformed'',
      pc_serialize = \<lambda>p. [1],
      pc_address_from_script = \<lambda>script n. if n = BtcBitcoin then Inr (from_bytes script) else Inl ''network'',
      pc_is_op_return = \<lambda>script. take 1 script = [0x6a],
      pc_ecdsa_from_slice = \<lambda>b. Some (b, 1), pc_ecdsa_from_der = Inr, pc_ecdsa_hash_ty = \<lambda>inp. Inr 1,
      pc_taproot_from_slice = Inr\<rparr>"

lemma run_format: "format_derivation_path [0] = ''m/0''"
  by (simp add: format_derivation_path_def format_child_def is_hardened_def HARDENED_OFFSET_def show_nat.simps digit_char_def
      char_of_def bit_iff_odd)

lemma run_psbt_params: "psbt_to_sign_tx_params run_psbt_crate run_crate run_hex [1] BtcBitcoin = Inr run_params"
proof -
  have ins: "psbt_inputs run_crate run_hex 0 (tx_input (ps_unsigned_tx run_psbt)) (ps_inputs run_psbt) [] = Inr ([run_input], [])"
    by (simp add: run_psbt_def psbt_input_def first_key_def run_format psbt_amount_def run_input_def run_crate_def)
  have outs: "psbt_outputs run_psbt_crate run_hex BtcBitcoin 0 (tx_output (ps_unsigned_tx run_psbt)) (ps_outputs run_psbt) = Inr [run_output]"
    by (simp add: run_psbt_def psbt_output_def get_def run_psbt_crate_def map_err_def plain_output_def run_output_def)
      (simp add: as_bytes_def)
  have d: "pc_deserialize run_psbt_crate [1] = Inr run_psbt" by (simp add: run_psbt_crate_def)
  have "tx_lock_time (ps_unsigned_tx run_psbt) = 0" "tx_version (ps_unsigned_tx run_psbt) = 2" by (simp_all add: run_psbt_def)
  then show ?thesis
    by (simp add: psbt_to_sign_tx_params_def map_err_def d ins outs run_params_def del: psbt_inputs.simps psbt_outputs.simps)
qed

text \<open>The previous transactions of a request have distinct hashes and cover the inputs that carry one.\<close>

lemma psbt_inputs_prevs:
  "psbt_inputs bc hx i tx_ins inps prevs = Inr (inputs, prevs') \<Longrightarrow> distinct (map ptx_hash prevs) \<Longrightarrow>
   distinct (map ptx_hash prevs') \<and> ptx_hash ` set prevs \<subseteq> ptx_hash ` set prevs'
   \<and> (\<forall>k<length tx_ins. pi_non_witness_utxo (inps ! k) \<noteq> None \<longrightarrow> sti_prev_hash (inputs ! k) \<in> ptx_hash ` set prevs')"
proof (induction bc hx i tx_ins inps prevs arbitrary: inputs rule: psbt_inputs.induct)
  case (3 bc hx i tx_in tx_ins inp inps prevs)
  define txid where "txid = bc_txid_to_string bc (ti_txid tx_in)"
  define prevs1 where "prevs1 = (case pi_non_witness_utxo inp of
      Some prev \<Rightarrow> if txid \<in> ptx_hash ` set prevs then prevs else prevs @ [psbt_prev_tx bc hx txid prev] | None \<Rightarrow> prevs)"
  obtain input inputs' where h: "psbt_input bc i tx_in inp = Inr input" "inputs = input # inputs'"
    and t: "psbt_inputs bc hx (Suc i) tx_ins inps prevs1 = Inr (inputs', prevs')"
    using "3.prems"(1) unfolding prevs1_def txid_def by (auto simp: res_simps Let_def)
  have p: "distinct (map ptx_hash prevs1)" "ptx_hash ` set prevs \<subseteq> ptx_hash ` set prevs1"
    "pi_non_witness_utxo inp \<noteq> None \<Longrightarrow> txid \<in> ptx_hash ` set prevs1"
    using "3.prems"(2) by (auto simp: prevs1_def psbt_prev_tx_def split: option.splits)
  have "sti_prev_hash input = txid" using h(1) by (auto simp: psbt_input_def res_simps txid_def Let_def split: prod.splits)
  moreover note ih = "3.IH" [OF txid_def prevs1_def t p(1)]
  moreover have "ptx_hash ` set prevs \<subseteq> ptx_hash ` set prevs'" using ih p(2) by (meson subset_trans)
  ultimately show ?case using p(3) h(2) by (force simp: less_Suc_eq_0_disj)
qed auto

lemma fields_checked:
  "(\<And>out. out \<in> set outs \<Longrightarrow> sto_address out \<noteq> None \<and> sto_path out = None \<and> sto_op_return_data out = None
      \<or> sto_address out = None \<and> sto_path out \<noteq> None \<and> sto_op_return_data out = None
      \<or> sto_address out = None \<and> sto_path out = None \<and> sto_op_return_data out \<noteq> None \<and> sto_amount out = 0)
   \<Longrightarrow> check_output_fields i outs = Inr ()"
proof (induction outs arbitrary: i)
  case (Cons out outs)
  have "check_output_fields (Suc i) outs = Inr ()" by (rule Cons.IH, rule Cons.prems) simp
  then show ?case using Cons.prems [of out] by (auto simp: Let_def)
qed simp

text \<open>
  The request built from a PSBT always passes the check that every
  output has exactly one destination; it has an input and an output for each one of the
  transaction, and the previous transactions it lists are one per hash and include every one the
  PSBT carries for an input.
\<close>

theorem psbt_request_well_formed:
  assumes "psbt_to_sign_tx_params pc bc hx b n = Inr params" "pc_deserialize pc b = Inr psbt"
  shows "check_output_fields 0 (stp_outputs params) = Inr ()
    \<and> length (stp_inputs params) = length (tx_input (ps_unsigned_tx psbt))
    \<and> length (stp_outputs params) = length (tx_output (ps_unsigned_tx psbt))
    \<and> distinct (map ptx_hash (stp_prev_txs params))
    \<and> (\<forall>k<length (stp_inputs params). pi_non_witness_utxo (ps_inputs psbt ! k) \<noteq> None \<longrightarrow>
         sti_prev_hash (stp_inputs params ! k) \<in> ptx_hash ` set (stp_prev_txs params))"
proof -
  note f = psbt_params_fields [OF assms]
  note ins = psbt_inputs_nth [OF f(1)] and outs = psbt_outputs_nth [OF f(2)] and prevs = psbt_inputs_prevs [OF f(1)]
  have "check_output_fields 0 (stp_outputs params) = Inr ()"
  proof (rule fields_checked)
    fix out assume "out \<in> set (stp_outputs params)"
    then obtain tx_out o' i where "psbt_output pc hx n i tx_out o' = Inr out"
      using outs by (metis in_set_conv_nth)
    from psbt_output_cases [OF this]
    show "sto_address out \<noteq> None \<and> sto_path out = None \<and> sto_op_return_data out = None
      \<or> sto_address out = None \<and> sto_path out \<noteq> None \<and> sto_op_return_data out = None
      \<or> sto_address out = None \<and> sto_path out = None \<and> sto_op_return_data out \<noteq> None \<and> sto_amount out = 0"
      by (cases "is_change o'"; cases "pc_is_op_return pc (tx_script_pubkey tx_out)") auto
  qed
  then show ?thesis using ins outs prevs by auto
qed

theorem psbt_request_well_formed_witness:
  "check_output_fields 0 (stp_outputs run_params) = Inr () \<and> length (stp_inputs run_params) = 1
   \<and> length (stp_outputs run_params) = 1"
  using psbt_request_well_formed [OF run_psbt_params, of run_psbt]
  by (simp add: run_psbt_crate_def) (simp add: run_psbt_def)

lemma apply_signatures_nth:
  "apply_signatures pc hx sigs inps = Inr inps' \<Longrightarrow>
   length inps' = length inps
   \<and> (\<forall>k<length inps. if k < length sigs \<and> sigs ! k \<noteq> [] then apply_signature pc hx (sigs ! k) (inps ! k) = Inr (inps' ! k)
        else inps' ! k = inps ! k)"
proof (induction pc hx sigs inps arbitrary: inps' rule: apply_signatures.induct)
  case (3 pc hx sig sigs inp inps)
  then obtain inp' rest where h: "(if sig = [] then Inr inp else apply_signature pc hx sig inp) = Inr inp'" "inps' = inp' # rest"
    and t: "apply_signatures pc hx sigs inps = Inr rest"
    by (auto simp: res_simps)
  then show ?case using "3.IH" [OF t] by (auto simp: less_Suc_eq_0_disj split: if_splits)
qed auto

lemma apply_signature_frame:
  assumes "apply_signature pc hx sig inp = Inr inp'"
  shows "inp' = inp\<lparr>pi_partial_sigs := pi_partial_sigs inp', pi_tap_key_sig := pi_tap_key_sig inp'\<rparr>"
  using assms
  by (cases "pi_bip32_derivation inp"; cases "pi_tap_key_origins inp = []") (auto simp: apply_signature_def res_simps split: prod.splits)

text \<open>
  An input after signing: nothing but its signatures has changed, an empty or absent signature
  leaves it as it is, and any other is the one at its own position, under its first key.
\<close>

definition signed_input :: "psbt_crate \<Rightarrow> hex_crate \<Rightarrow> string list \<Rightarrow> nat \<Rightarrow> PsbtInput \<Rightarrow> PsbtInput \<Rightarrow> bool" where
  "signed_input pc hx sigs k inp inp' \<longleftrightarrow>
     inp' = inp\<lparr>pi_partial_sigs := pi_partial_sigs inp', pi_tap_key_sig := pi_tap_key_sig inp'\<rparr>
     \<and> (if k < length sigs \<and> sigs ! k \<noteq> []
        then \<exists>sig_bytes. hx_decode hx (sigs ! k) = Inr sig_bytes
           \<and> (case pi_bip32_derivation inp of
                (pubkey, _) # _ \<Rightarrow> \<exists>signature. parse_ecdsa_signature pc sig_bytes inp = Inr signature
                  \<and> pi_partial_sigs inp' = (pi_partial_sigs inp)(pubkey \<mapsto> signature)
              | [] \<Rightarrow> pi_tap_key_origins inp = []
                  \<or> (\<exists>sig. pc_taproot_from_slice pc sig_bytes = Inr sig \<and> pi_tap_key_sig inp' = Some sig))
        else inp' = inp)"

lemma signatures_applied_in_place:
  assumes "apply_signatures_to_psbt pc hx b signed_tx = Inr b'" "pc_deserialize pc b = Inr psbt"
  shows "\<exists>inps. b' = pc_serialize pc (psbt\<lparr>ps_inputs := inps\<rparr>) \<and> length inps = length (ps_inputs psbt)
    \<and> (\<forall>k<length inps. signed_input pc hx (sr_signatures signed_tx) k (ps_inputs psbt ! k) (inps ! k))"
proof -
  obtain inps' where a: "apply_signatures pc hx (sr_signatures signed_tx) (ps_inputs psbt) = Inr inps'"
    and b: "b' = pc_serialize pc (psbt\<lparr>ps_inputs := inps'\<rparr>)"
    using assms by (auto simp: apply_signatures_to_psbt_def res_simps)
  note nth = apply_signatures_nth [OF a]
  have step: "\<exists>sig_bytes. hx_decode hx sig = Inr sig_bytes
        \<and> (case pi_bip32_derivation inp of
             (pubkey, _) # _ \<Rightarrow> \<exists>signature. parse_ecdsa_signature pc sig_bytes inp = Inr signature
               \<and> pi_partial_sigs inp' = (pi_partial_sigs inp)(pubkey \<mapsto> signature)
           | [] \<Rightarrow> pi_tap_key_origins inp = []
               \<or> (\<exists>sig. pc_taproot_from_slice pc sig_bytes = Inr sig \<and> pi_tap_key_sig inp' = Some sig))"
    if "apply_signature pc hx sig inp = Inr inp'" for sig inp inp'
    using that
    by (cases "pi_bip32_derivation inp"; cases "pi_tap_key_origins inp = []")
      (auto simp: apply_signature_def decode_hex_def res_simps split: prod.splits)
  then show ?thesis using b nth apply_signature_frame by (intro exI [of _ inps']) (auto simp: signed_input_def)
qed

text \<open>
  Two inputs the conversion does not handle. An input without a witness output
  whose index is beyond the outputs of the previous transaction it carries stops the conversion with
  a panic instead of an error. And two bytes are dropped from a data output whatever its push opcode
  is, so that data of more than 75 bytes keeps the length byte in front.
\<close>

theorem psbt_defects:
  "psbt_amount i 1 \<lparr>pi_bip32_derivation = [], pi_tap_key_origins = [], pi_witness_utxo = None,
      pi_non_witness_utxo = Some \<lparr>tx_version = 2, tx_lock_time = 0, tx_input = [], tx_output = [out]\<rparr>,
      pi_partial_sigs = Map.empty, pi_tap_key_sig = None, pi_sighash_type = None\<rparr> = Inl Panic
   \<and> map_option as_bytes (case psbt_output run_psbt_crate run_hex n i
          \<lparr>tx_value = 0, tx_script_pubkey = [0x6a, 0x4c, 80] @ data\<rparr> None of Inr o' \<Rightarrow> sto_op_return_data o' | Inl e \<Rightarrow> None)
     = Some (80 # data)"
  by (simp add: psbt_amount_def psbt_output_def run_psbt_crate_def plain_output_def run_hex_def)

end
