(* ===== verification/V1_Calls.thy ===== *)
theory V1_Calls
  imports Callback_Transport
begin

text \<open>
  Calls over protocol v1 on the callback transport. The reads of a reply are compared with
  the reference of \<open>Transport_V1\<close>, in which the answers of the device are a sequence; delivery then
  follows for the transport itself, with what is written, how many reads are used and what is kept.
\<close>

section \<open>The reader and its reference\<close>

text \<open>The answers of a device from a given moment on.\<close>

definition answers :: "device \<Rightarrow> io \<Rightarrow> nat \<Rightarrow> read_result" where
  "answers dev io n = dev_read dev (io\<lparr>reads := reads io + n\<rparr>)"

lemma answers_0: "answers dev io 0 = dev_read dev io"
  by (simp add: answers_def)

lemma answers_Suc: "answers dev (io\<lparr>reads := reads io + k\<rparr>) n = answers dev io (k + n)"
  by (simp add: answers_def add.assoc)

lemma find_first_eq:
  "find_first_io dev a (io\<lparr>reads := reads io + n\<rparr>)
     = (case find_first_chunk (answers dev io) n a of (c, m) \<Rightarrow> (c, io\<lparr>reads := reads io + m\<rparr>))"
proof (induction a arbitrary: n)
  case (Suc a)
  have "dev_read dev (io\<lparr>reads := reads io + n\<rparr>) = answers dev io n" by (simp add: answers_def)
  then show ?case using Suc [of "Suc n"] by (auto simp: Let_def)
qed simp

lemma read_rest_eq:
  "read_rest_io dev k (io\<lparr>reads := reads io + n\<rparr>) = (r, io') \<Longrightarrow>
     read_chunks (answers dev io) n k = r \<and> (\<forall>cs. r = Inr cs \<longrightarrow> io' = io\<lparr>reads := reads io + n + k\<rparr>)"
proof (induction k arbitrary: n r io')
  case (Suc k)
  have a: "dev_read dev (io\<lparr>reads := reads io + n\<rparr>) = answers dev io n" by (simp add: answers_def)
  obtain r1 io1 where r1: "read_rest_io dev k (io\<lparr>reads := reads io + Suc n\<rparr>) = (r1, io1)" by force
  show ?case
    using Suc.prems Suc.IH [OF r1] r1 a by (cases r1) (auto simp: Let_def split: if_splits)
qed auto

text \<open>The reader of the transport returns what the reference does, and on success it has used
  exactly the reads of the reply.\<close>

lemma read_reply_eq: "fst (read_reply_io dev io) = read_response (answers dev io) (dev_chunk_size dev)"
proof -
  note f = find_first_eq [of dev 20 io 0, simplified]
  obtain c m where c: "find_first_chunk (answers dev io) 0 20 = (c, m)" by force
  have rest: "fst (read_rest_io dev k (io\<lparr>reads := reads io + m\<rparr>)) = read_chunks (answers dev io) m k" for k
    using read_rest_eq [of dev k io m] by (metis prod.collapse)
  show ?thesis
  proof (cases c)
    case (Some chunk)
    show ?thesis
    proof (cases "v1_decode (with_chunk_size (dev_chunk_size dev)) chunk")
      case (Inr decoded)
      show ?thesis
        unfolding read_reply_io_def read_response_def Let_def f c prod.case Some option.case Inr sum.case bind_res.simps
          rest [symmetric]
        by (auto split: prod.split sum.split)
    qed (simp add: read_reply_io_def read_response_def Let_def f c Some)
  qed (simp add: read_reply_io_def read_response_def Let_def f c)
qed

lemma read_reply_used:
  assumes "9 < dev_chunk_size dev" "dev_chunk_size dev < 2 ^ 32" "length d < 2 ^ 32"
    and "create_chunks (encode_message t d) continuation_header (dev_chunk_size dev) = Some chunks"
    and "replies (answers dev io) j chunks" "j < 20"
  shows "read_reply_io dev io = (Inr (t, d), io\<lparr>reads := reads io + j + length chunks\<rparr>)"
  using assms
proof (rule reply_parts)
  fix c cs m
  assume h: "chunks = c # cs" "find_first_chunk (answers dev io) 0 20 = (Some c, j + 1)" "decode_message c = Inr m"
    "dm_message_type m = t" "unat (dm_length m) = length d" "continuation_count (dev_chunk_size dev) (length d) = length cs"
    "read_chunks (answers dev io) (j + 1) (length cs) = Inr cs" "reassemble_chunks (c # cs) 9 1 (length d) = Inr d"
  obtain r io' where r: "read_rest_io dev (length cs) (io\<lparr>reads := reads io + (j + 1)\<rparr>) = (r, io')" by force
  then have rest: "read_rest_io dev (length cs) (io\<lparr>reads := reads io + (j + 1)\<rparr>)
      = (Inr cs, io\<lparr>reads := reads io + (j + 1) + length cs\<rparr>)"
    using read_rest_eq [OF r] h(7) by auto
  have "read_reply_io dev io = (Inr (t, d), io\<lparr>reads := reads io + (j + 1) + length cs\<rparr>)"
    by (simp only: read_reply_io_def find_first_eq [of dev 20 io 0, simplified] h(2-5) prod.case option.case v1_decode_def
        sum.case bind_res.simps Let_def PROTOCOL_V1_HEADER_SIZE_def h(6) [unfolded continuation_count_def] rest h(8))
  then show ?thesis using h(1) by simp
qed

lemma write_all_ok:
  assumes "\<And>io c. wr_success (dev_write dev io c)"
  shows "write_all dev cs io = (Inr (), io\<lparr>written := written io @ cs\<rparr>)"
  using assms by (induction cs arbitrary: io) (simp_all add: write_chunk_def Let_def)

lemma call_v1_run:
  assumes "device_of (pf_native pf) p w = dev" "9 < dev_chunk_size dev" "dev_chunk_size dev < 2 ^ 32"
    and "length reply < 2 ^ 32" "\<And>io c. wr_success (dev_write dev io c)"
    and "create_chunks (encode_message t d) continuation_header (dev_chunk_size dev) = Some sent"
    and "create_chunks (encode_message t' reply) continuation_header (dev_chunk_size dev) = Some chunks"
    and "replies (answers dev (link_io w\<lparr>written := written (link_io w) @ sent\<rparr>)) j chunks" "j < 20"
  shows "call_v1 pf p t d w
    = Some (Inr (t', reply), w\<lparr>link_io := \<lparr>written = written (link_io w) @ sent, reads = reads (link_io w) + j + length chunks\<rparr>\<rparr>)"
proof -
  have "snd (get_headers (with_chunk_size (dev_chunk_size dev)) (encode_message t d)) = continuation_header"
    by (simp add: get_headers_def Let_def continuation_header_def)
  then show ?thesis
    using assms read_reply_used [OF assms(2-4,7-9)]
    by (simp add: call_v1_def Let_def v1_encode_def write_all_ok)
qed

lemma transport_call_v1:
  assumes "get_path session (ct_sessions s) = Some p" "\<not> needs_thp p s" "\<And>l. pf_call_message pf p l t d = None"
  shows "transport_call pf prim session t d s
    = map_option (\<lambda>(r, w). (r, s\<lparr>ct_link := w, ct_locks := insert p (ct_locks s)\<rparr>)) (call_v1 pf p t d (ct_link s))"
proof -
  have "\<not> needs_thp p (get_call_lock p s)" using assms(2) by (simp add: needs_thp_def get_call_lock_def ble_states_of_def is_ble_device_def)
  then show ?thesis
    using assms(1,3)
    by (auto simp: transport_call_def Let_def get_call_lock_def on_link_def intro!: arg_cong [where f = "\<lambda>f. map_option f m" for m])
qed

text \<open>A device that answers the \<open>n\<close>-th read with the \<open>n\<close>-th of some short messages.\<close>

definition v1_reply :: "u16 \<Rightarrow> bytes \<Rightarrow> bytes" where
  "v1_reply t d = pad_to 64 (encode_message t d)"

definition v1_device :: "(u16 \<times> bytes) list \<Rightarrow> device" where
  "v1_device rs = \<lparr>dev_write = \<lambda>io data. \<lparr>wr_success = True, wr_error = []\<rparr>,
     dev_read = \<lambda>io. if reads io < length rs
       then \<lparr>rr_success = True, rr_data = v1_reply (fst (rs ! reads io)) (snd (rs ! reads io)), rr_error = []\<rparr>
       else \<lparr>rr_success = False, rr_data = [], rr_error = ''USB read timeout''\<rparr>,
     dev_chunk_size = 64\<rparr>"

lemma short_message:
  "length d \<le> 55 \<Longrightarrow> create_chunks (encode_message t d) continuation_header 64 = Some [v1_reply t d]"
  using create_chunks_closed [of continuation_header 64 "encode_message t d"]
  by (simp add: continuation_header_def encode_message_header v1_reply_def)

lemma v1_device_replies:
  "reads io < length rs \<Longrightarrow> replies (answers (v1_device rs) io) 0 [v1_reply (fst (rs ! reads io)) (snd (rs ! reads io))]"
  by (simp add: replies_def answers_def v1_device_def)

lemma v1_exchange:
  assumes "get_path session (ct_sessions s) = Some p" "\<not> needs_thp p s" "\<And>l. pf_call_message pf p l t d = None"
    and "device_of (pf_native pf) p (ct_link s) = v1_device rs" "reads (link_io (ct_link s)) < length rs"
    and "rs ! reads (link_io (ct_link s)) = (t', reply)" "length reply \<le> 55" "length d \<le> 55"
  shows "transport_call pf prim session t d s
    = Some (Inr (t', reply), s\<lparr>ct_link := (ct_link s)\<lparr>link_io := \<lparr>written = written (link_io (ct_link s)) @ [v1_reply t d],
        reads = Suc (reads (link_io (ct_link s)))\<rparr>\<rparr>, ct_locks := insert p (ct_locks s)\<rparr>)"
proof -
  let ?io = "link_io (ct_link s)\<lparr>written := written (link_io (ct_link s)) @ [v1_reply t d]\<rparr>"
  have "replies (answers (v1_device rs) ?io) 0 [v1_reply t' reply]" using v1_device_replies [of ?io rs] assms(5,6) by simp
  then have "call_v1 pf p t d (ct_link s) = Some (Inr (t', reply), (ct_link s)\<lparr>link_io := \<lparr>written = written (link_io (ct_link s)) @ [v1_reply t d],
      reads = Suc (reads (link_io (ct_link s)))\<rparr>\<rparr>)"
    using call_v1_run [OF assms(4), of reply t d "[v1_reply t d]" t' "[v1_reply t' reply]" 0] assms(7,8)
      short_message [OF assms(7)] short_message [OF assms(8)]
    by (simp add: v1_device_def)
  then show ?thesis using transport_call_v1 [OF assms(1-3)] by simp
qed

section \<open>Properties\<close>

text \<open>
  C28: a call on a session of a protocol v1 device writes exactly the chunks of
  the request after all that was written before, and if the device answers, after fewer than twenty
  reads that are failed, empty or not the start of a message, with the chunks of a reply below
  4 GiB, it returns that reply's type and data. Nothing else of the transport changes but the
  number of reads and the path's call lock.
\<close>

theorem v1_message_delivered:
  assumes "get_path session (ct_sessions s) = Some p" "\<not> needs_thp p s" "\<And>l. pf_call_message pf p l t d = None"
    and "device_of (pf_native pf) p (ct_link s) = dev" "9 < dev_chunk_size dev" "dev_chunk_size dev < 2 ^ 32"
    and "length reply < 2 ^ 32" "\<And>io c. wr_success (dev_write dev io c)"
    and "create_chunks (encode_message t d) continuation_header (dev_chunk_size dev) = Some sent"
    and "create_chunks (encode_message t' reply) continuation_header (dev_chunk_size dev) = Some chunks"
    and "replies (answers dev (link_io (ct_link s)\<lparr>written := written (link_io (ct_link s)) @ sent\<rparr>)) j chunks" "j < 20"
  shows "transport_call pf prim session t d s
    = Some (Inr (t', reply), s\<lparr>ct_link := (ct_link s)\<lparr>link_io := \<lparr>written = written (link_io (ct_link s)) @ sent,
        reads = reads (link_io (ct_link s)) + j + length chunks\<rparr>\<rparr>, ct_locks := insert p (ct_locks s)\<rparr>)"
  using transport_call_v1 [OF assms(1-3), of prim] call_v1_run [OF assms(4-12)] by simp

definition v1_platform :: "(u16 \<times> bytes) list \<Rightarrow> platform" where
  "v1_platform rs = \<lparr>pf_native = \<lparr>nl_device = \<lambda>p es. v1_device rs, nl_open = \<lambda>p l. \<lparr>wr_success = True, wr_error = []\<rparr>,
     nl_load = \<lambda>d l. None, nl_pairing_code = \<lambda>l. [], nl_random = \<lambda>n k. []\<rparr>, pf_enumerate = \<lambda>l. [], pf_call_message = \<lambda>p l t d. None\<rparr>"

definition v1_session :: CallbackTransport where
  "v1_session = (transport_new \<lparr>written = [], reads = 0\<rparr>)\<lparr>ct_sessions := snd (acquire ''usb:1'' None manager_new)\<rparr>"

theorem v1_message_delivered_witness:
  "transport_call (v1_platform [(2, [8, 1])]) plain_prim ''1'' 0 [7] v1_session
    = Some (Inr (2, [8, 1]), v1_session\<lparr>ct_link := (ct_link v1_session)\<lparr>link_io := \<lparr>written = [v1_reply 0 [7]], reads = 1\<rparr>\<rparr>,
        ct_locks := {''usb:1''}\<rparr>)"
proof -
  have s: "get_path ''1'' (ct_sessions v1_session) = Some ''usb:1''" "\<not> needs_thp ''usb:1'' v1_session"
    "link_io (ct_link v1_session) = \<lparr>written = [], reads = 0\<rparr>" "ct_locks v1_session = {}"
    by (simp_all add: v1_session_def acquire_def manager_new_def transport_new_def needs_thp_def ble_states_of_def is_ble_device_def
        is_ble_device_heuristic_def get_path_def Let_def show_nat.simps digit_char_def char_of_def bit_iff_odd)
  show ?thesis
    using v1_message_delivered [OF s(1,2), of "v1_platform [(2, [8, 1])]" 0 "[7]" "v1_device [(2, [8, 1])]" "[8, 1]"
        "[v1_reply 0 [7]]" 2 "[v1_reply 2 [8, 1]]" 0 plain_prim] short_message [of "[7]" 0] short_message [of "[8, 1]" 2]
      v1_device_replies [of "\<lparr>written = [v1_reply 0 [7]], reads = 0\<rparr>" "[(2, [8, 1])]"]
    by (simp add: s v1_platform_def device_of_def v1_device_def [of "[(2, [8, 1])]"])
qed

end
