(* ===== verification/Bridge.thy ===== *)
theory Bridge
  imports Bridge_Adapter Psbt V1_Calls
begin

text \<open>
  The functions the mobile applications call (\<^verbatim>\<open>trezor-bridge/src/lib.rs\<close>). The global tables are
  the record \<open>bridge\<close>: callbacks waiting for a connection, sessions, each with the transport it owns,
  stored credentials and previous transactions. Every function is one step: the session table is
  locked while a session is used. The release profile aborts the process on a panic, the value
  \<open>Panic\<close>. The JSON text a connection returns is the record \<open>ConnectInfo\<close>. The previous transactions
  of a device are listed in the order of insertion; the code's order is unspecified and decides only
  which of several errors is reported.
\<close>

section \<open>Definitions\<close>

record bridge_session =
  bs_device :: "CallbackTransport ConnectedDevice"
  bs_transport :: CallbackTransport

record bridge =
  br_pending :: "u64 \<rightharpoonup> TrezorBleCallbacks"
  br_pending_usb :: "u64 \<rightharpoonup> TrezorUsbCallbacks"
  br_sessions :: "string \<rightharpoonup> bridge_session"
  br_creds :: thp_creds
  br_prev_txs :: "string \<rightharpoonup> (nat \<times> string) list"

type_synonym 'a bridge_op = "bridge \<Rightarrow> (BridgeError fault, 'a, bridge) outcome_with"

record ConnectInfo =
  ci_device_id :: string
  ci_label :: string
  ci_model :: "string option"
  ci_transport :: string
  ci_passphrase_protection :: bool
  ci_passphrase_always_on_device :: bool
  ci_passphrase_entry :: bool
  ci_uses_thp :: bool

definition trezor_register_callbacks :: "u64 \<Rightarrow> TrezorBleCallbacks \<Rightarrow> bridge \<Rightarrow> bridge" where
  "trezor_register_callbacks ble_handle callbacks b = b\<lparr>br_pending := (br_pending b)(ble_handle \<mapsto> callbacks)\<rparr>"

definition trezor_register_usb_callbacks :: "u64 \<Rightarrow> TrezorUsbCallbacks \<Rightarrow> bridge \<Rightarrow> bridge" where
  "trezor_register_usb_callbacks usb_handle callbacks b = b\<lparr>br_pending_usb := (br_pending_usb b)(usb_handle \<mapsto> callbacks)\<rparr>"

subsection \<open>Connecting\<close>

definition cred_path_of :: "string \<Rightarrow> string option" where
  "cred_path_of credential_path = (if credential_path = [] then None else Some credential_path)"

definition connect_info :: "string \<Rightarrow> string \<Rightarrow> string option \<Rightarrow> string \<Rightarrow> Features \<Rightarrow> bool \<Rightarrow> ConnectInfo" where
  "connect_info dev_id label model transport features uses_thp =
     \<lparr>ci_device_id = dev_id, ci_label = label, ci_model = model, ci_transport = transport,
      ci_passphrase_protection = (ft_passphrase_protection features = Some True),
      ci_passphrase_always_on_device = (ft_passphrase_always_on_device features = Some True),
      ci_passphrase_entry = (17 \<in> set (ft_capabilities features)), ci_uses_thp = uses_thp\<rparr>"

type_synonym connection = "ConnectInfo \<times> CallbackTransport ConnectedDevice"
type_synonym connecting = "CallbackTransport \<Rightarrow> (BridgeError fault, connection, CallbackTransport) outcome_with"

definition connect_ble :: "crates \<Rightarrow> primitives \<Rightarrow> native_env \<Rightarrow> TrezorBleCallbacks \<Rightarrow> platform \<Rightarrow> string \<Rightarrow> connecting" where
  "connect_ble c prim env cbs pf path t =
     bind_op (wrap Connect (transport_acquire pf prim (cr_codecs c) path None t)) (\<lambda>session t.
     if \<not> has_thp path t then Some (Inl (Err (Connect ''THP handshake was not completed'')), t)
     else
       let dev_info = new_bluetooth path (Some ''Trezor Safe 7'');
           connected = connected_new dev_info (callback_transport pf prim (cr_codecs c)) session;
           connected = set_uses_thp True connected;
           connected = set_ui_callback (ui_adapter env cbs) connected
       in bind_op (wrap Connect (initialize c connected t)) (\<lambda>(features, connected) t.
          let label = (case ft_label features of
                 Some s \<Rightarrow> if s = [] then (case ft_model features of Some m \<Rightarrow> m | None \<Rightarrow> []) else s
               | None \<Rightarrow> (case ft_model features of Some m \<Rightarrow> m | None \<Rightarrow> []))
          in Some (Inr (connect_info path label (ft_model features) ''ble'' features True, connected), t)))"

text \<open>Comparison of version triples.\<close>

definition version_less :: "u32 \<times> u32 \<times> u32 \<Rightarrow> u32 \<times> u32 \<times> u32 \<Rightarrow> bool" where
  "version_less v w =
     (fst v < fst w \<or> fst v = fst w \<and> (fst (snd v) < fst (snd w) \<or> fst (snd v) = fst (snd w) \<and> snd (snd v) < snd (snd w)))"

definition version_of :: "Features \<Rightarrow> u32 \<times> u32 \<times> u32" where
  "version_of features =
     (let part = (\<lambda>v. case v of Some n \<Rightarrow> n | None \<Rightarrow> 0)
      in (part (ft_major_version features), part (ft_minor_version features), part (ft_patch_version features)))"

definition connect_usb :: "crates \<Rightarrow> primitives \<Rightarrow> native_env \<Rightarrow> TrezorUsbCallbacks \<Rightarrow> platform \<Rightarrow> u16 \<Rightarrow> u16 \<Rightarrow> string \<Rightarrow> connecting" where
  "connect_usb c prim env cbs pf vendor_id product_id dev_id t =
     bind_op (wrap Connect (transport_acquire pf prim (cr_codecs c) dev_id None t)) (\<lambda>session t.
     let uses_thp = has_thp dev_id t;
         info = new_usb dev_id vendor_id product_id;
         connected = connected_new info (callback_transport pf prim (cr_codecs c)) session;
         connected = set_uses_thp uses_thp connected;
         connected = set_ui_callback (ui_adapter env cbs) connected
     in bind_op (wrap Connect (initialize c connected t)) (\<lambda>(features, connected) t.
        if is_bootloader features \<or> \<not> is_initialized features
        then Some (Inl (Err (Connect ''UNSUPPORTED_DEVICE_STATE'')), t)
        else if version_less (version_of features) (1, 8, 0)
        then Some (Inl (Err (Connect (''UNSUPPORTED_FIRMWARE:'' @ version_string features))), t)
        else
          let label = (case ft_label features of Some l \<Rightarrow> if l = [] then ''Trezor'' else l | None \<Rightarrow> ''Trezor'');
              model = (case ft_model features of Some m \<Rightarrow> m | None \<Rightarrow> ''1'')
          in Some (Inr (connect_info dev_id label (Some model) ''usb'' features uses_thp, connected), t)))"

text \<open>The connection runs on a transport of its own; the credentials it saved or cleared stay, and
  a session is registered on success.\<close>

definition run_connection :: "native_env \<Rightarrow> string option \<Rightarrow> string \<Rightarrow> connecting \<Rightarrow> CallbackTransport \<Rightarrow> ConnectInfo bridge_op" where
  "run_connection env cred_path dev_id m t b =
     (case m t of
        None \<Rightarrow> None
      | Some (r, t) \<Rightarrow>
          let b = b\<lparr>br_creds := replay env cred_path (events (ct_link t)) (br_creds b)\<rparr>
          in case r of
               Inl e \<Rightarrow> Some (Inl e, b)
             | Inr (info, connected) \<Rightarrow>
                 Some (Inr info, b\<lparr>br_sessions := (br_sessions b)(dev_id \<mapsto> \<lparr>bs_device = connected, bs_transport = t\<rparr>)\<rparr>))"

definition trezor_connect :: "crates \<Rightarrow> primitives \<Rightarrow> native_env \<Rightarrow> io \<Rightarrow> u64 \<Rightarrow> string \<Rightarrow> string \<Rightarrow> ConnectInfo bridge_op" where
  "trezor_connect c prim env io ble_handle device_uuid credential_path b =
     (case br_pending b ble_handle of
        None \<Rightarrow> Some (Inl (Err (Connect (''No callbacks for handle '' @ show_nat (unat ble_handle)
          @ ''. Call trezor_register_callbacks first.''))), b)
      | Some cbs \<Rightarrow>
          let b = b\<lparr>br_pending := (br_pending b)(ble_handle := None)\<rparr>;
              path = ''ble:'' @ device_uuid;
              cred_path = cred_path_of credential_path;
              adapter = ble_adapter env cbs device_uuid cred_path (br_creds b);
              transport = with_app_identity ''Coconut Wallet'' ''coconut-wallet'' (transport_new io)
          in run_connection env cred_path path (connect_ble c prim env cbs adapter path) transport b)"

definition trezor_connect_usb ::
    "crates \<Rightarrow> primitives \<Rightarrow> native_env \<Rightarrow> io \<Rightarrow> u64 \<Rightarrow> string \<Rightarrow> u16 \<Rightarrow> u16 \<Rightarrow> string \<Rightarrow> ConnectInfo bridge_op" where
  "trezor_connect_usb c prim env io usb_handle device_path vendor_id product_id credential_path b =
     (case br_pending_usb b usb_handle of
        None \<Rightarrow> Some (Inl (Err (Connect (''No USB callbacks for handle '' @ show_nat (unat usb_handle)))), b)
      | Some cbs \<Rightarrow>
          let b = b\<lparr>br_pending_usb := (br_pending_usb b)(usb_handle := None)\<rparr> in
          if (vendor_id, product_id) \<noteq> (0x534c, 0x0001) \<and> (vendor_id, product_id) \<noteq> (0x1209, 0x53c1)
          then Some (Inl (Err (Connect ''Unsupported Trezor USB device'')), b)
          else
            let cred_path = cred_path_of credential_path;
                dev_id = ''usb:'' @ device_path;
                adapter = usb_adapter env cbs dev_id vendor_id product_id cred_path (br_creds b)
            in run_connection env cred_path dev_id (connect_usb c prim env cbs adapter vendor_id product_id dev_id)
                 (transport_new io) b)"

subsection \<open>Using a session\<close>

definition with_session ::
    "(string \<Rightarrow> BridgeError) \<Rightarrow> string
     \<Rightarrow> (CallbackTransport ConnectedDevice \<Rightarrow> CallbackTransport \<Rightarrow> (BridgeError fault, 'a, CallbackTransport) outcome_with) \<Rightarrow> 'a bridge_op" where
  "with_session unknown dev_id f b =
     (case br_sessions b dev_id of
        None \<Rightarrow> Some (Inl (Err (unknown (''Unknown device_id: '' @ dev_id))), b)
      | Some s \<Rightarrow>
          map_option (\<lambda>(r, t). (r, b\<lparr>br_sessions := (br_sessions b)(dev_id \<mapsto> s\<lparr>bs_transport := t\<rparr>)\<rparr>))
            (f (bs_device s) (bs_transport s)))"

definition network_of :: "string \<Rightarrow> Network" where
  "network_of network =
     (let name = to_lowercase network
      in if name = ''testnet'' then Testnet else if name = ''regtest'' then Regtest else Bitcoin)"

definition btc_network_of :: "string \<Rightarrow> BtcNetwork" where
  "btc_network_of network =
     (let name = to_lowercase network
      in if name = ''testnet'' then BtcTestnet else if name = ''regtest'' then BtcRegtest else BtcBitcoin)"

definition trezor_get_xpub :: "crates \<Rightarrow> string \<Rightarrow> string \<Rightarrow> string \<Rightarrow> string bridge_op" where
  "trezor_get_xpub c dev_id keypath network =
     with_session InvalidArg dev_id (\<lambda>d t.
       bind_op (wrap XPub (get_public_key c d \<lparr>gpp_path = keypath, gpp_coin = Some (network_of network), gpp_show_on_trezor = False,
         gpp_script_type = None\<rparr> t)) (\<lambda>resp t. Some (Inr (pkr_xpub resp), t)))"

definition fingerprint_of :: "crates \<Rightarrow> string \<Rightarrow> string bridge_result" where
  "fingerprint_of c xpub =
     (case bc_base58_decode_check (cr_btc c) xpub of
        Inl e \<Rightarrow> Inl (Err (Fingerprint (''xpub decode: '' @ e)))
      | Inr decoded \<Rightarrow>
          if length decoded < 9 then Inl (Err (Fingerprint ''xpub payload too short''))
          else Inr (hx_encode (cr_hex c) (take 4 (drop 5 decoded))))"

definition trezor_get_fingerprint :: "crates \<Rightarrow> string \<Rightarrow> string bridge_op" where
  "trezor_get_fingerprint c dev_id =
     with_session InvalidArg dev_id (\<lambda>d t.
       bind_op (wrap Fingerprint (get_public_key c d \<lparr>gpp_path = ''m/0'' @ [CHR 0x27], gpp_coin = None, gpp_show_on_trezor = False,
         gpp_script_type = None\<rparr> t)) (\<lambda>resp t. lift_res (fingerprint_of c (pkr_xpub resp)) t))"

subsection \<open>Signing\<close>

fun put_entry :: "nat \<Rightarrow> string \<Rightarrow> (nat \<times> string) list \<Rightarrow> (nat \<times> string) list" where
  "put_entry k v [] = [(k, v)]"
| "put_entry k v ((k', v') # m) = (if k' = k then (k, v) # m else (k', v') # put_entry k v m)"

definition trezor_set_prev_tx_hex :: "string \<Rightarrow> u32 \<Rightarrow> string \<Rightarrow> bridge \<Rightarrow> bridge" where
  "trezor_set_prev_tx_hex dev_id input_index raw_tx_hex b =
     b\<lparr>br_prev_txs := (br_prev_txs b)(dev_id \<mapsto>
        put_entry (unat input_index) raw_tx_hex (case br_prev_txs b dev_id of Some m \<Rightarrow> m | None \<Rightarrow> []))\<rparr>"

definition trezor_clear_prev_tx_hexes :: "string \<Rightarrow> bridge \<Rightarrow> bridge" where
  "trezor_clear_prev_tx_hexes dev_id b = b\<lparr>br_prev_txs := (br_prev_txs b)(dev_id := None)\<rparr>"

definition sign_error :: "string \<Rightarrow> 'a bridge_result" where
  "sign_error m = Inl (Err (Sign m))"

fun inject_loop :: "crates \<Rightarrow> (nat \<times> string) list \<Rightarrow> PsbtInput list \<Rightarrow> PsbtInput list bridge_result" where
  "inject_loop c [] inputs = Inr inputs"
| "inject_loop c ((input_index, raw_tx_hex) # m) inputs =
     (if length inputs \<le> input_index
      then sign_error (''prevtx input index '' @ show_nat input_index @ '' out of range (PSBT has '' @ show_nat (length inputs) @ '' inputs)'')
      else if pi_non_witness_utxo (inputs ! input_index) \<noteq> None then inject_loop c m inputs
      else
        (case hx_decode (cr_hex c) raw_tx_hex of
           Inl e \<Rightarrow> sign_error (''prevtx['' @ show_nat input_index @ '']: invalid hex: '' @ e)
         | Inr raw_tx_bytes \<Rightarrow>
             (case bc_deserialize (cr_btc c) raw_tx_bytes of
                Inl e \<Rightarrow> sign_error (''prevtx['' @ show_nat input_index @ '']: deserialize: '' @ e)
              | Inr prev_tx \<Rightarrow>
                  inject_loop c m (inputs[input_index := (inputs ! input_index)\<lparr>pi_non_witness_utxo := Some prev_tx\<rparr>]))))"

definition inject_prev_txs_into_psbt ::
    "crates \<Rightarrow> psbt_crate \<Rightarrow> (nat \<times> string) list option \<Rightarrow> bytes \<Rightarrow> bytes bridge_result" where
  "inject_prev_txs_into_psbt c pc device_prev_txs psbt_bytes =
     (case device_prev_txs of
        None \<Rightarrow> Inr psbt_bytes
      | Some m \<Rightarrow>
          (case pc_deserialize pc psbt_bytes of
             Inl e \<Rightarrow> sign_error (''PSBT deserialize for prev tx injection: '' @ e)
           | Inr psbt \<Rightarrow>
               bind_res (inject_loop c m (ps_inputs psbt)) (\<lambda>inputs.
               Inr (pc_serialize pc (psbt\<lparr>ps_inputs := inputs\<rparr>)))))"

definition sign_psbt ::
    "crates \<Rightarrow> psbt_crate \<Rightarrow> (nat \<times> string) list option \<Rightarrow> bytes \<Rightarrow> BtcNetwork \<Rightarrow> CallbackTransport ConnectedDevice
     \<Rightarrow> CallbackTransport \<Rightarrow> (BridgeError fault, bytes, CallbackTransport) outcome_with" where
  "sign_psbt c pc device_prev_txs psbt_bytes net d t =
     bind_op (lift_res (inject_prev_txs_into_psbt c pc device_prev_txs psbt_bytes) t) (\<lambda>enriched_psbt t.
     bind_op (lift_res (bridge_err (\<lambda>e. Sign (''PSBT conversion: '' @ e))
       (psbt_to_sign_tx_params pc (cr_btc c) (cr_hex c) enriched_psbt net)) t) (\<lambda>params t.
     bind_op (wrap Sign (sign_transaction c d params t)) (\<lambda>signed_tx t.
     lift_res (bridge_err (\<lambda>e. Sign (''Apply signatures: '' @ e))
       (apply_signatures_to_psbt pc (cr_hex c) enriched_psbt signed_tx)) t)))"

definition trezor_sign_transaction :: "crates \<Rightarrow> psbt_crate \<Rightarrow> string \<Rightarrow> bytes \<Rightarrow> string \<Rightarrow> bytes bridge_op" where
  "trezor_sign_transaction c pc dev_id psbt_bytes network b =
     with_session InvalidArg dev_id (sign_psbt c pc (br_prev_txs b dev_id) psbt_bytes (btc_network_of network)) b"

subsection \<open>Ending a session and its settings\<close>

definition trezor_disconnect :: "string \<Rightarrow> unit bridge_op" where
  "trezor_disconnect dev_id b =
     (case br_sessions b dev_id of
        None \<Rightarrow> Some (Inr (), b)
      | Some s \<Rightarrow>
          (case disconnect (bs_device s) (bs_transport s) of
             None \<Rightarrow> None
           | Some (Inl Panic, t) \<Rightarrow> Some (Inl Panic, b\<lparr>br_sessions := (br_sessions b)(dev_id := None)\<rparr>)
           | Some (_, t) \<Rightarrow> Some (Inr (), b\<lparr>br_sessions := (br_sessions b)(dev_id := None)\<rparr>)))"

definition session_passphrase :: "string \<Rightarrow> string \<Rightarrow> (string option \<times> bool) bridge_result" where
  "session_passphrase passphrase_type passphrase_value =
     (if passphrase_type = ''standard'' then Inr (Some [], False)
      else if passphrase_type = ''hidden'' then Inr (Some passphrase_value, False)
      else if passphrase_type = ''on_device'' then Inr (None, True)
      else Inl (Err (InvalidArg ''Invalid passphrase_type'')))"

definition trezor_create_session :: "string \<Rightarrow> string \<Rightarrow> string \<Rightarrow> unit bridge_op" where
  "trezor_create_session dev_id passphrase_type passphrase_value =
     with_session Connect dev_id (\<lambda>d t.
       bind_op (lift_res (session_passphrase passphrase_type passphrase_value) t) (\<lambda>(passphrase, on_device) t.
       wrap Connect (device_create_session d passphrase on_device t)))"

definition trezor_apply_settings :: "crates \<Rightarrow> string \<Rightarrow> bool option \<Rightarrow> unit bridge_op" where
  "trezor_apply_settings c dev_id use_passphrase =
     with_session Connect dev_id (\<lambda>d t. wrap Connect (apply_settings c d use_passphrase t))"

section \<open>The sessions of the bridge\<close>

text \<open>What holds of the session of \<open>i\<close>: its transport keeps its invariant, the session id belongs to
  \<open>i\<close>, and a Bluetooth device has its encrypted channel.\<close>

definition session_inv :: "string \<Rightarrow> string \<Rightarrow> CallbackTransport \<Rightarrow> bool" where
  "session_inv i x s \<longleftrightarrow>
     transport_inv s \<and> get_path x (ct_sessions s) = Some i \<and> (take 4 i = ''ble:'' \<longrightarrow> has_thp i s)"

lemma ends_both: "ends m Q \<Longrightarrow> ends m Q' \<Longrightarrow> ends m (\<lambda>r s. Q r s \<and> Q' r s)"
  by (simp add: ends_def)

lemma session_inv_frame: "session_inv i x s \<Longrightarrow> transport_inv s' \<and> link_frame s s' \<Longrightarrow> session_inv i x s'"
  by (auto simp: session_inv_def link_frame_def)

lemma session_call:
  assumes "session_inv i x s"
  shows "ends (transport_call pf prim y t d s) (\<lambda>r s'. session_inv i x s')"
proof -
  have "transport_inv s" using assms by (simp add: session_inv_def)
  then show ?thesis
    by (rule ends_weaken [OF ends_both [OF transport_call_inv transport_call_frame] session_inv_frame [OF assms]])
qed

lemma session_create:
  assumes "session_inv i x s"
  shows "ends (create_session pf prim cx y passphrase on_device s) (\<lambda>r s'. session_inv i x s')"
proof -
  have "transport_inv s" using assms by (simp add: session_inv_def)
  then show ?thesis
    by (rule ends_weaken [OF ends_both [OF create_session_inv create_session_frame] session_inv_frame [OF assms]])
qed

interpretation bridged: call_contract "callback_transport pf prim cx" "session_inv i x"
  by unfold_locales (simp add: callback_transport_def session_call)

definition session_ok :: "string \<Rightarrow> bridge_session \<Rightarrow> bool" where
  "session_ok i s \<longleftrightarrow>
     (\<exists>pf prim cx env cbs. cd_transport (bs_device s) = callback_transport pf prim cx
        \<and> cd_ui_callback (bs_device s) = Some (ui_adapter env cbs))
     \<and> session_inv i (cd_session (bs_device s)) (bs_transport s)"

definition bridge_inv :: "bridge \<Rightarrow> bool" where
  "bridge_inv b \<longleftrightarrow> (\<forall>i s. br_sessions b i = Some s \<longrightarrow> session_ok i s)"

lemma bridge_inv_other [simp]:
  "bridge_inv (b\<lparr>br_pending := x\<rparr>) = bridge_inv b" "bridge_inv (b\<lparr>br_pending_usb := x\<rparr>) = bridge_inv b"
  "bridge_inv (b\<lparr>br_creds := y\<rparr>) = bridge_inv b" "bridge_inv (b\<lparr>br_prev_txs := z\<rparr>) = bridge_inv b"
  by (simp_all add: bridge_inv_def)

lemma bridge_inv_session:
  "bridge_inv b \<Longrightarrow> session_ok i s \<Longrightarrow> bridge_inv (b\<lparr>br_sessions := (br_sessions b)(i \<mapsto> s)\<rparr>)"
  by (simp add: bridge_inv_def)

lemma ui_adapter_keeps: "cd_ui_callback d = Some (ui_adapter env cbs) \<Longrightarrow> ui_keeps P d"
  by (simp add: ui_keeps_def ui_adapter_def)

lemma session_okE:
  assumes "session_ok i s"
  obtains pf prim cx where "cd_transport (bs_device s) = callback_transport pf prim cx"
    "bridged.over pf prim cx i (cd_session (bs_device s)) (bs_device s)"
    "session_inv i (cd_session (bs_device s)) (bs_transport s)"
  using assms ui_adapter_keeps unfolding session_ok_def bridged.over_def by blast

lemma ends_wrap: "ends m (\<lambda>r s. P s) \<Longrightarrow> ends (wrap f m) (\<lambda>r s. P s)"
  by (auto simp: ends_def wrap_def)

lemma wrap_Inr: "wrap f m = Some (Inr v, s) \<longleftrightarrow> m = Some (Inr v, s)"
proof (cases m)
  case (Some o')
  obtain r s' where "o' = (r, s')" by force
  then show ?thesis using Some by (cases r) (auto simp: wrap_def bridge_err_def split: fault.split)
qed (simp add: wrap_def)

lemma with_session_keeps:
  assumes "bridge_inv b"
    and "\<And>s. session_ok i s \<Longrightarrow> ends (f (bs_device s) (bs_transport s)) (\<lambda>r t. session_inv i (cd_session (bs_device s)) t)"
  shows "ends (with_session u i f b) (\<lambda>r b'. bridge_inv b')"
proof (cases "br_sessions b i")
  case (Some s)
  then have ok: "session_ok i s" using assms(1) by (simp add: bridge_inv_def)
  have "session_ok i (s\<lparr>bs_transport := t\<rparr>)" if "f (bs_device s) (bs_transport s) = Some (r, t)" for r t
    using ends_D [OF assms(2) [OF ok] that] ok by (simp add: session_ok_def)
  then show ?thesis using Some assms(1) by (auto simp: ends_def with_session_def bridge_inv_def split: if_splits)
qed (use assms(1) in \<open>simp add: with_session_def\<close>)

subsection \<open>Connecting\<close>

lemma initialize_device:
  "initialize c d s = Some (Inr (features, d'), s') \<Longrightarrow>
   cd_transport d' = cd_transport d \<and> cd_session d' = cd_session d \<and> cd_ui_callback d' = cd_ui_callback d"
  by (auto simp: initialize_def bind_op_Inr Let_def split: option.splits)

lemma new_transport: "transport_inv (transport_new io)" "can_issue (ct_sessions (transport_new io))"
  "transport_inv (with_app_identity h a (transport_new io))" "can_issue (ct_sessions (with_app_identity h a (transport_new io)))"
  using transport_inv_new [of io]
  by (simp_all add: transport_new_def can_issue_def manager_new_def with_app_identity_def transport_inv_def ble_states_of_def)

lemma connected_ok:
  assumes "initialize c d t1 = Some (Inr (features, d'), t')" "session_inv i (cd_session d) t1"
    and "cd_transport d = callback_transport pf prim cx" "cd_ui_callback d = Some (ui_adapter env cbs)"
  shows "session_ok i \<lparr>bs_device = d', bs_transport = t'\<rparr>"
proof -
  have "bridged.over pf prim cx i (cd_session d) d" using assms(3,4) ui_adapter_keeps by (simp add: bridged.over_def)
  then have "session_inv i (cd_session d) t'" using ends_D [OF bridged.initialize_keeps assms(1)] assms(2) by blast
  then show ?thesis using initialize_device [OF assms(1)] assms(3,4) by (auto simp: session_ok_def)
qed

lemma connect_ble_ok:
  assumes "connect_ble c prim env cbs pf i t = Some (Inr (info, d), t')" "transport_inv t" "can_issue (ct_sessions t)"
  shows "session_ok i \<lparr>bs_device = d, bs_transport = t'\<rparr>"
proof -
  obtain session t1 features where a: "transport_acquire pf prim (cr_codecs c) i None t = Some (Inr session, t1)"
    and h: "has_thp i t1"
    and init: "initialize c (set_ui_callback (ui_adapter env cbs) (set_uses_thp True
        (connected_new (new_bluetooth i (Some ''Trezor Safe 7'')) (callback_transport pf prim (cr_codecs c)) session))) t1
      = Some (Inr (features, d), t')"
    using assms(1) unfolding connect_ble_def Let_def bind_op_Inr wrap_Inr
    by (auto simp: bind_op_Inr wrap_Inr split: if_splits)
  have "session_inv i session t1"
    using session_granted(1) [OF assms(2,3) a] ends_D [OF transport_acquire_inv [OF assms(2,3)] a] h by (simp add: session_inv_def)
  then show ?thesis
    by (intro connected_ok [OF init]) (simp_all add: set_ui_callback_def set_uses_thp_def connected_new_def)
qed

lemma connect_usb_ok:
  assumes "connect_usb c prim env cbs pf v p i t = Some (Inr (info, d), t')" "transport_inv t" "can_issue (ct_sessions t)"
    and "take 4 i \<noteq> ''ble:''"
  shows "session_ok i \<lparr>bs_device = d, bs_transport = t'\<rparr>"
proof -
  obtain session t1 features u where a: "transport_acquire pf prim (cr_codecs c) i None t = Some (Inr session, t1)"
    and init: "initialize c (set_ui_callback (ui_adapter env cbs) (set_uses_thp u
        (connected_new (new_usb i v p) (callback_transport pf prim (cr_codecs c)) session))) t1
      = Some (Inr (features, d), t')"
    using assms(1) unfolding connect_usb_def Let_def bind_op_Inr wrap_Inr
    by (auto simp: bind_op_Inr wrap_Inr split: if_splits)
  have "session_inv i session t1"
    using session_granted(1) [OF assms(2,3) a] ends_D [OF transport_acquire_inv [OF assms(2,3)] a] assms(4)
    by (simp add: session_inv_def)
  then show ?thesis
    by (intro connected_ok [OF init]) (simp_all add: set_ui_callback_def set_uses_thp_def connected_new_def)
qed

lemma run_connection_keeps:
  assumes "bridge_inv b" "\<And>info d t'. m t = Some (Inr (info, d), t') \<Longrightarrow> session_ok i \<lparr>bs_device = d, bs_transport = t'\<rparr>"
  shows "ends (run_connection env p i m t b) (\<lambda>r b'. bridge_inv b')"
proof (cases "m t")
  case (Some o')
  obtain r t' where o': "o' = (r, t')" by force
  show ?thesis
    using Some o' assms bridge_inv_session [of "b\<lparr>br_creds := replay env p (events (ct_link t')) (br_creds b)\<rparr>"]
    by (cases r) (auto simp: run_connection_def Let_def split: prod.split)
qed (simp add: run_connection_def)

lemma trezor_connect_keeps: "bridge_inv b \<Longrightarrow> ends (trezor_connect c prim env io h uuid cp b) (\<lambda>r b'. bridge_inv b')"
  unfolding trezor_connect_def Let_def
  by (auto split: option.split intro!: run_connection_keeps connect_ble_ok new_transport)

lemma trezor_connect_usb_keeps: "bridge_inv b \<Longrightarrow> ends (trezor_connect_usb c prim env io h path v p cp b) (\<lambda>r b'. bridge_inv b')"
  unfolding trezor_connect_usb_def Let_def
  by (auto split: option.split intro!: run_connection_keeps connect_usb_ok new_transport)

subsection \<open>Using and ending a session\<close>

lemmas session_keeps = ends_keep_bind ends_lift ends_wrap bridged.get_public_key_keeps bridged.sign_transaction_keeps
  bridged.apply_settings_keeps

lemma session_create_keeps:
  assumes "cd_transport d = callback_transport pf prim cx" "session_inv i x t"
  shows "ends (device_create_session d passphrase on_device t) (\<lambda>r t. session_inv i x t)"
  using assms session_create by (simp add: device_create_session_def callback_transport_def)

lemma trezor_get_xpub_keeps: "bridge_inv b \<Longrightarrow> ends (trezor_get_xpub c i keypath network b) (\<lambda>r b'. bridge_inv b')"
  unfolding trezor_get_xpub_def
  by (erule with_session_keeps, erule session_okE) (auto intro!: session_keeps)

lemma trezor_get_fingerprint_keeps: "bridge_inv b \<Longrightarrow> ends (trezor_get_fingerprint c i b) (\<lambda>r b'. bridge_inv b')"
  unfolding trezor_get_fingerprint_def
  by (erule with_session_keeps, erule session_okE) (auto intro!: session_keeps)

lemma trezor_sign_transaction_keeps:
  "bridge_inv b \<Longrightarrow> ends (trezor_sign_transaction c pc i psbt_bytes network b) (\<lambda>r b'. bridge_inv b')"
  unfolding trezor_sign_transaction_def sign_psbt_def
  by (erule with_session_keeps, erule session_okE) (auto intro!: session_keeps)

lemma trezor_apply_settings_keeps: "bridge_inv b \<Longrightarrow> ends (trezor_apply_settings c i u b) (\<lambda>r b'. bridge_inv b')"
  unfolding trezor_apply_settings_def
  by (erule with_session_keeps, erule session_okE) (auto intro!: session_keeps)

lemma trezor_create_session_keeps: "bridge_inv b \<Longrightarrow> ends (trezor_create_session i kind v b) (\<lambda>r b'. bridge_inv b')"
  unfolding trezor_create_session_def
  by (erule with_session_keeps, erule session_okE) (auto intro!: session_keeps session_create_keeps split: prod.split)

lemma trezor_disconnect_keeps: "bridge_inv b \<Longrightarrow> ends (trezor_disconnect i b) (\<lambda>r b'. bridge_inv b')"
  by (auto simp: trezor_disconnect_def ends_def bridge_inv_def split: option.splits sum.splits fault.splits if_splits)

lemmas bridge_keeps = trezor_connect_keeps trezor_connect_usb_keeps trezor_get_xpub_keeps trezor_get_fingerprint_keeps
  trezor_sign_transaction_keeps trezor_apply_settings_keeps trezor_create_session_keeps trezor_disconnect_keeps

section \<open>Any sequence of calls\<close>

text \<open>One call of the application, with any callbacks, crates, files and device behaviour.\<close>

inductive bridge_step :: "bridge \<Rightarrow> bridge \<Rightarrow> bool" where
  step_register: "bridge_step b (trezor_register_callbacks h cbs b)"
| step_register_usb: "bridge_step b (trezor_register_usb_callbacks h cbs b)"
| step_connect: "trezor_connect c prim env io h uuid path b = Some (r, b') \<Longrightarrow> bridge_step b b'"
| step_connect_usb: "trezor_connect_usb c prim env io h device_path v p path b = Some (r, b') \<Longrightarrow> bridge_step b b'"
| step_xpub: "trezor_get_xpub c i keypath network b = Some (rx, b') \<Longrightarrow> bridge_step b b'"
| step_fingerprint: "trezor_get_fingerprint c i b = Some (rx, b') \<Longrightarrow> bridge_step b b'"
| step_set_prev: "bridge_step b (trezor_set_prev_tx_hex i k hex b)"
| step_clear_prev: "bridge_step b (trezor_clear_prev_tx_hexes i b)"
| step_sign: "trezor_sign_transaction c pc i psbt_bytes network b = Some (rs, b') \<Longrightarrow> bridge_step b b'"
| step_disconnect: "trezor_disconnect i b = Some (ru, b') \<Longrightarrow> bridge_step b b'"
| step_create_session: "trezor_create_session i kind v b = Some (ru, b') \<Longrightarrow> bridge_step b b'"
| step_settings: "trezor_apply_settings c i u b = Some (ru, b') \<Longrightarrow> bridge_step b b'"

definition bridge_new :: "thp_creds \<Rightarrow> bridge" where
  "bridge_new cs = \<lparr>br_pending = Map.empty, br_pending_usb = Map.empty, br_sessions = Map.empty, br_creds = cs, br_prev_txs = Map.empty\<rparr>"

lemmas bridge_kept = bridge_keeps [THEN ends_D]

lemma bridge_step_inv: "bridge_step b b' \<Longrightarrow> bridge_inv b \<Longrightarrow> bridge_inv b'"
  by (induction rule: bridge_step.induct)
    (auto simp: trezor_register_callbacks_def trezor_register_usb_callbacks_def trezor_set_prev_tx_hex_def
      trezor_clear_prev_tx_hexes_def dest: bridge_kept)

lemma bridge_inv_new: "bridge_inv (bridge_new cs)"
  by (simp add: bridge_inv_def bridge_new_def)

lemma bridge_reachable: "bridge_step\<^sup>*\<^sup>* (bridge_new cs) b \<Longrightarrow> bridge_inv b"
  by (induction rule: rtranclp_induct) (auto intro: bridge_step_inv bridge_inv_new)

lemma session_ok_facts:
  assumes "session_ok i s"
  shows "get_path (cd_session (bs_device s)) (ct_sessions (bs_transport s)) = Some i"
    "take 4 i = ''ble:'' \<Longrightarrow> ready i (ble_states_of (bs_transport s))"
    "\<exists>pf prim cx. cd_transport (bs_device s) = callback_transport pf prim cx"
  using assms
  by (auto simp: session_ok_def session_inv_def transport_inv_def complete_paired_def has_thp_def ready_def split: option.splits)

lemma bridge_session_ok: "bridge_step\<^sup>*\<^sup>* (bridge_new cs) b \<Longrightarrow> br_sessions b i = Some s \<Longrightarrow> session_ok i s"
  using bridge_reachable by (simp add: bridge_inv_def)

section \<open>Previous transactions\<close>

text \<open>Injection keeps the number of inputs and changes an input only by giving it a previous
  transaction where it has none, the one parsed from the hex stored for its index.\<close>

definition injected :: "crates \<Rightarrow> (nat \<times> string) list \<Rightarrow> nat \<Rightarrow> PsbtInput \<Rightarrow> PsbtInput \<Rightarrow> bool" where
  "injected c m k inp inp' \<longleftrightarrow>
     inp' = inp \<or> pi_non_witness_utxo inp = None
       \<and> (\<exists>raw b tx. (k, raw) \<in> set m \<and> hx_decode (cr_hex c) raw = Inr b \<and> bc_deserialize (cr_btc c) b = Inr tx
            \<and> inp' = inp\<lparr>pi_non_witness_utxo := Some tx\<rparr>)"

lemma inject_loop_nth:
  "inject_loop c m inps = Inr inps' \<Longrightarrow>
   length inps' = length inps \<and> (\<forall>k<length inps. injected c m k (inps ! k) (inps' ! k))
   \<and> (\<forall>k\<in>fst ` set m. k < length inps \<and> pi_non_witness_utxo (inps' ! k) \<noteq> None)"
proof (induction m arbitrary: inps)
  case (Cons entry m)
  obtain i raw where e: "entry = (i, raw)" by force
  have more: "injected c (entry # m) k inp inp'" if "injected c m k inp inp'" for k inp inp'
    using that by (auto simp: injected_def)
  show ?case
  proof (cases "pi_non_witness_utxo (inps ! i)")
    case None
    then obtain b tx where r: "i < length inps" "hx_decode (cr_hex c) raw = Inr b" "bc_deserialize (cr_btc c) b = Inr tx"
      and t: "inject_loop c m (inps[i := (inps ! i)\<lparr>pi_non_witness_utxo := Some tx\<rparr>]) = Inr inps'"
      using Cons.prems e by (auto simp: sign_error_def split: if_splits sum.splits)
    note ih = Cons.IH [OF t]
    have i: "inps' ! i = (inps ! i)\<lparr>pi_non_witness_utxo := Some tx\<rparr>" using ih r(1) by (auto simp: injected_def)
    then have "injected c (entry # m) i (inps ! i) (inps' ! i)" using None r e by (auto simp: injected_def)
    then have "injected c (entry # m) k (inps ! k) (inps' ! k)" if "k < length inps" for k
      using ih that more by (cases "k = i") auto
    then show ?thesis using ih r(1) i e by auto
  next
    case (Some tx)
    then have t: "i < length inps" "inject_loop c m inps = Inr inps'" using Cons.prems e by (auto simp: sign_error_def split: if_splits)
    have "pi_non_witness_utxo (inps' ! i) \<noteq> None" using Cons.IH [OF t(2)] t(1) Some by (auto simp: injected_def)
    then show ?thesis using Cons.IH [OF t(2)] t(1) e more by auto
  qed
qed (simp add: injected_def)

end
