(* ===== verification/Bridge_Runs.thy ===== *)
theory Bridge_Runs
  imports Bridge
begin

text \<open>
  Runs of the bridge on scripted devices: the Bluetooth device of \<open>Handshake_Run\<close> is connected and
  gives its features over the encrypted channel; a Model One on USB gives its features and signs.
\<close>

section \<open>A Bluetooth device\<close>

definition run_env :: native_env where
  "run_env = kept_env\<lparr>ne_random := \<lambda>n k. replicate n 5\<rparr>"

definition run_callbacks :: "bytes list \<Rightarrow> TrezorBleCallbacks" where
  "run_callbacks rs = kept_callbacks\<lparr>cb_read := \<lambda>es io. if reads io < length rs then Some (rs ! reads io) else None\<rparr>"

definition no_creds :: thp_creds where
  "no_creds = \<lparr>tc_memory = Map.empty, tc_files = Map.empty\<rparr>"

definition run_load :: "string \<Rightarrow> link \<Rightarrow> string option" where
  "run_load = (\<lambda>d l. load_thp_credential run_env None d (replay run_env None (events l) no_creds))"

lemma run_ble_native: "pf_native (ble_adapter run_env (run_callbacks claim_script) uuid None no_creds) = claim_native run_load"
  by (auto simp: ble_adapter_def adapter_native_def claim_native_def run_native_def run_device_def adapter_write_def adapter_read_def
      run_callbacks_def kept_callbacks_def run_env_def kept_env_def ok_result_def run_load_def fun_eq_iff)

definition ble_new :: CallbackTransport where
  "ble_new = with_app_identity ''Coconut Wallet'' ''coconut-wallet'' (transport_new \<lparr>written = [], reads = 0\<rparr>)"

lemma show_one: "show_nat (Suc 0) = ''1''"
  by (simp add: show_nat.simps digit_char_def char_of_def bit_iff_odd)

lemma ble_acquired:
  assumes "pf_native pf = claim_native run_load"
  shows "\<exists>W. transport_acquire pf plain_prim cx ''ble:1'' None ble_new = Some (Inr ''1'', ble_new\<lparr>
     ct_link := run_link [''ble:1'' \<mapsto> claim_result] W 4 [Opened ''ble:1''] 3, ct_sessions := \<lparr>sessions = [(''ble:1'', ''1'')], counter = 1\<rparr>\<rparr>)"
proof -
  let ?s = "ble_new\<lparr>ct_link := run_link Map.empty [] 0 [Opened ''ble:1''] 0\<rparr>"
  have new: "ct_link ble_new = run_link Map.empty [] 0 [] 0" "ct_sessions ble_new = manager_new" "ct_cache ble_new = Map.empty"
    by (simp_all add: ble_new_def with_app_identity_def transport_new_def run_link_def)
  have load: "run_load ''ble:1'' (run_link Map.empty [] 0 [Opened ''ble:1''] 0) = None"
    by (simp add: run_load_def memory_load no_creds_def)
  obtain W where h: "perform_thp_handshake_inner (claim_native run_load) plain_prim cx (ct_identity ?s) ''ble:1'' False False (ct_link ?s)
      = Some (Inr (), run_link [''ble:1'' \<mapsto> claim_result] W 4 [Opened ''ble:1''] 3)"
    using claim_run(1) [of run_load "''ble:1''" "[Opened ''ble:1'']" cx "ct_identity ble_new" False False, OF load] by auto
  have "is_ble_device ''ble:1'' ?s" "\<not> has_thp ''ble:1'' ?s"
    by (simp_all add: is_ble_device_def new is_ble_device_heuristic_def has_thp_def ble_states_of_def)
  then have "prepare pf plain_prim cx ''ble:1'' ?s = Some (Inr (), ?s\<lparr>ct_link := run_link [''ble:1'' \<mapsto> claim_result] W 4 [Opened ''ble:1''] 3\<rparr>)"
    using h by (simp add: prepare_def on_link_def assms perform_thp_handshake_def MAX_RETRIES_def upt_rec)
  moreover have "open_device (pf_native pf) ''ble:1'' (ct_link ble_new)
      = (\<lparr>wr_success = True, wr_error = []\<rparr>, run_link Map.empty [] 0 [Opened ''ble:1''] 0)"
    by (simp add: open_device_def assms claim_native_def run_native_def new log_event_def run_link_def)
  moreover have "acquire ''ble:1'' None (ct_sessions ble_new) = (Inr ''1'', \<lparr>sessions = [(''ble:1'', ''1'')], counter = 1\<rparr>)"
    by (simp add: acquire_def new manager_new_def show_one Let_def)
  ultimately show ?thesis by (intro exI [of _ W]) (simp add: transport_acquire_def)
qed

lemma claim_result_facts:
  "channel (protocol_state claim_result) = claim_channel" "send_nonce (protocol_state claim_result) = 1"
  "recv_nonce (protocol_state claim_result) = 2" "handshake_credentials (protocol_state claim_result) = Some claim_creds"
  "is_paired (protocol_state claim_result)"
  by (simp_all add: claim_result_def protocol_state_def with_protocol_state_def exchanged_def claim_st3_def claim_st2_def
      update_sync_bit_def claim_st1_def thp_new_def)

text \<open>The first call on the channel is answered by the last entry of the script.\<close>

lemma ble_first_call:
  assumes "pf_native pf = claim_native run_load" "length d \<le> 100" "get_path ''1'' (ct_sessions s) = Some ''ble:1''"
    and "ct_link s = run_link [''ble:1'' \<mapsto> claim_result] W 4 E 3"
  shows "\<exists>s'. transport_call pf plain_prim ''1'' t d s = Some (Inr (17, []), s')"
proof -
  have "length (hc_host_key claim_creds) = 32" "length (hc_trezor_key claim_creds) = 32" by (simp_all add: claim_creds_def)
  then have "\<exists>W'. exchange (claim_native run_load) plain_prim ''ble:1'' (channel (protocol_state claim_result)) t d (ct_link s)
    = Some (Inr (17, []), run_link ([''ble:1'' \<mapsto> claim_result](''ble:1'' \<mapsto> with_protocol_state exchanged claim_result)) W' (Suc 4) E 3)"
    unfolding assms(4) claim_native_def
    by (intro run_exchange [where cs = claim_creds])
      (simp_all add: claim_script_facts(1,6) claim_result_facts u32_MAX_def assms(2))
  then obtain l where "exchange (claim_native run_load) plain_prim ''ble:1'' (channel (protocol_state claim_result)) t d (ct_link s)
      = Some (Inr (17, []), l)" by blast
  then have "thp_link_call pf plain_prim ''ble:1'' t d (ct_link s) = Some (Inr (17, []), l)"
    by (simp add: thp_link_call_def exchange_def thp_call_def assms(1,4) on_world_def)
  then show ?thesis
    using assms(3,4)
    by (simp add: transport_call_def Let_def needs_thp_def get_call_lock_def ble_states_of_def claim_result_facts on_link_def)
qed

lemma code_get_features: "message_code MGetFeatures = 55" "pb_encode (cr_pb run_crates) MGetFeatures = [55]"
  by (simp_all add: run_crates_def run_pb_def)

lemma features_response:
  "handle_response run_crates d (\<lambda>b. Inr run_features) (17, b) s = Some (Inr run_features, s)"
  unfolding handle_response_def max_buttons handle_loop.simps
  by (simp add: FAILURE_def BUTTON_REQUEST_def PIN_MATRIX_REQUEST_def PASSPHRASE_REQUEST_def map_err_def)

lemma initialize_run:
  assumes "cd_uses_thp d" "t_call (cd_transport d) (cd_session d) 55 [55] s = Some (Inr (17, b), s')"
  shows "\<exists>d'. initialize run_crates d s = Some (Inr (from_proto run_hex run_features, d'), s')"
proof -
  have c: "pb_features (cr_pb run_crates) = (\<lambda>b. Inr run_features)" "cr_hex run_crates = run_hex"
    by (simp_all add: run_crates_def run_pb_def)
  show ?thesis using assms by (simp add: initialize_def ask_def send_def code_get_features c features_response Let_def)
qed

lemma ble_connected:
  "\<exists>info d t. connect_ble run_crates plain_prim run_env (run_callbacks claim_script)
     (ble_adapter run_env (run_callbacks claim_script) uuid None no_creds) ''ble:1'' ble_new = Some (Inr (info, d), t)"
proof -
  let ?pf = "ble_adapter run_env (run_callbacks claim_script) uuid None no_creds"
  obtain W where a: "transport_acquire ?pf plain_prim (cr_codecs run_crates) ''ble:1'' None ble_new = Some (Inr ''1'', ble_new\<lparr>
     ct_link := run_link [''ble:1'' \<mapsto> claim_result] W 4 [Opened ''ble:1''] 3, ct_sessions := \<lparr>sessions = [(''ble:1'', ''1'')], counter = 1\<rparr>\<rparr>)"
      (is "_ = Some (_, ?t)")
    using ble_acquired [OF run_ble_native] by blast
  have h: "has_thp ''ble:1'' ?t" by (simp add: has_thp_def ble_states_of_def claim_result_def)
  let ?d = "set_ui_callback (ui_adapter run_env (run_callbacks claim_script)) (set_uses_thp True
    (connected_new (new_bluetooth ''ble:1'' (Some ''Trezor Safe 7'')) (callback_transport ?pf plain_prim (cr_codecs run_crates)) ''1''))"
  obtain s' where "transport_call ?pf plain_prim ''1'' 55 [55] ?t = Some (Inr (17, []), s')"
    using ble_first_call [OF run_ble_native, of "[55]" ?t W "[Opened ''ble:1'']" uuid 55] by (auto simp: get_path_def)
  then obtain d' where "initialize run_crates ?d ?t = Some (Inr (from_proto run_hex run_features, d'), s')"
    using initialize_run [of ?d ?t "[]" s']
    by (auto simp: set_ui_callback_def set_uses_thp_def connected_new_def callback_transport_def)
  then show ?thesis using a h by (simp add: connect_ble_def Let_def wrap_def bridge_err_def)
qed

definition ble_registered :: bridge where
  "ble_registered = trezor_register_callbacks 1 (run_callbacks claim_script) (bridge_new no_creds)"

text \<open>The application registers callbacks and connects.\<close>

lemma ble_run:
  "\<exists>info s b. trezor_connect run_crates plain_prim run_env \<lparr>written = [], reads = 0\<rparr> 1 ''1'' [] ble_registered = Some (Inr info, b)
     \<and> br_sessions b ''ble:1'' = Some s \<and> bridge_step\<^sup>*\<^sup>* (bridge_new no_creds) b"
proof -
  let ?cbs = "run_callbacks claim_script"
  obtain info d t where c: "connect_ble run_crates plain_prim run_env ?cbs (ble_adapter run_env ?cbs ''1'' None no_creds) ''ble:1'' ble_new
      = Some (Inr (info, d), t)"
    using ble_connected by blast
  have p: "br_pending ble_registered 1 = Some ?cbs" "br_creds ble_registered = no_creds"
    by (simp_all add: ble_registered_def trezor_register_callbacks_def bridge_new_def)
  obtain b where b: "trezor_connect run_crates plain_prim run_env \<lparr>written = [], reads = 0\<rparr> 1 ''1'' [] ble_registered = Some (Inr info, b)"
      "br_sessions b ''ble:1'' = Some \<lparr>bs_device = d, bs_transport = t\<rparr>"
    using c p by (simp add: trezor_connect_def Let_def cred_path_of_def run_connection_def ble_new_def)
  have "bridge_step (bridge_new no_creds) ble_registered" unfolding ble_registered_def by (rule step_register)
  moreover have "bridge_step ble_registered b" by (rule step_connect [OF b(1)])
  ultimately show ?thesis using b by (meson converse_rtranclp_into_rtranclp r_into_rtranclp)
qed

section \<open>A Model One on USB\<close>

definition usb_replies :: "(u16 \<times> bytes) list" where
  "usb_replies = (17, []) # run_replies"

definition usb_callbacks :: TrezorUsbCallbacks where
  "usb_callbacks = run_callbacks (map (\<lambda>(t, d). v1_reply t d) usb_replies)"

definition usb_platform :: platform where
  "usb_platform = usb_adapter run_env usb_callbacks ''usb:1'' 0x534c 1 None no_creds"

lemma usb_device: "device_of (pf_native usb_platform) p w = v1_device usb_replies"
  by (auto simp: device_of_def usb_platform_def usb_adapter_def adapter_native_def v1_device_def adapter_write_def adapter_read_def
      usb_callbacks_def run_callbacks_def kept_callbacks_def case_prod_beta)

lemma usb_no_message_call: "pf_call_message usb_platform p l t d = None"
  by (simp add: usb_platform_def usb_adapter_def)

text \<open>A transport on which the session has read \<open>k\<close> replies.\<close>

definition usb_at :: "nat \<Rightarrow> CallbackTransport \<Rightarrow> bool" where
  "usb_at k s \<longleftrightarrow> get_path ''1'' (ct_sessions s) = Some ''usb:1'' \<and> \<not> needs_thp ''usb:1'' s \<and> reads (link_io (ct_link s)) = k"

lemma usb_exchange:
  assumes "usb_at k s" "k < length usb_replies" "usb_replies ! k = (t', reply)" "length reply \<le> 55" "length d \<le> 55"
  shows "\<exists>s'. transport_call usb_platform plain_prim ''1'' t d s = Some (Inr (t', reply), s') \<and> usb_at (Suc k) s'"
  using v1_exchange [of "''1''" s "''usb:1''" usb_platform t d usb_replies t' reply plain_prim] assms usb_device usb_no_message_call
  by (auto simp: usb_at_def needs_thp_def ble_states_of_def is_ble_device_def)

definition usb_over :: "CallbackTransport ConnectedDevice \<Rightarrow> bool" where
  "usb_over d \<longleftrightarrow> cd_transport d = callback_transport usb_platform plain_prim (cr_codecs run_crates) \<and> cd_session d = ''1''"

lemma usb_send:
  assumes "usb_over d" "usb_at k s" "k < length usb_replies" "usb_replies ! k = (t', reply)" "length reply \<le> 55"
  shows "\<exists>s'. send run_crates d m s = Some (Inr (t', reply), s') \<and> usb_at (Suc k) s'"
proof -
  have "length (pb_encode (cr_pb run_crates) m) \<le> 55" by (simp add: run_crates_def run_pb_def)
  then show ?thesis
    using usb_exchange [OF assms(2-5)] assms(1) by (simp add: send_def usb_over_def callback_transport_def)
qed

lemma usb_replies_facts:
  "length usb_replies = 5" "usb_replies ! 0 = (17, [])" "usb_replies ! 1 = (21, [0, 0])" "usb_replies ! 2 = (26, [])"
  "usb_replies ! 3 = (21, [1, 0])" "usb_replies ! 4 = (21, [3, 0, 1, 5, 65])"
  by (simp_all add: usb_replies_def run_replies_def eval_nat_numeral)

lemma usb_plays:
  assumes "usb_over d" "usb_at 2 s"
  shows "\<exists>s'. plays run_crates d [MTxAck a, MButtonAck, MTxAck b] (tl run_replies) s = Some s'"
proof -
  obtain s1 where 1: "send run_crates d (MTxAck a) s = Some (Inr (26, []), s1)" "usb_at 3 s1"
    using usb_send [OF assms, of 26 "[]"] usb_replies_facts by auto
  obtain s2 where 2: "send run_crates d MButtonAck s1 = Some (Inr (21, [1, 0]), s2)" "usb_at 4 s2"
    using usb_send [OF assms(1) 1(2), of 21 "[1, 0]"] usb_replies_facts by auto
  obtain s3 where 3: "send run_crates d (MTxAck b) s2 = Some (Inr (21, [3, 0, 1, 5, 65]), s3)"
    using usb_send [OF assms(1) 2(2), of 21 "[3, 0, 1, 5, 65]"] usb_replies_facts by auto
  show ?thesis using 1(1) 2(1) 3 by (simp add: run_replies_def)
qed

lemma usb_signs:
  assumes "usb_over d" "usb_at 1 s"
  shows "\<exists>r s'. sign_transaction run_crates d run_params s = Some (Inr r, s') \<and> sr_txid r = Some (from_bytes [65])
     \<and> sr_signatures r = [from_bytes [1, 5, 65]]"
proof -
  obtain s1 where "send run_crates d (MSignTx (sign_tx_message run_params)) s = Some (Inr (21, [0, 0]), s1)" "usb_at 2 s1"
    using usb_send [OF assms, of 21 "[0, 0]"] usb_replies_facts by (auto simp: numeral_2_eq_2)
  then show ?thesis by (intro run_signs_on usb_plays assms(1))
qed

lemma usb_acquired:
  "\<exists>s. transport_acquire usb_platform plain_prim cx ''usb:1'' None (transport_new \<lparr>written = [], reads = 0\<rparr>) = Some (Inr ''1'', s) \<and> usb_at 0 s"
proof -
  let ?t = "transport_new \<lparr>written = [], reads = 0\<rparr>"
  let ?s = "?t\<lparr>ct_link := log_event (Opened ''usb:1'') (ct_link ?t)\<rparr>"
  have ble: "\<not> is_ble_device ''usb:1'' ?s" "\<not> needs_thp ''usb:1'' ?s" "reads (link_io (ct_link ?s)) = 0"
    by (simp_all add: needs_thp_def is_ble_device_def is_ble_device_heuristic_def ble_states_of_def transport_new_def log_event_def)
  have "prepare usb_platform plain_prim cx ''usb:1'' ?s = Some (Inr (), ?s)"
    using ble(1) by (simp add: prepare_def usb_platform_def usb_adapter_def Let_def)
  moreover have "open_device (pf_native usb_platform) ''usb:1'' (ct_link ?t) = (ok_result, log_event (Opened ''usb:1'') (ct_link ?t))"
    by (simp add: open_device_def usb_platform_def usb_adapter_def adapter_native_def ok_result_def)
  moreover have "acquire ''usb:1'' None (ct_sessions ?s) = (Inr ''1'', \<lparr>sessions = [(''usb:1'', ''1'')], counter = 1\<rparr>)"
    by (simp add: acquire_def transport_new_def manager_new_def show_one Let_def)
  ultimately show ?thesis
    using ble by (simp add: transport_acquire_def ok_result_def usb_at_def get_path_def needs_thp_def ble_states_of_def is_ble_device_def)
qed

lemma usb_initialized:
  assumes "usb_over d" "\<not> cd_uses_thp d" "usb_at 0 s"
  shows "\<exists>d' s'. initialize run_crates d s = Some (Inr (from_proto run_hex run_features, d'), s') \<and> usb_over d' \<and> usb_at 1 s'"
proof -
  have c: "pb_features (cr_pb run_crates) = (\<lambda>b. Inr run_features)" "cr_hex run_crates = run_hex"
    by (simp_all add: run_crates_def run_pb_def)
  obtain s' where s': "send run_crates d MInitialize s = Some (Inr (17, []), s')" "usb_at 1 s'"
    using usb_send [OF assms(1,3), of 17 "[]"] usb_replies_facts by auto
  have "handle_response run_crates d (\<lambda>b. Inr run_features) (17, []) s' = Some (Inr run_features, s')"
    by (rule features_response)
  then have "\<exists>d'. initialize run_crates d s = Some (Inr (from_proto run_hex run_features, d'), s')"
    using assms(2) s'(1) by (simp add: initialize_def ask_def c Let_def)
  then show ?thesis using s'(2) initialize_device assms(1) by (fastforce simp: usb_over_def)
qed

lemma run_features_accepted:
  "is_initialized (from_proto run_hex run_features)" "\<not> is_bootloader (from_proto run_hex run_features)"
  "\<not> version_less (version_of (from_proto run_hex run_features)) (1, 8, 0)"
  by (simp_all add: from_proto_def run_features_def is_initialized_def is_bootloader_def version_less_def version_of_def Let_def)

lemma usb_connected:
  "\<exists>info d t. connect_usb run_crates plain_prim run_env usb_callbacks usb_platform 0x534c 1 ''usb:1''
       (transport_new \<lparr>written = [], reads = 0\<rparr>) = Some (Inr (info, d), t) \<and> usb_over d \<and> usb_at 1 t"
proof -
  obtain t where a: "transport_acquire usb_platform plain_prim (cr_codecs run_crates) ''usb:1'' None (transport_new \<lparr>written = [], reads = 0\<rparr>)
      = Some (Inr ''1'', t)" "usb_at 0 t"
    using usb_acquired by blast
  let ?d = "set_ui_callback (ui_adapter run_env usb_callbacks) (set_uses_thp (has_thp ''usb:1'' t)
    (connected_new (new_usb ''usb:1'' 0x534c 1) (callback_transport usb_platform plain_prim (cr_codecs run_crates)) ''1''))"
  have d: "usb_over ?d" "\<not> cd_uses_thp ?d"
    using a(2) by (auto simp: usb_over_def usb_at_def needs_thp_def has_thp_def set_ui_callback_def set_uses_thp_def connected_new_def)
  obtain d' t' where i: "initialize run_crates ?d t = Some (Inr (from_proto run_hex run_features, d'), t')" "usb_over d'" "usb_at 1 t'"
    using usb_initialized [OF d a(2)] by blast
  show ?thesis
    using a(1) i run_features_accepted by (simp add: connect_usb_def Let_def wrap_def bridge_err_def)
qed

definition usb_registered :: bridge where
  "usb_registered = trezor_register_usb_callbacks 1 usb_callbacks (bridge_new no_creds)"

text \<open>The application registers callbacks and connects; the session can sign.\<close>

lemma usb_run:
  "\<exists>info s b. trezor_connect_usb run_crates plain_prim run_env \<lparr>written = [], reads = 0\<rparr> 1 ''1'' 0x534c 1 [] usb_registered = Some (Inr info, b)
     \<and> br_sessions b ''usb:1'' = Some s \<and> usb_over (bs_device s) \<and> usb_at 1 (bs_transport s) \<and> br_prev_txs b = Map.empty"
proof -
  obtain info d t where c: "connect_usb run_crates plain_prim run_env usb_callbacks usb_platform 0x534c 1 ''usb:1''
       (transport_new \<lparr>written = [], reads = 0\<rparr>) = Some (Inr (info, d), t)" "usb_over d" "usb_at 1 t"
    using usb_connected by blast
  have "br_pending_usb usb_registered 1 = Some usb_callbacks" "br_creds usb_registered = no_creds" "br_prev_txs usb_registered = Map.empty"
    by (simp_all add: usb_registered_def trezor_register_usb_callbacks_def bridge_new_def)
  then show ?thesis
    using c by (simp add: trezor_connect_usb_def Let_def cred_path_of_def run_connection_def usb_platform_def)
qed

lemma usb_signs_psbt:
  assumes "usb_over d" "usb_at 1 t"
  shows "\<exists>out t'. sign_psbt run_crates run_psbt_crate None [1] BtcBitcoin d t = Some (Inr out, t')"
proof -
  obtain r t' where r: "sign_transaction run_crates d run_params t = Some (Inr r, t')" "sr_signatures r = [from_bytes [1, 5, 65]]"
    using usb_signs [OF assms] by blast
  have c: "cr_btc run_crates = run_crate" "cr_hex run_crates = run_hex" by (simp_all add: run_crates_def)
  have "\<exists>out. apply_signatures_to_psbt run_psbt_crate run_hex [1] r = Inr out"
    by (simp add: apply_signatures_to_psbt_def run_psbt_crate_def map_err_def run_psbt_def apply_signature_def decode_hex_def run_hex_def r(2))
  then show ?thesis
    using r(1) run_psbt_params by (auto simp: sign_psbt_def inject_prev_txs_into_psbt_def c bridge_err_def wrap_def lift_res_def)
qed

end
