(* ===== verification/Bridge_Properties.thy ===== *)
theory Bridge_Properties
  imports Bridge_Runs
begin

text \<open>
  What the mobile application can rely on: sessions are usable and, over Bluetooth, encrypted; a
  signed PSBT is the one handed in, with signatures; what stored previous transactions do to later
  signing.
\<close>

section \<open>Sessions\<close>

text \<open>
  C9: whatever calls the application makes, whatever callbacks, files and
  devices do, the session registered under an identifier belongs to that path on its own transport;
  and if it is a Bluetooth device, its channel is complete and paired, and every message of the
  session is sent encrypted on that channel.
\<close>

theorem bridge_sessions_paired:
  assumes "bridge_step\<^sup>*\<^sup>* (bridge_new cs) b" "br_sessions b i = Some s"
  shows "get_path (cd_session (bs_device s)) (ct_sessions (bs_transport s)) = Some i
    \<and> (take 4 i = ''ble:'' \<longrightarrow> ready i (ble_states_of (bs_transport s))
        \<and> (\<exists>pf prim. send c (bs_device s) m (bs_transport s)
             = on_link (thp_link_call pf prim i (message_code m) (pb_encode (cr_pb c) m)) (get_call_lock i (bs_transport s))))"
proof -
  note f = session_ok_facts [OF bridge_session_ok [OF assms]]
  obtain pf prim cx where t: "cd_transport (bs_device s) = callback_transport pf prim cx" using f(3) by blast
  have "send c (bs_device s) m (bs_transport s)
      = on_link (thp_link_call pf prim i (message_code m) (pb_encode (cr_pb c) m)) (get_call_lock i (bs_transport s))"
    if "take 4 i = ''ble:''"
    using f(1) f(2) [OF that]
    by (auto simp: send_def t callback_transport_def transport_call_def Let_def ready_def get_call_lock_def needs_thp_def ble_states_of_def)
  then show ?thesis using f by blast
qed

theorem bridge_sessions_paired_witness:
  "\<exists>b s st. bridge_step\<^sup>*\<^sup>* (bridge_new no_creds) b \<and> br_sessions b ''ble:1'' = Some s
     \<and> ble_states_of (bs_transport s) ''ble:1'' = Some st \<and> is_paired (protocol_state st)"
proof -
  obtain s b where b: "br_sessions b ''ble:1'' = Some s" "bridge_step\<^sup>*\<^sup>* (bridge_new no_creds) b"
    using ble_run by blast
  have "take 4 ''ble:1'' = ''ble:''" by simp
  then have "ready ''ble:1'' (ble_states_of (bs_transport s))" using bridge_sessions_paired [OF b(2,1)] by blast
  then show ?thesis using b by (auto simp: ready_def)
qed

lemma run_connection_cases:
  assumes "run_connection env p i m t b = Some (r, b')"
  shows "br_pending b' = br_pending b \<and> br_pending_usb b' = br_pending_usb b \<and> br_prev_txs b' = br_prev_txs b"
    "\<exists>t'. (case r of Inl e \<Rightarrow> m t = Some (Inl e, t') \<and> br_sessions b' = br_sessions b
       | Inr info \<Rightarrow> (\<exists>d. m t = Some (Inr (info, d), t') \<and> br_sessions b' = (br_sessions b)(i \<mapsto> \<lparr>bs_device = d, bs_transport = t'\<rparr>)))"
  using assms by (auto simp: run_connection_def Let_def split: option.splits prod.splits sum.splits)

lemma connect_ble_info:
  assumes "connect_ble c prim env cbs pf i t = Some (Inr (info, d), t')"
  shows "ci_device_id info = i \<and> ci_transport info = ''ble'' \<and> ci_uses_thp info"
  using assms unfolding connect_ble_def Let_def
  by (auto simp: bind_op_Inr wrap_Inr connect_info_def split: if_splits)

text \<open>
  C24: connecting over Bluetooth uses up the callbacks registered for the
  handle, keeps stored previous transactions and every other session, and on failure also an earlier
  session of the same device. Without callbacks it fails. When it succeeds, the description names the
  device and says it is encrypted, and its session is registered on a complete, paired channel.
\<close>

theorem bluetooth_connect_outcome:
  assumes "trezor_connect c prim env io h uuid path b = Some (r, b')"
  shows "br_pending b' = (br_pending b)(h := None) \<and> br_pending_usb b' = br_pending_usb b \<and> br_prev_txs b' = br_prev_txs b
    \<and> (case r of
         Inl e \<Rightarrow> br_sessions b' = br_sessions b
       | Inr info \<Rightarrow> br_pending b h \<noteq> None \<and> ci_device_id info = ''ble:'' @ uuid \<and> ci_transport info = ''ble'' \<and> ci_uses_thp info
           \<and> (\<exists>s. br_sessions b' = (br_sessions b)(''ble:'' @ uuid \<mapsto> s)
                \<and> get_path (cd_session (bs_device s)) (ct_sessions (bs_transport s)) = Some (''ble:'' @ uuid)
                \<and> ready (''ble:'' @ uuid) (ble_states_of (bs_transport s))))"
proof (cases "br_pending b h")
  case None
  then show ?thesis using assms by (auto simp: trezor_connect_def)
next
  case (Some cbs)
  let ?b = "b\<lparr>br_pending := (br_pending b)(h := None)\<rparr>" and ?i = "''ble:'' @ uuid"
    and ?t = "with_app_identity ''Coconut Wallet'' ''coconut-wallet'' (transport_new io)"
  have run: "run_connection env (cred_path_of path) ?i
      (connect_ble c prim env cbs (ble_adapter env cbs uuid (cred_path_of path) (br_creds ?b)) ?i) ?t ?b = Some (r, b')"
    using assms Some by (simp add: trezor_connect_def Let_def)
  show ?thesis
  proof (cases r)
    case (Inr info)
    then obtain d t' where d: "connect_ble c prim env cbs (ble_adapter env cbs uuid (cred_path_of path) (br_creds ?b)) ?i ?t
        = Some (Inr (info, d), t')" "br_sessions b' = (br_sessions b)(?i \<mapsto> \<lparr>bs_device = d, bs_transport = t'\<rparr>)"
      using run_connection_cases(2) [OF run] by auto
    have "session_ok ?i \<lparr>bs_device = d, bs_transport = t'\<rparr>" by (rule connect_ble_ok [OF d(1) new_transport(3,4)])
    then show ?thesis
      using run_connection_cases(1) [OF run] connect_ble_info [OF d(1)] d(2) Some Inr session_ok_facts by fastforce
  qed (use run_connection_cases [OF run] Some in auto)
qed

theorem bluetooth_connect_outcome_witness:
  "\<exists>info s b. trezor_connect run_crates plain_prim run_env \<lparr>written = [], reads = 0\<rparr> 1 ''1'' [] ble_registered = Some (Inr info, b)
     \<and> br_pending b 1 = None \<and> ci_device_id info = ''ble:1'' \<and> br_sessions b ''ble:1'' = Some s
     \<and> ready ''ble:1'' (ble_states_of (bs_transport s))"
proof -
  obtain info b where b: "trezor_connect run_crates plain_prim run_env \<lparr>written = [], reads = 0\<rparr> 1 ''1'' [] ble_registered = Some (Inr info, b)"
    using ble_run by blast
  from bluetooth_connect_outcome [OF b] show ?thesis using b by auto
qed

lemma initialize_features:
  "initialize c d s = Some (Inr (features, d'), s') \<Longrightarrow> cd_features d' = Some features"
  by (auto simp: initialize_def bind_op_Inr Let_def)

lemma connect_usb_checked:
  assumes "connect_usb c prim env cbs pf v p i t = Some (Inr (info, d), t')"
  shows "\<exists>features. cd_features d = Some features \<and> is_initialized features \<and> \<not> is_bootloader features
    \<and> \<not> version_less (version_of features) (1, 8, 0)"
  using assms unfolding connect_usb_def Let_def
  by (auto simp: bind_op_Inr wrap_Inr split: if_splits dest!: initialize_features)

text \<open>
  A USB connection succeeds only for the two supported product
  identifiers and registers a device whose reported features say that it is initialized, not in
  the bootloader and at least version 1.8.0; the session belongs to its path. Every other outcome
  leaves the sessions as they were.
\<close>

theorem usb_connect_supported:
  assumes "trezor_connect_usb c prim env io h device_path v p path b = Some (r, b')"
  shows "case r of
      Inl e \<Rightarrow> br_sessions b' = br_sessions b
    | Inr info \<Rightarrow> (v, p) \<in> {(0x534c, 0x0001), (0x1209, 0x53c1)}
        \<and> (\<exists>s features. br_sessions b' = (br_sessions b)(''usb:'' @ device_path \<mapsto> s)
             \<and> get_path (cd_session (bs_device s)) (ct_sessions (bs_transport s)) = Some (''usb:'' @ device_path)
             \<and> cd_features (bs_device s) = Some features \<and> is_initialized features \<and> \<not> is_bootloader features
             \<and> \<not> version_less (version_of features) (1, 8, 0))"
proof (cases "br_pending_usb b h = None \<or> (v, p) \<notin> {(0x534c, 0x0001), (0x1209, 0x53c1)}")
  case True
  then show ?thesis using assms by (auto simp: trezor_connect_usb_def Let_def split: option.splits if_splits)
next
  case False
  then obtain cbs where cbs: "br_pending_usb b h = Some cbs" and vp: "(v, p) \<in> {(0x534c, 0x0001), (0x1209, 0x53c1)}" by auto
  let ?b = "b\<lparr>br_pending_usb := (br_pending_usb b)(h := None)\<rparr>" and ?i = "''usb:'' @ device_path"
  have run: "run_connection env (cred_path_of path) ?i
      (connect_usb c prim env cbs (usb_adapter env cbs ?i v p (cred_path_of path) (br_creds ?b)) v p ?i) (transport_new io) ?b = Some (r, b')"
    using assms cbs vp by (auto simp: trezor_connect_usb_def Let_def)
  show ?thesis
  proof (cases r)
    case (Inr info)
    then obtain d t' where d: "connect_usb c prim env cbs (usb_adapter env cbs ?i v p (cred_path_of path) (br_creds ?b)) v p ?i (transport_new io)
        = Some (Inr (info, d), t')" "br_sessions b' = (br_sessions b)(?i \<mapsto> \<lparr>bs_device = d, bs_transport = t'\<rparr>)"
      using run_connection_cases(2) [OF run] by auto
    have "session_ok ?i \<lparr>bs_device = d, bs_transport = t'\<rparr>" by (rule connect_usb_ok [OF d(1) new_transport(1,2)]) simp
    then show ?thesis using connect_usb_checked [OF d(1)] d(2) vp Inr session_ok_facts(1) by fastforce
  qed (use run_connection_cases [OF run] in auto)
qed

theorem usb_connect_supported_witness:
  "\<exists>info s features b. trezor_connect_usb run_crates plain_prim run_env \<lparr>written = [], reads = 0\<rparr> 1 ''1'' 0x534c 1 [] usb_registered
       = Some (Inr info, b)
     \<and> br_sessions b ''usb:1'' = Some s \<and> cd_features (bs_device s) = Some features \<and> is_initialized features"
proof -
  obtain info b where b: "trezor_connect_usb run_crates plain_prim run_env \<lparr>written = [], reads = 0\<rparr> 1 ''1'' 0x534c 1 [] usb_registered
      = Some (Inr info, b)"
    using usb_run by blast
  from usb_connect_supported [OF b] show ?thesis using b by auto
qed

section \<open>Signing\<close>

lemma bridge_err_Inr: "bridge_err f r = Inr v \<longleftrightarrow> r = Inr v"
  by (auto simp: bridge_err_def split: sum.splits fault.splits)

lemma sign_psbt_steps:
  assumes "sign_psbt c pc stored bytes n d t = Some (Inr out, t')"
  obtains enriched params signed_tx t1 where "inject_prev_txs_into_psbt c pc stored bytes = Inr enriched"
    "psbt_to_sign_tx_params pc (cr_btc c) (cr_hex c) enriched n = Inr params"
    "sign_transaction c d params t = Some (Inr signed_tx, t')"
    "apply_signatures_to_psbt pc (cr_hex c) enriched signed_tx = Inr out"
  using assms unfolding sign_psbt_def
  by (auto simp: bind_op_Inr wrap_Inr lift_res_def bridge_err_Inr)

lemma inject_facts:
  assumes "inject_prev_txs_into_psbt c pc stored bytes = Inr enriched" "pc_deserialize pc bytes = Inr psbt"
    and "\<And>m inps. stored = Some m \<Longrightarrow> inject_loop c m (ps_inputs psbt) = Inr inps \<Longrightarrow>
      pc_deserialize pc (pc_serialize pc (psbt\<lparr>ps_inputs := inps\<rparr>)) = Inr (psbt\<lparr>ps_inputs := inps\<rparr>)"
  obtains inps where "pc_deserialize pc enriched = Inr (psbt\<lparr>ps_inputs := inps\<rparr>)" "length inps = length (ps_inputs psbt)"
    "\<And>k. k < length inps \<Longrightarrow> injected c (case stored of Some m \<Rightarrow> m | None \<Rightarrow> []) k (ps_inputs psbt ! k) (inps ! k)"
proof (cases stored)
  case None
  then show ?thesis using assms that [of "ps_inputs psbt"] by (simp add: inject_prev_txs_into_psbt_def injected_def)
next
  case (Some m)
  then obtain inps where i: "inject_loop c m (ps_inputs psbt) = Inr inps" "enriched = pc_serialize pc (psbt\<lparr>ps_inputs := inps\<rparr>)"
    using assms(1,2) by (auto simp: inject_prev_txs_into_psbt_def res_simps)
  show ?thesis using that [of inps] assms(3) [OF Some i(1)] inject_loop_nth [OF i(1)] i(2) Some by simp
qed

text \<open>
  C3: a PSBT that comes back signed is the one handed in. The transaction and the
  outputs are the same, and each input differs at most by a previous transaction stored for it,
  where it had none, and by the signature of the device's answer at its own position. If the answer
  has a transaction id, the transaction behind it pays what the PSBT asks for. The hypotheses are
  that the \<^verbatim>\<open>bitcoin\<close> crate parses the PSBT it has just printed, and that an address printed for a
  script parses to that script.
\<close>

theorem bridge_signs_psbt:
  assumes "trezor_sign_transaction c pc i bytes network b = Some (Inr out, b')" "pc_deserialize pc bytes = Inr psbt"
    and "\<And>m inps. br_prev_txs b i = Some m \<Longrightarrow> inject_loop c m (ps_inputs psbt) = Inr inps \<Longrightarrow>
      pc_deserialize pc (pc_serialize pc (psbt\<lparr>ps_inputs := inps\<rparr>)) = Inr (psbt\<lparr>ps_inputs := inps\<rparr>)"
    and "\<And>script a. pc_address_from_script pc script (btc_network_of network) = Inr a \<Longrightarrow>
      address_to_script (cr_btc c) a (from_bitcoin_network (btc_network_of network)) = Inr script"
  shows "\<exists>s params signed_tx t inps inps'. br_sessions b i = Some s
    \<and> sign_transaction c (bs_device s) params (bs_transport s) = Some (Inr signed_tx, t)
    \<and> out = pc_serialize pc (psbt\<lparr>ps_inputs := inps'\<rparr>) \<and> length inps' = length (ps_inputs psbt)
    \<and> (\<forall>k<length inps'. injected c (case br_prev_txs b i of Some m \<Rightarrow> m | None \<Rightarrow> []) k (ps_inputs psbt ! k) (inps ! k)
         \<and> signed_input pc (cr_hex c) (sr_signatures signed_tx) k (inps ! k) (inps' ! k))
    \<and> (\<forall>txid. sr_txid signed_tx = Some txid \<longrightarrow>
         (\<exists>tx. txid = bc_txid_to_string (cr_btc c) (bc_compute_txid (cr_btc c) tx) \<and> pays_psbt pc psbt tx))"
proof -
  obtain s t where s: "br_sessions b i = Some s"
    and sg: "sign_psbt c pc (br_prev_txs b i) bytes (btc_network_of network) (bs_device s) (bs_transport s) = Some (Inr out, t)"
    using assms(1) by (auto simp: trezor_sign_transaction_def with_session_def split: option.splits)
  obtain enriched params signed_tx where e: "inject_prev_txs_into_psbt c pc (br_prev_txs b i) bytes = Inr enriched"
    and params: "psbt_to_sign_tx_params pc (cr_btc c) (cr_hex c) enriched (btc_network_of network) = Inr params"
    and sign: "sign_transaction c (bs_device s) params (bs_transport s) = Some (Inr signed_tx, t)"
    and out: "apply_signatures_to_psbt pc (cr_hex c) enriched signed_tx = Inr out"
    by (rule sign_psbt_steps [OF sg])
  obtain inps where inps: "pc_deserialize pc enriched = Inr (psbt\<lparr>ps_inputs := inps\<rparr>)" "length inps = length (ps_inputs psbt)"
    and inj: "\<And>k. k < length inps \<Longrightarrow> injected c (case br_prev_txs b i of Some m \<Rightarrow> m | None \<Rightarrow> []) k (ps_inputs psbt ! k) (inps ! k)"
    by (rule inject_facts [OF e assms(2,3)]) blast+
  have pays: "pays_psbt pc (psbt\<lparr>ps_inputs := inps\<rparr>) tx = pays_psbt pc psbt tx" for tx by (simp add: pays_psbt_def)
  obtain inps' where a: "out = pc_serialize pc (psbt\<lparr>ps_inputs := inps'\<rparr>)" "length inps' = length inps"
    "\<forall>k<length inps'. signed_input pc (cr_hex c) (sr_signatures signed_tx) k (inps ! k) (inps' ! k)"
    using signatures_applied_in_place [OF out inps(1)] by auto
  have "\<exists>tx. txid = bc_txid_to_string (cr_btc c) (bc_compute_txid (cr_btc c) tx) \<and> pays_psbt pc psbt tx"
    if "sr_txid signed_tx = Some txid" for txid
    using psbt_signed_pays [OF params inps(1) sign that assms(4)] pays by simp
  then show ?thesis using s sign a inps(2) inj
    by (intro exI [of _ s] exI [of _ params] exI [of _ signed_tx] exI [of _ t] exI [of _ inps] exI [of _ inps']) simp
qed

theorem bridge_signs_psbt_witness:
  "\<exists>b out b' inps'. br_sessions b ''usb:1'' \<noteq> None
     \<and> trezor_sign_transaction run_crates run_psbt_crate ''usb:1'' [1] ''mainnet'' b = Some (Inr out, b')
     \<and> out = pc_serialize run_psbt_crate (run_psbt\<lparr>ps_inputs := inps'\<rparr>) \<and> length inps' = 1"
proof -
  obtain s and b :: bridge where b: "br_sessions b ''usb:1'' = Some s" "usb_over (bs_device s)" "usb_at 1 (bs_transport s)" "br_prev_txs b = Map.empty"
    using usb_run by blast
  have n: "btc_network_of ''mainnet'' = BtcBitcoin"
    by (simp add: btc_network_of_def Let_def to_lowercase_def to_lower_def)
  obtain out t' where o': "sign_psbt run_crates run_psbt_crate None [1] BtcBitcoin (bs_device s) (bs_transport s) = Some (Inr out, t')"
    using usb_signs_psbt [OF b(2,3)] by blast
  then obtain b' where r: "trezor_sign_transaction run_crates run_psbt_crate ''usb:1'' [1] ''mainnet'' b = Some (Inr out, b')"
    using b by (simp add: trezor_sign_transaction_def with_session_def n)
  have d: "pc_deserialize run_psbt_crate [1] = Inr run_psbt" "length (ps_inputs run_psbt) = 1" by (simp_all add: run_psbt_crate_def run_psbt_def)
  have a: "address_to_script (cr_btc run_crates) a (from_bitcoin_network (btc_network_of ''mainnet'')) = Inr script"
    if "pc_address_from_script run_psbt_crate script (btc_network_of ''mainnet'') = Inr a" for script a
    using that by (auto simp: n run_psbt_crate_def address_to_script_def map_err_def run_crate_def run_crates_def)
  have "\<exists>inps'. out = pc_serialize run_psbt_crate (run_psbt\<lparr>ps_inputs := inps'\<rparr>) \<and> length inps' = 1"
    using bridge_signs_psbt [OF r d(1) _ a] b(4) d(2) by fastforce
  then show ?thesis using b(1) r by blast
qed

section \<open>Stored previous transactions\<close>

definition stored_indices :: "bridge \<Rightarrow> string \<Rightarrow> nat set" where
  "stored_indices b i = fst ` set (case br_prev_txs b i of Some m \<Rightarrow> m | None \<Rightarrow> [])"

lemma stored_same: "br_prev_txs b' = br_prev_txs b \<Longrightarrow> stored_indices b i \<subseteq> stored_indices b' i"
  by (simp add: stored_indices_def)

lemma put_entry_keys: "fst ` set (put_entry k v m) = insert k (fst ` set m)"
  by (induction k v m rule: put_entry.induct) auto

lemma with_session_prev: "ends (with_session u i f b) (\<lambda>r b'. br_prev_txs b' = br_prev_txs b)"
  by (auto simp: with_session_def ends_def split: option.splits)

lemma run_connection_prev: "ends (run_connection env p i m t b) (\<lambda>r b'. br_prev_txs b' = br_prev_txs b)"
  using run_connection_cases(1) by (auto simp: ends_def)

lemma connect_prev:
  "ends (trezor_connect c prim env io h uuid path b) (\<lambda>r b'. br_prev_txs b' = br_prev_txs b)"
  "ends (trezor_connect_usb c prim env io h device_path v p path b) (\<lambda>r b'. br_prev_txs b' = br_prev_txs b)"
  unfolding trezor_connect_def trezor_connect_usb_def Let_def
  by (auto split: option.split intro!: ends_weaken [OF run_connection_prev])

lemma disconnect_prev: "ends (trezor_disconnect i b) (\<lambda>r b'. br_prev_txs b' = br_prev_txs b)"
  by (auto simp: trezor_disconnect_def ends_def split: option.splits sum.splits fault.splits)

lemmas sessions_prev = with_session_prev [THEN ends_D] connect_prev [THEN ends_D] disconnect_prev [THEN ends_D]

lemma stored_kept:
  assumes "bridge_step b b'" "b' \<noteq> trezor_clear_prev_tx_hexes i b"
  shows "stored_indices b i \<subseteq> stored_indices b' i"
  using assms
proof (cases rule: bridge_step.cases)
  case (step_set_prev j k hex)
  then show ?thesis by (cases "br_prev_txs b i") (auto simp: stored_indices_def trezor_set_prev_tx_hex_def put_entry_keys)
next
  case (step_clear_prev j)
  then show ?thesis using assms(2) by (auto simp: stored_indices_def trezor_clear_prev_tx_hexes_def)
qed (auto intro!: stored_same simp: trezor_register_callbacks_def trezor_register_usb_callbacks_def trezor_get_xpub_def
    trezor_get_fingerprint_def trezor_sign_transaction_def trezor_create_session_def trezor_apply_settings_def dest!: sessions_prev)

lemma inject_stale:
  "k \<in> fst ` set m \<Longrightarrow> length inps \<le> k \<Longrightarrow> \<exists>e. inject_loop c m inps = Inl (Err (Sign e))"
proof (induction m arbitrary: inps)
  case (Cons entry m)
  obtain j raw where e: "entry = (j, raw)" by force
  show ?case
  proof (cases "length inps \<le> j")
    case False
    then have m: "k \<in> fst ` set m" using Cons.prems e by auto
    show ?thesis using Cons.IH [OF m, of inps] Cons.IH [OF m] Cons.prems(2) e False
      by (auto simp: sign_error_def split: sum.split)
  qed (simp add: e sign_error_def)
qed simp

text \<open>
  C25: once a previous transaction has been stored for input \<open>k\<close> of a
  device, signing any PSBT of at most \<open>k\<close> inputs with that device fails before the device is asked,
  after any further calls, including signing, disconnecting and connecting again, until the stored
  transactions are cleared by a call of its own.
\<close>

theorem stale_prev_tx_blocks_signing:
  assumes "(\<lambda>x y. bridge_step x y \<and> y \<noteq> trezor_clear_prev_tx_hexes i x)\<^sup>*\<^sup>* (trezor_set_prev_tx_hex i k raw b0) b"
    and "br_sessions b i = Some s" "pc_deserialize pc bytes = Inr psbt" "length (ps_inputs psbt) \<le> unat k"
  shows "\<exists>e. trezor_sign_transaction c pc i bytes network b = Some (Inl (Err (Sign e)), b)"
proof -
  have "unat k \<in> stored_indices b i"
    using assms(1)
  proof (induction rule: rtranclp_induct)
    case base
    then show ?case by (simp add: stored_indices_def trezor_set_prev_tx_hex_def put_entry_keys)
  next
    case (step x y)
    then show ?case using stored_kept by blast
  qed
  then obtain m where m: "br_prev_txs b i = Some m" "unat k \<in> fst ` set m"
    by (cases "br_prev_txs b i") (auto simp: stored_indices_def)
  obtain e where "inject_loop c m (ps_inputs psbt) = Inl (Err (Sign e))" using inject_stale [OF m(2) assms(4)] by blast
  then have "inject_prev_txs_into_psbt c pc (Some m) bytes = Inl (Err (Sign e))"
    using assms(3) by (simp add: inject_prev_txs_into_psbt_def)
  moreover have "(br_sessions b)(i \<mapsto> s) = br_sessions b" using assms(2) by (rule fun_upd_idem)
  ultimately show ?thesis using assms(2) m(1) by (simp add: trezor_sign_transaction_def with_session_def sign_psbt_def)
qed

theorem stale_prev_tx_blocks_signing_witness:
  "\<exists>b s e. bridge_step\<^sup>*\<^sup>* (bridge_new no_creds) b \<and> br_sessions b ''ble:1'' = Some s
     \<and> trezor_sign_transaction run_crates run_psbt_crate ''ble:1'' [1] ''mainnet'' b = Some (Inl (Err (Sign e)), b)"
proof -
  obtain s b where b: "br_sessions b ''ble:1'' = Some s" "bridge_step\<^sup>*\<^sup>* (bridge_new no_creds) b"
    using ble_run by blast
  let ?b = "trezor_set_prev_tx_hex ''ble:1'' 1 ''00'' b"
  have d: "pc_deserialize run_psbt_crate [1] = Inr run_psbt" "length (ps_inputs run_psbt) \<le> unat (1 :: u32)"
    by (simp_all add: run_psbt_crate_def run_psbt_def)
  have s: "br_sessions ?b ''ble:1'' = Some s" using b(1) by (simp add: trezor_set_prev_tx_hex_def)
  obtain e where "trezor_sign_transaction run_crates run_psbt_crate ''ble:1'' [1] ''mainnet'' ?b = Some (Inl (Err (Sign e)), ?b)"
    using stale_prev_tx_blocks_signing [OF rtranclp.rtrancl_refl s d] by blast
  moreover have "bridge_step\<^sup>*\<^sup>* (bridge_new no_creds) ?b" using b(2) step_set_prev by (rule rtranclp.rtrancl_into_rtrancl)
  ultimately show ?thesis using s by blast
qed

end
