(* ===== verification/Message_Types.thy ===== *)
theory Message_Types
  imports Prelude
begin

text \<open>
  The message types of \<^verbatim>\<open>device/commands.rs\<close>, with their conversion to and from the codes on the
  wire. The client itself uses the generated type of the same name.
\<close>

datatype MessageType =
    MtInitialize
  | MtPing
  | MtSuccess
  | MtFailure
  | MtChangePin
  | MtWipeDevice
  | MtGetEntropy
  | MtEntropy
  | MtLoadDevice
  | MtResetDevice
  | MtFeatures
  | MtPinMatrixRequest
  | MtPinMatrixAck
  | MtCancel
  | MtClearSession
  | MtApplySettings
  | MtButtonRequest
  | MtButtonAck
  | MtApplyFlags
  | MtBackupDevice
  | MtEntropyRequest
  | MtEntropyAck
  | MtPassphraseRequest
  | MtPassphraseAck
  | MtRecoveryDevice
  | MtWordRequest
  | MtWordAck
  | MtGetFeatures
  | MtSdProtect
  | MtChangeWipeCode
  | MtGetPublicKey
  | MtPublicKey
  | MtSignTx
  | MtTxRequest
  | MtTxAck
  | MtGetAddress
  | MtAddress
  | MtSignMessage
  | MtVerifyMessage
  | MtMessageSignature
  | MtGetOwnershipId
  | MtOwnershipId
  | MtGetOwnershipProof
  | MtOwnershipProof
  | MtAuthorizeCoinJoin
  | MtCancelAuthorization
  | MtFirmwareErase
  | MtFirmwareUpload
  | MtFirmwareRequest
  | MtSelfTest
  | MtDebugLinkDecision
  | MtDebugLinkGetState
  | MtDebugLinkState
  | MtDebugLinkStop
  | MtDebugLinkLog
  | MtDebugLinkMemoryRead
  | MtDebugLinkMemory
  | MtDebugLinkMemoryWrite
  | MtDebugLinkFlashErase

fun message_type_code :: "MessageType \<Rightarrow> u16" where
  "message_type_code MtInitialize = 0"
| "message_type_code MtPing = 1"
| "message_type_code MtSuccess = 2"
| "message_type_code MtFailure = 3"
| "message_type_code MtChangePin = 4"
| "message_type_code MtWipeDevice = 5"
| "message_type_code MtGetEntropy = 9"
| "message_type_code MtEntropy = 10"
| "message_type_code MtLoadDevice = 13"
| "message_type_code MtResetDevice = 14"
| "message_type_code MtFeatures = 17"
| "message_type_code MtPinMatrixRequest = 18"
| "message_type_code MtPinMatrixAck = 19"
| "message_type_code MtCancel = 20"
| "message_type_code MtClearSession = 24"
| "message_type_code MtApplySettings = 25"
| "message_type_code MtButtonRequest = 26"
| "message_type_code MtButtonAck = 27"
| "message_type_code MtApplyFlags = 28"
| "message_type_code MtBackupDevice = 34"
| "message_type_code MtEntropyRequest = 35"
| "message_type_code MtEntropyAck = 36"
| "message_type_code MtPassphraseRequest = 41"
| "message_type_code MtPassphraseAck = 42"
| "message_type_code MtRecoveryDevice = 45"
| "message_type_code MtWordRequest = 46"
| "message_type_code MtWordAck = 47"
| "message_type_code MtGetFeatures = 55"
| "message_type_code MtSdProtect = 79"
| "message_type_code MtChangeWipeCode = 82"
| "message_type_code MtGetPublicKey = 11"
| "message_type_code MtPublicKey = 12"
| "message_type_code MtSignTx = 15"
| "message_type_code MtTxRequest = 21"
| "message_type_code MtTxAck = 22"
| "message_type_code MtGetAddress = 29"
| "message_type_code MtAddress = 30"
| "message_type_code MtSignMessage = 38"
| "message_type_code MtVerifyMessage = 39"
| "message_type_code MtMessageSignature = 40"
| "message_type_code MtGetOwnershipId = 43"
| "message_type_code MtOwnershipId = 44"
| "message_type_code MtGetOwnershipProof = 49"
| "message_type_code MtOwnershipProof = 50"
| "message_type_code MtAuthorizeCoinJoin = 51"
| "message_type_code MtCancelAuthorization = 63"
| "message_type_code MtFirmwareErase = 6"
| "message_type_code MtFirmwareUpload = 7"
| "message_type_code MtFirmwareRequest = 8"
| "message_type_code MtSelfTest = 32"
| "message_type_code MtDebugLinkDecision = 100"
| "message_type_code MtDebugLinkGetState = 101"
| "message_type_code MtDebugLinkState = 102"
| "message_type_code MtDebugLinkStop = 103"
| "message_type_code MtDebugLinkLog = 104"
| "message_type_code MtDebugLinkMemoryRead = 110"
| "message_type_code MtDebugLinkMemory = 111"
| "message_type_code MtDebugLinkMemoryWrite = 112"
| "message_type_code MtDebugLinkFlashErase = 113"

definition message_type_of :: "u16 \<Rightarrow> MessageType option" where
  "message_type_of v =
     (if v = 0 then Some MtInitialize
      else if v = 1 then Some MtPing
      else if v = 2 then Some MtSuccess
      else if v = 3 then Some MtFailure
      else if v = 11 then Some MtGetPublicKey
      else if v = 12 then Some MtPublicKey
      else if v = 15 then Some MtSignTx
      else if v = 17 then Some MtFeatures
      else if v = 21 then Some MtTxRequest
      else if v = 22 then Some MtTxAck
      else if v = 26 then Some MtButtonRequest
      else if v = 27 then Some MtButtonAck
      else if v = 29 then Some MtGetAddress
      else if v = 30 then Some MtAddress
      else if v = 38 then Some MtSignMessage
      else if v = 39 then Some MtVerifyMessage
      else if v = 40 then Some MtMessageSignature
      else if v = 41 then Some MtPassphraseRequest
      else if v = 42 then Some MtPassphraseAck
      else if v = 43 then Some MtGetOwnershipId
      else if v = 44 then Some MtOwnershipId
      else if v = 49 then Some MtGetOwnershipProof
      else if v = 50 then Some MtOwnershipProof
      else if v = 51 then Some MtAuthorizeCoinJoin
      else if v = 25 then Some MtApplySettings
      else if v = 55 then Some MtGetFeatures
      else if v = 63 then Some MtCancelAuthorization
      else None)"

text \<open>The conversion from codes is right where it is defined.\<close>

lemma message_type_of_code: "message_type_of v = Some m \<Longrightarrow> message_type_code m = v"
  by (auto simp: message_type_of_def split: if_splits)

text \<open>It misses the requests for a PIN and their answer, among others, although they are message types.\<close>

lemma message_type_gaps:
  "message_type_of (message_type_code MtPinMatrixRequest) = None"
  "message_type_of (message_type_code MtPinMatrixAck) = None"
  "message_type_of (message_type_code MtCancel) = None"
  by (simp_all add: message_type_of_def)

end
