(* ===== verification/Client.thy ===== *)
theory Client
  imports Wallet_Session
begin

text \<open>
  The older low-level client (\<^verbatim>\<open>device/trezor.rs\<close>) and its signing parameters
  (\<^verbatim>\<open>api/sign_tx.rs\<close>): a transport, the session once one is acquired, and the calls for
  addresses, keys, messages and plain transactions, with their own copy of the dialogue.
\<close>

section \<open>Parameters of the older signing call\<close>

record TxInput =
  tin_prev_hash :: bytes
  tin_prev_index :: u32
  tin_path :: "u32 list"
  tin_amount :: u64
  tin_script_type :: ScriptType
  tin_sequence :: "u32 option"
  tin_orig_hash :: "bytes option"
  tin_orig_index :: "u32 option"

datatype TxOutput =
    ExternalOutput (to_external: string) (to_amount: u64) (to_orig_hash: "bytes option") (to_orig_index: "u32 option")
  | ChangeOutput (to_path: "u32 list") (to_amount: u64) (to_script_type: ScriptType)
      (to_orig_hash: "bytes option") (to_orig_index: "u32 option")
  | OpReturnOutput (to_data: bytes) (to_orig_hash: "bytes option") (to_orig_index: "u32 option")

record PrevTxInput =
  pin_prev_hash :: bytes
  pin_prev_index :: u32
  pin_script_sig :: bytes
  pin_sequence :: u32

record PrevTxOutput =
  pout_amount :: u64
  pout_script_pubkey :: bytes

record PrevTx =
  pv_hash :: bytes
  pv_version :: u32
  pv_lock_time :: u32
  pv_inputs :: "PrevTxInput list"
  pv_outputs :: "PrevTxOutput list"

record SignTransactionParams =
  sp_inputs :: "TxInput list"
  sp_outputs :: "TxOutput list"
  sp_coin :: string
  sp_lock_time :: u32
  sp_version :: u32
  sp_prev_txs :: "PrevTx list"

record SignedTransaction =
  st_signatures :: "string list"
  st_serialized_tx :: string

definition path_or_root :: "string \<Rightarrow> u32 list" where
  "path_or_root path = (case parse_path path of Inr p \<Rightarrow> p | Inl _ \<Rightarrow> [])"

definition tx_input_new :: "crates \<Rightarrow> string \<Rightarrow> u32 \<Rightarrow> string \<Rightarrow> u64 \<Rightarrow> TxInput" where
  "tx_input_new c prev_hash_hex prev_index path amount =
     \<lparr>tin_prev_hash = hex_or_empty c prev_hash_hex, tin_prev_index = prev_index, tin_path = path_or_root path,
      tin_amount = amount, tin_script_type = SpendWitness, tin_sequence = None, tin_orig_hash = None,
      tin_orig_index = None\<rparr>"

definition with_script_type :: "ScriptType \<Rightarrow> TxInput \<Rightarrow> TxInput" where
  "with_script_type t input = input\<lparr>tin_script_type := t\<rparr>"

definition to_address :: "string \<Rightarrow> u64 \<Rightarrow> TxOutput" where
  "to_address address amount = ExternalOutput address amount None None"

definition to_change :: "string \<Rightarrow> u64 \<Rightarrow> TxOutput" where
  "to_change path amount = ChangeOutput (path_or_root path) amount SpendWitness None None"

definition op_return :: "bytes \<Rightarrow> TxOutput" where
  "op_return data = OpReturnOutput data None None"

definition sign_params_default :: SignTransactionParams where
  "sign_params_default = \<lparr>sp_inputs = [], sp_outputs = [], sp_coin = ''Bitcoin'', sp_lock_time = 0,
     sp_version = 2, sp_prev_txs = []\<rparr>"

definition signed_to_bytes :: "crates \<Rightarrow> SignedTransaction \<Rightarrow> bytes" where
  "signed_to_bytes c st = hex_or_empty c (st_serialized_tx st)"

section \<open>The client\<close>

record SignedMessage =
  sgm_address :: string
  sgm_signature :: bytes

definition signature_base64 :: "crates \<Rightarrow> SignedMessage \<Rightarrow> string" where
  "signature_base64 c m = cr_base64_encode c (sgm_signature m)"

definition signature_hex :: "crates \<Rightarrow> SignedMessage \<Rightarrow> string" where
  "signature_hex c m = hx_encode (cr_hex c) (sgm_signature m)"

record 's TrezorClient =
  cl_transport :: "'s Transport"
  cl_session :: "string option"
  cl_features :: "Features option"
  cl_ui_callback :: "'s TrezorUiCallback option"

definition client_new :: "'s Transport \<Rightarrow> 's TrezorClient" where
  "client_new transport =
     \<lparr>cl_transport = transport, cl_session = None, cl_features = None, cl_ui_callback = None\<rparr>"

definition client_set_ui_callback :: "'s TrezorUiCallback \<Rightarrow> 's TrezorClient \<Rightarrow> 's TrezorClient" where
  "client_set_ui_callback cb cl = cl\<lparr>cl_ui_callback := Some cb\<rparr>"

text \<open>\<^verbatim>\<open>self.session.as_ref().ok_or(DeviceError::NotConnected)?\<close>, then the transport's call.\<close>

definition client_send :: "crates \<Rightarrow> 's TrezorClient \<Rightarrow> HostMessage \<Rightarrow> 's \<Rightarrow> (u16 \<times> bytes, 's) outcome" where
  "client_send c cl m s =
     (case cl_session cl of
        None \<Rightarrow> Some (device_err NotConnected, s)
      | Some session \<Rightarrow> t_call (cl_transport cl) session (message_code m) (pb_encode (cr_pb c) m) s)"

subsection \<open>The dialogue\<close>

fun client_handle_loop ::
    "nat \<Rightarrow> crates \<Rightarrow> 's TrezorClient \<Rightarrow> (bytes \<Rightarrow> string + 'r) \<Rightarrow> u16 \<times> bytes \<Rightarrow> 's \<Rightarrow> ('r, 's) outcome" where
  "client_handle_loop 0 c cl decode resp s =
     Some (device_err (DeviceErrorResponse 0 ''Too many consecutive ButtonRequests''), s)"
| "client_handle_loop (Suc n) c cl decode resp s =
     (if fst resp = FAILURE then Some (failure_result c (snd resp), s)
      else if fst resp = BUTTON_REQUEST
      then bind_op (client_send c cl MButtonAck s) (\<lambda>resp s. client_handle_loop n c cl decode resp s)
      else if fst resp = PIN_MATRIX_REQUEST
      then (case cl_ui_callback cl of
              None \<Rightarrow> Some (device_err PinRequired, s)
            | Some cb \<Rightarrow>
                (case on_pin_request cb s of
                   (None, s) \<Rightarrow> Some (device_err PinCancelled, s)
                 | (Some pin, s) \<Rightarrow>
                     bind_op (client_send c cl (MPinMatrixAck pin) s)
                       (\<lambda>resp s. client_handle_loop n c cl decode resp s)))
      else if fst resp = PASSPHRASE_REQUEST
      then (case cl_ui_callback cl of
              None \<Rightarrow> Some (device_err PassphraseRequired, s)
            | Some cb \<Rightarrow>
                let on_device = (case pb_passphrase_request (cr_pb c) (snd resp) of
                                   Inr (Some b) \<Rightarrow> b
                                 | _ \<Rightarrow> False);
                    (response, s) = on_passphrase_request cb on_device s
                in bind_op (lift_res (passphrase_ack c response) s) (\<lambda>ack s.
                   bind_op (client_send c cl (MPassphraseAck ack) s)
                     (\<lambda>resp s. client_handle_loop n c cl decode resp s)))
      else Some (map_err (\<lambda>e. Device (DeviceProtobufDecode e)) (decode (snd resp)), s))"

definition client_handle_response ::
    "crates \<Rightarrow> 's TrezorClient \<Rightarrow> (bytes \<Rightarrow> string + 'r) \<Rightarrow> u16 \<times> bytes \<Rightarrow> 's \<Rightarrow> ('r, 's) outcome" where
  "client_handle_response c cl decode resp s = client_handle_loop 64 c cl decode resp s"

definition client_ask ::
    "crates \<Rightarrow> 's TrezorClient \<Rightarrow> HostMessage \<Rightarrow> (bytes \<Rightarrow> string + 'r) \<Rightarrow> 's \<Rightarrow> ('r, 's) outcome" where
  "client_ask c cl m decode s =
     bind_op (client_send c cl m s) (\<lambda>resp s. client_handle_response c cl decode resp s)"

subsection \<open>Calls\<close>

definition client_initialize ::
    "crates \<Rightarrow> 's TrezorClient \<Rightarrow> 's \<Rightarrow> (Features \<times> 's TrezorClient, 's) outcome" where
  "client_initialize c cl s =
     bind_op (client_ask c cl MInitialize (pb_features (cr_pb c)) s) (\<lambda>proto s.
       let features = from_proto (cr_hex c) proto
       in Some (Inr (features, cl\<lparr>cl_features := Some features\<rparr>), s))"

definition client_get_address_full ::
    "crates \<Rightarrow> 's TrezorClient \<Rightarrow> string \<Rightarrow> bool \<Rightarrow> string \<Rightarrow> ScriptType \<Rightarrow> 's \<Rightarrow> (string, 's) outcome" where
  "client_get_address_full c cl path show_on_trezor coin script_type s =
     bind_op (lift_res (parse_path path) s) (\<lambda>address_n s.
     let request = \<lparr>ga_address_n = address_n, ga_coin_name = Some coin, ga_show_display = Some show_on_trezor,
           ga_script_type = Some (script_type_code script_type), ga_multisig = None, ga_chunkify = None\<rparr>
     in
     bind_op (client_ask c cl (MGetAddress request) (pb_address (cr_pb c)) s) (\<lambda>response s.
     Some (Inr (ad_address response), s)))"

definition client_get_address :: "crates \<Rightarrow> 's TrezorClient \<Rightarrow> string \<Rightarrow> bool \<Rightarrow> 's \<Rightarrow> (string, 's) outcome" where
  "client_get_address c cl path show_on_trezor s =
     client_get_address_full c cl path show_on_trezor ''Bitcoin'' SpendWitness s"

definition client_get_public_key_full ::
    "crates \<Rightarrow> 's TrezorClient \<Rightarrow> string \<Rightarrow> string \<Rightarrow> ScriptType \<Rightarrow> bool \<Rightarrow> 's \<Rightarrow> (string, 's) outcome" where
  "client_get_public_key_full c cl path coin script_type show_display s =
     bind_op (lift_res (parse_path path) s) (\<lambda>address_n s.
     let request = \<lparr>gp_address_n = address_n, gp_show_display = Some show_display, gp_coin_name = Some coin,
           gp_script_type = Some (script_type_code script_type)\<rparr>
     in
     bind_op (client_ask c cl (MGetPublicKey request) (pb_public_key (cr_pb c)) s) (\<lambda>response s.
     Some (Inr (ppk_xpub response), s)))"

definition client_get_public_key :: "crates \<Rightarrow> 's TrezorClient \<Rightarrow> string \<Rightarrow> 's \<Rightarrow> (string, 's) outcome" where
  "client_get_public_key c cl path s = client_get_public_key_full c cl path ''Bitcoin'' SpendWitness False s"

definition client_sign_message_full ::
    "crates \<Rightarrow> 's TrezorClient \<Rightarrow> string \<Rightarrow> bytes \<Rightarrow> string \<Rightarrow> ScriptType \<Rightarrow> 's \<Rightarrow> (SignedMessage, 's) outcome" where
  "client_sign_message_full c cl path message coin script_type s =
     bind_op (lift_res (parse_path path) s) (\<lambda>address_n s.
     let request = \<lparr>sm_address_n = address_n, sm_message = message, sm_coin_name = Some coin,
           sm_script_type = Some (script_type_code script_type), sm_no_script_type = None, sm_chunkify = None\<rparr>
     in
     bind_op (client_ask c cl (MSignMessage request) (pb_message_signature (cr_pb c)) s) (\<lambda>response s.
     Some (Inr \<lparr>sgm_address = msg_address response, sgm_signature = msg_signature response\<rparr>, s)))"

definition client_sign_message :: "crates \<Rightarrow> 's TrezorClient \<Rightarrow> string \<Rightarrow> bytes \<Rightarrow> 's \<Rightarrow> (SignedMessage, 's) outcome" where
  "client_sign_message c cl path message s = client_sign_message_full c cl path message ''Bitcoin'' SpendWitness s"

definition client_verify_message_full ::
    "crates \<Rightarrow> 's TrezorClient \<Rightarrow> string \<Rightarrow> bytes \<Rightarrow> bytes \<Rightarrow> string \<Rightarrow> 's \<Rightarrow> (bool, 's) outcome" where
  "client_verify_message_full c cl address signature message coin s =
     bind_op (client_send c cl (MVerifyMessage \<lparr>vm_address = address, vm_signature = signature,
        vm_message = message, vm_coin_name = Some coin, vm_chunkify = None\<rparr>) s) (\<lambda>resp s.
     if fst resp = SUCCESS then Some (Inr True, s)
     else if fst resp = FAILURE then Some (Inr False, s)
     else bind_op (client_handle_response c cl (pb_success (cr_pb c)) resp s) (\<lambda>_ s. Some (Inr True, s)))"

definition client_verify_message ::
    "crates \<Rightarrow> 's TrezorClient \<Rightarrow> string \<Rightarrow> bytes \<Rightarrow> bytes \<Rightarrow> 's \<Rightarrow> (bool, 's) outcome" where
  "client_verify_message c cl address signature message s =
     client_verify_message_full c cl address signature message ''Bitcoin'' s"

subsection \<open>Sessions\<close>

definition client_acquire :: "'s TrezorClient \<Rightarrow> string \<Rightarrow> 's \<Rightarrow> ('s TrezorClient, 's) outcome" where
  "client_acquire cl path s =
     bind_op (t_acquire (cl_transport cl) path (cl_session cl) s) (\<lambda>session s.
       Some (Inr (cl\<lparr>cl_session := Some session\<rparr>), s))"

definition client_release :: "'s TrezorClient \<Rightarrow> 's \<Rightarrow> ('s TrezorClient, 's) outcome" where
  "client_release cl s =
     (case cl_session cl of
        Some session \<Rightarrow>
          bind_op (t_release (cl_transport cl) session s) (\<lambda>_ s. Some (Inr (cl\<lparr>cl_session := None\<rparr>), s))
      | None \<Rightarrow> Some (Inr cl, s))"

subsection \<open>Signing\<close>

definition client_input_ack :: "TxInput \<Rightarrow> TransactionType" where
  "client_input_ack input =
     empty_tx\<lparr>xt_inputs := [\<lparr>xi_address_n = tin_path input, xi_prev_hash = tin_prev_hash input,
       xi_prev_index = tin_prev_index input, xi_script_sig = None, xi_sequence = tin_sequence input,
       xi_script_type = Some (script_type_code (tin_script_type input)), xi_multisig = None,
       xi_amount = Some (tin_amount input), xi_witness = None, xi_ownership_proof = None,
       xi_commitment_data = None, xi_orig_hash = tin_orig_hash input, xi_orig_index = tin_orig_index input,
       xi_script_pubkey = None\<rparr>]\<rparr>"

fun client_output_ack :: "TxOutput \<Rightarrow> TransactionType" where
  "client_output_ack (ExternalOutput address amount orig_hash orig_index) =
     empty_tx\<lparr>xt_outputs := [\<lparr>xo_address = Some address, xo_address_n = [], xo_amount = amount,
       xo_script_type = Some (output_script_type_code PayToAddress), xo_multisig = None,
       xo_op_return_data = None, xo_orig_hash = orig_hash, xo_orig_index = orig_index,
       xo_payment_req_index = None\<rparr>]\<rparr>"
| "client_output_ack (ChangeOutput path amount script_type orig_hash orig_index) =
     empty_tx\<lparr>xt_outputs := [\<lparr>xo_address = None, xo_address_n = path, xo_amount = amount,
       xo_script_type = Some (output_script_type_code (change_script_type script_type)), xo_multisig = None,
       xo_op_return_data = None, xo_orig_hash = orig_hash, xo_orig_index = orig_index,
       xo_payment_req_index = None\<rparr>]\<rparr>"
| "client_output_ack (OpReturnOutput data orig_hash orig_index) =
     empty_tx\<lparr>xt_outputs := [\<lparr>xo_address = None, xo_address_n = [], xo_amount = 0,
       xo_script_type = Some (output_script_type_code PayToOpReturn), xo_multisig = None,
       xo_op_return_data = Some data, xo_orig_hash = orig_hash, xo_orig_index = orig_index,
       xo_payment_req_index = None\<rparr>]\<rparr>"

definition client_prev_input_ack :: "PrevTxInput \<Rightarrow> TransactionType" where
  "client_prev_input_ack input =
     empty_tx\<lparr>xt_inputs := [\<lparr>xi_address_n = [], xi_prev_hash = pin_prev_hash input,
       xi_prev_index = pin_prev_index input, xi_script_sig = Some (pin_script_sig input),
       xi_sequence = Some (pin_sequence input), xi_script_type = Some (script_type_code SpendAddress),
       xi_multisig = None, xi_amount = Some 0, xi_witness = None, xi_ownership_proof = None,
       xi_commitment_data = None, xi_orig_hash = None, xi_orig_index = None, xi_script_pubkey = None\<rparr>]\<rparr>"

definition client_prev_output_ack :: "PrevTxOutput \<Rightarrow> TransactionType" where
  "client_prev_output_ack output =
     empty_tx\<lparr>xt_bin_outputs := [\<lparr>xb_amount = pout_amount output, xb_script_pubkey = pout_script_pubkey output\<rparr>]\<rparr>"

definition client_prev_meta_ack :: "PrevTx \<Rightarrow> TransactionType" where
  "client_prev_meta_ack prev_tx =
     empty_tx\<lparr>xt_version := Some (pv_version prev_tx), xt_lock_time := Some (pv_lock_time prev_tx),
       xt_inputs_cnt := Some (of_nat (length (pv_inputs prev_tx))),
       xt_outputs_cnt := Some (of_nat (length (pv_outputs prev_tx)))\<rparr>"

definition client_prev_tx :: "SignTransactionParams \<Rightarrow> bytes \<Rightarrow> PrevTx result" where
  "client_prev_tx params tx_hash =
     (case find (\<lambda>tx. pv_hash tx = tx_hash) (sp_prev_txs params) of
        Some tx \<Rightarrow> Inr tx
      | None \<Rightarrow> device_err (DeviceProtobufDecode ''Previous tx not found''))"

definition client_answer_input :: "SignTransactionParams \<Rightarrow> TxRequestDetailsType \<Rightarrow> TransactionType result" where
  "client_answer_input params details =
     (let idx = unat (case rd_request_index details of Some i \<Rightarrow> i | None \<Rightarrow> 0)
      in case rd_tx_hash details of
           Some tx_hash \<Rightarrow>
             bind_res (client_prev_tx params tx_hash) (\<lambda>prev_tx.
               if length (pv_inputs prev_tx) \<le> idx
               then out_of_bounds ''prev tx input index '' idx [] (length (pv_inputs prev_tx))
               else Inr (client_prev_input_ack (pv_inputs prev_tx ! idx)))
         | None \<Rightarrow>
             if length (sp_inputs params) \<le> idx
             then out_of_bounds ''request_index '' idx ''for inputs '' (length (sp_inputs params))
             else Inr (client_input_ack (sp_inputs params ! idx)))"

definition client_answer_output :: "SignTransactionParams \<Rightarrow> TxRequestDetailsType \<Rightarrow> TransactionType result" where
  "client_answer_output params details =
     (let idx = unat (case rd_request_index details of Some i \<Rightarrow> i | None \<Rightarrow> 0)
      in case rd_tx_hash details of
           Some tx_hash \<Rightarrow>
             bind_res (client_prev_tx params tx_hash) (\<lambda>prev_tx.
               if length (pv_outputs prev_tx) \<le> idx
               then out_of_bounds ''prev tx output index '' idx [] (length (pv_outputs prev_tx))
               else Inr (client_prev_output_ack (pv_outputs prev_tx ! idx)))
         | None \<Rightarrow>
             if length (sp_outputs params) \<le> idx
             then out_of_bounds ''request_index '' idx ''for outputs '' (length (sp_outputs params))
             else Inr (client_output_ack (sp_outputs params ! idx)))"

definition client_answer_orig_input ::
    "crates \<Rightarrow> SignTransactionParams \<Rightarrow> TxRequestDetailsType \<Rightarrow> TransactionType result" where
  "client_answer_orig_input c params details =
     (let idx = (case rd_request_index details of Some i \<Rightarrow> i | None \<Rightarrow> 0)
      in bind_res (missing_details ''Missing tx_hash for TXORIGINPUT'' (rd_tx_hash details)) (\<lambda>tx_hash.
         case find (\<lambda>input. tin_orig_hash input = Some tx_hash \<and> tin_orig_index input = Some idx) (sp_inputs params) of
           Some input \<Rightarrow> Inr (client_input_ack input)
         | None \<Rightarrow> no_orig c ''input'' tx_hash idx))"

definition client_answer_orig_output ::
    "crates \<Rightarrow> SignTransactionParams \<Rightarrow> TxRequestDetailsType \<Rightarrow> TransactionType result" where
  "client_answer_orig_output c params details =
     (let idx = (case rd_request_index details of Some i \<Rightarrow> i | None \<Rightarrow> 0)
      in bind_res (missing_details ''Missing tx_hash for TXORIGOUTPUT'' (rd_tx_hash details)) (\<lambda>tx_hash.
         case find (\<lambda>output. to_orig_hash output = Some tx_hash \<and> to_orig_index output = Some idx) (sp_outputs params) of
           Some output \<Rightarrow> Inr (client_output_ack output)
         | None \<Rightarrow> no_orig c ''output'' tx_hash idx))"

definition client_unhandled :: "string \<Rightarrow> 'a result" where
  "client_unhandled request = device_err (NotSupported (''TrezorClient::sign_transaction does not handle ''
     @ request @ '' (TXEXTRADATA/TXPAYMENTREQ); use ConnectedDevice::sign_transaction''))"

definition client_answer ::
    "crates \<Rightarrow> SignTransactionParams \<Rightarrow> RequestType \<Rightarrow> TxRequestDetailsType option \<Rightarrow> TransactionType result" where
  "client_answer c params request_type details =
     (case request_type of
        Txinput \<Rightarrow> bind_res (missing_details ''Missing details'' details) (client_answer_input params)
      | Txoutput \<Rightarrow> bind_res (missing_details ''Missing details'' details) (client_answer_output params)
      | Txmeta \<Rightarrow> bind_res (missing_details ''Missing details'' details) (\<lambda>dt.
          bind_res (missing_details ''Missing tx_hash'' (rd_tx_hash dt)) (\<lambda>tx_hash.
          map_res client_prev_meta_ack (client_prev_tx params tx_hash)))
      | Txoriginput \<Rightarrow> bind_res (missing_details ''Missing details'' details) (client_answer_orig_input c params)
      | Txorigoutput \<Rightarrow> bind_res (missing_details ''Missing details'' details) (client_answer_orig_output c params)
      | Txextradata \<Rightarrow> client_unhandled ''Txextradata''
      | Txpaymentreq \<Rightarrow> client_unhandled ''Txpaymentreq''
      | Txfinished \<Rightarrow> device_err (InvalidInput ''finished''))"

definition client_collect :: "crates \<Rightarrow> TxRequest \<Rightarrow> collected \<Rightarrow> collected result" where
  "client_collect c req acc =
     (case rq_serialized req of
        None \<Rightarrow> Inr acc
      | Some ser \<Rightarrow>
          bind_res
            (case (rs_signature ser, rs_signature_index ser) of
               (Some sig, Some sig_idx) \<Rightarrow>
                 if length (fst acc) \<le> unat sig_idx
                 then device_err (InvalidInput (''signature_index '' @ show_nat (unat sig_idx) @ '' out of bounds (max ''
                        @ show_nat (length (fst acc) - 1) @ '')''))
                 else Inr ((fst acc)[unat sig_idx := hx_encode (cr_hex c) sig])
             | _ \<Rightarrow> Inr (fst acc))
            (\<lambda>signatures. Inr (signatures, snd acc @ (case rs_serialized_tx ser of Some part \<Rightarrow> part | None \<Rightarrow> []))))"

partial_function (option) client_sign_loop ::
    "crates \<Rightarrow> 's TrezorClient \<Rightarrow> SignTransactionParams \<Rightarrow> u16 \<times> bytes \<Rightarrow> collected \<Rightarrow> 's \<Rightarrow> (collected result \<times> 's) option" where
  "client_sign_loop c cl params resp acc s =
     (if fst resp = BUTTON_REQUEST
      then (case client_send c cl MButtonAck s of
              None \<Rightarrow> None
            | Some (Inl e, s) \<Rightarrow> Some (Inl e, s)
            | Some (Inr resp, s) \<Rightarrow> client_sign_loop c cl params resp acc s)
      else if fst resp = FAILURE then Some (failure_result c (snd resp), s)
      else
        (case pb_tx_request (cr_pb c) (snd resp) of
           Inl e \<Rightarrow> Some (device_err (DeviceProtobufDecode e), s)
         | Inr req \<Rightarrow>
             (case client_collect c req acc of
                Inl e \<Rightarrow> Some (Inl e, s)
              | Inr acc \<Rightarrow>
                  if request_type_of req = Txfinished then Some (Inr acc, s)
                  else
                    (case client_answer c params (request_type_of req) (rq_details req) of
                       Inl e \<Rightarrow> Some (Inl e, s)
                     | Inr ack \<Rightarrow>
                         (case client_send c cl (MTxAck ack) s of
                            None \<Rightarrow> None
                          | Some (Inl e, s) \<Rightarrow> Some (Inl e, s)
                          | Some (Inr resp, s) \<Rightarrow> client_sign_loop c cl params resp acc s)))))"

definition client_sign_tx :: "SignTransactionParams \<Rightarrow> SignTx" where
  "client_sign_tx params =
     \<lparr>sx_outputs_count = of_nat (length (sp_outputs params)), sx_inputs_count = of_nat (length (sp_inputs params)),
      sx_coin_name = Some (sp_coin params), sx_version = Some (sp_version params),
      sx_lock_time = Some (sp_lock_time params), sx_amount_unit = None, sx_serialize = None, sx_chunkify = None\<rparr>"

definition client_sign_transaction ::
    "crates \<Rightarrow> 's TrezorClient \<Rightarrow> SignTransactionParams \<Rightarrow> 's \<Rightarrow> (SignedTransaction, 's) outcome" where
  "client_sign_transaction c cl params s =
     bind_op (client_send c cl (MSignTx (client_sign_tx params)) s) (\<lambda>resp s.
     bind_op (client_sign_loop c cl params resp (replicate (length (sp_inputs params)) [], []) s) (\<lambda>acc s.
     Some (Inr \<lparr>st_signatures = fst acc, st_serialized_tx = hx_encode (cr_hex c) (snd acc)\<rparr>, s)))"

end
