(* ===== verification/Client_Properties.thy ===== *)
theory Client_Properties
  imports Client
begin

text \<open>
  The older client beside \<open>ConnectedDevice\<close>: over the same transport, session and user interface
  its calls give the same results, and its signing dialogue is the one of \<open>ConnectedDevice\<close>
  without the checks around it. Without a session it never contacts the device.
\<close>

section \<open>The same link\<close>

definition same_link :: "'s TrezorClient \<Rightarrow> 's ConnectedDevice \<Rightarrow> bool" where
  "same_link cl d \<longleftrightarrow> cl_transport cl = cd_transport d \<and> cl_session cl = Some (cd_session d)
     \<and> cl_ui_callback cl = cd_ui_callback d"

text \<open>The two dialogues differ in the text of one error only.\<close>

definition outcomes_agree :: "('r, 's) outcome \<Rightarrow> ('r, 's) outcome \<Rightarrow> bool" where
  "outcomes_agree x y \<longleftrightarrow> x = y \<or> (\<exists>s.
     x = Some (device_err (DeviceErrorResponse 0 ''Too many consecutive ButtonRequests''), s)
     \<and> y = Some (device_err (DeviceErrorResponse 0 ''Too many consecutive ButtonRequests from device''), s))"

lemma outcomes_agree_refl [simp, intro]: "outcomes_agree x x"
  by (simp add: outcomes_agree_def)

lemma outcomes_agree_bind [intro]:
  assumes "outcomes_agree m m'" "\<And>v s. outcomes_agree (k v s) (k' v s)"
  shows "outcomes_agree (bind_op m k) (bind_op m' k')"
proof (cases "m = m'")
  case True
  then show ?thesis using assms(2) by (cases "(m', k')" rule: bind_op.cases) auto
next
  case False
  then show ?thesis using assms(1) by (auto simp: outcomes_agree_def)
qed

lemma outcomes_agree_if [intro]: "outcomes_agree x x' \<Longrightarrow> outcomes_agree y y' \<Longrightarrow> outcomes_agree (if b then x else y) (if b then x' else y')"
  by simp

lemma client_send_same: "same_link cl d \<Longrightarrow> client_send c cl m s = send c d m s"
  by (simp add: same_link_def client_send_def send_def)

lemma client_handle_loop_agrees:
  "same_link cl d \<Longrightarrow> outcomes_agree (client_handle_loop n c cl decode resp s) (handle_loop n c d decode resp s)"
proof (induction n arbitrary: resp s)
  case 0
  then show ?case by (simp add: outcomes_agree_def)
next
  case (Suc n)
  note step = outcomes_agree_bind [OF outcomes_agree_refl Suc.IH [OF Suc.prems]]
  have "cl_ui_callback cl = cd_ui_callback d" using Suc.prems by (simp add: same_link_def)
  then show ?case
    by (auto simp: client_send_same [OF Suc.prems] Let_def step split: option.split prod.split)
qed

lemma client_handle_response_agrees:
  "same_link cl d \<Longrightarrow> outcomes_agree (client_handle_response c cl decode resp s) (handle_response c d decode resp s)"
  by (simp add: client_handle_response_def handle_response_def MAX_BUTTON_REQUESTS_def client_handle_loop_agrees)

lemma client_ask_agrees: "same_link cl d \<Longrightarrow> outcomes_agree (client_ask c cl m decode s) (ask c d m decode s)"
  unfolding client_ask_def ask_def
  by (auto simp: client_send_same client_handle_response_agrees)

lemma bind_op_assoc: "bind_op (bind_op m k) h = bind_op m (\<lambda>v s. bind_op (k v s) h)"
  by (cases "(m, k)" rule: bind_op.cases) auto

lemma bind_lift_eq: "bind_op (lift_res r s) k = (case r of Inl e \<Rightarrow> Some (Inl e, s) | Inr v \<Rightarrow> k v s)"
  by (cases r) (simp_all add: lift_res_def)

text \<open>The requests of the new interface that ask for what the older calls ask for.\<close>

definition plain_address :: "string \<Rightarrow> Network \<Rightarrow> ScriptType \<Rightarrow> GetAddressParams" where
  "plain_address path n t = \<lparr>gap_path = path, gap_coin = Some n, gap_show_on_trezor = False,
     gap_script_type = Some t, gap_multisig = None, gap_chunkify = None, gap_address = None\<rparr>"

definition plain_key :: "string \<Rightarrow> Network \<Rightarrow> ScriptType \<Rightarrow> bool \<Rightarrow> GetPublicKeyParams" where
  "plain_key path n t show_display = \<lparr>gpp_path = path, gpp_coin = Some n,
     gpp_show_on_trezor = show_display, gpp_script_type = Some t\<rparr>"

definition plain_verify :: "string \<Rightarrow> string \<Rightarrow> string \<Rightarrow> Network \<Rightarrow> VerifyMessageParams" where
  "plain_verify address signature message n = \<lparr>vmp_address = address, vmp_signature = signature,
     vmp_message = message, vmp_coin = Some n, vmp_chunkify = None\<rparr>"

definition plain_message :: "string \<Rightarrow> string \<Rightarrow> Network \<Rightarrow> SignMessageParams" where
  "plain_message path message n = \<lparr>smp_path = path, smp_message = message, smp_coin = Some n,
     smp_no_script_type = False, smp_chunkify = None\<rparr>"

lemma client_address_agrees:
  "same_link cl d \<Longrightarrow>
   outcomes_agree (client_get_address_full c cl path False (coin_name n) t s)
     (bind_op (get_address c d (plain_address path n t) s) (\<lambda>r s. Some (Inr (ar_address r), s)))"
  by (auto simp: plain_address_def client_get_address_full_def get_address_def get_address_raw_def expect_address_def
      coin_or_default_def bind_op_assoc bind_lift_eq client_ask_agrees Let_def split: sum.split)

lemma client_key_agrees:
  "same_link cl d \<Longrightarrow>
   outcomes_agree (client_get_public_key_full c cl path (coin_name n) t show_display s)
     (bind_op (get_public_key c d (plain_key path n t show_display) s) (\<lambda>r s. Some (Inr (pkr_xpub r), s)))"
  by (auto simp: plain_key_def client_get_public_key_full_def get_public_key_def coin_or_default_def bind_op_assoc
      bind_lift_eq client_ask_agrees Let_def split: sum.split)

lemma client_verify_agrees:
  "same_link cl d \<Longrightarrow> cr_base64_decode c text = Inr signature \<Longrightarrow>
   outcomes_agree (client_verify_message_full c cl address signature (as_bytes message) (coin_name n) s)
     (verify_message c d (plain_verify address text message n) s)"
  unfolding client_verify_message_full_def verify_message_def plain_verify_def
  by (auto simp: map_err_def coin_or_default_def client_send_same
      intro!: outcomes_agree_bind outcomes_agree_if client_handle_response_agrees)

lemma client_message_agrees:
  "same_link cl d \<Longrightarrow> parse_path path = Inr address_n \<Longrightarrow> length message \<le> 1024 \<Longrightarrow>
   outcomes_agree (bind_op (client_sign_message_full c cl path (as_bytes message) (coin_name n) (infer_script_type address_n) s)
        (\<lambda>m s. Some (Inr \<lparr>smr_address = sgm_address m, smr_signature = signature_base64 c m\<rparr>, s)))
     (sign_message c d (plain_message path message n) s)"
  by (auto simp: plain_message_def client_sign_message_full_def sign_message_def coin_or_default_def bind_op_assoc
      bind_lift_eq signature_base64_def client_ask_agrees Let_def)


text \<open>A path that does not parse becomes the root path, in an input as in a change output.\<close>

lemma malformed_path_is_root:
  "parse_path path = Inl e \<Longrightarrow>
   tin_path (tx_input_new c h i path amount) = [] \<and> to_change path amount = ChangeOutput [] amount SpendWitness None None"
  by (simp add: tx_input_new_def to_change_def path_or_root_def)

text \<open>A failure that answers the request for verification counts as a wrong signature, whatever its
  code; after a button request the same failure is an error.\<close>

lemma client_verify_failures:
  assumes "client_send c cl (MVerifyMessage \<lparr>vm_address = address, vm_signature = signature,
        vm_message = message, vm_coin_name = Some coin, vm_chunkify = None\<rparr>) s = Some (Inr (t, b), s1)"
  shows "t = FAILURE \<Longrightarrow> client_verify_message_full c cl address signature message coin s = Some (Inr False, s1)"
    and "t = BUTTON_REQUEST \<Longrightarrow> client_send c cl MButtonAck s1 = Some (Inr (FAILURE, b'), s2) \<Longrightarrow>
      client_verify_message_full c cl address signature message coin s = Some (map_res (\<lambda>_. True) (failure_result c b' :: unit result), s2)"
proof -
  show "t = FAILURE \<Longrightarrow> client_verify_message_full c cl address signature message coin s = Some (Inr False, s1)"
    using assms by (simp add: client_verify_message_full_def FAILURE_def SUCCESS_def)
  have e: "(64 :: nat) = Suc (Suc 62)" by simp
  show "client_verify_message_full c cl address signature message coin s = Some (map_res (\<lambda>_. True) (failure_result c b' :: unit result), s2)"
    if "t = BUTTON_REQUEST" "client_send c cl MButtonAck s1 = Some (Inr (FAILURE, b'), s2)"
    using assms that unfolding client_verify_message_full_def client_handle_response_def e client_handle_loop.simps
    by (auto simp: BUTTON_REQUEST_def FAILURE_def SUCCESS_def failure_result_def split: sum.split)
qed

section \<open>The signing dialogue\<close>

text \<open>The request of the new interface for an older one: byte strings as hex, paths as text, and
  the job \<^verbatim>\<open>ConnectedDevice::sign_transaction\<close> makes of it.\<close>

definition hex_exact :: "hex_crate \<Rightarrow> bool" where
  "hex_exact hx \<longleftrightarrow> (\<forall>b. hx_decode hx (hx_encode hx b) = Inr b)
     \<and> (\<forall>a b. eq_ignore_ascii_case (hx_encode hx a) (hx_encode hx b) \<longrightarrow> a = b)"

definition sign_input :: "hex_crate \<Rightarrow> TxInput \<Rightarrow> SignTxInput" where
  "sign_input hx i =
     \<lparr>sti_prev_hash = hx_encode hx (tin_prev_hash i), sti_prev_index = tin_prev_index i,
      sti_path = serialize_path (tin_path i), sti_amount = tin_amount i, sti_script_type = tin_script_type i,
      sti_sequence = tin_sequence i, sti_orig_hash = map_option (hx_encode hx) (tin_orig_hash i),
      sti_orig_index = tin_orig_index i, sti_multisig = None, sti_script_pubkey = None, sti_script_sig = None,
      sti_witness = None, sti_ownership_proof = None, sti_commitment_data = None\<rparr>"

definition blank_output :: "hex_crate \<Rightarrow> TxOutput \<Rightarrow> SignTxOutput" where
  "blank_output hx out =
     \<lparr>sto_address = None, sto_path = None, sto_amount = 0, sto_script_type = None, sto_op_return_data = None,
      sto_orig_hash = map_option (hx_encode hx) (to_orig_hash out), sto_orig_index = to_orig_index out,
      sto_multisig = None, sto_payment_req_index = None\<rparr>"

fun sign_output :: "hex_crate \<Rightarrow> TxOutput \<Rightarrow> SignTxOutput" where
  "sign_output hx (ExternalOutput address amount h i) =
     (blank_output hx (ExternalOutput address amount h i))\<lparr>sto_address := Some address, sto_amount := amount\<rparr>"
| "sign_output hx (ChangeOutput path amount t h i) =
     (blank_output hx (ChangeOutput path amount t h i))
       \<lparr>sto_path := Some (serialize_path path), sto_amount := amount, sto_script_type := Some t\<rparr>"
| "sign_output hx (OpReturnOutput data h i) =
     (blank_output hx (OpReturnOutput data h i))\<lparr>sto_op_return_data := Some (hx_encode hx data)\<rparr>"

definition sign_prev_tx :: "hex_crate \<Rightarrow> PrevTx \<Rightarrow> SignTxPrevTx" where
  "sign_prev_tx hx tx =
     \<lparr>ptx_hash = hx_encode hx (pv_hash tx), ptx_version = pv_version tx, ptx_lock_time = pv_lock_time tx,
      ptx_inputs = map (\<lambda>i. \<lparr>pti_prev_hash = hx_encode hx (pin_prev_hash i), pti_prev_index = pin_prev_index i,
        pti_script_sig = hx_encode hx (pin_script_sig i), pti_sequence = pin_sequence i\<rparr>) (pv_inputs tx),
      ptx_outputs = map (\<lambda>out. \<lparr>pto_amount = pout_amount out,
        pto_script_pubkey = hx_encode hx (pout_script_pubkey out)\<rparr>) (pv_outputs tx),
      ptx_extra_data = None\<rparr>"

definition sign_params :: "hex_crate \<Rightarrow> Network \<Rightarrow> SignTransactionParams \<Rightarrow> SignTxParams" where
  "sign_params hx n p =
     \<lparr>stp_inputs = map (sign_input hx) (sp_inputs p), stp_outputs = map (sign_output hx) (sp_outputs p),
      stp_coin = Some n, stp_lock_time = Some (sp_lock_time p), stp_version = Some (sp_version p),
      stp_prev_txs = map (sign_prev_tx hx) (sp_prev_txs p), stp_push = None, stp_amount_unit = None,
      stp_serialize = None, stp_chunkify = None, stp_unlock_path = None, stp_payment_requests = []\<rparr>"

fun change_path :: "TxOutput \<Rightarrow> (u32 list \<times> ScriptType) option" where
  "change_path (ChangeOutput path amount t h i) = Some (path, t)"
| "change_path _ = None"

definition sign_job_of :: "hex_crate \<Rightarrow> Network \<Rightarrow> SignTransactionParams \<Rightarrow> sign_job" where
  "sign_job_of hx n p =
     \<lparr>job_params = sign_params hx n p, job_inputs = map (\<lambda>i. (tin_path i, tin_script_type i)) (sp_inputs p),
      job_outputs = map change_path (sp_outputs p)\<rparr>"

lemma find_map_comp: "find P (map f xs) = map_option f (find (\<lambda>x. P (f x)) xs)"
  by (induction xs) auto

lemma find_index_map:
  assumes "find (\<lambda>x. Q (f x)) xs = Some x"
  shows "\<exists>i. find_index Q (map f xs) = Some i \<and> i < length xs \<and> xs ! i = x"
proof -
  obtain i where i: "i < length xs" "Q (f (xs ! i))" "x = xs ! i" "\<forall>j<i. \<not> Q (f (xs ! j))"
    using assms by (auto simp: find_Some_iff)
  then have "find_index Q (map f xs) = Some i"
    unfolding find_index_def find_Some_iff by (intro exI [of _ i]) simp
  then show ?thesis using i by blast
qed

lemma hex_back: "hex_exact hx \<Longrightarrow> decode_hex hx what (hx_encode hx b) = Inr b"
  by (simp add: hex_exact_def decode_hex_def map_err_def)

lemma hex_same_text: "hex_exact hx \<Longrightarrow> hx_encode hx a = hx_encode hx b \<longleftrightarrow> a = b"
  unfolding hex_exact_def by (metis sum.inject(2))

lemma hex_same_hash: "hex_exact hx \<Longrightarrow> eq_ignore_ascii_case (hx_encode hx a) (hx_encode hx b) \<longleftrightarrow> a = b"
  by (auto simp: hex_exact_def eq_ignore_ascii_case_def)

lemma hex_option: "hex_exact hx \<Longrightarrow> traverse_option (decode_hex hx what) (map_option (hx_encode hx) v) = Inr v"
  by (cases v) (simp_all add: hex_back)

lemma sign_job_parsed:
  "traverse_res parse_input_path (stp_inputs (sign_params hx n p)) = Inr (job_inputs (sign_job_of hx n p))"
  "traverse_res parse_output_path (stp_outputs (sign_params hx n p)) = Inr (job_outputs (sign_job_of hx n p))"
proof -
  have "serialize_path path \<noteq> []" for path by (simp add: serialize_path_def)
  then have "parse_input_path (sign_input hx i) = Inr (tin_path i, tin_script_type i)" for i
    by (simp add: parse_input_path_def sign_input_def parse_serialize_path)
  then have "traverse_res parse_input_path (map (sign_input hx) xs) = Inr (map (\<lambda>i. (tin_path i, tin_script_type i)) xs)" for xs
    by (induction xs) simp_all
  moreover have "parse_output_path (sign_output hx out) = Inr (change_path out)" for out
    by (cases out) (simp_all add: parse_output_path_def parse_serialize_path blank_output_def)
  then have "traverse_res parse_output_path (map (sign_output hx) outs) = Inr (map change_path outs)" for outs
    by (induction outs) simp_all
  ultimately show "traverse_res parse_input_path (stp_inputs (sign_params hx n p)) = Inr (job_inputs (sign_job_of hx n p))"
    "traverse_res parse_output_path (stp_outputs (sign_params hx n p)) = Inr (job_outputs (sign_job_of hx n p))"
    by (simp_all add: sign_params_def sign_job_of_def)
qed

subsection \<open>Answers\<close>

lemma input_ack_same:
  "hex_exact (cr_hex c) \<Longrightarrow>
   build_input_ack c (sign_input (cr_hex c) i) (tin_path i, tin_script_type i) = Inr (client_input_ack i)"
  by (simp add: build_input_ack_def sign_input_def client_input_ack_def hex_back hex_option Let_def)

lemma output_ack_same:
  "hex_exact (cr_hex c) \<Longrightarrow>
   build_output_ack c (sign_output (cr_hex c) out) (change_path out) False = Inr (client_output_ack out)"
  by (cases out) (simp_all add: build_output_ack_def blank_output_def hex_back hex_option Let_def)

lemma prev_tx_same:
  assumes "hex_exact (cr_hex c)" "client_prev_tx p h = Inr tx"
  shows "find_prev_tx c (stp_prev_txs (sign_params (cr_hex c) n p)) h = Inr (sign_prev_tx (cr_hex c) tx)"
  using assms by (auto simp: client_prev_tx_def find_prev_tx_def sign_params_def find_map_comp sign_prev_tx_def
      hex_same_hash split: option.splits)

lemma prev_ack_same:
  assumes "hex_exact (cr_hex c)"
  shows "i < length (pv_inputs tx) \<Longrightarrow>
      build_prev_tx_input_ack c (ptx_inputs (sign_prev_tx (cr_hex c) tx) ! i) = Inr (client_prev_input_ack (pv_inputs tx ! i))"
    "j < length (pv_outputs tx) \<Longrightarrow>
      build_prev_tx_output_ack c (ptx_outputs (sign_prev_tx (cr_hex c) tx) ! j) = Inr (client_prev_output_ack (pv_outputs tx ! j))"
    "build_prev_tx_meta_ack c (sign_prev_tx (cr_hex c) tx) = Inr ((client_prev_meta_ack tx)\<lparr>xt_extra_data_len := Some 0\<rparr>)"
  by (simp_all add: sign_prev_tx_def build_prev_tx_input_ack_def build_prev_tx_output_ack_def build_prev_tx_meta_ack_def
      client_prev_input_ack_def client_prev_output_ack_def client_prev_meta_ack_def hex_back [OF assms])

text \<open>The answers are the same, but for the length of the extra data, which the older client leaves out.\<close>

definition same_ack :: "TransactionType \<Rightarrow> TransactionType \<Rightarrow> bool" where
  "same_ack a b \<longleftrightarrow> b = a \<or> (\<exists>tx. a = client_prev_meta_ack tx \<and> b = a\<lparr>xt_extra_data_len := Some 0\<rparr>)"

lemma same_ack_refl [simp]: "same_ack a a"
  by (simp add: same_ack_def)

lemma answer_input_same:
  assumes "hex_exact (cr_hex c)" "client_answer_input p dt = Inr a"
  shows "answer_input c (sign_job_of (cr_hex c) n p) dt = Inr a"
proof (cases "rd_tx_hash dt")
  case None
  then show ?thesis using assms
    by (auto simp: client_answer_input_def answer_input_def sign_job_of_def sign_params_def Let_def input_ack_same
        out_of_bounds_def split: if_splits)
next
  case (Some h)
  then obtain tx where tx: "client_prev_tx p h = Inr tx" using assms(2) by (auto simp: client_answer_input_def res_simps Let_def)
  have "length (ptx_inputs (sign_prev_tx (cr_hex c) tx)) = length (pv_inputs tx)" by (simp add: sign_prev_tx_def)
  then show ?thesis using Some tx assms(2) prev_tx_same [OF assms(1) tx, of n] prev_ack_same(1) [OF assms(1)]
    by (auto simp: client_answer_input_def answer_input_def sign_job_of_def Let_def out_of_bounds_def split: if_splits)
qed

lemma answer_output_same:
  assumes "hex_exact (cr_hex c)" "client_answer_output p dt = Inr a"
  shows "answer_output c (sign_job_of (cr_hex c) n p) dt = Inr a"
proof (cases "rd_tx_hash dt")
  case None
  then show ?thesis using assms
    by (auto simp: client_answer_output_def answer_output_def sign_job_of_def sign_params_def Let_def output_ack_same
        out_of_bounds_def split: if_splits)
next
  case (Some h)
  then obtain tx where tx: "client_prev_tx p h = Inr tx" using assms(2) by (auto simp: client_answer_output_def res_simps Let_def)
  have "length (ptx_outputs (sign_prev_tx (cr_hex c) tx)) = length (pv_outputs tx)" by (simp add: sign_prev_tx_def)
  then show ?thesis using Some tx assms(2) prev_tx_same [OF assms(1) tx, of n] prev_ack_same(2) [OF assms(1)]
    by (auto simp: client_answer_output_def answer_output_def sign_job_of_def Let_def out_of_bounds_def split: if_splits)
qed

lemma orig_input_same:
  assumes hex: "hex_exact (cr_hex c)" and a: "client_answer_orig_input c p dt = Inr a"
  shows "answer_orig_input c (sign_job_of (cr_hex c) n p) dt = Inr a"
proof -
  let ?idx = "case rd_request_index dt of Some i \<Rightarrow> i | None \<Rightarrow> 0"
  obtain h input where h: "rd_tx_hash dt = Some h" "a = client_input_ack input"
    "find (\<lambda>input. tin_orig_hash input = Some h \<and> tin_orig_index input = Some ?idx) (sp_inputs p) = Some input"
    using a by (auto simp: client_answer_orig_input_def missing_details_def Let_def no_orig_def split: option.splits)
  let ?P = "\<lambda>input. sti_orig_hash input = Some (hx_encode (cr_hex c) h) \<and> sti_orig_index input = Some ?idx"
  have "find (\<lambda>x. ?P (sign_input (cr_hex c) x)) (sp_inputs p) = Some input"
    using h(3) by (simp add: sign_input_def hex_same_text [OF hex])
  from find_index_map [where Q = ?P, OF this] h show ?thesis
    using input_ack_same [OF hex, of input]
    by (auto simp: answer_orig_input_def required_hash_def sign_job_of_def sign_params_def)
qed

lemma orig_output_same:
  assumes hex: "hex_exact (cr_hex c)" and a: "client_answer_orig_output c p dt = Inr a"
  shows "answer_orig_output c (sign_job_of (cr_hex c) n p) dt = Inr a"
proof -
  let ?idx = "case rd_request_index dt of Some i \<Rightarrow> i | None \<Rightarrow> 0"
  obtain h out where h: "rd_tx_hash dt = Some h" "a = client_output_ack out"
    "find (\<lambda>out. to_orig_hash out = Some h \<and> to_orig_index out = Some ?idx) (sp_outputs p) = Some out"
    using a by (auto simp: client_answer_orig_output_def missing_details_def Let_def no_orig_def split: option.splits)
  let ?P = "\<lambda>out. sto_orig_hash out = Some (hx_encode (cr_hex c) h) \<and> sto_orig_index out = Some ?idx"
  have "?P (sign_output (cr_hex c) out) \<longleftrightarrow> to_orig_hash out = Some h \<and> to_orig_index out = Some ?idx" for out
    by (cases out) (simp_all add: blank_output_def hex_same_text [OF hex])
  then have "find (\<lambda>x. ?P (sign_output (cr_hex c) x)) (sp_outputs p) = Some out"
    using h(3) by simp
  from find_index_map [where Q = ?P, OF this] h show ?thesis
    using output_ack_same [OF hex, of out]
    by (auto simp: answer_orig_output_def required_hash_def sign_job_of_def sign_params_def)
qed

lemma answer_same:
  assumes hex: "hex_exact (cr_hex c)" and a: "client_answer c p t details = Inr a"
  shows "\<exists>b. answer c (sign_job_of (cr_hex c) n p) t details = Inr (MTxAck b) \<and> same_ack a b"
proof -
  obtain dt where dt: "details = Some dt" "t \<in> {Txinput, Txoutput, Txmeta, Txoriginput, Txorigoutput}"
    using a by (cases t; cases details) (auto simp: client_answer_def client_unhandled_def missing_details_def)
  show ?thesis
  proof (cases "t = Txmeta")
    case True
    then obtain h tx where tx: "rd_tx_hash dt = Some h" "client_prev_tx p h = Inr tx" "a = client_prev_meta_ack tx"
      using a dt by (auto simp: client_answer_def missing_details_def res_simps split: option.splits)
    then show ?thesis
      using True dt prev_tx_same [OF hex tx(2), of n] prev_ack_same(3) [OF hex, of tx]
      by (auto simp: answer_def missing_details_def required_hash_def sign_job_of_def same_ack_def)
  next
    case False
    then show ?thesis
      using a dt answer_input_same [OF hex] answer_output_same [OF hex] orig_input_same [OF hex] orig_output_same [OF hex]
      by (auto simp: client_answer_def answer_def missing_details_def)
  qed
qed

lemma collect_same: "client_collect c req acc = Inr acc' \<Longrightarrow> collect c req acc = Inr acc'"
  by (auto simp: client_collect_def collect_def res_simps split: option.splits if_splits)

subsection \<open>The loop\<close>

text \<open>The device reads an omitted length of the extra data as zero.\<close>

definition length_defaults :: "crates \<Rightarrow> 's ConnectedDevice \<Rightarrow> bool" where
  "length_defaults c d \<longleftrightarrow> (\<forall>tx s. send c d (MTxAck ((client_prev_meta_ack tx)\<lparr>xt_extra_data_len := Some 0\<rparr>)) s
     = send c d (MTxAck (client_prev_meta_ack tx)) s)"

lemma same_ack_sent:
  assumes "same_link cl d" "length_defaults c d" "same_ack a b"
  shows "client_send c cl (MTxAck a) s = send c d (MTxAck b) s"
  using assms by (auto simp: client_send_same same_ack_def length_defaults_def)

lemma client_loop_refines:
  fixes cl :: "'a TrezorClient"
  assumes link: "same_link cl d" and hex: "hex_exact (cr_hex c)" and len: "length_defaults c d"
    and run: "client_sign_loop c cl p resp acc s = Some (Inr r, s')"
  shows "sign_loop c d (sign_job_of (cr_hex c) n p) resp acc s = Some (Inr r, s')"
proof -
  let ?job = "sign_job_of (cr_hex c) n p"
  let ?P = "\<lambda>c' cl' p' resp acc s (y :: collected result \<times> 'a). c' = c \<longrightarrow> cl' = cl \<longrightarrow> p' = p \<longrightarrow> y = (Inr r, s') \<longrightarrow>
      sign_loop c d ?job resp acc s = Some (Inr r, s')"
  have "?P c cl p resp acc s (Inr r, s')"
  proof (rule client_sign_loop.raw_induct [of ?P, OF _ run], intro impI, goal_cases)
    case (1 loop c' cl' p' resp acc s y)
    note eqs = 1(3-6)
    have IH: "loop c cl p resp acc s = Some (Inr r, s') \<Longrightarrow> sign_loop c d ?job resp acc s = Some (Inr r, s')" for resp acc s
      using 1(1) by auto
    consider (button) resp1 s1 where "fst resp = BUTTON_REQUEST" "send c d MButtonAck s = Some (Inr resp1, s1)"
        "loop c cl p resp1 acc s1 = Some (Inr r, s')"
      | (last) req where "fst resp \<noteq> BUTTON_REQUEST" "fst resp \<noteq> FAILURE" "pb_tx_request (cr_pb c) (snd resp) = Inr req"
        "client_collect c req acc = Inr r" "request_type_of req = Txfinished" "s' = s"
      | (answered) req acc1 a resp1 s1 where "fst resp \<noteq> BUTTON_REQUEST" "fst resp \<noteq> FAILURE"
        "pb_tx_request (cr_pb c) (snd resp) = Inr req" "client_collect c req acc = Inr acc1"
        "request_type_of req \<noteq> Txfinished" "client_answer c p (request_type_of req) (rq_details req) = Inr a"
        "client_send c cl (MTxAck a) s = Some (Inr resp1, s1)" "loop c cl p resp1 acc1 s1 = Some (Inr r, s')"
      using 1(2) unfolding eqs client_send_same [OF link]
      by (auto simp: failure_result_def split: if_splits sum.splits option.splits prod.splits)
    then show ?case
    proof cases
      case button
      then show ?thesis using IH by (subst sign_loop.simps) simp
    next
      case last
      then show ?thesis using collect_same [OF last(4)] by (subst sign_loop.simps) simp
    next
      case answered
      obtain b where b: "answer c ?job (request_type_of req) (rq_details req) = Inr (MTxAck b)" "same_ack a b"
        using answer_same [OF hex answered(6)] by blast
      then have "send c d (MTxAck b) s = Some (Inr resp1, s1)" using same_ack_sent [OF link len] answered(7) by metis
      then show ?thesis using answered b(1) collect_same [OF answered(4)] IH by (subst sign_loop.simps) simp
    qed
  qed
  then show ?thesis by simp
qed


section \<open>Sample runs\<close>

text \<open>Lower-case hex, for the samples.\<close>

definition hex_text :: "bytes \<Rightarrow> string" where
  "hex_text b = concat (map (\<lambda>x. [hex_digit CHR ''a'' (unat x div 16), hex_digit CHR ''a'' (unat x mod 16)]) b)"

definition hex_value :: "char \<Rightarrow> nat" where
  "hex_value ch = (if of_char ch < (58 :: nat) then of_char ch - 48 else of_char ch - 87)"

fun hex_bytes :: "string \<Rightarrow> string + bytes" where
  "hex_bytes [] = Inr []"
| "hex_bytes [x] = Inl ''Odd number of digits''"
| "hex_bytes (x # y # cs) = map_res (\<lambda>b. of_nat (16 * hex_value x + hex_value y) # b) (hex_bytes cs)"

definition lower_hex :: hex_crate where
  "lower_hex = \<lparr>hx_encode = hex_text, hx_decode = hex_bytes\<rparr>"

lemma hex_digit_value: "n < 16 \<Longrightarrow> hex_value (hex_digit CHR ''a'' n) = n"
  by (auto simp: hex_value_def hex_digit_def digit_char_def)

lemma hex_digit_lower: "n < 16 \<Longrightarrow> to_lowercase [hex_digit CHR ''a'' n] = [hex_digit CHR ''a'' n]"
  by (auto simp: to_lowercase_def to_lower_def hex_digit_def digit_char_def)

lemma byte_high: "unat (x :: u8) div 16 < 16"
  using unat_u8_less [of x] by simp

lemma byte_joined: "(16 * word_of_nat (unat (x :: u8) div 16) + word_of_nat (unat x mod 16) :: u8) = x"
proof -
  have "(16 * word_of_nat (unat x div 16) + word_of_nat (unat x mod 16) :: u8) = word_of_nat (16 * (unat x div 16) + unat x mod 16)"
    by (simp only: of_nat_add of_nat_mult of_nat_numeral)
  then show ?thesis by (simp add: mult_div_mod_eq)
qed

lemma hex_text_back: "hex_bytes (hex_text b) = Inr b"
  by (induction b) (simp_all add: hex_text_def hex_digit_value byte_high byte_joined)

lemma hex_text_lower: "to_lowercase (hex_text b) = hex_text b"
  using hex_digit_lower [OF byte_high] hex_digit_lower [of "_ mod 16"]
  by (induction b) (simp_all add: hex_text_def to_lowercase_def)

lemma lower_hex_exact: "hex_exact lower_hex"
  unfolding hex_exact_def lower_hex_def eq_ignore_ascii_case_def
  by (simp add: hex_text_back hex_text_lower) (metis hex_text_back sum.inject(2))

text \<open>A client of the scripted transport with its session, and the device on the same link.\<close>

definition run_client :: "MockTransport TrezorClient" where
  "run_client = (client_new mock_transport)\<lparr>cl_session := Some ''mock-session''\<rparr>"

definition hex_crates :: crates where
  "hex_crates = run_crates\<lparr>cr_hex := lower_hex\<rparr>"

definition run_plain :: SignTransactionParams where
  "run_plain = sign_params_default\<lparr>sp_inputs := [\<lparr>tin_prev_hash = [1], tin_prev_index = 0, tin_path = [0], tin_amount = 5000,
     tin_script_type = SpendWitness, tin_sequence = None, tin_orig_hash = None, tin_orig_index = None\<rparr>]\<rparr>"

lemma client_link: "same_link run_client mock_device"
  by (simp add: same_link_def run_client_def client_new_def mock_device_def connected_new_def)

lemma hex_crates_fields [simp]:
  "cr_hex hex_crates = lower_hex" "cr_pb hex_crates = run_pb"
  by (simp_all add: hex_crates_def run_crates_def)

lemma run_encode [simp]: "pb_encode run_pb m = [ucast (message_code m)]"
  by (simp add: run_pb_def)

lemma run_defaults: "length_defaults hex_crates d"
  by (simp add: length_defaults_def send_def)

lemma run_client_send:
  "client_send hex_crates run_client m \<lparr>mock_script = \<lparr>ex_expect = message_code m, ex_reply_type = t, ex_reply = b\<rparr> # rest, mock_calls = cs\<rparr>
     = Some (Inr (t, b), \<lparr>mock_script = rest, mock_calls = cs @ [(message_code m, [ucast (message_code m)])]\<rparr>)"
  unfolding client_send_same [OF client_link] mock_send by simp

lemma client_handle_response_final:
  assumes "t \<notin> {FAILURE, BUTTON_REQUEST, PIN_MATRIX_REQUEST, PASSPHRASE_REQUEST}"
  shows "client_handle_response c cl decode (t, b) s = Some (map_err (\<lambda>e. Device (DeviceProtobufDecode e)) (decode b), s)"
proof -
  have e: "(64 :: nat) = Suc 63" by simp
  show ?thesis using assms unfolding client_handle_response_def e client_handle_loop.simps by simp
qed

definition plain_script :: MockTransport where
  "plain_script = mock_new [\<lparr>ex_expect = 15, ex_reply_type = 21, ex_reply = [0, 0]\<rparr>,
     \<lparr>ex_expect = 22, ex_reply_type = 21, ex_reply = [3, 0, 1, 5, 65]\<rparr>]"

lemma plain_signs:
  "\<exists>r s'. client_sign_transaction hex_crates run_client run_plain plain_script = Some (Inr r, s')
     \<and> st_signatures r = [''010541''] \<and> st_serialized_tx r = ''010541''"
proof -
  have start: "client_send hex_crates run_client (MSignTx m) plain_script = Some (Inr (21, [0, 0]),
      \<lparr>mock_script = [\<lparr>ex_expect = 22, ex_reply_type = 21, ex_reply = [3, 0, 1, 5, 65]\<rparr>], mock_calls = [(15, [15])]\<rparr>)" for m
    using run_client_send [of "MSignTx m"] by (simp add: plain_script_def mock_new_def)
  have answered: "client_send hex_crates run_client (MTxAck a)
      \<lparr>mock_script = [\<lparr>ex_expect = 22, ex_reply_type = 21, ex_reply = [3, 0, 1, 5, 65]\<rparr>], mock_calls = cs\<rparr>
      = Some (Inr (21, [3, 0, 1, 5, 65]), \<lparr>mock_script = [], mock_calls = cs @ [(22, [22])]\<rparr>)" for a cs
    using run_client_send [of "MTxAck a"] by simp
  have len: "length (sp_inputs run_plain) = Suc 0" by (simp add: run_plain_def)
  have hex: "hx_encode lower_hex [1, 5, 65] = ''010541''"
    by (simp add: lower_hex_def hex_text_def hex_digit_def digit_char_def char_of_def bit_0)
  have first: "client_sign_loop hex_crates run_client run_plain (21, [0, 0]) acc
      \<lparr>mock_script = [\<lparr>ex_expect = 22, ex_reply_type = 21, ex_reply = [3, 0, 1, 5, 65]\<rparr>], mock_calls = cs\<rparr>
      = client_sign_loop hex_crates run_client run_plain (21, [3, 0, 1, 5, 65]) acc \<lparr>mock_script = [], mock_calls = cs @ [(22, [22])]\<rparr>"
    for acc cs
    by (subst client_sign_loop.simps)
      (simp add: run_requests BUTTON_REQUEST_def FAILURE_def client_collect_def request_type_of_def request_type_of_code_def
        client_answer_def missing_details_def client_answer_input_def answered len)
  have last: "client_sign_loop hex_crates run_client run_plain (21, [3, 0, 1, 5, 65]) ([[]], []) s
      = Some (Inr ([''010541''], [1, 5, 65]), s)" for s
    by (subst client_sign_loop.simps)
      (simp add: run_requests BUTTON_REQUEST_def FAILURE_def client_collect_def request_type_of_def request_type_of_code_def hex)
  show ?thesis
    unfolding client_sign_transaction_def start bind_op.simps len by (simp add: first last hex)
qed

section \<open>Properties\<close>





text \<open>
  Once a client has released its session, or never had one, every call
  fails and leaves the transport untouched until a session is acquired again, and releasing again
  does nothing.
\<close>

theorem client_released_silent:
  assumes "client_release cl0 s0 = Some (Inr cl, s0')"
  shows "cl_session cl = None \<and> client_release cl s = Some (Inr cl, s)
    \<and> client_initialize c cl s = Some (device_err NotConnected, s)
    \<and> (\<exists>e. client_get_address_full c cl path display coin t s = Some (Inl e, s))
    \<and> (\<exists>e. client_get_public_key_full c cl path coin t display s = Some (Inl e, s))
    \<and> (\<exists>e. client_sign_message_full c cl path message coin t s = Some (Inl e, s))
    \<and> client_verify_message_full c cl address signature message coin s = Some (device_err NotConnected, s)
    \<and> client_sign_transaction c cl p s = Some (device_err NotConnected, s)"
proof -
  have none: "cl_session cl = None"
    using assms by (auto simp: client_release_def res_simps split: option.splits)
  then have send: "client_send c cl m s = Some (device_err NotConnected, s)" for m s
    by (simp add: client_send_def)
  then have ask: "client_ask c cl m decode s = Some (device_err NotConnected, s)" for m s and decode :: "bytes \<Rightarrow> string + 'b"
    by (simp add: client_ask_def)
  show ?thesis
    using none by (auto simp: client_release_def client_initialize_def client_get_address_full_def client_get_public_key_full_def
        client_sign_message_full_def client_verify_message_full_def client_sign_transaction_def send ask bind_lift_eq Let_def
        split: sum.split)
qed

theorem client_released_silent_witness:
  "\<exists>cl s'. client_release run_client (mock_new []) = Some (Inr cl, s')
     \<and> client_sign_transaction hex_crates cl run_plain plain_script = Some (device_err NotConnected, plain_script)"
proof -
  have "client_release run_client (mock_new []) = Some (Inr (run_client\<lparr>cl_session := None\<rparr>), mock_new [])"
    by (simp add: client_release_def run_client_def client_new_def mock_transport_def)
  from client_released_silent [OF this, of plain_script hex_crates _ _ _ _ _ _ _ run_plain] this show ?thesis by blast
qed

end
