(* ===== verification/Manager.thy ===== *)
theory Manager
  imports Connected_Device Callback_Transport Credential_Store
begin

text \<open>
  The device manager of the desktop library (\<^verbatim>\<open>trezor.rs\<close>): the builder, discovery over USB and
  Bluetooth, connecting with stored pairing credentials, and the wrapper that hands a shared
  transport to a connected device. The two drivers are records of operations on a state of any
  type; the manager's own state adds the credential store and the operating system.
\<close>

section \<open>Drivers\<close>

text \<open>What \<^verbatim>\<open>UsbTransport\<close> and \<^verbatim>\<open>BluetoothTransport\<close> offer the manager.\<close>

record 's driver =
  dr_new :: "'s \<Rightarrow> (unit, 's) outcome"
  dr_set_app_identity :: "string \<Rightarrow> string \<Rightarrow> 's \<Rightarrow> 's"
  dr_set_pairing_callback :: "('s \<Rightarrow> string \<times> 's) \<Rightarrow> 's \<Rightarrow> 's"
  dr_init :: "'s \<Rightarrow> (unit, 's) outcome"
  dr_enumerate :: "'s \<Rightarrow> (DeviceDescriptor list, 's) outcome"
  dr_start_scan :: "'s \<Rightarrow> (unit, 's) outcome"
  dr_stop_scan :: "'s \<Rightarrow> (unit, 's) outcome"
  dr_open :: "string \<Rightarrow> 's \<Rightarrow> (unit, 's) outcome"
  dr_add_device_credentials :: "string \<Rightarrow> ThpCredentials \<Rightarrow> 's \<Rightarrow> 's"
  dr_get_device_credentials :: "string \<Rightarrow> 's \<Rightarrow> ThpCredentials option"
  dr_has_thp :: "string \<Rightarrow> 's \<Rightarrow> bool"
  dr_transport :: "'s Transport"

text \<open>The environment: the two drivers, the operating system, serialisation, the clock and waiting.\<close>

record 's manager_env =
  me_usb :: "'s driver"
  me_ble :: "'s driver"
  me_os :: os
  me_json :: store_json
  me_now :: "'s \<Rightarrow> u64 option"
  me_sleep :: "nat \<Rightarrow> 's \<Rightarrow> 's"

record 's manager_state =
  mg_store :: "CredentialStore option"
  mg_system :: system
  mg_io :: 's

definition at_io :: "('s \<Rightarrow> ('a, 's) outcome) \<Rightarrow> 's manager_state \<Rightarrow> ('a, 's manager_state) outcome" where
  "at_io f w = (case f (mg_io w) of None \<Rightarrow> None | Some (r, s) \<Rightarrow> Some (r, w\<lparr>mg_io := s\<rparr>))"

text \<open>An operation of the credential store, when there is one.\<close>

definition at_store :: "unit store_op \<Rightarrow> 's manager_state \<Rightarrow> (unit, 's manager_state) outcome" where
  "at_store f w =
     (case mg_store w of
        None \<Rightarrow> Some (Inr (), w)
      | Some st \<Rightarrow>
          (case f (st, mg_system w) of
             None \<Rightarrow> None
           | Some (r, st, sys) \<Rightarrow> Some (r, w\<lparr>mg_store := Some st, mg_system := sys\<rparr>)))"

text \<open>An error that is only logged, or dropped by \<^verbatim>\<open>let _ =\<close>: the default takes its place.\<close>

fun logged :: "'a \<Rightarrow> ('a, 's) outcome \<Rightarrow> ('a, 's) outcome" where
  "logged d (Some (Inl (Err e), s)) = Some (Inr d, s)"
| "logged d m = m"

section \<open>The builder\<close>

datatype CredentialBackendConfig = NoBackend | FileConfig string | KeychainConfig "string option"

text \<open>The pairing callback is \<open>None\<close> when the thread that waits for it panics.\<close>

record 's TrezorBuilder =
  tb_credential_backend :: CredentialBackendConfig
  tb_scan_usb :: bool
  tb_scan_bluetooth :: bool
  tb_pairing_callback :: "('s \<Rightarrow> string option \<times> 's) option"
  tb_ui_callback :: "'s TrezorUiCallback option"
  tb_host_name :: string
  tb_app_name :: string
  tb_scan_duration :: nat

definition builder_new :: "'s TrezorBuilder" where
  "builder_new = \<lparr>tb_credential_backend = NoBackend, tb_scan_usb = True, tb_scan_bluetooth = True,
     tb_pairing_callback = None, tb_ui_callback = None, tb_host_name = ''trezor-connect-rs'',
     tb_app_name = ''trezor-connect-rs'', tb_scan_duration = 3000\<rparr>"

definition with_credential_store :: "string \<Rightarrow> 's TrezorBuilder \<Rightarrow> 's TrezorBuilder" where
  "with_credential_store path b = b\<lparr>tb_credential_backend := FileConfig path\<rparr>"

definition with_keychain_store :: "string option \<Rightarrow> 's TrezorBuilder \<Rightarrow> 's TrezorBuilder" where
  "with_keychain_store service b = b\<lparr>tb_credential_backend := KeychainConfig service\<rparr>"

definition with_pairing_callback :: "('s \<Rightarrow> string option \<times> 's) \<Rightarrow> 's TrezorBuilder \<Rightarrow> 's TrezorBuilder" where
  "with_pairing_callback cb b = b\<lparr>tb_pairing_callback := Some cb\<rparr>"

definition with_ui_callback :: "'s TrezorUiCallback \<Rightarrow> 's TrezorBuilder \<Rightarrow> 's TrezorBuilder" where
  "with_ui_callback cb b = b\<lparr>tb_ui_callback := Some cb\<rparr>"

definition builder_app_identity :: "string \<Rightarrow> string \<Rightarrow> 's TrezorBuilder \<Rightarrow> 's TrezorBuilder" where
  "builder_app_identity host app b = b\<lparr>tb_host_name := host, tb_app_name := app\<rparr>"

definition with_scan_duration :: "nat \<Rightarrow> 's TrezorBuilder \<Rightarrow> 's TrezorBuilder" where
  "with_scan_duration d b = b\<lparr>tb_scan_duration := d\<rparr>"

definition usb_only :: "'s TrezorBuilder \<Rightarrow> 's TrezorBuilder" where
  "usb_only b = b\<lparr>tb_scan_usb := True, tb_scan_bluetooth := False\<rparr>"

definition bluetooth_only :: "'s TrezorBuilder \<Rightarrow> 's TrezorBuilder" where
  "bluetooth_only b = b\<lparr>tb_scan_usb := False, tb_scan_bluetooth := True\<rparr>"

record 's Trezor =
  tz_usb :: bool
  tz_ble :: bool
  tz_ui_callback :: "'s TrezorUiCallback option"
  tz_scan_duration :: nat

text \<open>The store the builder opens.\<close>

definition build_store :: "'s manager_env \<Rightarrow> CredentialBackendConfig \<Rightarrow> system \<Rightarrow> CredentialStore option result" where
  "build_store env backend sys =
     (case backend of
        NoBackend \<Rightarrow> Inr None
      | FileConfig path \<Rightarrow> map_res Some (store_new (me_os env) (me_json env) path sys)
      | KeychainConfig service \<Rightarrow> map_res Some (new_keychain (me_os env) (me_json env) service sys))"

text \<open>The pairing callback a driver gets: a panic gives the empty code.\<close>

definition pairing_code :: "('s \<Rightarrow> string option \<times> 's) \<Rightarrow> 's \<Rightarrow> string \<times> 's" where
  "pairing_code cb s = (case cb s of (Some code, s) \<Rightarrow> (code, s) | (None, s) \<Rightarrow> ([], s))"

text \<open>A driver that cannot be created is left out; a failed initialisation is ignored.\<close>

definition start_driver ::
    "'s driver \<Rightarrow> ('s \<Rightarrow> 's) \<Rightarrow> ('s \<Rightarrow> string option \<times> 's) option \<Rightarrow> 's \<Rightarrow> (bool, 's) outcome" where
  "start_driver dr identify pairing s =
     logged False
       (bind_op (dr_new dr s) (\<lambda>_ s.
        let s = identify s;
            s = (case pairing of Some cb \<Rightarrow> dr_set_pairing_callback dr (pairing_code cb) s | None \<Rightarrow> s)
        in bind_op (logged () (dr_init dr s)) (\<lambda>_ s. Some (Inr True, s))))"

definition build :: "'s manager_env \<Rightarrow> 's TrezorBuilder \<Rightarrow> system \<Rightarrow> 's \<Rightarrow> ('s Trezor \<times> CredentialStore option, 's) outcome" where
  "build env b sys s =
     bind_op (lift_res (build_store env (tb_credential_backend b) sys) s) (\<lambda>credential_store s.
     bind_op
       (if tb_scan_usb b then start_driver (me_usb env) (\<lambda>s. s) (tb_pairing_callback b) s
        else Some (Inr False, s)) (\<lambda>usb s.
     bind_op
       (if tb_scan_bluetooth b
        then start_driver (me_ble env) (dr_set_app_identity (me_ble env) (tb_host_name b) (tb_app_name b))
               (tb_pairing_callback b) s
        else Some (Inr False, s)) (\<lambda>ble s.
     Some (Inr (\<lparr>tz_usb = usb, tz_ble = ble, tz_ui_callback = tb_ui_callback b,
       tz_scan_duration = tb_scan_duration b\<rparr>, credential_store), s))))"

section \<open>Discovery\<close>

definition usb_info :: "DeviceDescriptor \<Rightarrow> DeviceInfo" where
  "usb_info desc = new_usb (dd_path desc) (dd_vendor_id desc) (dd_product_id desc)"

definition ble_info :: "DeviceDescriptor \<Rightarrow> DeviceInfo" where
  "ble_info desc = new_bluetooth (dd_path desc) (dd_serial_number desc)"

text \<open>The devices of one driver; a failed enumeration is logged and gives none.\<close>

definition enumerated :: "bool \<Rightarrow> 's driver \<Rightarrow> (DeviceDescriptor \<Rightarrow> DeviceInfo) \<Rightarrow> 's \<Rightarrow> (DeviceInfo list, 's) outcome" where
  "enumerated present dr info s =
     (if present then logged [] (bind_op (dr_enumerate dr s) (\<lambda>descs s. Some (Inr (map info descs), s)))
      else Some (Inr [], s))"

definition manager_devices :: "'s manager_env \<Rightarrow> 's Trezor \<Rightarrow> 's \<Rightarrow> (DeviceInfo list, 's) outcome" where
  "manager_devices env tz s =
     bind_op (enumerated (tz_usb tz) (me_usb env) usb_info s) (\<lambda>usb s.
     bind_op (enumerated (tz_ble tz) (me_ble env) ble_info s) (\<lambda>ble s.
     Some (Inr (usb @ ble), s)))"

definition scan :: "'s manager_env \<Rightarrow> 's Trezor \<Rightarrow> 's \<Rightarrow> (DeviceInfo list, 's) outcome" where
  "scan env tz s =
     bind_op
       (if tz_ble tz
        then bind_op (dr_start_scan (me_ble env) s) (\<lambda>_ s.
             dr_stop_scan (me_ble env) (me_sleep env (tz_scan_duration tz) s))
        else Some (Inr (), s)) (\<lambda>_ s.
     manager_devices env tz s)"

section \<open>Connecting\<close>

text \<open>The shared transport of a connected device. \<^verbatim>\<open>TransportWrapper\<close> forwards every operation but
  \<^verbatim>\<open>create_session\<close>, for which the default of the trait stands.\<close>

definition transport_wrapper :: "'s driver \<Rightarrow> 's Transport" where
  "transport_wrapper dr =
     \<lparr>t_call = t_call (dr_transport dr), t_create_session = \<lambda>session p b s. Some (Inr (), s),
      t_acquire = t_acquire (dr_transport dr), t_release = t_release (dr_transport dr)\<rparr>"

definition credentials_of_entry :: "StoredCredentialEntry \<Rightarrow> ThpCredentials" where
  "credentials_of_entry cred =
     \<lparr>cr_host_static_key = se_host_static_key cred, cr_trezor_static_public_key = se_trezor_static_public_key cred,
      cr_credential = se_credential cred, cr_autoconnect = False\<rparr>"

definition entry_of_credentials :: "u64 option \<Rightarrow> string \<Rightarrow> ThpCredentials \<Rightarrow> StoredCredentialEntry" where
  "entry_of_credentials now path creds =
     credential_new now path (cr_host_static_key creds) (cr_trezor_static_public_key creds) (cr_credential creds)"

definition load_stored :: "'s driver \<Rightarrow> string \<Rightarrow> 's manager_state \<Rightarrow> 's manager_state" where
  "load_stored dr path w =
     (case Option.bind (mg_store w) (store_get path) of
        Some cred \<Rightarrow> w\<lparr>mg_io := dr_add_device_credentials dr path (credentials_of_entry cred) (mg_io w)\<rparr>
      | None \<Rightarrow> w)"

text \<open>Saving after a connection; an error of the store is only logged.\<close>

definition save_stored :: "'s manager_env \<Rightarrow> 's driver \<Rightarrow> string \<Rightarrow> 's manager_state \<Rightarrow> (unit, 's manager_state) outcome" where
  "save_stored env dr path w =
     (case dr_get_device_credentials dr path (mg_io w) of
        None \<Rightarrow> Some (Inr (), w)
      | Some creds \<Rightarrow>
          logged () (at_store (store (me_os env) (me_json env) (entry_of_credentials (me_now env (mg_io w)) path creds)) w))"

definition connected_device :: "'s Trezor \<Rightarrow> DeviceInfo \<Rightarrow> 's driver \<Rightarrow> string \<Rightarrow> bool \<Rightarrow> 's ConnectedDevice" where
  "connected_device tz device dr session thp =
     (let d = connected_new device (transport_wrapper dr) session;
          d = (if thp then set_uses_thp True d else d)
      in case tz_ui_callback tz of Some cb \<Rightarrow> set_ui_callback cb d | None \<Rightarrow> d)"

definition manager_connect_usb ::
    "'s manager_env \<Rightarrow> 's Trezor \<Rightarrow> DeviceInfo \<Rightarrow> 's manager_state \<Rightarrow> ('s ConnectedDevice, 's manager_state) outcome" where
  "manager_connect_usb env tz device w =
     (let dr = me_usb env; path = inf_path device in
      if \<not> tz_usb tz then Some (Inl (Err (Transport (Usb ''USB transport not initialized''))), w)
      else
        bind_op (at_io (t_acquire (dr_transport dr) path None) (load_stored dr path w)) (\<lambda>session w.
        let uses_thp = dr_has_thp dr path (mg_io w) in
        bind_op (if uses_thp then save_stored env dr path w else Some (Inr (), w)) (\<lambda>_ w.
        Some (Inr (connected_device tz device dr session uses_thp), w))))"

definition manager_connect_bluetooth ::
    "'s manager_env \<Rightarrow> 's Trezor \<Rightarrow> DeviceInfo \<Rightarrow> 's manager_state \<Rightarrow> ('s ConnectedDevice, 's manager_state) outcome" where
  "manager_connect_bluetooth env tz device w =
     (let dr = me_ble env; path = inf_path device in
      if \<not> tz_ble tz then Some (Inl (Err (Transport (Bluetooth ''Bluetooth transport not initialized''))), w)
      else
        bind_op (at_io (dr_open dr path) w) (\<lambda>_ w.
        bind_op (at_io (t_acquire (dr_transport dr) path None) (load_stored dr path w)) (\<lambda>session w.
        bind_op (save_stored env dr path w) (\<lambda>_ w.
        Some (Inr (connected_device tz device dr session True), w)))))"

definition manager_connect ::
    "'s manager_env \<Rightarrow> 's Trezor \<Rightarrow> DeviceInfo \<Rightarrow> 's manager_state \<Rightarrow> ('s ConnectedDevice, 's manager_state) outcome" where
  "manager_connect env tz device w =
     (case inf_transport_type device of
        UsbType \<Rightarrow> manager_connect_usb env tz device w
      | BluetoothType \<Rightarrow> manager_connect_bluetooth env tz device w)"

section \<open>Credentials\<close>

definition clear_all_credentials :: "'s manager_env \<Rightarrow> 's manager_state \<Rightarrow> (unit, 's manager_state) outcome" where
  "clear_all_credentials env w = at_store (clear (me_os env) (me_json env)) w"

definition clear_credentials :: "'s manager_env \<Rightarrow> string \<Rightarrow> 's manager_state \<Rightarrow> (unit, 's manager_state) outcome" where
  "clear_credentials env dev w = at_store (remove (me_os env) (me_json env) dev) w"

definition manager_has_credentials :: "string \<Rightarrow> 's manager_state \<Rightarrow> bool" where
  "manager_has_credentials dev w =
     (case mg_store w of Some st \<Rightarrow> has_credentials dev st | None \<Rightarrow> False)"

end
