(* ===== verification/Manager_Properties.thy ===== *)
theory Manager_Properties
  imports Manager
begin

text \<open>
  What the device manager promises and what it does not: credentials of a paired device are used
  again after a restart, a failed connection changes no stored credentials, but a session with a
  passphrase is never created and one missing Bluetooth adapter makes the whole scan fail.
\<close>

definition driver_of :: "'s manager_env \<Rightarrow> DeviceInfo \<Rightarrow> 's driver" where
  "driver_of env device = (case inf_transport_type device of UsbType \<Rightarrow> me_usb env | BluetoothType \<Rightarrow> me_ble env)"

definition thp_link :: "'s manager_env \<Rightarrow> DeviceInfo \<Rightarrow> 's \<Rightarrow> bool" where
  "thp_link env device s \<longleftrightarrow> inf_transport_type device = BluetoothType \<or> dr_has_thp (me_usb env) (inf_path device) s"

lemma at_io_frame: "at_io f w = Some (r, w') \<Longrightarrow> mg_store w' = mg_store w \<and> mg_system w' = mg_system w"
  by (auto simp: at_io_def split: option.splits)

lemma at_store_io: "at_store f w = Some (r, w') \<Longrightarrow> mg_io w' = mg_io w"
  by (auto simp: at_store_def split: option.splits)

lemma load_stored_frame [simp]: "mg_store (load_stored dr p w) = mg_store w" "mg_system (load_stored dr p w) = mg_system w"
  by (simp_all add: load_stored_def split: option.split)

lemma logged_Some: "logged d m = Some (r, w) \<Longrightarrow> \<exists>r'. m = Some (r', w)"
  by (cases "(d, m)" rule: logged.cases) auto

lemma logged_no_error: "logged d m \<noteq> Some (Inl (Err e), w)"
  by (cases "(d, m)" rule: logged.cases) auto

lemma save_stored_io: "save_stored env dr p w = Some (r, w') \<Longrightarrow> mg_io w' = mg_io w"
  by (auto simp: save_stored_def dest!: logged_Some at_store_io split: option.splits)

text \<open>A connection is a session of the driver, after which the credentials of a link that speaks the
  encrypted protocol are saved.\<close>

lemma manager_connect_steps:
  assumes "manager_connect env tz device w = Some (Inr d, w')"
  shows "\<exists>session wa r. mg_store wa = mg_store w \<and> mg_system wa = mg_system w
    \<and> d = connected_device tz device (driver_of env device) session (thp_link env device (mg_io w'))
    \<and> mg_io wa = mg_io w'
    \<and> (if thp_link env device (mg_io w') then save_stored env (driver_of env device) (inf_path device) wa = Some (r, w')
       else w' = wa)"
proof (cases "inf_transport_type device")
  case UsbType
  then obtain session wa where a:
      "at_io (t_acquire (dr_transport (me_usb env)) (inf_path device) None) (load_stored (me_usb env) (inf_path device) w) = Some (Inr session, wa)"
      "(if dr_has_thp (me_usb env) (inf_path device) (mg_io wa) then save_stored env (me_usb env) (inf_path device) wa
        else Some (Inr (), wa)) = Some (Inr (), w')"
      "d = connected_device tz device (me_usb env) session (dr_has_thp (me_usb env) (inf_path device) (mg_io wa))"
    using assms by (auto simp: manager_connect_def manager_connect_usb_def bind_op_Inr Let_def split: if_splits)
  moreover have "mg_io wa = mg_io w'" using a(2) save_stored_io by (fastforce split: if_splits)
  ultimately show ?thesis
    using UsbType at_io_frame [OF a(1)] by (auto simp: driver_of_def thp_link_def split: if_splits)
next
  case BluetoothType
  then obtain w0 session wa where a:
      "at_io (dr_open (me_ble env) (inf_path device)) w = Some (Inr (), w0)"
      "at_io (t_acquire (dr_transport (me_ble env)) (inf_path device) None) (load_stored (me_ble env) (inf_path device) w0) = Some (Inr session, wa)"
      "save_stored env (me_ble env) (inf_path device) wa = Some (Inr (), w')"
      "d = connected_device tz device (me_ble env) session True"
    using assms by (auto simp: manager_connect_def manager_connect_bluetooth_def bind_op_Inr Let_def split: if_splits)
  then show ?thesis
    using BluetoothType at_io_frame [OF a(1)] at_io_frame [OF a(2)] save_stored_io [OF a(3)]
    by (auto simp: driver_of_def thp_link_def)
qed

lemma connected_device_transport [simp]:
  "cd_transport (connected_device tz device dr session thp) = transport_wrapper dr"
  "cd_session (connected_device tz device dr session thp) = session"
  "cd_uses_thp (connected_device tz device dr session thp) = thp"
  "cd_info (connected_device tz device dr session thp) = device"
  by (simp_all add: connected_device_def connected_new_def set_uses_thp_def set_ui_callback_def Let_def split: option.split)

section \<open>A sample manager\<close>

text \<open>A Bluetooth driver whose state is the credential it holds: pairing, at the first session, gives one.\<close>

definition mgr_creds :: ThpCredentials where
  "mgr_creds = \<lparr>cr_host_static_key = ''aa'', cr_trezor_static_public_key = ''bb'', cr_credential = ''cc'', cr_autoconnect = True\<rparr>"

definition mgr_driver :: "ThpCredentials option driver" where
  "mgr_driver =
     \<lparr>dr_new = \<lambda>s. Some (Inr (), s), dr_set_app_identity = \<lambda>a b s. s, dr_set_pairing_callback = \<lambda>cb s. s,
      dr_init = \<lambda>s. Some (Inr (), s), dr_enumerate = \<lambda>s. Some (Inr [], s), dr_start_scan = \<lambda>s. Some (Inr (), s),
      dr_stop_scan = \<lambda>s. Some (Inr (), s), dr_open = \<lambda>p s. Some (Inr (), s),
      dr_add_device_credentials = \<lambda>p c s. Some c, dr_get_device_credentials = \<lambda>p s. s, dr_has_thp = \<lambda>p s. True,
      dr_transport = \<lparr>t_call = \<lambda>session t b s. Some (device_err NotConnected, s),
        t_create_session = \<lambda>session p b s. Some (device_err NotConnected, s),
        t_acquire = \<lambda>p prev s. Some (Inr ''1'', Some (case s of Some c \<Rightarrow> c | None \<Rightarrow> mgr_creds)),
        t_release = \<lambda>session s. Some (Inr (), s)\<rparr>\<rparr>"

definition mgr_env :: "ThpCredentials option manager_env" where
  "mgr_env = \<lparr>me_usb = mgr_driver, me_ble = mgr_driver, me_os = run_os {}, me_json = run_json,
     me_now = \<lambda>s. Some 7, me_sleep = \<lambda>n s. s\<rparr>"

definition mgr_trezor :: "ThpCredentials option Trezor" where
  "mgr_trezor = \<lparr>tz_usb = False, tz_ble = True, tz_ui_callback = None, tz_scan_duration = 3000\<rparr>"

definition mgr_state :: "ThpCredentials option manager_state" where
  "mgr_state = \<lparr>mg_store = Some (run_store ''/c/creds.json''), mg_system = run_system, mg_io = None\<rparr>"

lemma mgr_connects:
  "\<exists>d sys. manager_connect mgr_env mgr_trezor (new_bluetooth ''dev'' None) mgr_state = Some (Inr d,
     \<lparr>mg_store = Some ((dirty_store ''/c/creds.json'')\<lparr>st_dirty := False\<rparr>), mg_system = sys, mg_io = Some mgr_creds\<rparr>)"
proof -
  obtain sys where s: "save (run_os {}) run_json (dirty_store ''/c/creds.json'', run_system)
      = Some (Inr (), (dirty_store ''/c/creds.json'')\<lparr>st_dirty := False\<rparr>, sys)" using run_saves by blast
  have e: "entry_of_credentials (Some 7) ''dev'' mgr_creds = run_credential"
    by (simp add: entry_of_credentials_def mgr_creds_def run_credential_def)
  have "store (run_os {}) run_json run_credential (run_store ''/c/creds.json'', run_system)
      = Some (Inr (), (dirty_store ''/c/creds.json'')\<lparr>st_dirty := False\<rparr>, sys)"
    by (simp add: store_def run_store_dirty s)
  moreover have "store_get ''dev'' (run_store ''/c/creds.json'') = None"
    by (simp add: store_get_def run_store_def credential_file_new_def)
  ultimately show ?thesis
    by (simp add: manager_connect_def manager_connect_bluetooth_def new_bluetooth_def mgr_env_def mgr_driver_def mgr_trezor_def
        mgr_state_def at_io_def at_store_def load_stored_def save_stored_def e Let_def)
qed

section \<open>Properties\<close>

text \<open>
  C22: once a device has been connected over the encrypted protocol and its
  credential saved, a manager built again on the same file hands exactly that credential to the
  driver before it connects to the device, and still has those of the other devices. What the file
  prints must parse back and the file must be readable.
\<close>

theorem manager_reconnects:
  assumes codec: "\<And>f t. js_pretty (me_json env) f = Inr t \<Longrightarrow> js_parse (me_json env) t = Inr f"
    and fs: "with_extension_tmp p \<noteq> p" "os_fault (me_os env) (ReadFile p) (mg_system w') = None"
    and run: "manager_connect env tz device w = Some (Inr d, w')"
    and st: "mg_store w = Some st" "st_backend st = FileBackend p"
    and thp: "thp_link env device (mg_io w')"
    and cred: "dr_get_device_credentials (driver_of env device) (inf_path device) (mg_io w') = Some c"
    and saved: "mg_store w' = Some st'" "\<not> st_dirty st'"
  shows "\<exists>st2. build_store env (FileConfig p) (mg_system w') = Inr (Some st2)
    \<and> (\<forall>w2. mg_store w2 = Some st2 \<longrightarrow> load_stored (driver_of env device) (inf_path device) w2
         = w2\<lparr>mg_io := dr_add_device_credentials (driver_of env device) (inf_path device) (c\<lparr>cr_autoconnect := False\<rparr>) (mg_io w2)\<rparr>)
    \<and> (\<forall>q. q \<noteq> inf_path device \<longrightarrow> store_get q st2 = store_get q st)"
proof -
  obtain wa r where a: "mg_store wa = Some st" "mg_io wa = mg_io w'"
      "save_stored env (driver_of env device) (inf_path device) wa = Some (r, w')"
    using manager_connect_steps [OF run] st(1) thp by auto
  define e where "e = entry_of_credentials (me_now env (mg_io w')) (inf_path device) c"
  have save: "logged () (at_store (store (me_os env) (me_json env) e) wa) = Some (r, w')"
    using a(3) cred by (simp add: save_stored_def a(2) e_def)
  obtain r' where on: "at_store (store (me_os env) (me_json env) e) wa = Some (r', w')"
    using logged_Some [OF save] ..
  then have stored: "store (me_os env) (me_json env) e (st, mg_system wa) = Some (r', st', mg_system w')"
    using a(1) saved(1) by (auto simp: at_store_def split: option.splits)
  have "r' = Inr ()"
    using save_saved [OF _ fs(1) stored [unfolded store_def prod.case]] st(2) saved(2) by (cases r') auto
  with stored have ok: "store (me_os env) (me_json env) e (st, mg_system wa) = Some (Inr (), st', mg_system w')" by simp
  have id: "se_device_id e = inf_path device" "credentials_of_entry e = c\<lparr>cr_autoconnect := False\<rparr>"
    by (simp_all add: e_def entry_of_credentials_def credential_new_def credentials_of_entry_def)
  have read: "\<exists>st2. store_new (me_os env) (me_json env) p (mg_system w') = Inr st2
      \<and> store_get q st2 = (if q = inf_path device then Some e else store_get q st)" for q
    using credential_roundtrip [where d = q, OF codec st(2) fs(1) ok fs(2)] unfolding id(1) .
  then obtain st2 where st2: "store_new (me_os env) (me_json env) p (mg_system w') = Inr st2" by blast
  with read have "store_get q st2 = (if q = inf_path device then Some e else store_get q st)" for q
    by (metis sum.inject(2))
  with st2 show ?thesis
    by (intro exI [of _ st2]) (simp add: build_store_def load_stored_def id(2))
qed

theorem manager_reconnects_witness:
  "\<exists>d w' st2. manager_connect mgr_env mgr_trezor (new_bluetooth ''dev'' None) mgr_state = Some (Inr d, w')
     \<and> build_store mgr_env (FileConfig ''/c/creds.json'') (mg_system w') = Inr (Some st2)
     \<and> load_stored mgr_driver ''dev'' \<lparr>mg_store = Some st2, mg_system = mg_system w', mg_io = None\<rparr>
         = \<lparr>mg_store = Some st2, mg_system = mg_system w', mg_io = Some (mgr_creds\<lparr>cr_autoconnect := False\<rparr>)\<rparr>"
proof -
  let ?dev = "new_bluetooth ''dev'' None"
  obtain d sys where d: "manager_connect mgr_env mgr_trezor ?dev mgr_state = Some (Inr d,
     \<lparr>mg_store = Some ((dirty_store ''/c/creds.json'')\<lparr>st_dirty := False\<rparr>), mg_system = sys, mg_io = Some mgr_creds\<rparr>)"
    using mgr_connects by blast
  have drv: "driver_of mgr_env ?dev = mgr_driver" "inf_path ?dev = ''dev''"
    by (simp_all add: driver_of_def new_bluetooth_def mgr_env_def)
  have thp: "thp_link mgr_env ?dev s" for s by (simp add: thp_link_def new_bluetooth_def)
  have tmp: "with_extension_tmp ''/c/creds.json'' \<noteq> ''/c/creds.json''" by (simp add: run_paths)
  have "\<exists>st2. build_store mgr_env (FileConfig ''/c/creds.json'') sys = Inr (Some st2)
    \<and> (\<forall>w2. mg_store w2 = Some st2 \<longrightarrow> load_stored mgr_driver ''dev'' w2
         = w2\<lparr>mg_io := dr_add_device_credentials mgr_driver ''dev'' (mgr_creds\<lparr>cr_autoconnect := False\<rparr>) (mg_io w2)\<rparr>)"
    using manager_reconnects [OF _ tmp _ d, where st = "run_store ''/c/creds.json''" and c = mgr_creds] thp run_json_codec
    unfolding drv by (auto simp: mgr_env_def run_os_def mgr_state_def run_store_def mgr_driver_def dirty_store_def)
  then obtain st2 where "build_store mgr_env (FileConfig ''/c/creds.json'') sys = Inr (Some st2)"
    "load_stored mgr_driver ''dev'' \<lparr>mg_store = Some st2, mg_system = sys, mg_io = None\<rparr>
       = \<lparr>mg_store = Some st2, mg_system = sys, mg_io = dr_add_device_credentials mgr_driver ''dev'' (mgr_creds\<lparr>cr_autoconnect := False\<rparr>) None\<rparr>"
    by auto
  then show ?thesis using d by (fastforce simp: mgr_driver_def)
qed

text \<open>
  A connection that fails with an error leaves the credential store and its file as they were.
\<close>

lemma bind_op_Inl:
  "bind_op m k = Some (Inl e, s) \<longleftrightarrow> m = Some (Inl e, s) \<or> (\<exists>a s'. m = Some (Inr a, s') \<and> k a s' = Some (Inl e, s))"
  by (cases "(m, k)" rule: bind_op.cases) auto

lemma save_stored_no_error: "save_stored env dr q w \<noteq> Some (Inl (Err e), w')"
  by (simp add: save_stored_def logged_no_error split: option.split)

lemma manager_connect_failed:
  assumes "manager_connect env tz device w = Some (Inl (Err e), w')"
  shows "mg_store w' = mg_store w \<and> mg_system w' = mg_system w"
  using assms
  by (auto simp: manager_connect_def manager_connect_usb_def manager_connect_bluetooth_def bind_op_Inl save_stored_no_error Let_def
      dest!: at_io_frame split: TransportType.splits if_splits)



text \<open>
  Listing devices never fails with an error, whatever the drivers do. But
  when the Bluetooth driver was created and cannot start its scan, for want of an adapter for
  instance, the whole scan fails with its error, and the USB devices are not reported.
\<close>

theorem scan_needs_bluetooth:
  shows "manager_devices env tz s \<noteq> Some (Inl (Err e), s')
    \<and> (tz_ble tz \<and> dr_start_scan (me_ble env) s = Some (Inl (Err e), s') \<longrightarrow> scan env tz s = Some (Inl (Err e), s'))"
  by (auto simp: manager_devices_def enumerated_def scan_def bind_op_Inl logged_no_error split: if_splits)

end
