(* ===== verification/Spec2Isabelle.thy ===== *)
theory Spec2Isabelle
  imports Precompose Session_State Credential_Store Bridge_Properties Message_Types Client_Properties
    Manager_Properties
begin

text \<open>
  Coconut Wallet's hardware-wallet library, verified.

  \<^bold>\<open>The program.\<close> Coconut Wallet is a Flutter application; its Rust part
  (\<^verbatim>\<open>src/rust/trezor-connect-rs\<close>, with the UniFFI bridge \<^verbatim>\<open>src/rust/trezor-bridge\<close> that the
  mobile application calls) composes Bitcoin transactions and talks to Trezor devices. Four parts
  carry its logic:

  \<^item> the composer: \<^verbatim>\<open>api/compose.rs\<close> turns an account, its coins and a payment request into
    one transaction per fee level. It calls \<^verbatim>\<open>compose_tx\<close>, which infers script types, asks
    \<^verbatim>\<open>try_confirmed\<close> for coins (which runs \<^verbatim>\<open>coinselect\<close>: branch and bound, then
    accumulation, or \<^verbatim>\<open>split\<close> for send-max, all settled by \<^verbatim>\<open>finalize\<close>), and orders the
    result with \<^verbatim>\<open>sort_transaction\<close>;
  \<^item> the device link: a transport writes and reads fixed-size chunks; protocol v1 frames
    messages in clear; THP, the encrypted protocol, keeps a channel with alternating bits and
    nonces, frames messages with a checksum and encrypts them;
  \<^item> the device session: \<^verbatim>\<open>connected_device.rs\<close> asks a device for addresses, keys and signatures
    over a transport, answering its requests for buttons, PIN and passphrase. A transaction to sign,
    given directly or as a PSBT, is validated first, streamed to the device piece by piece on its
    requests, and what comes back is compared with what was asked;
  \<^item> the bridge: global tables of callbacks, sessions, pairing credentials and previous
    transactions, and the functions that connect a device, use its session and end it. Desktop
    programs use the device manager of \<^verbatim>\<open>trezor.rs\<close> in its place, or the older low-level client
    of \<^verbatim>\<open>device/trezor.rs\<close> over a transport of their own.

  \<^bold>\<open>How it is modelled.\<close> A Rust struct is a record, an enum a datatype, a machine integer a word of
  its width whose arithmetic wraps as the release profile does, a \<^verbatim>\<open>Result\<close> a sum with the error
  on the left, where a panic is the value \<open>Panic\<close>; \<^verbatim>\<open>f64\<close> is modelled by rationals with
  round-to-nearest-even, infinities and NaN. Code of other crates is an argument: the record
  \<open>externals\<close> (hex, hashing, randomness) of the composer, the record \<open>primitives\<close> (SHA, HMAC,
  AES-GCM, X25519) of THP, a hex codec, and the \<open>device\<close> whose answers may depend on everything
  written and read so far. What a theorem needs of them is a named hypothesis, and its witness
  instantiates it.

  \<^bold>\<open>Theories, in the order of the code.\<close>

  \<^item> \<open>Prelude\<close>: word types, results and their sequencing, big-endian bytes, decimal strings.
    \<open>F64\<close>: binary64 arithmetic. \<open>Errors\<close>: the error enums (\<^verbatim>\<open>error.rs\<close>).
    \<open>Bitcoin_Types\<close>: \<^verbatim>\<open>types/bitcoin.rs\<close>, \<^verbatim>\<open>types/network.rs\<close>.
  \<^item> \<open>Weight\<close> (\<^verbatim>\<open>compose/weight.rs\<close>, \<^verbatim>\<open>dust.rs\<close>): weights, fees, dust; fees are monotone in the
    weight, through rounding and saturation.
  \<^item> \<open>Stable_Sort\<close>: the standard library's stable sort, as the locale \<open>comparator\<close> of what a
    comparison must satisfy; interpreted for effective values, scores and the two BIP-69 orders.
  \<^item> \<open>Finalize\<close> (\<^verbatim>\<open>coinselect/finalize.rs\<close>): the change decision. It conserves value, pays at
    least the required fee, never makes dust, and refuses exactly when funds do not suffice.
  \<^item> \<open>Select_Algs\<close> (\<^verbatim>\<open>split.rs\<close>, \<^verbatim>\<open>accumulative.rs\<close>) and \<open>Bnb\<close> (\<^verbatim>\<open>bnb.rs\<close>): the selection
    algorithms. The search is correct and complete within its budget of tries.
  \<^item> \<open>Coin_Select\<close> (\<^verbatim>\<open>coinselect/mod.rs\<close>, \<^verbatim>\<open>tryconfirmed.rs\<close>): dispatch and the trials from
    strict to lax confirmation requirements. The locale \<open>selector\<close> states what a selection
    algorithm promises; it is interpreted on \<open>coinselect\<close>.
  \<^item> \<open>Tx_Sorting\<close> (\<^verbatim>\<open>compose/sorting.rs\<close>): addresses to scripts, bit regrouping, base 58, and the
    orderings, which only permute.
  \<^item> \<open>Compose\<close> (\<^verbatim>\<open>compose/mod.rs\<close>): the whole of \<^verbatim>\<open>compose_tx\<close>. It never panics, conserves
    value, pays what was asked and a sufficient fee, and fails in exactly the listed cases.
  \<^item> \<open>Path\<close> (\<^verbatim>\<open>types/path.rs\<close>), \<open>Sign_Params\<close> (\<^verbatim>\<open>params.rs\<close>), \<open>Precompose\<close>
    (\<^verbatim>\<open>api/compose.rs\<close>): derivation paths, signing parameters, and the composer's interface.
  \<^item> \<open>Chunk\<close> (\<^verbatim>\<open>protocol/chunk.rs\<close>): splitting and reassembly, which are inverse.
    \<open>Protocol_V1\<close> (\<^verbatim>\<open>protocol/mod.rs\<close>, \<^verbatim>\<open>protocol/v1\<close>): framing; the Rust trait is the locale
    \<open>protocol\<close>, interpreted for USB and Bluetooth. \<open>Transport_V1\<close>: reading a reply
    (\<^verbatim>\<open>transport/callback.rs\<close>), against a sequence of reads.
  \<^item> \<open>Thp_State\<close> (\<^verbatim>\<open>protocol/thp/state.rs\<close>): the channel as a record, its methods as functions
    and as the step relation \<open>thp_step\<close>, with invariants by rule induction. \<open>Thp_Crypto\<close>
    (\<^verbatim>\<open>crypto.rs\<close>): key derivation, Elligator, modular powers, and CRC-32, shown equal to its
    bit-wise definition. \<open>Thp_Frame\<close> (\<^verbatim>\<open>mod.rs\<close>, \<^verbatim>\<open>encode.rs\<close>, \<^verbatim>\<open>decode.rs\<close>): frames, their
    round trip and their checks.
  \<^item> \<open>Transport_Thp\<close> (\<^verbatim>\<open>transport/callback.rs\<close>): writing and reading frames, one encrypted
    exchange, and the theorem that it delivers the device's reply.

  \<^item> \<open>Thp_Handshake\<close> (\<^verbatim>\<open>handshake.rs\<close>): the host side of the Noise XX handshake; with a responder
    that follows the protocol both sides derive the same keys. \<open>Thp_Pairing\<close> (\<^verbatim>\<open>pairing.rs\<close>):
    CPace and the tag checks of pairing. \<open>Pairing_Messages\<close> (\<^verbatim>\<open>pairing_messages.rs\<close>): the
    hand-written protobuf codecs, their round trips, and an input on which a decoder loops.
  \<^item> \<open>Error_Text\<close> (\<^verbatim>\<open>error.rs\<close>): the error messages, by which the transport decides on retries.
  \<^item> \<open>Callback_Pairing\<close>, \<open>Callback_Handshake\<close> (\<^verbatim>\<open>transport/callback.rs\<close>): the pairing dialogue and
    the handshake with its retries, over a native layer and a device that may answer anything; a
    small partial-correctness logic (\<open>ends\<close>) carries the invariants. \<open>Handshake_Run\<close>: what a
    successful handshake guarantees, and scripted runs.
  \<^item> \<open>Session_Manager\<close> (\<^verbatim>\<open>transport/session.rs\<close>): the session table, with the locale
    \<open>session_provider\<close> of what a transport relies on. \<open>Callback_Transport\<close>: the whole transport
    as operations and as the step relation \<open>transport_step\<close>; its invariant, what a granted
    session gives, and that unpaired calls are refused. \<open>V1_Calls\<close>: its reader equals the
    reference of \<open>Transport_V1\<close>, and a protocol v1 call delivers the reply. \<open>Session_State\<close> (\<^verbatim>\<open>session_state.rs\<close>):
    static session ids, by which a wrong passphrase is noticed.

  \<^item> \<open>Effects\<close>: operations on a state that may fail or not return, their sequencing, and \<open>ends\<close>.
    \<open>Bitcoin_Utils\<close> (\<^verbatim>\<open>bitcoin_utils.rs\<close>, \<^verbatim>\<open>tx_verify.rs\<close>): scripts, extended keys, ids of previous
    transactions, and the check of a signed transaction, which accepts exactly those with the
    requested outputs. \<open>Device_Info\<close> (\<^verbatim>\<open>device/features.rs\<close>, \<^verbatim>\<open>device_info.rs\<close>), \<open>Device_Messages\<close>
    (\<^verbatim>\<open>responses.rs\<close> and the fields of the protobuf messages the code reads or writes).
  \<^item> \<open>Connected_Device\<close> (\<^verbatim>\<open>connected_device.rs\<close>): the dialogue loop, which ends after at most 64
    messages, and the calls made with it; an address shown on the device is the one returned. The
    locale \<open>call_contract\<close>, extended by \<open>transport_contract\<close>, is what a device session relies on in
    a transport.
    \<open>Sign_Transaction\<close>: validation, the answers to every kind of request, the signing loop, the
    final check. \<open>Sign_Verified\<close>: whatever the device does, a reported transaction has the requested
    outputs; only valid requests reach a device; a dialogue the host can answer completes.
  \<^item> \<open>Wallet_Session\<close>: the signing dialogue over the callback transport (the locale interpreted on
    it): nothing is signed over an unpaired THP link, and signing keeps the transport's invariant.
    \<open>Psbt\<close> (\<^verbatim>\<open>psbt.rs\<close>): from a PSBT to a request and back; the signed transaction pays what the
    PSBT says.
  \<^item> \<open>Credential_Store\<close> (\<^verbatim>\<open>credential_store.rs\<close>): credentials in a file or the keychain. The file
    system is a map of files with modes, its calls may fail at any point, and a save that fails
    leaves the credential file as it was.
  \<^item> \<open>Bridge_Adapter\<close>, \<open>Bridge\<close> (\<^verbatim>\<open>trezor-bridge/src/lib.rs\<close>): the native callbacks as the layer
    below the callback transport, and every function the application calls, as steps on the record
    \<open>bridge\<close>. The locale \<open>call_contract\<close> is interpreted on its transport. \<open>Bridge_Properties\<close>: sessions
    stay usable and encrypted, a signed PSBT is the one handed in, a stored previous transaction
    outlives its use. \<open>Bridge_Runs\<close>: a Bluetooth and a USB device are connected, and the latter signs.
  \<^item> \<open>Client\<close> (\<^verbatim>\<open>device/trezor.rs\<close>, \<^verbatim>\<open>api/sign_tx.rs\<close>): the older client, over any transport.
    \<open>Client_Properties\<close>: on the same link its calls agree with those of \<open>Connected_Device\<close>
    (\<open>outcomes_agree\<close>, up to one error text), its signing is a run of \<open>sign_loop\<close> without the
    checks, and without a session it touches nothing. \<open>Message_Types\<close>: \<^verbatim>\<open>device/commands.rs\<close>.
  \<^item> \<open>Manager\<close> (\<^verbatim>\<open>trezor.rs\<close>): the builder, discovery and connecting, with the credential store of
    \<open>Credential_Store\<close>; the record \<open>driver\<close> is what it calls in the USB and Bluetooth transports.
    \<open>Manager_Properties\<close>: a saved credential is used again after a restart, a failed connection
    changes none, and the request for a passphrase session has no effect.

  \<^bold>\<open>Loops and bounds.\<close> Recursions that follow the data are total. Loops that may run for ever (splitting
  with no room for payload, reading continuation packets from a device that only acknowledges,
  answering a device that never ends a signing dialogue) are
  partial functions with value \<open>None\<close> then, and are shown to return under the stated conditions.
  Retry counts (20, 50, 64, 300, one million tries) are the source's. Word sums that the code does not
  check are left unchecked: statements about amounts hold modulo \<^verbatim>\<open>2^64\<close> or name the no-wrap
  condition.

  \<^bold>\<open>Not modelled.\<close> The desktop drivers (\<^verbatim>\<open>transport/usb.rs\<close>, \<^verbatim>\<open>transport/bluetooth.rs\<close>), of which
  the bridge's build leaves the first out and never calls the second, and whose THP code repeats
  that of the callback transport; the encoding of protobuf messages, which is generated; the JSON
  texts the bridge returns, which are records here; and the Dart application.
\<close>

end
